(* ===== verification/Prelude.thy ===== *)
theory Prelude
  imports Main "HOL-Library.Word" "HOL-Library.AList" "HOL-Library.Multiset"
begin

text \<open>
  The prelude of the development: the machine types of the Rust sources, the operations
  of the standard library the sources use on them, and the lemmas on association lists
  and words that the component theories share.

  Conventions used by every theory.
  \<^item> \<open>u8\<close>, \<open>u32\<close>, \<open>u64\<close> are words; \<open>+\<close>, \<open>-\<close>, \<open>*\<close> wrap, as in a release build.
  \<^item> \<open>usize\<close> counters are natural numbers and every operation on them writes out what
    happens at the width of the type (\<open>usize_add\<close> wraps, \<open>usize_sat_add\<close> saturates, and
    \<open>saturating_sub\<close> is the truncating subtraction of \<open>nat\<close>).
  \<^item> \<open>Duration\<close> and \<open>Instant\<close> are numbers of nanoseconds; an \<open>Instant\<close> is counted from
    the start of the process clock. Every \<open>Instant::now()\<close> of the source is an argument
    of the definition that calls it.
  \<^item> \<open>Result<T, E>\<close> is \<open>'e + 't\<close> with \<open>Inl\<close> the error.
  \<^item> A \<open>HashMap\<close> that the code iterates over is an association list with distinct keys
    (its order is the iteration order, about which nothing is assumed); one that is only
    read and written by key is a partial function.
\<close>

section \<open>Machine types\<close>

type_synonym u8 = "8 word"
type_synonym u16 = "16 word"
type_synonym u32 = "32 word"
type_synonym u64 = "64 word"
type_synonym usize = nat
type_synonym instant = nat
type_synonym duration = nat

named_theorems rust_simps \<open>unfolding of the standard library operations\<close>

definition USIZE_MAX :: nat where
  "USIZE_MAX = 2 ^ 64 - 1"

definition U64_MAX :: nat where
  "U64_MAX = 2 ^ 64 - 1"

definition usize_add :: "usize \<Rightarrow> usize \<Rightarrow> usize" where
  "usize_add a b = (a + b) mod 2 ^ 64"

definition usize_sat_add :: "usize \<Rightarrow> usize \<Rightarrow> usize" where
  "usize_sat_add a b = min (a + b) USIZE_MAX"

definition sat_sub :: "'a::len word \<Rightarrow> 'a word \<Rightarrow> 'a word" where
  "sat_sub a b = (if a < b then 0 else a - b)"

definition secs :: "nat \<Rightarrow> duration" where
  "secs n = n * 1000000000"

definition as_secs :: "duration \<Rightarrow> nat" where
  "as_secs d = d div 1000000000"

lemma usize_add_small [rust_simps]: "a + b \<le> USIZE_MAX \<Longrightarrow> usize_add a b = a + b"
  by (simp add: usize_add_def USIZE_MAX_def)

lemma usize_sat_add_small [rust_simps]: "a + b \<le> USIZE_MAX \<Longrightarrow> usize_sat_add a b = a + b"
  by (simp add: usize_sat_add_def)

lemma usize_add_le: "usize_add a b \<le> USIZE_MAX"
proof -
  have "(a + b) mod 2 ^ 64 < (2 :: nat) ^ 64" by (rule mod_less_divisor) simp
  then show ?thesis by (simp add: usize_add_def USIZE_MAX_def)
qed

lemma usize_sat_add_le: "usize_sat_add a b \<le> USIZE_MAX"
  by (simp add: usize_sat_add_def)

lemma as_secs_secs [simp]: "as_secs (secs n) = n"
  by (simp add: as_secs_def secs_def)

lemma as_secs_mono: "a \<le> b \<Longrightarrow> as_secs a \<le> as_secs b"
  by (simp add: as_secs_def div_le_mono)

lemma unat_sat_sub: "unat (sat_sub a b) = unat a - unat b"
  by (simp add: sat_sub_def unat_sub_if' word_less_nat_alt)

lemma unat_max_word: "unat (max a b) = max (unat a) (unat b)"
  by (simp add: max_def word_le_nat_alt)

lemma unat_add_small: "unat a + unat b < 2 ^ LENGTH('a) \<Longrightarrow> unat (a + b) = unat a + unat (b :: 'a::len word)"
  by (simp add: unat_word_ariths(1))

lemma unat_mult_small: "unat a * unat b < 2 ^ LENGTH('a) \<Longrightarrow> unat (a * b) = unat a * unat (b :: 'a::len word)"
  by (simp add: unat_word_ariths(2))

lemma unat_less_u64: "unat (w :: u64) < 18446744073709551616"
  using unsigned_less [of w, where ?'a = nat] by simp

section \<open>Little-endian bytes\<close>

fun le_bytes :: "nat \<Rightarrow> nat \<Rightarrow> u8 list" where
  "le_bytes 0 n = []"
| "le_bytes (Suc k) n = word_of_nat (n mod 256) # le_bytes k (n div 256)"

fun le_value :: "u8 list \<Rightarrow> nat" where
  "le_value [] = 0"
| "le_value (b # bs) = unat b + 256 * le_value bs"

lemma length_le_bytes [simp]: "length (le_bytes k n) = k"
  by (induction k arbitrary: n) auto

lemma le_value_le_bytes: "le_value (le_bytes k n) = n mod 256 ^ k"
proof (induction k arbitrary: n)
  case (Suc k)
  have "unat (word_of_nat (n mod 256) :: u8) = n mod 256" by (simp add: unat_of_nat)
  with Suc show ?case by (simp add: mod_mult2_eq)
qed simp

lemma le_value_u64: "word_of_nat (le_value (le_bytes 8 (unat n))) = (n :: u64)"
proof -
  have "unat n < 256 ^ 8" using unat_less_u64 [of n] by simp
  then show ?thesis by (simp add: le_value_le_bytes)
qed

section \<open>Results\<close>

fun is_ok :: "'e + 'a \<Rightarrow> bool" where
  "is_ok (Inl e) = False"
| "is_ok (Inr v) = True"

text \<open>The \<open>?\<close> operator: the error returns early.\<close>

definition bind_res :: "'e + 'a \<Rightarrow> ('a \<Rightarrow> 'e + 'b) \<Rightarrow> 'e + 'b" where
  "bind_res r f = (case r of Inl e \<Rightarrow> Inl e | Inr v \<Rightarrow> f v)"

definition map_res :: "('a \<Rightarrow> 'b) \<Rightarrow> 'e + 'a \<Rightarrow> 'e + 'b" where
  "map_res f r = (case r of Inl e \<Rightarrow> Inl e | Inr v \<Rightarrow> Inr (f v))"

definition ok_or :: "'a option \<Rightarrow> 'e \<Rightarrow> 'e + 'a" where
  "ok_or x e = (case x of None \<Rightarrow> Inl e | Some v \<Rightarrow> Inr v)"

definition unwrap_or :: "'a option \<Rightarrow> 'a \<Rightarrow> 'a" where
  "unwrap_or x d = (case x of None \<Rightarrow> d | Some v \<Rightarrow> v)"

definition or_opt :: "'a option \<Rightarrow> 'a option \<Rightarrow> 'a option" where
  "or_opt x y = (case x of None \<Rightarrow> y | Some v \<Rightarrow> Some v)"

lemma bind_res_simps [simp]: "bind_res (Inl e) f = Inl e" "bind_res (Inr v) f = f v"
  by (simp_all add: bind_res_def)

lemma map_res_simps [simp]: "map_res f (Inl e) = Inl e" "map_res f (Inr v) = Inr (f v)"
  by (simp_all add: map_res_def)

lemma ok_or_simps [simp]: "ok_or None e = Inl e" "ok_or (Some v) e = Inr v"
  by (simp_all add: ok_or_def)

lemma unwrap_or_simps [simp]: "unwrap_or None d = d" "unwrap_or (Some v) d = v"
  by (simp_all add: unwrap_or_def)

lemma or_opt_simps [simp]: "or_opt None y = y" "or_opt (Some v) y = Some v"
  by (simp_all add: or_opt_def)

lemma bind_res_Inr_iff: "bind_res r f = Inr w \<longleftrightarrow> (\<exists>v. r = Inr v \<and> f v = Inr w)"
  by (cases r) simp_all

lemma map_res_Inr_iff: "map_res f r = Inr w \<longleftrightarrow> (\<exists>v. r = Inr v \<and> w = f v)"
  by (cases r) auto

lemma ok_or_Inr_iff: "ok_or x e = Inr v \<longleftrightarrow> x = Some v"
  by (cases x) simp_all

lemma is_ok_iff: "is_ok r \<longleftrightarrow> (\<exists>v. r = Inr v)"
  by (cases r) simp_all

text \<open>\<open>Iterator::try_fold\<close>, and a loop whose body uses \<open>?\<close>.\<close>

fun try_fold :: "('acc \<Rightarrow> 'a \<Rightarrow> 'e + 'acc) \<Rightarrow> 'acc \<Rightarrow> 'a list \<Rightarrow> 'e + 'acc" where
  "try_fold f acc [] = Inr acc"
| "try_fold f acc (x # xs) = bind_res (f acc x) (\<lambda>acc'. try_fold f acc' xs)"

section \<open>Association lists\<close>

text \<open>
  The sum of a weight over the values of an association list. The counters the code keeps
  beside its tables (disconnected peers, banned peers, banned peers per address) are such
  sums, and the two lemmas below are all that their preservation proofs need.
\<close>

definition alist_sum :: "('v \<Rightarrow> nat) \<Rightarrow> ('k \<times> 'v) list \<Rightarrow> nat" where
  "alist_sum f al = sum_list (map (\<lambda>(k, v). f v) al)"

definition opt_weight :: "('v \<Rightarrow> nat) \<Rightarrow> 'v option \<Rightarrow> nat" where
  "opt_weight f x = (case x of None \<Rightarrow> 0 | Some v \<Rightarrow> f v)"

lemma opt_weight_simps [simp]: "opt_weight f None = 0" "opt_weight f (Some v) = f v"
  by (simp_all add: opt_weight_def)

lemma alist_sum_simps [simp]:
  "alist_sum f [] = 0" "alist_sum f ((k, v) # al) = f v + alist_sum f al"
  by (simp_all add: alist_sum_def)

lemma alist_sum_append [simp]: "alist_sum f (al @ bl) = alist_sum f al + alist_sum f bl"
  by (simp add: alist_sum_def)

lemma alist_sum_update:
  "alist_sum f (AList.update k v al) + opt_weight f (map_of al k) = alist_sum f al + f v"
  by (induction al) auto

lemma alist_sum_delete:
  "distinct (map fst al) \<Longrightarrow>
   alist_sum f (AList.delete k al) + opt_weight f (map_of al k) = alist_sum f al"
proof (induction al)
  case Nil
  then show ?case by simp
next
  case (Cons p al)
  obtain j w where p: "p = (j, w)" by (cases p)
  show ?case
  proof (cases "j = k")
    case True
    with Cons.prems p have "k \<notin> fst ` set al" by auto
    then have "AList.delete k al = al" by simp
    with True p show ?thesis by simp
  next
    case False
    with Cons p show ?thesis by simp
  qed
qed

lemma alist_sum_map_snd:
  "alist_sum f (map (\<lambda>(k, v). (k, g k v)) al) = sum_list (map (\<lambda>(k, v). f (g k v)) al)"
  by (induction al) auto

lemma alist_sum_ge: "map_of al k = Some v \<Longrightarrow> f v \<le> alist_sum f al"
  by (induction al) (auto split: if_splits)

lemma alist_sum_cong:
  "(\<And>k v. (k, v) \<in> set al \<Longrightarrow> f v = g v) \<Longrightarrow> alist_sum f al = alist_sum g al"
  by (induction al) (auto, metis add.commute)

lemma alist_sum_of_bool:
  "alist_sum (\<lambda>v. of_bool (P v)) al = length (filter (\<lambda>(k, v). P v) al)"
  by (induction al) auto

lemma distinct_fst_update [simp, intro]:
  "distinct (map fst al) \<Longrightarrow> distinct (map fst (AList.update k v al))"
  by (rule AList.distinct_update)

lemma distinct_fst_delete [simp, intro]:
  "distinct (map fst al) \<Longrightarrow> distinct (map fst (AList.delete k al))"
  by (rule AList.distinct_delete)

lemma map_of_alist_update [simp]: "map_of (AList.update k v al) = (map_of al)(k \<mapsto> v)"
  by (rule AList.update_conv')

lemma map_of_alist_delete [simp]: "map_of (AList.delete k al) = (map_of al)(k := None)"
  by (rule AList.delete_conv')

lemma map_of_map_values:
  "map_of (map (\<lambda>(k, v). (k, g k v)) al) k = map_option (g k) (map_of al k)"
  by (induction al) auto

lemma map_fst_map_values [simp]: "map fst (map (\<lambda>(k, v). (k, g k v)) al) = map fst al"
  by (induction al) auto

lemma length_delete:
  "distinct (map fst al) \<Longrightarrow> map_of al k \<noteq> None \<Longrightarrow> Suc (length (AList.delete k al)) = length al"
  using alist_sum_delete [of al "\<lambda>_. 1" k] by (auto simp: alist_sum_def split_def sum_list_triv)

lemma remove1_keys:
  assumes "distinct (map fst xs)" "(k, v) \<in> set xs"
  shows "set (map fst (remove1 (k, v) xs)) = set (map fst xs) - {k}"
    "distinct (map fst (remove1 (k, v) xs))"
proof -
  from assms(2) obtain ys zs where xs: "xs = ys @ (k, v) # zs" "(k, v) \<notin> set ys"
    using split_list_first by fast
  then have "remove1 (k, v) xs = ys @ zs" by (simp add: remove1_append)
  with xs assms(1) show "set (map fst (remove1 (k, v) xs)) = set (map fst xs) - {k}"
    "distinct (map fst (remove1 (k, v) xs))" by auto
qed

section \<open>Sequences of operations\<close>

text \<open>
  Running a list of operations, each of which may fail (panic); a failure stops the run.
\<close>

fun run_steps :: "('s \<Rightarrow> 'o \<Rightarrow> 's option) \<Rightarrow> 's \<Rightarrow> 'o list \<Rightarrow> 's option" where
  "run_steps step s [] = Some s"
| "run_steps step s (x # xs) = (case step s x of None \<Rightarrow> None | Some s' \<Rightarrow> run_steps step s' xs)"

lemma run_steps_append:
  "run_steps step s (xs @ ys) =
    (case run_steps step s xs of None \<Rightarrow> None | Some s' \<Rightarrow> run_steps step s' ys)"
  by (induction xs arbitrary: s) (auto split: option.splits)

lemma run_steps_invariant:
  assumes "\<And>s x. I s \<Longrightarrow> x \<in> set xs \<Longrightarrow> \<exists>s'. step s x = Some s' \<and> I s'" and "I s"
  shows "\<exists>s'. run_steps step s xs = Some s' \<and> I s'"
  using assms
proof (induction xs arbitrary: s)
  case Nil
  then show ?case by simp
next
  case (Cons x xs)
  then obtain s' where "step s x = Some s'" "I s'" by (metis list.set_intros(1))
  moreover from Cons have "\<exists>s''. run_steps step s' xs = Some s'' \<and> I s''"
    using \<open>I s'\<close> by (meson list.set_intros(2))
  ultimately show ?case by simp
qed

section \<open>Positions in a list\<close>

text \<open>\<open>Iterator::position\<close> and \<open>VecDeque::remove\<close>.\<close>

fun position :: "('a \<Rightarrow> bool) \<Rightarrow> 'a list \<Rightarrow> nat option" where
  "position P [] = None"
| "position P (x # xs) = (if P x then Some 0 else map_option Suc (position P xs))"

definition remove_at :: "nat \<Rightarrow> 'a list \<Rightarrow> ('a \<times> 'a list) option" where
  "remove_at i xs = (if i < length xs then Some (xs ! i, take i xs @ drop (Suc i) xs) else None)"

lemma position_None_iff [simp]: "position P xs = None \<longleftrightarrow> (\<forall>x \<in> set xs. \<not> P x)"
  by (induction xs) auto

lemma position_Some:
  "position P xs = Some i \<Longrightarrow> i < length xs \<and> P (xs ! i) \<and> (\<forall>j < i. \<not> P (xs ! j))"
proof (induction xs arbitrary: i)
  case Nil
  then show ?case by simp
next
  case (Cons x xs)
  then show ?case by (auto split: if_splits simp: nth_Cons split: nat.splits)
qed

lemma remove_at_Some: "i < length xs \<Longrightarrow> remove_at i xs = Some (xs ! i, take i xs @ drop (Suc i) xs)"
  by (simp add: remove_at_def)

section \<open>First minimum and last maximum\<close>

text \<open>
  \<open>Iterator::min_by_key\<close>: the first element with the least key, \<open>None\<close> for an empty
  iterator.
\<close>

fun min_by_key :: "('a \<Rightarrow> 'b::linorder) \<Rightarrow> 'a list \<Rightarrow> 'a option" where
  "min_by_key f [] = None"
| "min_by_key f (x # xs) =
     (case min_by_key f xs of
        None \<Rightarrow> Some x
      | Some y \<Rightarrow> if f y < f x then Some y else Some x)"

lemma min_by_key_None_iff [simp]: "min_by_key f xs = None \<longleftrightarrow> xs = []"
  by (cases xs) (auto split: option.splits)

lemma min_by_key_in: "min_by_key f xs = Some x \<Longrightarrow> x \<in> set xs"
  by (induction xs arbitrary: x) (auto split: option.splits if_splits)

lemma min_by_key_le: "min_by_key f xs = Some x \<Longrightarrow> y \<in> set xs \<Longrightarrow> f x \<le> f y"
proof (induction xs arbitrary: x y)
  case Nil
  then show ?case by simp
next
  case (Cons z zs)
  show ?case
  proof (cases "min_by_key f zs")
    case None
    with Cons.prems show ?thesis by simp
  next
    case (Some w)
    then have "\<And>v. v \<in> set zs \<Longrightarrow> f w \<le> f v" using Cons.IH by blast
    with Some Cons.prems show ?thesis by (force split: if_splits)
  qed
qed

end
