(* ===== verification/Safe_Arith.thy ===== *)
theory Safe_Arith
  imports Prelude "HOL-Library.Signed_Division"
begin

text \<open>
  The crate \<open>safe_arith\<close> (\<open>p2p_network/safe_arith/src/lib.rs\<close> and \<open>iter.rs\<close>): checked
  arithmetic on the built-in integer types. The macro \<open>impl_safe_arith\<close> is instantiated
  for ten types; a type is a value of \<open>int_ty\<close> here, a machine integer is an \<open>int\<close> in the
  range of its type, and the operations take the type as their first argument. Division
  and remainder truncate towards zero, as Rust's do.
\<close>

section \<open>Definitions\<close>

datatype ArithError = Overflow | DivisionByZero

datatype int_ty = U8 | U16 | U32 | U64 | Usize | I8 | I16 | I32 | I64 | Isize

fun bits :: "int_ty \<Rightarrow> nat" where
  "bits U8 = 8" | "bits U16 = 16" | "bits U32 = 32" | "bits U64 = 64" | "bits Usize = 64"
| "bits I8 = 8" | "bits I16 = 16" | "bits I32 = 32" | "bits I64 = 64" | "bits Isize = 64"

fun is_signed :: "int_ty \<Rightarrow> bool" where
  "is_signed I8 = True" | "is_signed I16 = True" | "is_signed I32 = True"
| "is_signed I64 = True" | "is_signed Isize = True" | "is_signed _ = False"

definition ty_min :: "int_ty \<Rightarrow> int" where
  "ty_min ty = (if is_signed ty then - (2 ^ (bits ty - 1)) else 0)"

definition ty_max :: "int_ty \<Rightarrow> int" where
  "ty_max ty = (if is_signed ty then 2 ^ (bits ty - 1) - 1 else 2 ^ bits ty - 1)"

definition in_ty :: "int_ty \<Rightarrow> int \<Rightarrow> bool" where
  "in_ty ty x \<longleftrightarrow> ty_min ty \<le> x \<and> x \<le> ty_max ty"

text \<open>The \<open>checked_*\<close> operations of the standard library.\<close>

definition checked :: "int_ty \<Rightarrow> int \<Rightarrow> int option" where
  "checked ty x = (if in_ty ty x then Some x else None)"

definition checked_div :: "int_ty \<Rightarrow> int \<Rightarrow> int \<Rightarrow> int option" where
  "checked_div ty a b = (if b = 0 then None else checked ty (a sdiv b))"

text \<open>\<open>checked_rem\<close> is \<open>None\<close> where the quotient overflows, as well as for a zero divisor.\<close>

definition checked_rem :: "int_ty \<Rightarrow> int \<Rightarrow> int \<Rightarrow> int option" where
  "checked_rem ty a b =
     (if b = 0 \<or> \<not> in_ty ty (a sdiv b) then None else Some (a smod b))"

text \<open>\<open>checked_shl\<close> and \<open>checked_shr\<close> only check the shift amount; bits shifted out are lost.\<close>

definition truncate_ty :: "int_ty \<Rightarrow> int \<Rightarrow> int" where
  "truncate_ty ty x =
     (if is_signed ty then signed_take_bit (bits ty - 1) x else take_bit (bits ty) x)"

definition checked_shl :: "int_ty \<Rightarrow> int \<Rightarrow> nat \<Rightarrow> int option" where
  "checked_shl ty a n = (if n < bits ty then Some (truncate_ty ty (push_bit n a)) else None)"

definition checked_shr :: "int_ty \<Rightarrow> int \<Rightarrow> nat \<Rightarrow> int option" where
  "checked_shr ty a n = (if n < bits ty then Some (drop_bit n a) else None)"

definition safe_add :: "int_ty \<Rightarrow> int \<Rightarrow> int \<Rightarrow> ArithError + int" where
  "safe_add ty a b = ok_or (checked ty (a + b)) Overflow"

definition safe_sub :: "int_ty \<Rightarrow> int \<Rightarrow> int \<Rightarrow> ArithError + int" where
  "safe_sub ty a b = ok_or (checked ty (a - b)) Overflow"

definition safe_mul :: "int_ty \<Rightarrow> int \<Rightarrow> int \<Rightarrow> ArithError + int" where
  "safe_mul ty a b = ok_or (checked ty (a * b)) Overflow"

definition safe_div :: "int_ty \<Rightarrow> int \<Rightarrow> int \<Rightarrow> ArithError + int" where
  "safe_div ty a b = ok_or (checked_div ty a b) DivisionByZero"

definition safe_rem :: "int_ty \<Rightarrow> int \<Rightarrow> int \<Rightarrow> ArithError + int" where
  "safe_rem ty a b = ok_or (checked_rem ty a b) DivisionByZero"

definition safe_shl :: "int_ty \<Rightarrow> int \<Rightarrow> nat \<Rightarrow> ArithError + int" where
  "safe_shl ty a n = ok_or (checked_shl ty a n) Overflow"

definition safe_shr :: "int_ty \<Rightarrow> int \<Rightarrow> nat \<Rightarrow> ArithError + int" where
  "safe_shr ty a n = ok_or (checked_shr ty a n) Overflow"

text \<open>
  \<open>assign_method!\<close>: \<open>*self = self.$op(other)?\<close>. The first component is the returned
  result, the second the value of \<open>self\<close> afterwards.
\<close>

definition assign_method :: "(int \<Rightarrow> 'b \<Rightarrow> ArithError + int) \<Rightarrow> int \<Rightarrow> 'b \<Rightarrow> (ArithError + unit) \<times> int" where
  "assign_method oper self other =
     (case oper self other of Inl e \<Rightarrow> (Inl e, self) | Inr v \<Rightarrow> (Inr (), v))"

text \<open>\<open>safe_sum\<close>: a \<open>try_fold\<close> from \<open>ZERO\<close>, which stops at the first error.\<close>

definition safe_sum :: "int_ty \<Rightarrow> int list \<Rightarrow> ArithError + int" where
  "safe_sum ty xs = try_fold (safe_add ty) 0 xs"

section \<open>Correctness\<close>

lemma in_ty_0: "in_ty ty 0"
  by (cases ty) (simp_all add: in_ty_def ty_min_def ty_max_def)

lemma ok_or_checked: "ok_or (checked ty x) e = (if in_ty ty x then Inr x else Inl e)"
  by (simp add: checked_def)

lemmas safe_ring_defs = safe_add_def safe_sub_def safe_mul_def

lemma safe_ring_result_in_ty:
  "safe_add ty a b = Inr c \<Longrightarrow> in_ty ty c"
  "safe_sub ty a b = Inr c \<Longrightarrow> in_ty ty c"
  "safe_mul ty a b = Inr c \<Longrightarrow> in_ty ty c"
  by (auto simp: safe_ring_defs ok_or_checked split: if_splits)

lemma truncate_ty_in_ty: "in_ty ty (truncate_ty ty x)"
proof (cases "is_signed ty")
  case True
  then show ?thesis
    using signed_take_bit_int_greater_eq_minus_exp [of "bits ty - 1" x]
      signed_take_bit_int_less_exp [of "bits ty - 1" x]
    by (simp add: truncate_ty_def in_ty_def ty_min_def ty_max_def)
next
  case False
  then show ?thesis
    using take_bit_int_less_exp [of "bits ty" x]
    by (simp add: truncate_ty_def in_ty_def ty_min_def ty_max_def)
qed

lemma try_fold_safe_add:
  assumes "in_ty ty acc"
  shows "try_fold (safe_add ty) acc xs =
    (if \<forall>i \<le> length xs. in_ty ty (acc + sum_list (take i xs))
     then Inr (acc + sum_list xs) else Inl Overflow)"
  using assms
proof (induction xs arbitrary: acc)
  case Nil
  then show ?case by simp
next
  case (Cons x xs)
  have prefixes: "(\<forall>i \<le> length (x # xs). in_ty ty (acc + sum_list (take i (x # xs)))) \<longleftrightarrow>
      in_ty ty (acc + x) \<and> (\<forall>i \<le> length xs. in_ty ty (acc + x + sum_list (take i xs)))"
    (is "?all \<longleftrightarrow> ?head \<and> ?tail")
  proof
    assume all: ?all
    have "in_ty ty (acc + x)" using all [THEN spec, of 1] by simp
    moreover have ?tail
    proof (intro allI impI)
      fix i assume "i \<le> length xs"
      then show "in_ty ty (acc + x + sum_list (take i xs))"
        using all [THEN spec, of "Suc i"] by (simp add: add.assoc)
    qed
    ultimately show "?head \<and> ?tail" ..
  next
    assume *: "?head \<and> ?tail"
    show ?all
    proof (intro allI impI)
      fix i assume "i \<le> length (x # xs)"
      with * Cons.prems show "in_ty ty (acc + sum_list (take i (x # xs)))"
        by (cases i) (simp_all add: add.assoc)
    qed
  qed
  show ?case
  proof (cases "in_ty ty (acc + x)")
    case True
    from Cons.IH [OF this] True show ?thesis
      by (simp only: try_fold.simps safe_add_def ok_or_checked prefixes) (simp add: add.assoc)
  next
    case False
    then show ?thesis
      by (simp only: try_fold.simps safe_add_def ok_or_checked prefixes) simp
  qed
qed

text \<open>
  \<open>safe_sum\<close> returns the mathematical sum exactly when every partial sum, taken in
  the order of the iterator, is in the range of the type; otherwise it reports an
  overflow and never a wrapped value.
\<close>

theorem safe_sum_spec:
  "safe_sum ty xs =
    (if \<forall>i \<le> length xs. in_ty ty (sum_list (take i xs)) then Inr (sum_list xs) else Inl Overflow)"
  using try_fold_safe_add [OF in_ty_0, of ty xs] by (simp add: safe_sum_def)

theorem safe_sum_spec_witness:
  "safe_sum I16 [1, 2, 3] = Inr 6 \<and> safe_sum I16 [32767, 1, -1] = Inl Overflow"
proof -
  have ok: "\<forall>i \<le> length [1, 2, 3 :: int]. in_ty I16 (sum_list (take i [1, 2, 3]))"
    by (simp add: take_Cons in_ty_def ty_min_def ty_max_def split: nat.splits)
  have "\<not> in_ty I16 (sum_list (take 2 [32767, 1, -1 :: int]))"
    by (simp add: in_ty_def ty_max_def)
  then have bad: "\<not> (\<forall>i \<le> length [32767, 1, -1 :: int]. in_ty I16 (sum_list (take i [32767, 1, -1])))"
    by (intro notI) (drule spec [of _ 2], simp)
  show ?thesis
    using ok bad safe_sum_spec [of I16 "[1, 2, 3]"] safe_sum_spec [of I16 "[32767, 1, -1]"]
    by (simp only: if_True if_False) simp
qed

end
