(* ===== verification/Lru_Time_Cache.thy ===== *)
theory Lru_Time_Cache
  imports Prelude
begin

text \<open>
  The crate \<open>lru_cache\<close> (\<open>p2p_network/lru_cache/src/time.rs\<close>): a set of keys with a time
  to live, kept as a hash set beside a queue ordered by insertion time. The \<open>expect\<close>s of
  the source are \<open>None\<close> results; the invariant (the \<open>check_invariant\<close> the tests run)
  rules them out. The interface the peer manager uses is the locale \<open>time_cache\<close>.
\<close>

section \<open>Definitions\<close>

record 'k element =
  el_key :: 'k
  inserted :: instant

record 'k lru_time_cache =
  cache_map :: "'k set"
  cache_list :: "'k element list"
  ttl :: duration

definition cache_new :: "duration \<Rightarrow> 'k lru_time_cache" where
  "cache_new d = \<lparr>cache_map = {}, cache_list = [], ttl = d\<rparr>"

definition raw_insert :: "'k lru_time_cache \<Rightarrow> 'k \<Rightarrow> instant \<Rightarrow> (bool \<times> 'k lru_time_cache) option" where
  "raw_insert s k now =
     (let is_new = k \<notin> cache_map s;
          s1 = s\<lparr>cache_map := insert k (cache_map s)\<rparr>
      in if is_new
         then Some (True, s1\<lparr>cache_list := cache_list s1 @ [\<lparr>el_key = k, inserted = now\<rparr>]\<rparr>)
         else (case position (\<lambda>e. el_key e = k) (cache_list s1) of
                 None \<Rightarrow> None
               | Some i \<Rightarrow>
                   (case remove_at i (cache_list s1) of
                      None \<Rightarrow> None
                    | Some (e, l) \<Rightarrow>
                        Some (False, s1\<lparr>cache_list := l @ [e\<lparr>inserted := now\<rparr>]\<rparr>))))"

definition raw_remove :: "'k lru_time_cache \<Rightarrow> 'k \<Rightarrow> (bool \<times> 'k lru_time_cache) option" where
  "raw_remove s k =
     (if k \<in> cache_map s
      then (let s1 = s\<lparr>cache_map := cache_map s - {k}\<rparr>
            in case position (\<lambda>e. el_key e = k) (cache_list s1) of
                 None \<Rightarrow> None
               | Some i \<Rightarrow>
                   (case remove_at i (cache_list s1) of
                      None \<Rightarrow> None
                    | Some (e, l) \<Rightarrow> Some (True, s1\<lparr>cache_list := l\<rparr>)))
      else Some (False, s))"

text \<open>The \<open>while let\<close> loop of \<open>remove_expired\<close>: set, queue and the keys removed so far.\<close>

fun remove_expired_loop ::
    "duration \<Rightarrow> instant \<Rightarrow> 'k set \<Rightarrow> 'k element list \<Rightarrow> 'k list \<Rightarrow> 'k set \<times> 'k element list \<times> 'k list" where
  "remove_expired_loop d now m [] removed = (m, [], removed)"
| "remove_expired_loop d now m (e # l) removed =
     (if inserted e + d > now then (m, e # l, removed)
      else remove_expired_loop d now (m - {el_key e}) l (removed @ [el_key e]))"

definition remove_expired :: "'k lru_time_cache \<Rightarrow> instant \<Rightarrow> 'k list \<times> 'k lru_time_cache" where
  "remove_expired s now =
     (if cache_list s = [] then ([], s)
      else (case remove_expired_loop (ttl s) now (cache_map s) (cache_list s) [] of
              (m, l, removed) \<Rightarrow> (removed, s\<lparr>cache_map := m, cache_list := l\<rparr>)))"

fun update_loop ::
    "duration \<Rightarrow> instant \<Rightarrow> 'k set \<Rightarrow> 'k element list \<Rightarrow> 'k set \<times> 'k element list" where
  "update_loop d now m [] = (m, [])"
| "update_loop d now m (e # l) =
     (if inserted e + d > now then (m, e # l) else update_loop d now (m - {el_key e}) l)"

definition cache_update :: "'k lru_time_cache \<Rightarrow> instant \<Rightarrow> 'k lru_time_cache" where
  "cache_update s now =
     (if cache_list s = [] then s
      else (case update_loop (ttl s) now (cache_map s) (cache_list s) of
              (m, l) \<Rightarrow> s\<lparr>cache_map := m, cache_list := l\<rparr>))"

text \<open>\<open>insert\<close> purges first; the rest of its body is that of \<open>raw_insert\<close>, word for word.\<close>

definition cache_insert ::
    "'k lru_time_cache \<Rightarrow> 'k \<Rightarrow> instant \<Rightarrow> instant \<Rightarrow> (bool \<times> 'k lru_time_cache) option" where
  "cache_insert s k now1 now2 = raw_insert (cache_update s now1) k now2"

definition cache_contains :: "'k lru_time_cache \<Rightarrow> 'k \<Rightarrow> instant \<Rightarrow> bool \<times> 'k lru_time_cache" where
  "cache_contains s k now = (let s1 = cache_update s now in (k \<in> cache_map s1, s1))"

definition check_invariant :: "'k lru_time_cache \<Rightarrow> bool" where
  "check_invariant s \<longleftrightarrow>
     sorted (map inserted (cache_list s)) \<and>
     set (map el_key (cache_list s)) = cache_map s \<and>
     length (cache_list s) = card (cache_map s)"

section \<open>The interface\<close>

text \<open>
  What a client of the cache may rely on: operations at the times of a monotone clock, and
  the map from the keys present to their insertion time.
\<close>

datatype 'k cache_op =
    OpInsert 'k instant
  | OpRemove 'k instant
  | OpExpire instant

fun op_time :: "'k cache_op \<Rightarrow> instant" where
  "op_time (OpInsert k t) = t"
| "op_time (OpRemove k t) = t"
| "op_time (OpExpire t) = t"

fun touches :: "'k \<Rightarrow> 'k cache_op \<Rightarrow> bool" where
  "touches k (OpInsert j t) \<longleftrightarrow> j = k"
| "touches k (OpRemove j t) \<longleftrightarrow> j = k"
| "touches k (OpExpire t) \<longleftrightarrow> False"

locale time_cache =
  fixes step :: "'s \<Rightarrow> 'k cache_op \<Rightarrow> 's option"
    and inv :: "instant \<Rightarrow> 's \<Rightarrow> bool"
    and inserted_at :: "'s \<Rightarrow> 'k \<Rightarrow> instant option"
    and ttl_of :: "'s \<Rightarrow> duration"
  assumes step_total: "inv t s \<Longrightarrow> t \<le> op_time x \<Longrightarrow>
            \<exists>s'. step s x = Some s' \<and> inv (op_time x) s' \<and> ttl_of s' = ttl_of s"
    and step_insert: "inv t s \<Longrightarrow> t \<le> u \<Longrightarrow> step s (OpInsert k u) = Some s' \<Longrightarrow>
            inserted_at s' = (inserted_at s)(k \<mapsto> u)"
    and step_remove: "inv t s \<Longrightarrow> t \<le> u \<Longrightarrow> step s (OpRemove k u) = Some s' \<Longrightarrow>
            inserted_at s' = (inserted_at s)(k := None)"
    and step_expire: "inv t s \<Longrightarrow> t \<le> u \<Longrightarrow> step s (OpExpire u) = Some s' \<Longrightarrow>
            inserted_at s' k = (case inserted_at s k of None \<Rightarrow> None
              | Some i \<Rightarrow> if i + ttl_of s > u then Some i else None)"
begin

lemma step_untouched:
  assumes "inv t s" "t \<le> op_time x" "step s x = Some s'" "\<not> touches k x"
    and "inserted_at s k = Some i" "op_time x < i + ttl_of s"
  shows "inserted_at s' k = Some i"
  using assms
  by (cases x) (auto simp: step_insert step_remove step_expire)

lemma run_untouched:
  assumes "inv t s" "sorted (t # map op_time ops)" "\<forall>x \<in> set ops. \<not> touches k x"
    and "\<forall>x \<in> set ops. op_time x < i + ttl_of s" "inserted_at s k = Some i"
  shows "\<exists>s'. run_steps step s ops = Some s' \<and> inserted_at s' k = Some i \<and> ttl_of s' = ttl_of s
    \<and> inv (last (t # map op_time ops)) s'"
  using assms
proof (induction ops arbitrary: t s)
  case Nil
  then show ?case by simp
next
  case (Cons x ops)
  from Cons.prems(2) have le: "t \<le> op_time x" by simp
  from step_total [OF Cons.prems(1) le] obtain s1 where
    s1: "step s x = Some s1" "inv (op_time x) s1" "ttl_of s1 = ttl_of s" by blast
  have kept: "inserted_at s1 k = Some i"
    using step_untouched [OF Cons.prems(1) le s1(1)] Cons.prems by simp
  have "sorted (op_time x # map op_time ops)" using Cons.prems(2) by simp
  from Cons.IH [OF s1(2) this _ _ kept] Cons.prems s1 show ?case by simp
qed

lemma expire_drops:
  assumes "inv t s" "t \<le> u" "inserted_at s k = Some i" "i + ttl_of s \<le> u"
  shows "\<exists>s'. step s (OpExpire u) = Some s' \<and> inserted_at s' k = None"
  using step_total [of t s "OpExpire u"] step_expire [of t s u _ k] assms by fastforce

end

section \<open>The cache implements the interface\<close>

definition cache_step :: "'k lru_time_cache \<Rightarrow> 'k cache_op \<Rightarrow> 'k lru_time_cache option" where
  "cache_step s x =
     (case x of
        OpInsert k t \<Rightarrow> map_option snd (raw_insert s k t)
      | OpRemove k t \<Rightarrow> map_option snd (raw_remove s k)
      | OpExpire t \<Rightarrow> Some (snd (remove_expired s t)))"

definition cache_inv :: "instant \<Rightarrow> 'k lru_time_cache \<Rightarrow> bool" where
  "cache_inv now s \<longleftrightarrow> check_invariant s \<and> (\<forall>e \<in> set (cache_list s). inserted e \<le> now)"

definition inserted_at :: "'k lru_time_cache \<Rightarrow> 'k \<Rightarrow> instant option" where
  "inserted_at s k = map_of (map (\<lambda>e. (el_key e, inserted e)) (cache_list s)) k"

lemma check_invariant_alt:
  "check_invariant s \<longleftrightarrow> sorted (map inserted (cache_list s)) \<and>
     distinct (map el_key (cache_list s)) \<and> set (map el_key (cache_list s)) = cache_map s"
proof -
  have "length (cache_list s) = card (set (map el_key (cache_list s))) \<longleftrightarrow> distinct (map el_key (cache_list s))"
    by (metis card_distinct distinct_card length_map)
  then show ?thesis unfolding check_invariant_def by metis
qed

lemma cache_new_inv: "cache_inv now (cache_new d)"
  by (simp add: cache_inv_def check_invariant_def cache_new_def)

text \<open>Removal by position is removal by key, because the keys are distinct.\<close>

lemma remove_first_key:
  assumes "distinct (map el_key l)" "k \<in> el_key ` set l"
  obtains i e where "position (\<lambda>e. el_key e = k) l = Some i" "el_key e = k" "e \<in> set l"
    "remove_at i l = Some (e, filter (\<lambda>e. el_key e \<noteq> k) l)"
proof -
  from assms(2) obtain i where i: "position (\<lambda>e. el_key e = k) l = Some i"
    by (cases "position (\<lambda>e. el_key e = k) l") auto
  then have len: "i < length l" and ki: "el_key (l ! i) = k" using position_Some [OF i] by auto
  define a b where "a = take i l" and "b = drop (Suc i) l"
  have l: "l = a @ l ! i # b" unfolding a_def b_def using len by (rule id_take_nth_drop)
  then have "distinct (map el_key (a @ l ! i # b))" using assms(1) by simp
  then have "k \<notin> el_key ` set a" "k \<notin> el_key ` set b" using ki by auto
  then have "filter (\<lambda>e. el_key e \<noteq> k) a = a" "filter (\<lambda>e. el_key e \<noteq> k) b = b"
    by (auto simp: filter_id_conv)
  then have "filter (\<lambda>e. el_key e \<noteq> k) l = a @ b" using l ki
    by (metis (mono_tags, lifting) filter.simps(2) filter_append)
  then have "remove_at i l = Some (l ! i, filter (\<lambda>e. el_key e \<noteq> k) l)"
    using len by (simp add: remove_at_Some a_def b_def)
  with i ki len that show thesis by simp
qed

text \<open>The part of the invariant that does not depend on the clock is enough for the removals
  to find their element.\<close>

definition keys_ok :: "'k lru_time_cache \<Rightarrow> bool" where
  "keys_ok s \<longleftrightarrow> distinct (map el_key (cache_list s)) \<and> set (map el_key (cache_list s)) = cache_map s"

lemma check_invariant_keys: "check_invariant s \<Longrightarrow> keys_ok s"
  by (simp add: check_invariant_alt keys_ok_def)

lemma raw_insert_keys:
  assumes "keys_ok s"
  shows "\<exists>e. el_key e = k \<and> raw_insert s k now =
    Some (k \<notin> cache_map s, s\<lparr>cache_map := insert k (cache_map s),
      cache_list := filter (\<lambda>e. el_key e \<noteq> k) (cache_list s) @ [e\<lparr>inserted := now\<rparr>]\<rparr>)"
proof (cases "k \<in> cache_map s")
  case False
  then have "filter (\<lambda>e. el_key e \<noteq> k) (cache_list s) = cache_list s"
    using assms by (auto simp: keys_ok_def filter_id_conv)
  with False show ?thesis
    by (intro exI [of _ "\<lparr>el_key = k, inserted = now\<rparr>"]) (simp add: raw_insert_def)
next
  case True
  with assms have "distinct (map el_key (cache_list s))" "k \<in> el_key ` set (cache_list s)"
    by (auto simp: keys_ok_def)
  then obtain i e where "position (\<lambda>e. el_key e = k) (cache_list s) = Some i" "el_key e = k"
    "remove_at i (cache_list s) = Some (e, filter (\<lambda>e. el_key e \<noteq> k) (cache_list s))"
    by (rule remove_first_key)
  with True show ?thesis by (intro exI [of _ e]) (simp add: raw_insert_def)
qed

lemma raw_remove_keys:
  assumes "keys_ok s"
  shows "raw_remove s k = Some (k \<in> cache_map s, s\<lparr>cache_map := cache_map s - {k},
      cache_list := filter (\<lambda>e. el_key e \<noteq> k) (cache_list s)\<rparr>)"
proof (cases "k \<in> cache_map s")
  case False
  then have "filter (\<lambda>e. el_key e \<noteq> k) (cache_list s) = cache_list s" "cache_map s - {k} = cache_map s"
    using assms by (auto simp: keys_ok_def filter_id_conv)
  with False show ?thesis by (simp add: raw_remove_def)
next
  case True
  with assms have "distinct (map el_key (cache_list s))" "k \<in> el_key ` set (cache_list s)"
    by (auto simp: keys_ok_def)
  then obtain i e where "position (\<lambda>e. el_key e = k) (cache_list s) = Some i"
    "remove_at i (cache_list s) = Some (e, filter (\<lambda>e. el_key e \<noteq> k) (cache_list s))"
    by (rule remove_first_key)
  with True show ?thesis by (simp add: raw_remove_def)
qed

lemmas raw_insert_eq = raw_insert_keys [OF check_invariant_keys]
lemmas raw_remove_eq = raw_remove_keys [OF check_invariant_keys]

lemma raw_insert_keys_ok:
  assumes "keys_ok s" obtains b s' where "raw_insert s k now = Some (b, s')" "keys_ok s'"
proof -
  from raw_insert_keys [OF assms, of k now] obtain e where "el_key e = k" and
    "raw_insert s k now = Some (k \<notin> cache_map s, s\<lparr>cache_map := insert k (cache_map s),
      cache_list := filter (\<lambda>e. el_key e \<noteq> k) (cache_list s) @ [e\<lparr>inserted := now\<rparr>]\<rparr>)" by blast
  moreover have "keys_ok (s\<lparr>cache_map := insert k (cache_map s),
      cache_list := filter (\<lambda>e. el_key e \<noteq> k) (cache_list s) @ [e\<lparr>inserted := now\<rparr>]\<rparr>)"
    using assms \<open>el_key e = k\<close> by (auto simp: keys_ok_def distinct_map_filter)
  ultimately show thesis using that by blast
qed

lemma raw_remove_keys_ok:
  assumes "keys_ok s" obtains b s' where "raw_remove s k = Some (b, s')" "keys_ok s'"
  using raw_remove_keys [OF assms, of k] assms that by (auto simp: keys_ok_def distinct_map_filter)

lemma remove_expired_loop_keys:
  "remove_expired_loop d now m l removed = (m', l', removed') \<Longrightarrow> distinct (map el_key l) \<Longrightarrow> m = el_key ` set l \<Longrightarrow>
   distinct (map el_key l') \<and> m' = el_key ` set l'"
proof (induction l arbitrary: m removed)
  case (Cons e l)
  have "insert (el_key e) (el_key ` set l) - {el_key e} = el_key ` set l" using Cons.prems(2) by auto
  with Cons show ?case by (auto split: if_splits)
qed simp

lemma remove_expired_keys_ok:
  assumes "keys_ok s" shows "keys_ok (snd (remove_expired s now))"
proof -
  obtain m l r where r: "remove_expired_loop (ttl s) now (cache_map s) (cache_list s) [] = (m, l, r)"
    by (metis prod_cases3)
  from assms have "distinct (map el_key (cache_list s))" "cache_map s = el_key ` set (cache_list s)"
    by (simp_all add: keys_ok_def)
  from remove_expired_loop_keys [OF r this] r assms show ?thesis
    by (auto simp: remove_expired_def keys_ok_def)
qed

text \<open>On a list sorted by insertion time the loop, which stops at the first live element,
  removes all the expired ones.\<close>

lemma remove_expired_loop_eq:
  assumes "sorted (map inserted l)" "distinct (map el_key l)" "m = el_key ` set l"
  shows "remove_expired_loop d now m l removed =
    (el_key ` set (filter (\<lambda>e. inserted e + d > now) l), filter (\<lambda>e. inserted e + d > now) l,
     removed @ map el_key (filter (\<lambda>e. inserted e + d \<le> now) l))"
  using assms
proof (induction l arbitrary: m removed)
  case Nil
  then show ?case by simp
next
  case (Cons e l)
  show ?case
  proof (cases "inserted e + d > now")
    case True
    then have "\<And>x. x \<in> set l \<Longrightarrow> inserted x + d > now" using Cons.prems(1) by fastforce
    then have "filter (\<lambda>e. inserted e + d > now) l = l" "filter (\<lambda>e. inserted e + d \<le> now) l = []"
      by (auto simp: filter_id_conv filter_empty_conv not_le)
    with True Cons.prems show ?thesis by simp
  next
    case False
    have "m - {el_key e} = el_key ` set l" using Cons.prems by auto
    then show ?thesis using Cons.IH Cons.prems False by simp
  qed
qed

lemma update_loop_remove_expired_loop:
  "update_loop d now m l = (case remove_expired_loop d now m l r of (m', l', _) \<Rightarrow> (m', l'))"
  by (induction l arbitrary: m r) auto

lemma cache_update_eq_remove_expired: "cache_update s now = snd (remove_expired s now)"
  using update_loop_remove_expired_loop [of "ttl s" now "cache_map s" "cache_list s" "[]"]
  by (simp add: cache_update_def remove_expired_def split: prod.splits)

lemma remove_expired_eq:
  assumes "check_invariant s"
  shows "remove_expired s now =
    (map el_key (filter (\<lambda>e. inserted e + ttl s \<le> now) (cache_list s)),
     s\<lparr>cache_map := el_key ` set (filter (\<lambda>e. inserted e + ttl s > now) (cache_list s)),
       cache_list := filter (\<lambda>e. inserted e + ttl s > now) (cache_list s)\<rparr>)"
  using assms remove_expired_loop_eq [of "cache_list s" "cache_map s" "ttl s" now "[]"]
  by (cases "cache_list s = []") (auto simp: remove_expired_def check_invariant_alt)

lemma sorted_map_filter_inserted:
  "sorted (map inserted l) \<Longrightarrow> sorted (map inserted (filter P l))"
  by (rule sorted_filter)

lemma distinct_map_filter_key: "distinct (map el_key l) \<Longrightarrow> distinct (map el_key (filter P l))"
  by (induction l) auto

lemma image_filter_key: "el_key ` set (filter (\<lambda>e. el_key e \<noteq> k) l) = el_key ` set l - {k}"
  by auto

lemma cache_inv_filter:
  assumes "cache_inv t s" "t \<le> now"
  shows "cache_inv now (s\<lparr>cache_map := el_key ` set (filter P (cache_list s)), cache_list := filter P (cache_list s)\<rparr>)"
  using assms sorted_map_filter_inserted [of "cache_list s" P] distinct_map_filter_key [of "cache_list s" P]
  by (auto simp: cache_inv_def check_invariant_alt)

lemma cache_inv_snoc:
  assumes "cache_inv now s" "el_key e \<notin> cache_map s" "inserted e = now"
  shows "cache_inv now (s\<lparr>cache_map := insert (el_key e) (cache_map s), cache_list := cache_list s @ [e]\<rparr>)"
  using assms by (auto simp: cache_inv_def check_invariant_alt sorted_append)

lemma check_invariant_filter:
  assumes "check_invariant s"
  shows "check_invariant (s\<lparr>cache_map := el_key ` set (filter P (cache_list s)), cache_list := filter P (cache_list s)\<rparr>)"
  using assms sorted_map_filter_inserted [of "cache_list s" P] distinct_map_filter_key [of "cache_list s" P]
  by (auto simp: check_invariant_alt)

lemma cache_map_list: "check_invariant s \<Longrightarrow> cache_map s = el_key ` set (cache_list s)"
  by (simp add: check_invariant_alt)

lemma raw_insert_inv:
  assumes "cache_inv t s" "t \<le> now" "raw_insert s k now = Some (b, s')"
  shows "cache_inv now s'"
proof -
  have inv: "check_invariant s" using assms(1) by (simp add: cache_inv_def)
  with assms(3) obtain e where e: "el_key e = k"
    "s' = s\<lparr>cache_map := insert k (cache_map s),
       cache_list := filter (\<lambda>e. el_key e \<noteq> k) (cache_list s) @ [e\<lparr>inserted := now\<rparr>]\<rparr>"
    using raw_insert_eq [of s k now] by auto
  from cache_inv_snoc [OF cache_inv_filter [OF assms(1,2), of "\<lambda>e. el_key e \<noteq> k"], of "e\<lparr>inserted := now\<rparr>"]
  show ?thesis
    using e by (simp add: image_filter_key cache_map_list [OF inv] del: set_filter)
qed

lemma raw_remove_inv:
  assumes "cache_inv t s" "t \<le> now" "raw_remove s k = Some (b, s')"
  shows "cache_inv now s'"
proof -
  have inv: "check_invariant s" using assms(1) by (simp add: cache_inv_def)
  from cache_inv_filter [OF assms(1,2), of "\<lambda>e. el_key e \<noteq> k"] assms(3) show ?thesis
    by (simp add: raw_remove_eq [OF inv] image_filter_key cache_map_list [OF inv] del: set_filter)
qed

lemma remove_expired_inv:
  "cache_inv t s \<Longrightarrow> t \<le> now \<Longrightarrow> cache_inv now (snd (remove_expired s u))"
  using cache_inv_filter [of t s now "\<lambda>e. inserted e + ttl s > u"]
  by (simp add: remove_expired_eq cache_inv_def del: set_filter)

lemma map_of_filter_key:
  "map_of (map (\<lambda>e. (el_key e, inserted e)) (filter (\<lambda>e. el_key e \<noteq> k) l)) =
   (map_of (map (\<lambda>e. (el_key e, inserted e)) l))(k := None)"
  by (induction l) (auto simp: fun_eq_iff)

lemma map_of_filter_inserted:
  "distinct (map el_key l) \<Longrightarrow> map_of (map (\<lambda>e. (el_key e, inserted e)) (filter (\<lambda>e. P (inserted e)) l)) k =
   (case map_of (map (\<lambda>e. (el_key e, inserted e)) l) k of None \<Rightarrow> None
    | Some i \<Rightarrow> if P i then Some i else None)"
proof (induction l)
  case Nil
  then show ?case by simp
next
  case (Cons e l)
  have "k = el_key e \<Longrightarrow> map_of (map (\<lambda>e. (el_key e, inserted e)) l) k = None"
    using Cons.prems by (auto simp: map_of_eq_None_iff image_image)
  with Cons show ?case by auto
qed

lemma inserted_at_insert:
  assumes "check_invariant s" "raw_insert s k now = Some (b, s')"
  shows "inserted_at s' = (inserted_at s)(k \<mapsto> now)"
proof -
  from assms obtain e where e: "el_key e = k"
    "s' = s\<lparr>cache_map := insert k (cache_map s),
       cache_list := filter (\<lambda>e. el_key e \<noteq> k) (cache_list s) @ [e\<lparr>inserted := now\<rparr>]\<rparr>"
    using raw_insert_eq [of s k now] by auto
  show ?thesis
    by (auto simp: e inserted_at_def map_of_filter_key map_add_def fun_eq_iff split: option.splits)
qed

lemma inserted_at_remove:
  "check_invariant s \<Longrightarrow> raw_remove s k = Some (b, s') \<Longrightarrow> inserted_at s' = (inserted_at s)(k := None)"
  using raw_remove_eq [of s k] by (auto simp: inserted_at_def map_of_filter_key fun_eq_iff)

lemma inserted_at_expired:
  "check_invariant s \<Longrightarrow> inserted_at (snd (remove_expired s now)) k =
    (case inserted_at s k of None \<Rightarrow> None | Some i \<Rightarrow> if i + ttl s > now then Some i else None)"
  using map_of_filter_inserted [of "cache_list s" "\<lambda>i. i + ttl s > now" k]
  by (simp add: remove_expired_eq inserted_at_def check_invariant_alt)

lemma inserted_at_in_map: "check_invariant s \<Longrightarrow> inserted_at s k = None \<longleftrightarrow> k \<notin> cache_map s"
  by (auto simp: inserted_at_def check_invariant_alt map_of_eq_None_iff image_image)

lemma cache_step_total:
  assumes "cache_inv t s" "t \<le> op_time x"
  shows "\<exists>s'. cache_step s x = Some s' \<and> cache_inv (op_time x) s' \<and> ttl s' = ttl s"
proof -
  have inv: "check_invariant s" using assms by (simp add: cache_inv_def)
  show ?thesis
  proof (cases x)
    case (OpInsert k u)
    obtain b s' where s': "raw_insert s k u = Some (b, s')" "ttl s' = ttl s"
      using raw_insert_eq [OF inv, of k u] by auto
    with raw_insert_inv [OF assms(1) _ s'(1)] assms(2) OpInsert show ?thesis
      by (simp add: cache_step_def)
  next
    case (OpRemove k u)
    obtain b s' where s': "raw_remove s k = Some (b, s')" "ttl s' = ttl s"
      using raw_remove_eq [OF inv, of k] by auto
    with raw_remove_inv [OF assms(1) _ s'(1), of u] assms(2) OpRemove show ?thesis
      by (simp add: cache_step_def)
  next
    case (OpExpire u)
    have "ttl (snd (remove_expired s u)) = ttl s" by (simp add: remove_expired_eq [OF inv])
    with remove_expired_inv [OF assms(1), of u u] assms(2) OpExpire show ?thesis
      by (simp add: cache_step_def)
  qed
qed

interpretation lru: time_cache cache_step cache_inv inserted_at ttl
proof (unfold_locales, goal_cases)
  case 1
  then show ?case by (rule cache_step_total)
qed (auto simp: cache_step_def cache_inv_def inserted_at_insert inserted_at_remove inserted_at_expired)

section \<open>Properties\<close>

text \<open>
  No \<open>expect\<close> of the cache can fail, and the invariant that the unit tests check (the
  queue is sorted by insertion time, has no duplicates, and holds exactly the keys of the
  set) is kept, for every sequence of operations from a new cache under a monotone clock.
\<close>

theorem cache_run_safe:
  assumes "sorted (map op_time ops)"
  shows "\<exists>s. run_steps cache_step (cache_new d) ops = Some s \<and> check_invariant s"
proof -
  have "\<exists>s'. run_steps cache_step s ops = Some s' \<and> check_invariant s'"
    if "cache_inv t s" "sorted (t # map op_time ops)" for t s
    using that
  proof (induction ops arbitrary: t s)
    case Nil
    then show ?case by (simp add: cache_inv_def)
  next
    case (Cons x ops)
    then have "t \<le> op_time x" by simp
    from lru.step_total [OF Cons.prems(1) this] obtain s1 where
      "cache_step s x = Some s1" "cache_inv (op_time x) s1" by blast
    with Cons.IH [of "op_time x" s1] Cons.prems show ?case by simp
  qed
  from this [of 0 "cache_new d"] assms show ?thesis by (simp add: cache_new_inv)
qed

theorem cache_run_safe_witness:
  "\<exists>s. run_steps cache_step (cache_new 5)
     [OpInsert (1 :: nat) 0, OpInsert 2 1, OpInsert 1 3, OpExpire 6, OpRemove 1 7] = Some s \<and> check_invariant s"
  by (rule cache_run_safe) simp

text \<open>
  C20. A key inserted at time \<open>t\<close> stays in the cache for exactly its time to live: whatever
  operations on other keys, and purges before \<open>t + ttl\<close>, follow, the key is still present,
  inserting it again reports it as a duplicate, and the first purge at or after \<open>t + ttl\<close>
  returns it and removes it.
\<close>

theorem cache_key_lifetime:
  assumes "cache_inv t s" "raw_insert s k t = Some (b, s1)"
    and "sorted (t # map op_time ops)" "\<forall>x \<in> set ops. \<not> touches k x \<and> op_time x < t + ttl s"
    and "t + ttl s \<le> u"
  shows "\<exists>s2. run_steps cache_step s1 ops = Some s2 \<and> k \<in> cache_map s2 \<and>
    map_option fst (raw_insert s2 k v) = Some False \<and>
    k \<in> set (fst (remove_expired s2 u)) \<and> k \<notin> cache_map (snd (remove_expired s2 u))"
proof -
  have inv0: "check_invariant s" using assms(1) by (simp add: cache_inv_def)
  have inv1: "cache_inv t s1" by (rule raw_insert_inv [OF assms(1) order_refl assms(2)])
  have ttl1: "ttl s1 = ttl s" using raw_insert_eq [OF inv0, of k t] assms(2) by auto
  have "inserted_at s1 k = Some t" using inserted_at_insert [OF inv0 assms(2)] by simp
  from lru.run_untouched [OF inv1 assms(3) _ _ this] assms(4) ttl1 obtain s2 where
    s2: "run_steps cache_step s1 ops = Some s2" "inserted_at s2 k = Some t" "ttl s2 = ttl s"
      and inv2: "check_invariant s2"
    by (auto simp: cache_inv_def)
  have mem: "k \<in> cache_map s2" using inserted_at_in_map [OF inv2, of k] s2 by auto
  have dup: "map_option fst (raw_insert s2 k v) = Some False"
    using raw_insert_eq [OF inv2, of k v] mem by auto
  have gone: "inserted_at (snd (remove_expired s2 u)) k = None"
    using inserted_at_expired [OF inv2, of u k] s2 assms(5) by simp
  have inv3: "check_invariant (snd (remove_expired s2 u))"
    using check_invariant_filter [OF inv2] by (simp add: remove_expired_eq [OF inv2] del: set_filter)
  have out: "k \<notin> cache_map (snd (remove_expired s2 u))" using gone inserted_at_in_map [OF inv3] by auto
  from mem obtain e where e: "e \<in> set (cache_list s2)" "el_key e = k"
    unfolding cache_map_list [OF inv2] by auto
  with out have "inserted e + ttl s2 \<le> u" by (force simp: remove_expired_eq [OF inv2])
  with e have "k \<in> set (fst (remove_expired s2 u))" by (auto simp: remove_expired_eq [OF inv2])
  with s2 mem dup out show ?thesis by blast
qed

theorem cache_key_lifetime_witness:
  "\<exists>s2. run_steps cache_step
        \<lparr>cache_map = {7 :: nat}, cache_list = [\<lparr>el_key = 7, inserted = 3\<rparr>], ttl = 10\<rparr>
        [OpInsert 8 4, OpExpire 12] = Some s2 \<and> 7 \<in> cache_map s2 \<and>
      map_option fst (raw_insert s2 7 12) = Some False \<and>
      7 \<in> set (fst (remove_expired s2 13)) \<and> 7 \<notin> cache_map (snd (remove_expired s2 13))"
proof -
  have "raw_insert (cache_new 10) (7 :: nat) 3 =
     Some (True, \<lparr>cache_map = {7}, cache_list = [\<lparr>el_key = 7, inserted = 3\<rparr>], ttl = 10\<rparr>)"
    by (simp add: raw_insert_def cache_new_def)
  from cache_key_lifetime [OF cache_new_inv this, of "[OpInsert 8 4, OpExpire 12]" 13 12]
  show ?thesis by (simp add: cache_new_def)
qed

end
