(* ===== verification/Rpc_Methods.thy ===== *)
theory Rpc_Methods
  imports Prelude
begin

text \<open>
  The message types of the request/response protocol
  (\<open>p2p_network/src/rpc/methods.rs\<close> and \<open>types/verified_useroperation.rs\<close>): the requests
  and responses, the reasons of a \<open>Goodbye\<close> and the response codes with their wire numbers.
  The SSZ encoding of a \<open>u64\<close> is code of the crate \<open>ssz\<close>; the definitions that call it take
  it as an argument (\<open>u64_ssz\<close>).
\<close>

section \<open>Definitions\<close>

type_synonym H256 = "256 word"
type_synonym U256 = "256 word"
type_synonym Address = "160 word"
type_synonym bytes32 = "u8 list"

definition MAX_REQUEST_BLOCKS :: u64 where "MAX_REQUEST_BLOCKS = 1024"
definition MAX_OPS_PER_REQUEST :: u64 where "MAX_OPS_PER_REQUEST = 4096"
definition MAX_ERROR_LEN :: u64 where "MAX_ERROR_LEN = 256"

type_synonym ErrorType = "u8 list"

record StatusMessage =
  chain_id :: u64
  block_hash :: H256
  block_number :: u64

record PingMessage =
  ping_data :: u64

record MetaDataMessage =
  seq_number :: u64
  supported_mempools :: "bytes32 list"

datatype GoodbyeReason =
    ClientShutdown | IrrelevantNetwork | Fault | UnableToVerifyNetwork | TooManyPeers
  | BadScore | Banned | BannedIP | Unknown

text \<open>\<open>From<u64> for GoodbyeReason\<close> and the discriminants read by \<open>as u64\<close>.\<close>

definition goodbye_from_u64 :: "u64 \<Rightarrow> GoodbyeReason" where
  "goodbye_from_u64 n =
     (if n = 1 then ClientShutdown
      else if n = 2 then IrrelevantNetwork
      else if n = 3 then Fault
      else if n = 128 then UnableToVerifyNetwork
      else if n = 129 then TooManyPeers
      else if n = 250 then BadScore
      else if n = 251 then Banned
      else if n = 252 then BannedIP
      else Unknown)"

fun goodbye_to_u64 :: "GoodbyeReason \<Rightarrow> u64" where
  "goodbye_to_u64 ClientShutdown = 1"
| "goodbye_to_u64 IrrelevantNetwork = 2"
| "goodbye_to_u64 Fault = 3"
| "goodbye_to_u64 UnableToVerifyNetwork = 128"
| "goodbye_to_u64 TooManyPeers = 129"
| "goodbye_to_u64 BadScore = 250"
| "goodbye_to_u64 Banned = 251"
| "goodbye_to_u64 BannedIP = 252"
| "goodbye_to_u64 Unknown = 0"

text \<open>The SSZ codec of \<open>u64\<close>: its fixed length, the bytes appended, and the decoder.\<close>

record 'e u64_ssz =
  u64_fixed_len :: usize
  u64_append :: "u64 \<Rightarrow> u8 list"
  u64_from_bytes :: "u8 list \<Rightarrow> 'e + u64"

definition goodbye_ssz_fixed_len :: "'e u64_ssz \<Rightarrow> usize" where
  "goodbye_ssz_fixed_len ssz = u64_fixed_len ssz"

definition goodbye_ssz_append :: "'e u64_ssz \<Rightarrow> GoodbyeReason \<Rightarrow> u8 list \<Rightarrow> u8 list" where
  "goodbye_ssz_append ssz r buf = buf @ u64_append ssz (goodbye_to_u64 r)"

definition goodbye_from_ssz_bytes :: "'e u64_ssz \<Rightarrow> u8 list \<Rightarrow> 'e + GoodbyeReason" where
  "goodbye_from_ssz_bytes ssz bytes = map_res goodbye_from_u64 (u64_from_bytes ssz bytes)"

record PooledUserOpHashesMessage =
  next_cursor :: bytes32
  pooled_hashes :: "bytes32 list"

record PooledUserOpHashesRequest =
  cursor :: bytes32

record UserOperation =
  sender :: Address
  nonce :: U256
  initCode :: "u8 list"
  callData :: "u8 list"
  callGasLimit :: U256
  verificationGasLimit :: U256
  preVerificationGas :: U256
  maxFeePerGas :: U256
  maxPriorityFeePerGas :: U256
  paymasterAndData :: "u8 list"
  signature :: "u8 list"

record VerifiedUserOperation =
  user_operation :: UserOperation
  entry_point_contract :: Address
  verified_at_block_hash :: U256

record PooledUserOpsByHashMessage =
  op_list :: "UserOperation list"

record PooledUserOpsByHashRequest =
  req_hashes :: "bytes32 list"

datatype RPCResponse =
    Status StatusMessage
  | PooledUserOpHashes PooledUserOpHashesMessage
  | PooledUserOpsByHash PooledUserOpsByHashMessage
  | Pong PingMessage
  | MetaData MetaDataMessage

datatype ResponseTermination = PooledUserOpHashes | PooledUserOpsByHash

datatype RPCResponseErrorCode = RateLimited | InvalidRequest | ServerError | ResourceUnavailable | Unknown

datatype RPCCodedResponse =
    Success RPCResponse
  | Error RPCResponseErrorCode ErrorType
  | StreamTermination ResponseTermination

fun error_code_as_u8 :: "RPCResponseErrorCode \<Rightarrow> u8" where
  "error_code_as_u8 RPCResponseErrorCode.InvalidRequest = 1"
| "error_code_as_u8 RPCResponseErrorCode.ServerError = 2"
| "error_code_as_u8 RPCResponseErrorCode.ResourceUnavailable = 3"
| "error_code_as_u8 RPCResponseErrorCode.Unknown = 255"
| "error_code_as_u8 RPCResponseErrorCode.RateLimited = 139"

fun coded_as_u8 :: "RPCCodedResponse \<Rightarrow> u8 option" where
  "coded_as_u8 (Success r) = Some 0"
| "coded_as_u8 (Error code msg) = Some (error_code_as_u8 code)"
| "coded_as_u8 (StreamTermination t) = None"

definition is_response :: "u8 \<Rightarrow> bool" where
  "is_response response_code \<longleftrightarrow> response_code = 0"

definition from_error :: "u8 \<Rightarrow> ErrorType \<Rightarrow> RPCCodedResponse" where
  "from_error response_code err =
     Error (if response_code = 1 then RPCResponseErrorCode.InvalidRequest
            else if response_code = 2 then RPCResponseErrorCode.ServerError
            else if response_code = 3 then RPCResponseErrorCode.ResourceUnavailable
            else if response_code = 139 then RPCResponseErrorCode.RateLimited
            else RPCResponseErrorCode.Unknown) err"

fun multiple_responses :: "RPCCodedResponse \<Rightarrow> bool" where
  "multiple_responses (Success (RPCResponse.Status m)) = False"
| "multiple_responses (Success (RPCResponse.PooledUserOpHashes m)) = False"
| "multiple_responses (Success (RPCResponse.PooledUserOpsByHash m)) = False"
| "multiple_responses (Success (RPCResponse.Pong m)) = False"
| "multiple_responses (Success (RPCResponse.MetaData m)) = False"
| "multiple_responses (Error code err) = True"
| "multiple_responses (StreamTermination t) = True"

definition close_after :: "RPCCodedResponse \<Rightarrow> bool" where
  "close_after r \<longleftrightarrow> \<not> (case r of Success _ \<Rightarrow> True | _ \<Rightarrow> False)"

text \<open>The \<open>Display\<close> texts of the codes and reasons.\<close>

fun error_code_display :: "RPCResponseErrorCode \<Rightarrow> string" where
  "error_code_display RPCResponseErrorCode.InvalidRequest = ''The request was invalid''"
| "error_code_display RPCResponseErrorCode.ResourceUnavailable = ''Resource unavailable''"
| "error_code_display RPCResponseErrorCode.ServerError = ''Server error occurred''"
| "error_code_display RPCResponseErrorCode.Unknown = ''Unknown error occurred''"
| "error_code_display RPCResponseErrorCode.RateLimited = ''Rate limited''"

fun goodbye_display :: "GoodbyeReason \<Rightarrow> string" where
  "goodbye_display ClientShutdown = ''Client Shutdown''"
| "goodbye_display IrrelevantNetwork = ''Irrelevant Network''"
| "goodbye_display Fault = ''Fault''"
| "goodbye_display UnableToVerifyNetwork = ''Unable to verify network''"
| "goodbye_display TooManyPeers = ''Too many peers''"
| "goodbye_display BadScore = ''Bad Score''"
| "goodbye_display Banned = ''Banned''"
| "goodbye_display BannedIP = ''BannedIP''"
| "goodbye_display GoodbyeReason.Unknown = ''Unknown Reason''"

section \<open>Correctness\<close>

lemma goodbye_from_to [simp]: "goodbye_from_u64 (goodbye_to_u64 r) = r"
  by (cases r) (simp_all add: goodbye_from_u64_def)

lemma goodbye_to_from:
  "goodbye_to_u64 (goodbye_from_u64 n) = (if n \<in> {1, 2, 3, 128, 129, 250, 251, 252} then n else 0)"
  by (auto simp: goodbye_from_u64_def)

lemma from_error_as_u8: "from_error (error_code_as_u8 code) err = Error code err"
  by (cases code) (simp_all add: from_error_def)

lemma error_code_nonzero: "error_code_as_u8 code \<noteq> 0"
  by (cases code) simp_all

text \<open>
  The \<open>Goodbye\<close> codec on the wire: decoding the bytes of a reason returns that reason
  whatever the encoding of \<open>u64\<close> is, as long as it is injective in the sense that its
  decoder inverts it; and re-encoding a received number returns it exactly for the eight
  assigned codes and \<open>0\<close> for every other one, which is the loss the type's comment admits.
\<close>

theorem goodbye_wire:
  assumes "\<And>n. u64_from_bytes ssz (u64_append ssz n) = Inr n"
  shows "goodbye_from_ssz_bytes ssz (goodbye_ssz_append ssz r []) = Inr r \<and>
    map_res goodbye_to_u64 (goodbye_from_ssz_bytes ssz (u64_append ssz n)) =
      Inr (if n \<in> {1, 2, 3, 128, 129, 250, 251, 252} then n else 0)"
  by (simp add: goodbye_from_ssz_bytes_def goodbye_ssz_append_def assms goodbye_to_from)

definition le_u64_ssz :: "string u64_ssz" where
  "le_u64_ssz = \<lparr>u64_fixed_len = 8, u64_append = \<lambda>n. le_bytes 8 (unat n),
     u64_from_bytes = \<lambda>bs. if length bs = 8 then Inr (word_of_nat (le_value bs)) else Inl ''InvalidByteLength''\<rparr>"

theorem goodbye_wire_witness:
  "goodbye_from_ssz_bytes le_u64_ssz (goodbye_ssz_append le_u64_ssz TooManyPeers []) = Inr TooManyPeers \<and>
   map_res goodbye_to_u64 (goodbye_from_ssz_bytes le_u64_ssz (u64_append le_u64_ssz 77)) = Inr 0"
  using goodbye_wire [of le_u64_ssz TooManyPeers 77]
  by (simp add: le_u64_ssz_def le_value_u64)

text \<open>
  The response codes: every coded response that is written has one code byte; the byte
  of a success is read back as a response, the byte of an error is not and
  \<open>from_error\<close> restores the error code; and a stream termination writes no byte.
\<close>

theorem response_code_roundtrip:
  "case coded_as_u8 r of
     None \<Rightarrow> (\<exists>t. r = StreamTermination t)
   | Some b \<Rightarrow> (if is_response b then \<exists>m. r = Success m else \<exists>e. r = from_error b e)"
proof (cases r)
  case (Error code err)
  then show ?thesis
    by (simp add: is_response_def error_code_nonzero from_error_as_u8)
qed (auto simp: is_response_def)

end
