(* ===== verification/Rpc_Protocol.thy ===== *)
theory Rpc_Protocol
  imports Rpc_Methods
begin

text \<open>
  The protocols and requests of the request/response protocol
  (\<open>p2p_network/src/rpc/protocol.rs\<close> and \<open>outbound.rs\<close>): protocol names and ids, the size
  limits of requests and responses, the request types with the number of responses they
  expect, the upgrade of an inbound stream and the errors. The names of the protocols are
  those that the \<open>strum\<close> attributes of the source give.
\<close>

section \<open>Definitions\<close>

definition PROTOCOL_PREFIX :: string where "PROTOCOL_PREFIX = ''/account_abstraction/req''"
definition REQUEST_TIMEOUT :: u64 where "REQUEST_TIMEOUT = 15"

definition max_rpc_size :: "usize \<Rightarrow> usize" where
  "max_rpc_size max_chunk_size = max_chunk_size"

datatype Protocol = Status | Goodbye | Ping | MetaData | PooledUserOpHashes | PooledUserOpsByHash

fun protocol_as_ref :: "Protocol \<Rightarrow> string" where
  "protocol_as_ref Protocol.Status = ''status''"
| "protocol_as_ref Protocol.Goodbye = ''goodbye''"
| "protocol_as_ref Protocol.Ping = ''ping''"
| "protocol_as_ref Protocol.MetaData = ''metadata''"
| "protocol_as_ref Protocol.PooledUserOpHashes = ''pooled_user_op_hashes''"
| "protocol_as_ref Protocol.PooledUserOpsByHash = ''pooled_user_ops_by_hash''"

definition all_protocols :: "Protocol list" where
  "all_protocols = [Protocol.Status, Protocol.Goodbye, Protocol.Ping, Protocol.MetaData,
     Protocol.PooledUserOpHashes, Protocol.PooledUserOpsByHash]"

text \<open>\<open>EnumString\<close>: the variant with that name.\<close>

definition protocol_from_str :: "string \<Rightarrow> Protocol option" where
  "protocol_from_str s = find (\<lambda>p. protocol_as_ref p = s) all_protocols"

datatype Encoding = SSZSnappy

datatype SupportedProtocol =
    StatusV1 | GoodbyeV1 | PingV1 | MetaDataV1 | PooledUserOpHashesV1 | PooledUserOpsByHashV1

fun version_string :: "SupportedProtocol \<Rightarrow> string" where
  "version_string StatusV1 = ''1''"
| "version_string GoodbyeV1 = ''1''"
| "version_string PingV1 = ''1''"
| "version_string MetaDataV1 = ''1''"
| "version_string PooledUserOpHashesV1 = ''1''"
| "version_string PooledUserOpsByHashV1 = ''1''"

fun protocol_of :: "SupportedProtocol \<Rightarrow> Protocol" where
  "protocol_of StatusV1 = Protocol.Status"
| "protocol_of GoodbyeV1 = Protocol.Goodbye"
| "protocol_of PingV1 = Protocol.Ping"
| "protocol_of MetaDataV1 = Protocol.MetaData"
| "protocol_of PooledUserOpHashesV1 = Protocol.PooledUserOpHashes"
| "protocol_of PooledUserOpsByHashV1 = Protocol.PooledUserOpsByHash"

fun encoding_display :: "Encoding \<Rightarrow> string" where
  "encoding_display SSZSnappy = ''ssz_snappy''"

record ProtocolId =
  versioned_protocol :: SupportedProtocol
  encoding :: Encoding
  protocol_id :: string

definition protocol_id_new :: "SupportedProtocol \<Rightarrow> Encoding \<Rightarrow> ProtocolId" where
  "protocol_id_new vp enc =
     \<lparr>versioned_protocol = vp, encoding = enc,
      protocol_id = PROTOCOL_PREFIX @ ''/'' @ protocol_as_ref (protocol_of vp) @ ''/'' @
        version_string vp @ ''/'' @ encoding_display enc\<rparr>"

definition currently_supported :: "ProtocolId list" where
  "currently_supported =
     [protocol_id_new StatusV1 SSZSnappy, protocol_id_new GoodbyeV1 SSZSnappy,
      protocol_id_new PingV1 SSZSnappy, protocol_id_new MetaDataV1 SSZSnappy,
      protocol_id_new PooledUserOpHashesV1 SSZSnappy, protocol_id_new PooledUserOpsByHashV1 SSZSnappy]"

record RPCProtocol =
  protocol_max_rpc_size :: usize
  ttfb_timeout :: duration

definition protocol_info :: "RPCProtocol \<Rightarrow> ProtocolId list" where
  "protocol_info self = currently_supported"

record RpcLimits =
  lim_min :: usize
  lim_max :: usize

definition limits_new :: "usize \<Rightarrow> usize \<Rightarrow> RpcLimits" where
  "limits_new lo hi = \<lparr>lim_min = lo, lim_max = hi\<rparr>"

definition is_out_of_bounds :: "RpcLimits \<Rightarrow> usize \<Rightarrow> usize \<Rightarrow> bool" where
  "is_out_of_bounds self len max_size \<longleftrightarrow>
     len > min (lim_max self) max_size \<or> len < lim_min self"

text \<open>
  The limits of the fixed-size messages are the SSZ lengths of \<open>u64\<close> (through
  \<open>GoodbyeReason\<close>) and of \<open>Ping\<close>, whose encoder is derived by the crate \<open>ssz_derive\<close>.
\<close>

definition rpc_request_limits :: "'e u64_ssz \<Rightarrow> usize \<Rightarrow> ProtocolId \<Rightarrow> RpcLimits" where
  "rpc_request_limits ssz ping_len self =
     (case protocol_of (versioned_protocol self) of
        Protocol.Status \<Rightarrow> limits_new 0 1048576
      | Protocol.Goodbye \<Rightarrow> limits_new (goodbye_ssz_fixed_len ssz) (goodbye_ssz_fixed_len ssz)
      | Protocol.Ping \<Rightarrow> limits_new ping_len ping_len
      | Protocol.MetaData \<Rightarrow> limits_new 0 1048576
      | Protocol.PooledUserOpHashes \<Rightarrow> limits_new 0 10485761048576
      | Protocol.PooledUserOpsByHash \<Rightarrow> limits_new 0 10485761048576)"

definition rpc_response_limits :: "usize \<Rightarrow> ProtocolId \<Rightarrow> RpcLimits" where
  "rpc_response_limits ping_len self =
     (case protocol_of (versioned_protocol self) of
        Protocol.Status \<Rightarrow> limits_new 0 1048576
      | Protocol.Goodbye \<Rightarrow> limits_new 0 0
      | Protocol.Ping \<Rightarrow> limits_new ping_len ping_len
      | Protocol.MetaData \<Rightarrow> limits_new 0 1048576
      | Protocol.PooledUserOpHashes \<Rightarrow> limits_new 0 1048576
      | Protocol.PooledUserOpsByHash \<Rightarrow> limits_new 0 1048576)"

fun supported_has_context_bytes :: "SupportedProtocol \<Rightarrow> bool" where
  "supported_has_context_bytes PooledUserOpHashesV1 = False"
| "supported_has_context_bytes PooledUserOpsByHashV1 = False"
| "supported_has_context_bytes StatusV1 = False"
| "supported_has_context_bytes PingV1 = False"
| "supported_has_context_bytes MetaDataV1 = False"
| "supported_has_context_bytes GoodbyeV1 = False"

definition has_context_bytes :: "ProtocolId \<Rightarrow> bool" where
  "has_context_bytes self = supported_has_context_bytes (versioned_protocol self)"

datatype InboundRequest =
    Status StatusMessage
  | Goodbye GoodbyeReason
  | Ping PingMessage
  | MetaData
  | PooledUserOpHashes PooledUserOpHashesRequest
  | PooledUserOpsByHash PooledUserOpsByHashRequest

fun inbound_expected_responses :: "InboundRequest \<Rightarrow> u64" where
  "inbound_expected_responses (InboundRequest.Status m) = 1"
| "inbound_expected_responses (InboundRequest.Goodbye r) = 0"
| "inbound_expected_responses (InboundRequest.Ping p) = 1"
| "inbound_expected_responses InboundRequest.MetaData = 1"
| "inbound_expected_responses (InboundRequest.PooledUserOpHashes r) = 10"
| "inbound_expected_responses (InboundRequest.PooledUserOpsByHash r) = 1"

fun inbound_versioned_protocol :: "InboundRequest \<Rightarrow> SupportedProtocol" where
  "inbound_versioned_protocol (InboundRequest.Status m) = StatusV1"
| "inbound_versioned_protocol (InboundRequest.Goodbye r) = GoodbyeV1"
| "inbound_versioned_protocol (InboundRequest.Ping p) = PingV1"
| "inbound_versioned_protocol InboundRequest.MetaData = MetaDataV1"
| "inbound_versioned_protocol (InboundRequest.PooledUserOpHashes r) = PooledUserOpHashesV1"
| "inbound_versioned_protocol (InboundRequest.PooledUserOpsByHash r) = PooledUserOpsByHashV1"

text \<open>\<open>stream_termination\<close>: \<open>None\<close> is the panic of \<open>unreachable!()\<close>.\<close>

fun inbound_stream_termination :: "InboundRequest \<Rightarrow> ResponseTermination option" where
  "inbound_stream_termination (InboundRequest.Status m) = None"
| "inbound_stream_termination (InboundRequest.Goodbye r) = None"
| "inbound_stream_termination (InboundRequest.Ping p) = None"
| "inbound_stream_termination InboundRequest.MetaData = None"
| "inbound_stream_termination (InboundRequest.PooledUserOpHashes r) = None"
| "inbound_stream_termination (InboundRequest.PooledUserOpsByHash r) = None"

datatype 'e RPCError =
    SSZDecodeError 'e
  | IoError string
  | ErrorResponse RPCResponseErrorCode string
  | StreamTimeout
  | UnsupportedProtocol
  | IncompleteStream
  | InvalidData string
  | InternalError string
  | NegotiationTimeout
  | HandlerRejected
  | Disconnected

text \<open>The \<open>Display\<close> text of an error, given the \<open>Debug\<close> text of SSZ errors.\<close>

fun rpc_error_display :: "('e \<Rightarrow> string) \<Rightarrow> 'e RPCError \<Rightarrow> string" where
  "rpc_error_display dbg (SSZDecodeError err) = ''Error while decoding ssz: '' @ dbg err"
| "rpc_error_display dbg (InvalidData err) = ''Peer sent unexpected data: '' @ err"
| "rpc_error_display dbg (IoError err) = ''IO Error: '' @ err"
| "rpc_error_display dbg (ErrorResponse code reason) =
     ''RPC response was an error: '' @ error_code_display code @ '' with reason: '' @ reason"
| "rpc_error_display dbg StreamTimeout = ''Stream Timeout''"
| "rpc_error_display dbg UnsupportedProtocol = ''Peer does not support the protocol''"
| "rpc_error_display dbg IncompleteStream = ''Stream ended unexpectedly''"
| "rpc_error_display dbg (InternalError err) = ''Internal error: '' @ err"
| "rpc_error_display dbg NegotiationTimeout = ''Negotiation timeout''"
| "rpc_error_display dbg HandlerRejected = ''Handler rejected the request''"
| "rpc_error_display dbg Disconnected = ''Gracefully Disconnected''"

text \<open>
  \<open>upgrade_inbound\<close>: the stream is given to the handler at once for \<open>MetaData\<close>; for the
  other protocols the first item of the framed stream is awaited for \<open>REQUEST_TIMEOUT\<close>
  seconds. What the await returns is an argument: the timeout, the first item decoded by
  the codec, or the end of the stream.
\<close>

datatype 'e first_item = TimedOut | Item "'e RPCError + InboundRequest" | EndOfStream

definition upgrade_inbound :: "ProtocolId \<Rightarrow> 'e first_item \<Rightarrow> 'e RPCError + InboundRequest" where
  "upgrade_inbound protocol first =
     (case versioned_protocol protocol of
        MetaDataV1 \<Rightarrow> Inr InboundRequest.MetaData
      | _ \<Rightarrow>
          (case first of
             TimedOut \<Rightarrow> Inl StreamTimeout
           | Item (Inr request) \<Rightarrow> Inr request
           | Item (Inl e) \<Rightarrow> Inl e
           | EndOfStream \<Rightarrow> Inl IncompleteStream))"

datatype OutboundRequest =
    Status StatusMessage
  | Goodbye GoodbyeReason
  | PooledUserOpHashes PooledUserOpHashesRequest
  | PooledUserOpsByHash PooledUserOpsByHashRequest
  | Ping PingMessage
  | MetaData

fun supported_protocols :: "OutboundRequest \<Rightarrow> ProtocolId list" where
  "supported_protocols (OutboundRequest.Status m) = [protocol_id_new StatusV1 SSZSnappy]"
| "supported_protocols (OutboundRequest.Goodbye r) = [protocol_id_new GoodbyeV1 SSZSnappy]"
| "supported_protocols (OutboundRequest.PooledUserOpHashes r) = [protocol_id_new PooledUserOpHashesV1 SSZSnappy]"
| "supported_protocols (OutboundRequest.PooledUserOpsByHash r) = [protocol_id_new PooledUserOpsByHashV1 SSZSnappy]"
| "supported_protocols (OutboundRequest.Ping p) = [protocol_id_new PingV1 SSZSnappy]"
| "supported_protocols OutboundRequest.MetaData = [protocol_id_new MetaDataV1 SSZSnappy]"

fun outbound_expected_responses :: "OutboundRequest \<Rightarrow> u64" where
  "outbound_expected_responses (OutboundRequest.Status m) = 1"
| "outbound_expected_responses (OutboundRequest.Goodbye r) = 0"
| "outbound_expected_responses (OutboundRequest.PooledUserOpHashes r) = 10"
| "outbound_expected_responses (OutboundRequest.PooledUserOpsByHash r) = 10"
| "outbound_expected_responses (OutboundRequest.Ping p) = 1"
| "outbound_expected_responses OutboundRequest.MetaData = 1"

fun outbound_versioned_protocol :: "OutboundRequest \<Rightarrow> SupportedProtocol" where
  "outbound_versioned_protocol (OutboundRequest.Status m) = StatusV1"
| "outbound_versioned_protocol (OutboundRequest.Goodbye r) = GoodbyeV1"
| "outbound_versioned_protocol (OutboundRequest.PooledUserOpHashes r) = PooledUserOpHashesV1"
| "outbound_versioned_protocol (OutboundRequest.PooledUserOpsByHash r) = PooledUserOpsByHashV1"
| "outbound_versioned_protocol (OutboundRequest.Ping p) = PingV1"
| "outbound_versioned_protocol OutboundRequest.MetaData = MetaDataV1"

fun outbound_stream_termination :: "OutboundRequest \<Rightarrow> ResponseTermination option" where
  "outbound_stream_termination (OutboundRequest.PooledUserOpHashes r) = Some ResponseTermination.PooledUserOpHashes"
| "outbound_stream_termination (OutboundRequest.PooledUserOpsByHash r) = Some ResponseTermination.PooledUserOpsByHash"
| "outbound_stream_termination (OutboundRequest.Status m) = None"
| "outbound_stream_termination (OutboundRequest.Goodbye r) = None"
| "outbound_stream_termination (OutboundRequest.Ping p) = None"
| "outbound_stream_termination OutboundRequest.MetaData = None"

fun response_protocol :: "RPCResponse \<Rightarrow> Protocol" where
  "response_protocol (RPCResponse.Status m) = Protocol.Status"
| "response_protocol (RPCResponse.PooledUserOpHashes m) = Protocol.PooledUserOpHashes"
| "response_protocol (RPCResponse.PooledUserOpsByHash m) = Protocol.PooledUserOpsByHash"
| "response_protocol (RPCResponse.Pong p) = Protocol.Ping"
| "response_protocol (RPCResponse.MetaData m) = Protocol.MetaData"

section \<open>Correctness\<close>

lemma protocol_from_str_as_ref [simp]: "protocol_from_str (protocol_as_ref p) = Some p"
  by (cases p) (simp_all add: protocol_from_str_def all_protocols_def)

lemma protocol_from_str_Some: "protocol_from_str s = Some p \<Longrightarrow> s = protocol_as_ref p"
  by (auto simp: protocol_from_str_def all_protocols_def split: if_splits)

lemma protocol_id_new_inj:
  "protocol_id (protocol_id_new vp enc) = protocol_id (protocol_id_new vp' enc') \<Longrightarrow> vp = vp'"
  by (cases enc; cases enc'; cases vp; cases vp') (simp_all add: protocol_id_new_def)

lemma not_out_of_bounds_iff:
  "\<not> is_out_of_bounds lim n m \<longleftrightarrow> lim_min lim \<le> n \<and> n \<le> lim_max lim \<and> n \<le> m"
  by (auto simp: is_out_of_bounds_def not_less)

text \<open>
  Protocol negotiation is unambiguous and closed: the ids a node advertises are
  pairwise different strings, every id determines its protocol, and each request is
  offered under exactly one id, that of its own protocol, which a node running the same
  code advertises.
\<close>

theorem protocol_negotiation:
  "distinct (map protocol_id currently_supported) \<and>
   supported_protocols req = [protocol_id_new (outbound_versioned_protocol req) SSZSnappy] \<and>
   set (supported_protocols req) \<subseteq> set (protocol_info rpc) \<and>
   {p \<in> set (protocol_info rpc). protocol_id p \<in> protocol_id ` set (supported_protocols req)} =
     set (supported_protocols req)"
proof -
  have one: "supported_protocols req = [protocol_id_new (outbound_versioned_protocol req) SSZSnappy]"
    by (cases req) simp_all
  have sub: "set (supported_protocols req) \<subseteq> set (protocol_info rpc)"
    by (cases req) (simp_all add: protocol_info_def currently_supported_def)
  have dist: "distinct (map protocol_id currently_supported)"
    by (simp add: currently_supported_def protocol_id_new_def)
  then have "inj_on protocol_id (set (protocol_info rpc))"
    by (simp add: protocol_info_def distinct_map)
  with sub have "{p \<in> set (protocol_info rpc). protocol_id p \<in> protocol_id ` set (supported_protocols req)} =
     set (supported_protocols req)"
    by (auto dest: inj_onD)
  with one sub dist show ?thesis by blast
qed

end
