(* ===== verification/Rate_Limiter.thy ===== *)
theory Rate_Limiter
  imports Rpc_Protocol
begin

text \<open>
  The request rate limiter (\<open>p2p_network/src/rpc/rate_limiter.rs\<close>): quotas, the per-key
  limiter with the generic cell rate algorithm on \<open>u64\<close> nanoseconds, and the limiter of
  all protocols with its builder and its pruning. The arithmetic of \<open>allows\<close> is that of
  64-bit words and wraps; the window theorem is proved under the explicit bound that the
  clock and the quota are below \<open>2\<^sup>62\<close> nanoseconds (146 years).
\<close>

section \<open>Definitions\<close>

type_synonym Nanosecs = u64

record Quota =
  replenish_all_every :: duration
  max_tokens :: u64

definition one_every :: "u64 \<Rightarrow> Quota" where
  "one_every seconds = \<lparr>replenish_all_every = secs (unat seconds), max_tokens = 1\<rparr>"

definition n_every :: "u64 \<Rightarrow> u64 \<Rightarrow> Quota" where
  "n_every n seconds = \<lparr>replenish_all_every = secs (unat seconds), max_tokens = n\<rparr>"

datatype RateLimitedErr = TooLarge | TooSoon duration

record 'k Limiter =
  lim_tau :: Nanosecs
  lim_t :: Nanosecs
  tat_per_key :: "'k \<Rightarrow> Nanosecs option"

text \<open>\<open>u128 as u64\<close> truncates; \<open>try_into\<close> checks the range.\<close>

definition as_u64 :: "nat \<Rightarrow> u64" where
  "as_u64 n = word_of_nat n"

definition try_into_u64 :: "nat \<Rightarrow> u64 option" where
  "try_into_u64 n = (if n \<le> U64_MAX then Some (word_of_nat n) else None)"

definition from_quota :: "Quota \<Rightarrow> string + 'k Limiter" where
  "from_quota quota =
     (if max_tokens quota = 0 then Inl ''Max number of tokens should be positive''
      else
        let tau_nanos = replenish_all_every quota
        in if tau_nanos = 0 then Inl ''Replenish time must be positive''
           else
             bind_res (ok_or (try_into_u64 (tau_nanos div unat (max_tokens quota)))
                         ''total replenish time is too long'') (\<lambda>t'.
             bind_res (ok_or (try_into_u64 tau_nanos) ''total replenish time is too long'') (\<lambda>tau'.
             Inr \<lparr>lim_tau = tau', lim_t = t', tat_per_key = Map.empty\<rparr>)))"

definition limiter_allows ::
    "'k Limiter \<Rightarrow> duration \<Rightarrow> 'k \<Rightarrow> u64 \<Rightarrow> (RateLimitedErr + unit) \<times> 'k Limiter" where
  "limiter_allows self elapsed k tokens =
     (let time_since_start = as_u64 elapsed;
          additional_time = lim_t self * tokens
      in if additional_time > lim_tau self then (Inl TooLarge, self)
         else
           let tat = unwrap_or (tat_per_key self k) time_since_start;
               self1 = self\<lparr>tat_per_key := (tat_per_key self)(k \<mapsto> tat)\<rparr>;
               earliest_time = sat_sub (tat + additional_time) (lim_tau self)
           in if time_since_start < earliest_time
              then (Inl (TooSoon (unat (earliest_time - time_since_start))), self1)
              else (Inr (), self1\<lparr>tat_per_key :=
                     (tat_per_key self1)(k \<mapsto> max time_since_start tat + additional_time)\<rparr>))"

definition limiter_prune :: "'k Limiter \<Rightarrow> duration \<Rightarrow> 'k Limiter" where
  "limiter_prune self time_limit =
     (let lim = as_u64 time_limit
      in self\<lparr>tat_per_key := (\<lambda>k. case tat_per_key self k of
           None \<Rightarrow> None | Some tat \<Rightarrow> if tat \<ge> lim then Some tat else None)\<rparr>)"

subsection \<open>All protocols\<close>

record 'p RPCRateLimiter =
  init_time :: instant
  goodbye_rl :: "'p Limiter"
  ping_rl :: "'p Limiter"
  metadata_rl :: "'p Limiter"
  status_rl :: "'p Limiter"
  pooled_user_op_hashes_rl :: "'p Limiter"
  pooled_user_ops_by_hash_rl :: "'p Limiter"

record RPCRateLimiterBuilder =
  b_goodbye_quota :: "Quota option"
  b_ping_quota :: "Quota option"
  b_metadata_quota :: "Quota option"
  b_status_quota :: "Quota option"
  b_pooled_user_op_hashes_quota :: "Quota option"
  b_pooled_user_ops_by_hash_quota :: "Quota option"

definition builder :: RPCRateLimiterBuilder where
  "builder = \<lparr>b_goodbye_quota = None, b_ping_quota = None, b_metadata_quota = None,
     b_status_quota = None, b_pooled_user_op_hashes_quota = None,
     b_pooled_user_ops_by_hash_quota = None\<rparr>"

fun set_quota :: "Protocol \<Rightarrow> Quota \<Rightarrow> RPCRateLimiterBuilder \<Rightarrow> RPCRateLimiterBuilder" where
  "set_quota Protocol.Ping q self = self\<lparr>b_ping_quota := Some q\<rparr>"
| "set_quota Protocol.Status q self = self\<lparr>b_status_quota := Some q\<rparr>"
| "set_quota Protocol.MetaData q self = self\<lparr>b_metadata_quota := Some q\<rparr>"
| "set_quota Protocol.Goodbye q self = self\<lparr>b_goodbye_quota := Some q\<rparr>"
| "set_quota Protocol.PooledUserOpHashes q self = self\<lparr>b_pooled_user_op_hashes_quota := Some q\<rparr>"
| "set_quota Protocol.PooledUserOpsByHash q self = self\<lparr>b_pooled_user_ops_by_hash_quota := Some q\<rparr>"

definition build :: "RPCRateLimiterBuilder \<Rightarrow> instant \<Rightarrow> string + 'p RPCRateLimiter" where
  "build self now =
     bind_res (ok_or (b_ping_quota self) ''Ping quota not specified'') (\<lambda>ping_quota.
     bind_res (ok_or (b_metadata_quota self) ''MetaData quota not specified'') (\<lambda>metadata_quota.
     bind_res (ok_or (b_status_quota self) ''Status quota not specified'') (\<lambda>status_quota.
     bind_res (ok_or (b_goodbye_quota self) ''Goodbye quota not specified'') (\<lambda>goodbye_quota.
     bind_res (ok_or (b_pooled_user_op_hashes_quota self)
         ''pooled_user_op_hashes_quota quota not specified'') (\<lambda>hashes_quota.
     bind_res (ok_or (b_pooled_user_ops_by_hash_quota self)
         ''pooled_user_ops_by_hash_quota quota not specified'') (\<lambda>by_hash_quota.
     bind_res (from_quota ping_quota) (\<lambda>ping.
     bind_res (from_quota metadata_quota) (\<lambda>metadata.
     bind_res (from_quota status_quota) (\<lambda>status.
     bind_res (from_quota goodbye_quota) (\<lambda>goodbye.
     bind_res (from_quota hashes_quota) (\<lambda>hashes.
     bind_res (from_quota by_hash_quota) (\<lambda>by_hash.
     Inr \<lparr>init_time = now, goodbye_rl = goodbye, ping_rl = ping, metadata_rl = metadata,
       status_rl = status, pooled_user_op_hashes_rl = hashes,
       pooled_user_ops_by_hash_rl = by_hash\<rparr>))))))))))))"

fun limiter_of :: "Protocol \<Rightarrow> 'p RPCRateLimiter \<Rightarrow> 'p Limiter" where
  "limiter_of Protocol.Ping self = ping_rl self"
| "limiter_of Protocol.Status self = status_rl self"
| "limiter_of Protocol.MetaData self = metadata_rl self"
| "limiter_of Protocol.Goodbye self = goodbye_rl self"
| "limiter_of Protocol.PooledUserOpHashes self = pooled_user_op_hashes_rl self"
| "limiter_of Protocol.PooledUserOpsByHash self = pooled_user_ops_by_hash_rl self"

fun set_limiter :: "Protocol \<Rightarrow> 'p Limiter \<Rightarrow> 'p RPCRateLimiter \<Rightarrow> 'p RPCRateLimiter" where
  "set_limiter Protocol.Ping l self = self\<lparr>ping_rl := l\<rparr>"
| "set_limiter Protocol.Status l self = self\<lparr>status_rl := l\<rparr>"
| "set_limiter Protocol.MetaData l self = self\<lparr>metadata_rl := l\<rparr>"
| "set_limiter Protocol.Goodbye l self = self\<lparr>goodbye_rl := l\<rparr>"
| "set_limiter Protocol.PooledUserOpHashes l self = self\<lparr>pooled_user_op_hashes_rl := l\<rparr>"
| "set_limiter Protocol.PooledUserOpsByHash l self = self\<lparr>pooled_user_ops_by_hash_rl := l\<rparr>"

text \<open>
  \<open>allows\<close>: an item is its protocol and its number of expected responses (the trait
  \<open>RateLimiterItem\<close>). The match of the source picks a mutable reference to the limiter of
  the protocol, which is read and written back here.
\<close>

definition rl_allows ::
    "'p RPCRateLimiter \<Rightarrow> instant \<Rightarrow> 'p \<Rightarrow> Protocol \<times> u64 \<Rightarrow> (RateLimitedErr + unit) \<times> 'p RPCRateLimiter" where
  "rl_allows self now peer_id request =
     (let time_since_start = now - init_time self;
          tokens = max (snd request) 1
      in case limiter_allows (limiter_of (fst request) self) time_since_start peer_id tokens of
           (r, l) \<Rightarrow> (r, set_limiter (fst request) l self))"

definition rl_prune :: "'p RPCRateLimiter \<Rightarrow> instant \<Rightarrow> 'p RPCRateLimiter" where
  "rl_prune self now =
     (let time_since_start = now - init_time self
      in self\<lparr>ping_rl := limiter_prune (ping_rl self) time_since_start,
              status_rl := limiter_prune (status_rl self) time_since_start,
              metadata_rl := limiter_prune (metadata_rl self) time_since_start,
              goodbye_rl := limiter_prune (goodbye_rl self) time_since_start,
              pooled_user_op_hashes_rl := limiter_prune (pooled_user_op_hashes_rl self) time_since_start,
              pooled_user_ops_by_hash_rl := limiter_prune (pooled_user_ops_by_hash_rl self) time_since_start\<rparr>)"

text \<open>
  \<open>poll\<close> prunes once for every tick of the interval that is ready; the ticks are those of
  the timer, given by the times at which the pruning runs.
\<close>

definition rl_poll :: "'p RPCRateLimiter \<Rightarrow> instant list \<Rightarrow> 'p RPCRateLimiter" where
  "rl_poll self ready_ticks = fold (\<lambda>now rl. rl_prune rl now) ready_ticks self"

text \<open>The items of inbound and outbound requests.\<close>

definition inbound_item :: "InboundRequest \<Rightarrow> Protocol \<times> u64" where
  "inbound_item req = (protocol_of (inbound_versioned_protocol req), inbound_expected_responses req)"

definition outbound_item :: "OutboundRequest \<Rightarrow> Protocol \<times> u64" where
  "outbound_item req = (protocol_of (outbound_versioned_protocol req), outbound_expected_responses req)"

section \<open>The algorithm on numbers\<close>

text \<open>
  The effective fill of a key at a time: when the bucket of the key will be full again.
  A key that is absent, or whose stored time has passed, is a full bucket.
\<close>

definition TIME_BOUND :: nat where
  "TIME_BOUND = 2 ^ 62"

definition fill :: "'k Limiter \<Rightarrow> 'k \<Rightarrow> nat \<Rightarrow> nat" where
  "fill l k now = (case tat_per_key l k of None \<Rightarrow> now | Some x \<Rightarrow> max now (unat x))"

definition limiter_inv :: "nat \<Rightarrow> 'k Limiter \<Rightarrow> bool" where
  "limiter_inv now l \<longleftrightarrow> unat (lim_tau l) < TIME_BOUND \<and>
     (\<forall>k x. tat_per_key l k = Some x \<longrightarrow> unat x \<le> now + unat (lim_tau l))"

definition cost :: "'k Limiter \<Rightarrow> u64 \<Rightarrow> nat" where
  "cost l tokens = unat (lim_t l) * unat tokens"

definition no_overflow :: "'k Limiter \<Rightarrow> nat \<Rightarrow> u64 \<Rightarrow> bool" where
  "no_overflow l now tokens \<longleftrightarrow> now < TIME_BOUND \<and> cost l tokens < 2 ^ 64"

lemma unat_as_u64: "now < TIME_BOUND \<Longrightarrow> unat (as_u64 now) = now"
  by (simp add: as_u64_def unat_of_nat TIME_BOUND_def)

lemma fill_ge: "now \<le> fill l k now"
  by (simp add: fill_def split: option.splits)

lemma fill_mono: "a \<le> b \<Longrightarrow> fill l k a \<le> fill l k b"
  by (simp add: fill_def max_def split: option.splits)

lemma fill_le: "limiter_inv now l \<Longrightarrow> now \<le> now' \<Longrightarrow> fill l k now' \<le> now' + unat (lim_tau l)"
  by (force simp: fill_def limiter_inv_def split: option.splits)

lemma limiter_inv_mono: "limiter_inv a l \<Longrightarrow> a \<le> b \<Longrightarrow> limiter_inv b l"
  unfolding limiter_inv_def by (meson add_le_mono1 order_trans)

lemma unat_cost: "cost l tokens < 2 ^ 64 \<Longrightarrow> unat (lim_t l * tokens) = cost l tokens"
  unfolding cost_def by (rule unat_mult_small) simp

text \<open>Branch by branch, \<open>allows\<close> in terms of the fill, with no wrap-around left.\<close>

lemma limiter_allows_cases:
  assumes inv: "limiter_inv a l" and a: "a \<le> now" and small: "no_overflow l now tokens"
  shows "limiter_allows l now k tokens =
    (if cost l tokens > unat (lim_tau l) then (Inl TooLarge, l)
     else let tat = unwrap_or (tat_per_key l k) (as_u64 now) in
       if fill l k now + cost l tokens \<le> now + unat (lim_tau l)
       then (Inr (), l\<lparr>tat_per_key := (tat_per_key l)(k \<mapsto> word_of_nat (fill l k now + cost l tokens))\<rparr>)
       else (Inl (TooSoon (fill l k now + cost l tokens - unat (lim_tau l) - now)),
             l\<lparr>tat_per_key := (tat_per_key l)(k \<mapsto> tat)\<rparr>))"
proof (cases "cost l tokens > unat (lim_tau l)")
  case True
  with small show ?thesis
    by (simp add: limiter_allows_def word_less_nat_alt unat_cost no_overflow_def)
next
  case False
  define tat where "tat = unwrap_or (tat_per_key l k) (as_u64 now)"
  have bounds: "now < 2 ^ 62" "unat (lim_tau l) < 2 ^ 62" "cost l tokens < 2 ^ 64"
    using small inv by (simp_all add: no_overflow_def limiter_inv_def TIME_BOUND_def)
  have n: "unat (as_u64 now) = now" using small by (simp add: no_overflow_def unat_as_u64)
  have add: "unat (lim_t l * tokens) = cost l tokens" using bounds(3) by (rule unat_cost)
  have fill: "fill l k now = max now (unat tat)"
    by (simp add: fill_def tat_def n split: option.splits)
  have tat: "unat tat \<le> now + unat (lim_tau l)"
    using inv a by (cases "tat_per_key l k") (force simp: limiter_inv_def tat_def n)+
  have sum1: "unat (tat + lim_t l * tokens) = unat tat + cost l tokens"
    using tat bounds False by (simp add: unat_add_small add)
  have mx: "unat (max (as_u64 now) tat) = fill l k now" by (simp add: unat_max_word n fill)
  have sum2: "unat (max (as_u64 now) tat + lim_t l * tokens) = fill l k now + cost l tokens"
    using tat bounds False by (subst unat_add_small) (simp_all add: add mx fill)
  have early: "unat (sat_sub (tat + lim_t l * tokens) (lim_tau l)) = unat tat + cost l tokens - unat (lim_tau l)"
    by (simp add: unat_sat_sub sum1)
  have soon: "as_u64 now < sat_sub (tat + lim_t l * tokens) (lim_tau l) \<longleftrightarrow>
      \<not> fill l k now + cost l tokens \<le> now + unat (lim_tau l)"
    using False by (auto simp: word_less_nat_alt early n fill)
  have diff: "\<not> fill l k now + cost l tokens \<le> now + unat (lim_tau l) \<Longrightarrow>
      unat (sat_sub (tat + lim_t l * tokens) (lim_tau l) - as_u64 now) =
      fill l k now + cost l tokens - unat (lim_tau l) - now"
    using soon False by (simp add: unat_sub_if' word_less_nat_alt early n fill)
  have val: "max (as_u64 now) tat + lim_t l * tokens = word_of_nat (fill l k now + cost l tokens)"
    unfolding sum2 [symmetric] by simp
  from False have nl: "\<not> lim_tau l < lim_t l * tokens" by (simp add: word_less_nat_alt add)
  show ?thesis
    using False diff
    by (simp add: limiter_allows_def nl Let_def soon val flip: tat_def)
qed

text \<open>
  What a client of the limiter sees: the verdict, the new fill of every key, and the
  invariant, as functions of the fill.
\<close>

definition verdict :: "'k Limiter \<Rightarrow> nat \<Rightarrow> 'k \<Rightarrow> u64 \<Rightarrow> RateLimitedErr + unit" where
  "verdict l now k tokens =
     (if cost l tokens > unat (lim_tau l) then Inl TooLarge
      else if fill l k now + cost l tokens \<le> now + unat (lim_tau l) then Inr ()
      else Inl (TooSoon (fill l k now + cost l tokens - unat (lim_tau l) - now)))"

lemma limiter_allows_params [simp]:
  "lim_tau (snd (limiter_allows l now k tokens)) = lim_tau l"
  "lim_t (snd (limiter_allows l now k tokens)) = lim_t l"
  by (simp_all add: limiter_allows_def Let_def)

lemma limiter_prune_params [simp]:
  "lim_tau (limiter_prune l now) = lim_tau l" "lim_t (limiter_prune l now) = lim_t l"
  by (simp_all add: limiter_prune_def)

lemma fill_later: "now \<le> n \<Longrightarrow> fill l k n = max n (fill l k now)"
  by (auto simp: fill_def split: option.splits)

lemma limiter_allows_verdict:
  assumes inv: "limiter_inv a l" and a: "a \<le> now" and small: "no_overflow l now tokens"
  shows "fst (limiter_allows l now k tokens) = verdict l now k tokens"
  by (simp add: limiter_allows_cases [OF inv a small] verdict_def Let_def)

lemma limiter_allows_fill:
  assumes inv: "limiter_inv a l" and a: "a \<le> now" and small: "no_overflow l now tokens"
  shows "fill (snd (limiter_allows l now k tokens)) j now =
    (if j = k \<and> is_ok (verdict l now k tokens) then fill l k now + cost l tokens else fill l j now)"
proof -
  have b: "now < 2 ^ 62" "unat (lim_tau l) < 2 ^ 62"
    using small inv by (simp_all add: no_overflow_def limiter_inv_def TIME_BOUND_def)
  have n: "unat (as_u64 now) = now" using small by (simp add: no_overflow_def unat_as_u64)
  have big: "unat (word_of_nat (fill l k now + cost l tokens) :: u64) = fill l k now + cost l tokens"
    if "fill l k now + cost l tokens \<le> now + unat (lim_tau l)"
    using that b by (subst unat_of_nat) simp
  have "fill (l\<lparr>tat_per_key := (tat_per_key l)(k \<mapsto> unwrap_or (tat_per_key l k) (as_u64 now))\<rparr>) j now = fill l j now"
    by (simp add: fill_def n split: option.splits)
  moreover have "fill (l\<lparr>tat_per_key := (tat_per_key l)(k \<mapsto> word_of_nat (fill l k now + cost l tokens))\<rparr>) j now =
      (if j = k then fill l k now + cost l tokens else fill l j now)"
    if "fill l k now + cost l tokens \<le> now + unat (lim_tau l)"
    using big [OF that] fill_ge [of now l k] by (simp add: fill_def)
  ultimately show ?thesis
    by (auto simp add: limiter_allows_cases [OF inv a small] verdict_def Let_def simp del: of_nat_add)
qed

lemma limiter_allows_inv:
  assumes inv: "limiter_inv a l" and a: "a \<le> now" and small: "no_overflow l now tokens"
  shows "limiter_inv now (snd (limiter_allows l now k tokens))"
proof -
  have le: "fill l j now \<le> now + unat (lim_tau l)" for j by (rule fill_le [OF inv a])
  have n: "unat (as_u64 now) = now" using small by (simp add: no_overflow_def unat_as_u64)
  have tau: "unat (lim_tau l) < TIME_BOUND" using inv by (simp add: limiter_inv_def)
  have "unat x \<le> now + unat (lim_tau l)"
    if x: "tat_per_key (snd (limiter_allows l now k tokens)) j = Some x" for j x
  proof -
    have "unat x \<le> fill (snd (limiter_allows l now k tokens)) j now" using x by (simp add: fill_def)
    also have "\<dots> \<le> now + unat (lim_tau l)"
      using le by (auto simp: limiter_allows_fill [OF inv a small] verdict_def split: if_splits)
    finally show ?thesis .
  qed
  with tau show ?thesis by (simp add: limiter_inv_def)
qed

lemma limiter_prune_fill:
  "now < TIME_BOUND \<Longrightarrow> fill (limiter_prune l now) k now = fill l k now"
  by (auto simp: limiter_prune_def fill_def unat_as_u64 word_le_nat_alt split: option.splits)

lemma limiter_prune_inv: "limiter_inv a l \<Longrightarrow> a \<le> now \<Longrightarrow> limiter_inv now (limiter_prune l n)"
  by (drule (1) limiter_inv_mono) (auto simp: limiter_prune_def limiter_inv_def split: option.splits if_splits)

section \<open>The rate over a window\<close>

text \<open>
  The interface of a leaky meter: its level is at least the current time, grows with time,
  rises by what an operation uses, and stays within the capacity of the current time. That
  is all that the bound on what is used in a window needs.
\<close>

fun total_used :: "('s \<Rightarrow> 'o \<Rightarrow> 's) \<Rightarrow> ('s \<Rightarrow> 'o \<Rightarrow> nat) \<Rightarrow> 's \<Rightarrow> 'o list \<Rightarrow> nat" where
  "total_used exec used s [] = 0"
| "total_used exec used s (x # xs) = used s x + total_used exec used (exec s x) xs"

locale leaky_meter =
  fixes exec :: "'s \<Rightarrow> 'o \<Rightarrow> 's" and at :: "'o \<Rightarrow> nat" and used :: "'s \<Rightarrow> 'o \<Rightarrow> nat"
    and level :: "'s \<Rightarrow> nat \<Rightarrow> nat" and inv :: "nat \<Rightarrow> 's \<Rightarrow> bool"
    and ok :: "'o \<Rightarrow> bool" and cap :: nat
  assumes level_ge: "now \<le> level s now"
    and level_mono: "m \<le> n \<Longrightarrow> level s m \<le> level s n"
    and level_le: "inv m s \<Longrightarrow> m \<le> n \<Longrightarrow> level s n \<le> n + cap"
    and exec_inv: "inv m s \<Longrightarrow> m \<le> at x \<Longrightarrow> ok x \<Longrightarrow> inv (at x) (exec s x)"
    and exec_level: "inv m s \<Longrightarrow> m \<le> at x \<Longrightarrow> ok x \<Longrightarrow>
          level (exec s x) (at x) = level s (at x) + used s x"
begin

lemma run_inv:
  "inv m s \<Longrightarrow> sorted (m # map at xs) \<Longrightarrow> \<forall>x \<in> set xs. ok x \<Longrightarrow>
   inv (last (m # map at xs)) (foldl exec s xs)"
proof (induction xs arbitrary: m s)
  case (Cons x xs)
  from Cons.prems have "inv (at x) (exec s x)" by (intro exec_inv) auto
  from Cons.IH [OF this] Cons.prems show ?case by (cases xs) simp_all
qed simp

lemma window_bound:
  assumes "inv m s" "sorted (m # map at xs)" "\<forall>x \<in> set xs. ok x \<and> at x \<le> b" "m \<le> b"
  shows "level s m + total_used exec used s xs \<le> b + cap"
  using assms
proof (induction xs arbitrary: m s)
  case Nil
  then show ?case using level_mono [of m b s] level_le [of m s b] by simp
next
  case (Cons x xs)
  have le: "m \<le> at x" and ok: "ok x" and b: "at x \<le> b" using Cons.prems by auto
  have "level s m + used s x \<le> level (exec s x) (at x)"
    using exec_level [OF Cons.prems(1) le ok] level_mono [OF le, of s] by simp
  moreover have "level (exec s x) (at x) + total_used exec used (exec s x) xs \<le> b + cap"
    using Cons.IH [OF exec_inv [OF Cons.prems(1) le ok]] Cons.prems b by simp
  ultimately show ?case by simp
qed

lemma window_total:
  assumes "inv m s" "sorted (m # map at xs)" "\<forall>x \<in> set xs. ok x \<and> at x \<le> b" "m \<le> b"
  shows "total_used exec used s xs \<le> (b - m) + cap"
  using window_bound [OF assms] level_ge [of m s] assms(4) by simp

end

datatype 'k limiter_op = Request 'k duration u64 | Prune duration

fun limiter_op_time :: "'k limiter_op \<Rightarrow> nat" where
  "limiter_op_time (Request k now tokens) = now"
| "limiter_op_time (Prune now) = now"

fun limiter_exec :: "'k Limiter \<Rightarrow> 'k limiter_op \<Rightarrow> 'k Limiter" where
  "limiter_exec l (Request k now tokens) = snd (limiter_allows l now k tokens)"
| "limiter_exec l (Prune now) = limiter_prune l now"

fun accepted_tokens :: "'k \<Rightarrow> 'k Limiter \<Rightarrow> 'k limiter_op \<Rightarrow> nat" where
  "accepted_tokens k l (Request j now tokens) =
     (if j = k \<and> is_ok (fst (limiter_allows l now j tokens)) then unat tokens else 0)"
| "accepted_tokens k l (Prune now) = 0"

fun op_in_range :: "nat \<Rightarrow> 'k limiter_op \<Rightarrow> bool" where
  "op_in_range t' (Request k now tokens) \<longleftrightarrow> now < TIME_BOUND \<and> t' * unat tokens < 2 ^ 64"
| "op_in_range t' (Prune now) \<longleftrightarrow> now < TIME_BOUND"

definition meter_inv :: "nat \<Rightarrow> nat \<Rightarrow> nat \<Rightarrow> 'k Limiter \<Rightarrow> bool" where
  "meter_inv t' tau' now l \<longleftrightarrow> limiter_inv now l \<and> unat (lim_t l) = t' \<and> unat (lim_tau l) = tau'"

lemma op_in_range_no_overflow:
  "meter_inv t' tau' m l \<Longrightarrow> op_in_range t' (Request k now tokens) \<Longrightarrow> no_overflow l now tokens"
  by (simp add: meter_inv_def no_overflow_def cost_def)

lemma meter_exec_inv:
  assumes "meter_inv t' tau' m l" "m \<le> limiter_op_time x" "op_in_range t' x"
  shows "meter_inv t' tau' (limiter_op_time x) (limiter_exec l x)"
proof (cases x)
  case (Request k now tokens)
  with assms have "no_overflow l now tokens" by (simp add: op_in_range_no_overflow)
  then show ?thesis
    using assms Request limiter_allows_inv [of m l now tokens k] by (simp add: meter_inv_def)
next
  case (Prune now)
  with assms show ?thesis using limiter_prune_inv [of m l now now] by (simp add: meter_inv_def)
qed

lemma meter_exec_level:
  assumes "meter_inv t' tau' m l" "m \<le> limiter_op_time x" "op_in_range t' x"
  shows "fill (limiter_exec l x) k (limiter_op_time x) =
    fill l k (limiter_op_time x) + t' * accepted_tokens k l x"
proof (cases x)
  case (Request j now tokens)
  with assms have no: "no_overflow l now tokens" by (simp add: op_in_range_no_overflow)
  have inv: "limiter_inv m l" "m \<le> now" "cost l tokens = t' * unat tokens"
    using assms Request by (simp_all add: meter_inv_def cost_def)
  show ?thesis
    using limiter_allows_fill [OF inv(1,2) no, of j k] limiter_allows_verdict [OF inv(1,2) no, of j]
    by (auto simp add: Request inv(3))
next
  case (Prune now)
  with assms show ?thesis by (simp add: limiter_prune_fill)
qed

interpretation gcra: leaky_meter limiter_exec limiter_op_time "\<lambda>l x. t' * accepted_tokens k l x"
  "\<lambda>l. fill l k" "meter_inv t' tau'" "op_in_range t'" tau' for t' tau' k
proof (unfold_locales, goal_cases)
  case (3 m s n)
  then show ?case using fill_le [of m s n k] by (simp add: meter_inv_def)
qed (simp_all add: fill_ge fill_mono meter_exec_inv meter_exec_level)

lemma total_used_scale:
  "total_used exec (\<lambda>s x. c * used s x) s xs = c * total_used exec used s xs"
  by (induction xs arbitrary: s) (simp_all add: algebra_simps)

lemma from_quota_Inr:
  assumes "from_quota q = Inr l"
  shows "unat (lim_t l) = replenish_all_every q div unat (max_tokens q)"
    "unat (lim_tau l) = replenish_all_every q" "tat_per_key l = Map.empty"
    "max_tokens q \<noteq> 0" "0 < replenish_all_every q"
proof -
  from assms have q: "max_tokens q \<noteq> 0" "replenish_all_every q \<noteq> 0"
    and small: "replenish_all_every q \<le> U64_MAX"
    and l: "l = \<lparr>lim_tau = word_of_nat (replenish_all_every q),
      lim_t = word_of_nat (replenish_all_every q div unat (max_tokens q)), tat_per_key = Map.empty\<rparr>"
    by (auto simp: from_quota_def Let_def bind_res_Inr_iff ok_or_Inr_iff try_into_u64_def split: if_splits)
  have "replenish_all_every q div unat (max_tokens q) \<le> U64_MAX"
    using small div_le_dividend order_trans by blast
  with small show "unat (lim_t l) = replenish_all_every q div unat (max_tokens q)"
    "unat (lim_tau l) = replenish_all_every q"
    by (simp_all add: l unat_of_nat U64_MAX_def)
  from q l show "tat_per_key l = Map.empty" "max_tokens q \<noteq> 0" "0 < replenish_all_every q" by simp_all
qed

lemma from_quota_inv:
  "from_quota q = Inr l \<Longrightarrow> replenish_all_every q < TIME_BOUND \<Longrightarrow>
   meter_inv (replenish_all_every q div unat (max_tokens q)) (replenish_all_every q) now l"
  by (auto simp: meter_inv_def limiter_inv_def from_quota_Inr)

section \<open>Properties\<close>

text \<open>
  C16. The rate limit. Take a limiter made from a quota and any history of requests of
  any keys and prunings at non-decreasing times. In every window \<open>[a, b]\<close> of that history
  the tokens accepted for a key, at the quota's time per token, fit into the length of the
  window plus one full bucket: \<open>tokens * (replenish / max_tokens) \<le> (b - a) + replenish\<close>.
\<close>

theorem limiter_window_bound:
  assumes "from_quota q = Inr l" "replenish_all_every q < TIME_BOUND"
    and "sorted (map limiter_op_time before @ a # map limiter_op_time window)"
    and "\<forall>x \<in> set (before @ window). op_in_range (replenish_all_every q div unat (max_tokens q)) x"
    and "\<forall>x \<in> set window. limiter_op_time x \<le> b" "a \<le> b"
  shows "total_used limiter_exec (accepted_tokens k) (foldl limiter_exec l before) window *
      (replenish_all_every q div unat (max_tokens q)) \<le> (b - a) + replenish_all_every q"
proof -
  let ?t = "replenish_all_every q div unat (max_tokens q)" and ?tau = "replenish_all_every q"
  define s where "s = foldl limiter_exec l before"
  have init: "meter_inv ?t ?tau 0 l" using assms(1,2) by (rule from_quota_inv)
  have "sorted (0 # map limiter_op_time before)" using assms(3) by (simp add: sorted_append)
  then have "meter_inv ?t ?tau (last (0 # map limiter_op_time before)) s"
    unfolding s_def using gcra.run_inv [OF init] assms(4) by (auto simp del: last.simps)
  moreover have "last (0 # map limiter_op_time before) \<le> a"
    using assms(3) by (cases before rule: rev_cases) (auto simp: sorted_append)
  ultimately have inv: "meter_inv ?t ?tau a s"
    by (auto simp: meter_inv_def intro: limiter_inv_mono)
  have "sorted (a # map limiter_op_time window)" using assms(3) by (simp add: sorted_append)
  from gcra.window_total [OF inv this, of b k] assms(4,5,6) show ?thesis
    by (subst mult.commute) (simp add: total_used_scale s_def)
qed

theorem limiter_window_bound_witness:
  "let l = \<lparr>lim_tau = 2000000000, lim_t = 500000000, tat_per_key = Map.empty\<rparr> :: nat Limiter;
       window = [Request 0 0 4, Request 0 500000000 1, Request 1 500000000 4, Request 0 600000000 1]
   in from_quota (n_every 4 2) = Inr l \<and>
      total_used limiter_exec (accepted_tokens 0) l window = 5 \<and>
      total_used limiter_exec (accepted_tokens 0) l window * 500000000 \<le> 1000000000 + 2000000000"
proof -
  define l :: "nat Limiter" where "l = \<lparr>lim_tau = 2000000000, lim_t = 500000000, tat_per_key = Map.empty\<rparr>"
  define window :: "nat limiter_op list" where
    "window = [Request 0 0 4, Request 0 500000000 1, Request 1 500000000 4, Request 0 600000000 1]"
  have q: "from_quota (n_every 4 2) = Inr l"
    by (simp add: from_quota_def n_every_def secs_def Let_def try_into_u64_def U64_MAX_def l_def)
  have five: "total_used limiter_exec (accepted_tokens 0) l window = 5"
    by (simp add: window_def l_def limiter_allows_def as_u64_def sat_sub_def Let_def)
  have "total_used limiter_exec (accepted_tokens 0) (foldl limiter_exec l []) window *
      (replenish_all_every (n_every 4 2) div unat (max_tokens (n_every 4 2)))
      \<le> (1000000000 - 0) + replenish_all_every (n_every 4 2)"
    by (rule limiter_window_bound [OF q])
      (simp_all add: n_every_def secs_def TIME_BOUND_def window_def)
  with q five show ?thesis
    by (simp add: n_every_def secs_def l_def window_def)
qed

text \<open>
  The waiting time of a refusal is exact. If a request is refused as too soon with
  waiting time \<open>d\<close>, then the same request is accepted at \<open>now + d\<close>, is still refused at
  every earlier time with exactly the time that is left, and \<open>d\<close> is positive.
\<close>

theorem too_soon_exact:
  assumes "limiter_inv a l" "a \<le> now" "limiter_allows l now k tokens = (Inl (TooSoon d), l')"
    and "no_overflow l (now + d) tokens"
  shows "0 < d \<and> fst (limiter_allows l' (now + d) k tokens) = Inr () \<and>
    (\<forall>n. now \<le> n \<and> n < now + d \<longrightarrow> fst (limiter_allows l' n k tokens) = Inl (TooSoon (now + d - n)))"
proof -
  have no: "no_overflow l n tokens" if "n \<le> now + d" for n
    using assms(4) that by (simp add: no_overflow_def)
  note spec = limiter_allows_verdict [OF assms(1,2) no, of k] limiter_allows_inv [OF assms(1,2) no, of k]
    limiter_allows_fill [OF assms(1,2) no, of k k]
  have ver: "verdict l now k tokens = Inl (TooSoon d)" and inv: "limiter_inv now l'"
    using spec(1,2) assms(3) by simp_all
  then have fill: "fill l' k now = fill l k now" using spec(3) assms(3) by simp
  have par: "lim_tau l' = lim_tau l" "lim_t l' = lim_t l"
    using limiter_allows_params [of l now k tokens] assms(3) by simp_all
  from ver have d: "cost l tokens \<le> unat (lim_tau l)" "now + unat (lim_tau l) < fill l k now + cost l tokens"
    "d = fill l k now + cost l tokens - unat (lim_tau l) - now"
    by (auto simp: verdict_def split: if_splits)
  have "fst (limiter_allows l' n k tokens) = (if now + d \<le> n then Inr () else Inl (TooSoon (now + d - n)))"
    if "now \<le> n" "n \<le> now + d" for n
  proof -
    have "no_overflow l' n tokens" using no [OF that(2)] par by (simp add: no_overflow_def cost_def)
    from limiter_allows_verdict [OF inv that(1) this]
    have "fst (limiter_allows l' n k tokens) = verdict l' n k tokens" .
    also have "\<dots> = (if now + d \<le> n then Inr () else Inl (TooSoon (now + d - n)))"
      using d fill_later [OF that(1), of l' k] fill par that by (auto simp: verdict_def cost_def max_def)
    finally show ?thesis .
  qed
  with d show ?thesis by simp
qed

theorem too_soon_exact_witness:
  "let l = \<lparr>lim_tau = 10, lim_t = 5, tat_per_key = [0 \<mapsto> 108]\<rparr> :: nat Limiter
   in limiter_allows l 100 0 1 = (Inl (TooSoon 3), l) \<and>
      fst (limiter_allows l 103 0 1) = Inr () \<and> fst (limiter_allows l 101 0 1) = Inl (TooSoon 2)"
proof -
  define l :: "nat Limiter" where "l = \<lparr>lim_tau = 10, lim_t = 5, tat_per_key = [0 \<mapsto> 108]\<rparr>"
  have inv: "limiter_inv 100 l" by (simp add: limiter_inv_def l_def TIME_BOUND_def)
  have r: "limiter_allows l 100 0 1 = (Inl (TooSoon 3), l)"
    by (simp add: l_def limiter_allows_def as_u64_def sat_sub_def Let_def fun_upd_idem)
  have "no_overflow l (100 + 3) 1" by (simp add: no_overflow_def cost_def l_def TIME_BOUND_def)
  from too_soon_exact [OF inv order_refl r this] r
  have "fst (limiter_allows l 103 0 1) = Inr ()" "fst (limiter_allows l 101 0 1) = Inl (TooSoon 2)"
    by (auto dest: spec [of _ 101])
  with r show ?thesis by (simp add: l_def)
qed

section \<open>Pruning and isolation\<close>

text \<open>The verdicts given along a sequence of operations, one for each request.\<close>

fun verdicts :: "'k Limiter \<Rightarrow> 'k limiter_op list \<Rightarrow> (RateLimitedErr + unit) list" where
  "verdicts l [] = []"
| "verdicts l (Request k now tokens # xs) =
     fst (limiter_allows l now k tokens) # verdicts (snd (limiter_allows l now k tokens)) xs"
| "verdicts l (Prune now # xs) = verdicts (limiter_prune l now) xs"

fun is_request :: "'k limiter_op \<Rightarrow> bool" where
  "is_request (Request k now tokens) = True"
| "is_request (Prune now) = False"

definition same_fill :: "nat \<Rightarrow> 'k Limiter \<Rightarrow> 'k Limiter \<Rightarrow> bool" where
  "same_fill now l l' \<longleftrightarrow> lim_tau l = lim_tau l' \<and> lim_t l = lim_t l' \<and> (\<forall>k. fill l k now = fill l' k now)"

lemma same_fill_later: "same_fill a l l' \<Longrightarrow> a \<le> now \<Longrightarrow> same_fill now l l'"
  by (simp add: same_fill_def fill_later)

lemma same_fill_verdict: "same_fill now l l' \<Longrightarrow> verdict l now k tokens = verdict l' now k tokens"
  by (simp add: same_fill_def verdict_def cost_def)

lemma verdicts_same_fill:
  assumes "same_fill a l l'" "meter_inv t' tau' a l" "meter_inv t' tau' a l'"
    and "sorted (a # map limiter_op_time xs)" "\<forall>x \<in> set xs. op_in_range t' x"
  shows "verdicts l xs = verdicts l' (filter is_request xs)"
  using assms
proof (induction xs arbitrary: a l l')
  case Nil
  then show ?case by simp
next
  case (Cons x xs)
  have le: "a \<le> limiter_op_time x" and ok: "op_in_range t' x" and rest: "\<forall>x \<in> set xs. op_in_range t' x"
    and srt: "sorted (limiter_op_time x # map limiter_op_time xs)" using Cons.prems by auto
  note sim = same_fill_later [OF Cons.prems(1) le]
  note inv = meter_exec_inv [OF Cons.prems(2) le ok]
  show ?case
  proof (cases x)
    case (Request k now tokens)
    have no: "no_overflow l now tokens" "no_overflow l' now tokens"
      using op_in_range_no_overflow [OF Cons.prems(2)] op_in_range_no_overflow [OF Cons.prems(3)] ok Request
      by auto
    have inv0: "limiter_inv a l" "limiter_inv a l'" "a \<le> now"
      using Cons.prems(2,3) le Request by (simp_all add: meter_inv_def)
    note spec = limiter_allows_verdict [OF inv0(1,3) no(1), of k] limiter_allows_verdict [OF inv0(2,3) no(2), of k]
    have ver: "verdict l now k tokens = verdict l' now k tokens"
      using same_fill_verdict sim Request by simp
    have "same_fill now (snd (limiter_allows l now k tokens)) (snd (limiter_allows l' now k tokens))"
      using sim Request ver
      by (simp add: same_fill_def limiter_allows_fill [OF inv0(1,3) no(1)]
          limiter_allows_fill [OF inv0(2,3) no(2)] cost_def)
    from Cons.IH [OF this _ _ _ rest] srt inv meter_exec_inv [OF Cons.prems(3) le ok] spec ver Request
    show ?thesis by simp
  next
    case (Prune now)
    with ok have now: "now < TIME_BOUND" by simp
    have "same_fill now (limiter_prune l now) l'"
      using sim Prune by (simp add: same_fill_def limiter_prune_fill [OF now])
    moreover have "meter_inv t' tau' now l'"
      using Cons.prems(3) le Prune by (auto simp: meter_inv_def intro: limiter_inv_mono)
    ultimately show ?thesis using Cons.IH [of now "limiter_prune l now" l'] srt inv rest Prune by simp
  qed
qed

text \<open>
  C19. Pruning is invisible. In any history at non-decreasing times, the limiter that drops
  the keys whose bucket is full whenever its timer fires gives to every request the same
  verdict as the limiter that never drops a key.
\<close>

theorem prune_transparent:
  assumes "from_quota q = Inr l" "replenish_all_every q < TIME_BOUND"
    and "sorted (map limiter_op_time xs)"
    and "\<forall>x \<in> set xs. op_in_range (replenish_all_every q div unat (max_tokens q)) x"
  shows "verdicts l xs = verdicts l (filter is_request xs)"
  using verdicts_same_fill [OF _ from_quota_inv [OF assms(1,2)] from_quota_inv [OF assms(1,2), of 0]] assms(3,4)
  by (simp add: same_fill_def)

theorem prune_transparent_witness:
  "verdicts \<lparr>lim_tau = 2000000000, lim_t = 500000000, tat_per_key = Map.empty :: nat \<Rightarrow> u64 option\<rparr>
     [Request 0 0 4, Prune 3000000000, Request 0 3000000000 4] =
   verdicts \<lparr>lim_tau = 2000000000, lim_t = 500000000, tat_per_key = Map.empty :: nat \<Rightarrow> u64 option\<rparr>
     [Request 0 0 4, Request 0 3000000000 4]"
proof -
  have q: "from_quota (n_every 4 2) = Inr \<lparr>lim_tau = 2000000000, lim_t = 500000000, tat_per_key = Map.empty\<rparr>"
    by (simp add: from_quota_def n_every_def secs_def Let_def try_into_u64_def U64_MAX_def)
  from prune_transparent [OF q, of "[Request 0 0 4, Prune 3000000000, Request (0 :: nat) 3000000000 4]"]
  show ?thesis by (simp add: n_every_def secs_def TIME_BOUND_def)
qed

text \<open>
  Isolation. Whatever is asked of one protocol and one peer, the limiters of the
  other protocols are untouched and the fill of every other peer is the same; and an
  item always costs at least one token, so a \<open>Goodbye\<close>, which expects no response, is limited too.
\<close>

theorem rl_isolation:
  assumes "p \<noteq> fst item"
  shows "limiter_of p (snd (rl_allows rl now peer item)) = limiter_of p rl \<and>
    (j \<noteq> peer \<longrightarrow> tat_per_key (limiter_of (fst item) (snd (rl_allows rl now peer item))) j =
      tat_per_key (limiter_of (fst item) rl) j) \<and>
    fst (rl_allows rl now peer item) =
      fst (limiter_allows (limiter_of (fst item) rl) (now - init_time rl) peer (max (snd item) 1))"
  using assms
  by (cases "fst item"; cases p) (auto simp: rl_allows_def Let_def limiter_allows_def split: prod.splits)

theorem rl_isolation_witness:
  "let l = \<lparr>lim_tau = 10, lim_t = 10, tat_per_key = Map.empty\<rparr> :: nat Limiter;
       rl = \<lparr>init_time = 0, goodbye_rl = l, ping_rl = l, metadata_rl = l, status_rl = l,
             pooled_user_op_hashes_rl = l, pooled_user_ops_by_hash_rl = l\<rparr>
   in limiter_of Protocol.Ping (snd (rl_allows rl 5 0 (Protocol.Goodbye, 0))) = l \<and>
      tat_per_key (limiter_of Protocol.Goodbye (snd (rl_allows rl 5 0 (Protocol.Goodbye, 0)))) 0 = Some 15"
proof -
  define l :: "nat Limiter" where "l = \<lparr>lim_tau = 10, lim_t = 10, tat_per_key = Map.empty\<rparr>"
  define rl where "rl = \<lparr>init_time = 0, goodbye_rl = l, ping_rl = l, metadata_rl = l, status_rl = l,
             pooled_user_op_hashes_rl = l, pooled_user_ops_by_hash_rl = l\<rparr>"
  have "limiter_of Protocol.Ping (snd (rl_allows rl 5 0 (Protocol.Goodbye, 0))) = l"
    using rl_isolation [of Protocol.Ping "(Protocol.Goodbye, 0)" rl 5 0 1] by (simp add: rl_def)
  moreover have "tat_per_key (limiter_of Protocol.Goodbye (snd (rl_allows rl 5 0 (Protocol.Goodbye, 0)))) 0 = Some 15"
    by (simp add: rl_def rl_allows_def l_def limiter_allows_def as_u64_def sat_sub_def Let_def)
  ultimately show ?thesis by (simp add: rl_def l_def)
qed

end
