(* ===== verification/Rate_Limiter_Config.thy ===== *)
theory Rate_Limiter_Config
  imports Rate_Limiter Rust_Strings
begin

text \<open>
  The configuration of the rate limiter (\<open>p2p_network/src/rpc/config.rs\<close>): the text form of
  a quota, its parser and printer, the parser of a whole configuration, the default
  quotas, and \<open>RPCRateLimiter::new_with_config\<close>.
\<close>

section \<open>Definitions\<close>

subsection \<open>A protocol's quota\<close>

record ProtocolQuota =
  pq_protocol :: Protocol
  pq_quota :: Quota

definition protocol_quota_display :: "ProtocolQuota \<Rightarrow> string" where
  "protocol_quota_display self =
     protocol_as_ref (pq_protocol self) @ '':'' @ show_nat (unat (max_tokens (pq_quota self))) @ ''/'' @
     show_nat (as_secs (replenish_all_every (pq_quota self)))"

definition protocol_quota_from_str :: "string \<Rightarrow> string + ProtocolQuota" where
  "protocol_quota_from_str s =
     bind_res (ok_or (split_once CHR '':'' s) ''Missing ':' from quota definition.'')
       (\<lambda>(protocol_str, quota_str).
     bind_res (ok_or (protocol_from_str protocol_str) ''Wrong protocol representation in quota'')
       (\<lambda>protocol.
     bind_res (ok_or (split_once CHR ''/'' quota_str) ''Quota should be defined as \"n/t\" (t in seconds). Missing '/' from quota.'')
       (\<lambda>(tokens_str, time_str).
     bind_res (ok_or (parse_u64 tokens_str) ''Failed to parse tokens from quota.'') (\<lambda>tokens.
     bind_res (ok_or (parse_u64 time_str) ''Failed to parse time in seconds from quota.'') (\<lambda>seconds.
     Inr \<lparr>pq_protocol = protocol,
          pq_quota = \<lparr>replenish_all_every = secs (unat seconds), max_tokens = tokens\<rparr>\<rparr>)))))"

subsection \<open>The configuration\<close>

record RateLimiterConfig =
  ping_quota :: Quota
  meta_data_quota :: Quota
  status_quota :: Quota
  goodbye_quota :: Quota
  pooled_user_op_hashes_quota :: Quota
  pooled_user_ops_by_hash_quota :: Quota

definition DEFAULT_PING_QUOTA :: Quota where "DEFAULT_PING_QUOTA = n_every 2 10"
definition DEFAULT_META_DATA_QUOTA :: Quota where "DEFAULT_META_DATA_QUOTA = n_every 2 5"
definition DEFAULT_STATUS_QUOTA :: Quota where "DEFAULT_STATUS_QUOTA = n_every 5 15"
definition DEFAULT_GOODBYE_QUOTA :: Quota where "DEFAULT_GOODBYE_QUOTA = one_every 10"
definition DEFAULT_POOLED_USER_OP_HASHES_QUOTA :: Quota where
  "DEFAULT_POOLED_USER_OP_HASHES_QUOTA = n_every MAX_REQUEST_BLOCKS 10"
definition DEFAULT_POOLED_USER_OPS_BY_HASH_QUOTA :: Quota where
  "DEFAULT_POOLED_USER_OPS_BY_HASH_QUOTA = n_every 128 10"

definition default_config :: RateLimiterConfig where
  "default_config =
     \<lparr>ping_quota = DEFAULT_PING_QUOTA, meta_data_quota = DEFAULT_META_DATA_QUOTA,
      status_quota = DEFAULT_STATUS_QUOTA, goodbye_quota = DEFAULT_GOODBYE_QUOTA,
      pooled_user_op_hashes_quota = DEFAULT_POOLED_USER_OP_HASHES_QUOTA,
      pooled_user_ops_by_hash_quota = DEFAULT_POOLED_USER_OPS_BY_HASH_QUOTA\<rparr>"

text \<open>The six optional quotas that the loop of \<open>from_str\<close> fills in.\<close>

record quota_opts =
  o_ping :: "Quota option"
  o_meta_data :: "Quota option"
  o_status :: "Quota option"
  o_goodbye :: "Quota option"
  o_pooled_user_op_hashes :: "Quota option"
  o_pooled_user_ops_by_hash :: "Quota option"

definition no_quotas :: quota_opts where
  "no_quotas = \<lparr>o_ping = None, o_meta_data = None, o_status = None, o_goodbye = None,
     o_pooled_user_op_hashes = None, o_pooled_user_ops_by_hash = None\<rparr>"

fun or_quota :: "Protocol \<Rightarrow> Quota \<Rightarrow> quota_opts \<Rightarrow> quota_opts" where
  "or_quota Protocol.Status q os = os\<lparr>o_status := or_opt (o_status os) (Some q)\<rparr>"
| "or_quota Protocol.Goodbye q os = os\<lparr>o_goodbye := or_opt (o_goodbye os) (Some q)\<rparr>"
| "or_quota Protocol.PooledUserOpHashes q os =
     os\<lparr>o_pooled_user_op_hashes := or_opt (o_pooled_user_op_hashes os) (Some q)\<rparr>"
| "or_quota Protocol.PooledUserOpsByHash q os =
     os\<lparr>o_pooled_user_ops_by_hash := or_opt (o_pooled_user_ops_by_hash os) (Some q)\<rparr>"
| "or_quota Protocol.Ping q os = os\<lparr>o_ping := or_opt (o_ping os) (Some q)\<rparr>"
| "or_quota Protocol.MetaData q os = os\<lparr>o_meta_data := or_opt (o_meta_data os) (Some q)\<rparr>"

definition config_from_str :: "string \<Rightarrow> string + RateLimiterConfig" where
  "config_from_str s =
     bind_res
       (try_fold (\<lambda>os proto_def.
            map_res (\<lambda>pq. or_quota (pq_protocol pq) (pq_quota pq) os) (protocol_quota_from_str proto_def))
          no_quotas (split_char CHR '';'' s))
       (\<lambda>os. Inr \<lparr>ping_quota = unwrap_or (o_ping os) DEFAULT_PING_QUOTA,
         meta_data_quota = unwrap_or (o_meta_data os) DEFAULT_META_DATA_QUOTA,
         status_quota = unwrap_or (o_status os) DEFAULT_STATUS_QUOTA,
         goodbye_quota = unwrap_or (o_goodbye os) DEFAULT_GOODBYE_QUOTA,
         pooled_user_op_hashes_quota =
           unwrap_or (o_pooled_user_op_hashes os) DEFAULT_POOLED_USER_OP_HASHES_QUOTA,
         pooled_user_ops_by_hash_quota =
           unwrap_or (o_pooled_user_ops_by_hash os) DEFAULT_POOLED_USER_OPS_BY_HASH_QUOTA\<rparr>)"

datatype OutboundRateLimiterConfig = OutboundRateLimiterConfig RateLimiterConfig
datatype InboundRateLimiterConfig = InboundRateLimiterConfig RateLimiterConfig

definition outbound_config_from_str :: "string \<Rightarrow> string + OutboundRateLimiterConfig" where
  "outbound_config_from_str s = map_res OutboundRateLimiterConfig (config_from_str s)"

definition inbound_config_from_str :: "string \<Rightarrow> string + InboundRateLimiterConfig" where
  "inbound_config_from_str s = map_res InboundRateLimiterConfig (config_from_str s)"

definition new_with_config :: "RateLimiterConfig \<Rightarrow> instant \<Rightarrow> string + 'p RPCRateLimiter" where
  "new_with_config config now =
     build (set_quota Protocol.PooledUserOpsByHash (pooled_user_ops_by_hash_quota config)
           (set_quota Protocol.PooledUserOpHashes (pooled_user_op_hashes_quota config)
           (set_quota Protocol.Goodbye (goodbye_quota config)
           (set_quota Protocol.Status (status_quota config)
           (set_quota Protocol.MetaData (meta_data_quota config)
           (set_quota Protocol.Ping (ping_quota config) builder)))))) now"

section \<open>Correctness of the text form\<close>

lemma protocol_as_ref_no_sep: "CHR '':'' \<notin> set (protocol_as_ref p)" "CHR '';'' \<notin> set (protocol_as_ref p)"
  by (cases p; simp)+

definition whole_seconds :: "ProtocolQuota \<Rightarrow> bool" where
  "whole_seconds pq \<longleftrightarrow> as_secs (replenish_all_every (pq_quota pq)) \<le> U64_MAX \<and>
     replenish_all_every (pq_quota pq) = secs (as_secs (replenish_all_every (pq_quota pq)))"

lemma display_parse:
  assumes "as_secs (replenish_all_every (pq_quota pq)) \<le> U64_MAX"
  shows "protocol_quota_from_str (protocol_quota_display pq) =
    Inr (pq\<lparr>pq_quota := (pq_quota pq)\<lparr>replenish_all_every := secs (as_secs (replenish_all_every (pq_quota pq)))\<rparr>\<rparr>)"
proof -
  have "unat (max_tokens (pq_quota pq)) \<le> U64_MAX"
    using unat_less_u64 [of "max_tokens (pq_quota pq)"] by (simp add: U64_MAX_def)
  then have tok: "parse_u64 (show_nat (unat (max_tokens (pq_quota pq)))) = Some (max_tokens (pq_quota pq))"
    using parse_u64_show by simp
  have sec: "unat (word_of_nat (as_secs (replenish_all_every (pq_quota pq))) :: u64) =
      as_secs (replenish_all_every (pq_quota pq))"
    using assms by (simp add: unat_of_nat U64_MAX_def)
  show ?thesis
    by (simp add: protocol_quota_from_str_def protocol_quota_display_def split_once_append
        protocol_as_ref_no_sep show_nat_no_sep tok parse_u64_show [OF assms] sec)
qed

lemma display_no_semicolon: "CHR '';'' \<notin> set (protocol_quota_display pq)"
  by (simp add: protocol_quota_display_def protocol_as_ref_no_sep show_nat_no_sep)

lemma display_parse_whole: "whole_seconds pq \<Longrightarrow> protocol_quota_from_str (protocol_quota_display pq) = Inr pq"
  using display_parse [of pq] unfolding whole_seconds_def by simp

section \<open>Properties\<close>

text \<open>
  Printing and parsing a quota: the text of a quota parses back to the same protocol
  and the same number of tokens, and to its replenish time rounded down to whole seconds.
\<close>

theorem protocol_quota_roundtrip:
  assumes "as_secs (replenish_all_every (pq_quota pq)) \<le> U64_MAX"
  shows "protocol_quota_from_str (protocol_quota_display pq) =
    Inr \<lparr>pq_protocol = pq_protocol pq, pq_quota =
      \<lparr>replenish_all_every = secs (as_secs (replenish_all_every (pq_quota pq))),
       max_tokens = max_tokens (pq_quota pq)\<rparr>\<rparr>"
  using display_parse [OF assms] by simp

theorem protocol_quota_roundtrip_witness:
  "protocol_quota_display \<lparr>pq_protocol = Protocol.Goodbye, pq_quota = n_every 8 10\<rparr> = ''goodbye:8/10'' \<and>
   protocol_quota_from_str ''goodbye:8/10'' = Inr \<lparr>pq_protocol = Protocol.Goodbye, pq_quota = n_every 8 10\<rparr>"
proof -
  have shown: "protocol_quota_display \<lparr>pq_protocol = Protocol.Goodbye, pq_quota = n_every 8 10\<rparr> = ''goodbye:8/10''"
    by (simp add: protocol_quota_display_def n_every_def show_nat.simps char_of_def bit_0)
  have "as_secs (replenish_all_every (pq_quota \<lparr>pq_protocol = Protocol.Goodbye, pq_quota = n_every 8 10\<rparr>)) \<le> U64_MAX"
    by (simp add: n_every_def U64_MAX_def)
  from protocol_quota_roundtrip [OF this] shown show ?thesis by (simp add: n_every_def)
qed

fun config_quota :: "Protocol \<Rightarrow> RateLimiterConfig \<Rightarrow> Quota" where
  "config_quota Protocol.Ping c = ping_quota c"
| "config_quota Protocol.MetaData c = meta_data_quota c"
| "config_quota Protocol.Status c = status_quota c"
| "config_quota Protocol.Goodbye c = goodbye_quota c"
| "config_quota Protocol.PooledUserOpHashes c = pooled_user_op_hashes_quota c"
| "config_quota Protocol.PooledUserOpsByHash c = pooled_user_ops_by_hash_quota c"

fun opts_quota :: "Protocol \<Rightarrow> quota_opts \<Rightarrow> Quota option" where
  "opts_quota Protocol.Ping os = o_ping os"
| "opts_quota Protocol.MetaData os = o_meta_data os"
| "opts_quota Protocol.Status os = o_status os"
| "opts_quota Protocol.Goodbye os = o_goodbye os"
| "opts_quota Protocol.PooledUserOpHashes os = o_pooled_user_op_hashes os"
| "opts_quota Protocol.PooledUserOpsByHash os = o_pooled_user_ops_by_hash os"

lemma opts_quota_or:
  "opts_quota p (or_quota p' q os) = (if p = p' then or_opt (opts_quota p os) (Some q) else opts_quota p os)"
  by (cases p; cases p') simp_all

lemma try_fold_quotas:
  assumes "\<forall>pq \<in> set pqs. whole_seconds pq"
  shows "\<exists>os'. try_fold (\<lambda>os proto_def.
            map_res (\<lambda>pq. or_quota (pq_protocol pq) (pq_quota pq) os) (protocol_quota_from_str proto_def))
          os (map protocol_quota_display pqs) = Inr os' \<and>
    (\<forall>p. opts_quota p os' = or_opt (opts_quota p os) (map_option pq_quota (find (\<lambda>pq. pq_protocol pq = p) pqs)))"
  using assms
proof (induction pqs arbitrary: os)
  case Nil
  have "or_opt x None = x" for x :: "Quota option" by (cases x) simp_all
  then show ?case by simp
next
  case (Cons pq pqs)
  have assoc: "or_opt (or_opt x (Some q)) y = or_opt x (Some q)" for x y :: "Quota option" and q
    by (cases x) simp_all
  from Cons show ?case
    using Cons.IH [of "or_quota (pq_protocol pq) (pq_quota pq) os"]
    by (auto simp: display_parse_whole opts_quota_or assoc)
qed

text \<open>
  The parser of a configuration. For every non-empty list of quotas in whole seconds,
  the text in which they are separated by semicolons parses, and each protocol gets the
  first quota the list gives for it, or its default when the list gives none.
\<close>

theorem config_first_quota_wins:
  assumes "pqs \<noteq> []" "\<forall>pq \<in> set pqs. whole_seconds pq"
  shows "\<exists>c. config_from_str (join CHR '';'' (map protocol_quota_display pqs)) = Inr c \<and>
    (\<forall>p. config_quota p c =
      (case find (\<lambda>pq. pq_protocol pq = p) pqs of
         Some pq \<Rightarrow> pq_quota pq | None \<Rightarrow> config_quota p default_config))"
proof -
  have split: "split_char CHR '';'' (join CHR '';'' (map protocol_quota_display pqs)) = map protocol_quota_display pqs"
    using assms(1) display_no_semicolon by (intro split_char_join) auto
  obtain os where os: "try_fold (\<lambda>os proto_def.
            map_res (\<lambda>pq. or_quota (pq_protocol pq) (pq_quota pq) os) (protocol_quota_from_str proto_def))
          no_quotas (map protocol_quota_display pqs) = Inr os"
    "\<And>p. opts_quota p os = or_opt (opts_quota p no_quotas) (map_option pq_quota (find (\<lambda>pq. pq_protocol pq = p) pqs))"
    using try_fold_quotas [OF assms(2), of no_quotas] by blast
  from os(2) have none: "opts_quota p os = map_option pq_quota (find (\<lambda>pq. pq_protocol pq = p) pqs)" for p
    by (cases p) (simp_all add: no_quotas_def)
  have "config_quota p c = unwrap_or (opts_quota p os) (config_quota p default_config)"
    if "config_from_str (join CHR '';'' (map protocol_quota_display pqs)) = Inr c" for p c
    using that by (cases p) (auto simp: config_from_str_def split os(1) default_config_def)
  moreover have "\<exists>c. config_from_str (join CHR '';'' (map protocol_quota_display pqs)) = Inr c"
    by (simp add: config_from_str_def split os(1))
  ultimately show ?thesis by (auto simp: none split: option.splits)
qed

theorem config_first_quota_wins_witness:
  "\<exists>c. config_from_str ''ping:1/2;ping:3/4'' = Inr c \<and>
    ping_quota c = n_every 1 2 \<and> goodbye_quota c = DEFAULT_GOODBYE_QUOTA"
proof -
  let ?pqs = "[\<lparr>pq_protocol = Protocol.Ping, pq_quota = n_every 1 2\<rparr>, \<lparr>pq_protocol = Protocol.Ping, pq_quota = n_every 3 4\<rparr>]"
  have shown: "join CHR '';'' (map protocol_quota_display ?pqs) = ''ping:1/2;ping:3/4''"
    by (simp add: protocol_quota_display_def n_every_def show_nat.simps char_of_def bit_0)
  have "\<forall>pq \<in> set ?pqs. whole_seconds pq"
    by (auto simp: whole_seconds_def n_every_def U64_MAX_def)
  from config_first_quota_wins [OF _ this] shown obtain c where
    c: "config_from_str ''ping:1/2;ping:3/4'' = Inr c" and
    q: "\<And>p. config_quota p c = (case find (\<lambda>pq. pq_protocol pq = p) ?pqs of
         Some pq \<Rightarrow> pq_quota pq | None \<Rightarrow> config_quota p default_config)" by auto
  show ?thesis using c q [of Protocol.Ping] q [of Protocol.Goodbye] by (simp add: default_config_def)
qed

definition same_rates :: "'p RPCRateLimiter \<Rightarrow> 'p RPCRateLimiter \<Rightarrow> bool" where
  "same_rates a b \<longleftrightarrow> (\<forall>p. lim_tau (limiter_of p a) = lim_tau (limiter_of p b) \<and>
     lim_t (limiter_of p a) = lim_t (limiter_of p b))"

lemma same_rates_allows: "same_rates rl (snd (rl_allows rl now peer item))"
proof -
  have "lim_tau (limiter_of p (set_limiter q l rl)) = (if p = q then lim_tau l else lim_tau (limiter_of p rl)) \<and>
    lim_t (limiter_of p (set_limiter q l rl)) = (if p = q then lim_t l else lim_t (limiter_of p rl))" for p q l
    by (cases p; cases q) simp_all
  then show ?thesis
    using limiter_allows_params [of "limiter_of (fst item) rl" "now - init_time rl" peer "max (snd item) 1"]
    by (simp add: same_rates_def rl_allows_def Let_def split_beta)
qed

lemma same_rates_prune: "same_rates rl (rl_prune rl now)"
proof -
  have "lim_tau (limiter_of p (rl_prune rl now)) = lim_tau (limiter_of p rl) \<and>
    lim_t (limiter_of p (rl_prune rl now)) = lim_t (limiter_of p rl)" for p
    by (cases p) (simp_all add: rl_prune_def Let_def)
  then show ?thesis by (simp add: same_rates_def)
qed

lemma limiter_allows_too_large:
  "fst (limiter_allows l now k tokens) = Inl TooLarge \<longleftrightarrow> lim_t l * tokens > lim_tau l"
  by (auto simp: limiter_allows_def Let_def)

text \<open>
  The default configuration is usable: it builds a limiter, and no inbound or outbound
  request of any kind is ever refused as too large by that limiter, in any later state
  (the operations never change the rates), so a refusal always carries a finite waiting time.
\<close>

theorem default_config_never_too_large:
  "\<exists>rl. new_with_config default_config now0 = Inr rl \<and>
     (\<forall>rl' now (peer :: 'p) inreq outreq. same_rates rl rl' \<longrightarrow>
        fst (rl_allows rl' now peer (inbound_item inreq)) \<noteq> Inl TooLarge \<and>
        fst (rl_allows rl' now peer (outbound_item outreq)) \<noteq> Inl TooLarge)"
proof -
  define mk :: "u64 \<Rightarrow> u64 \<Rightarrow> 'p Limiter" where
    "mk a b = \<lparr>lim_tau = a, lim_t = b, tat_per_key = Map.empty\<rparr>" for a b
  define rl where "rl = \<lparr>init_time = now0, goodbye_rl = mk 10000000000 10000000000,
     ping_rl = mk 10000000000 5000000000, metadata_rl = mk 5000000000 2500000000,
     status_rl = mk 15000000000 3000000000, pooled_user_op_hashes_rl = mk 10000000000 9765625,
     pooled_user_ops_by_hash_rl = mk 10000000000 78125000\<rparr>"
  have built: "new_with_config default_config now0 = Inr rl"
    by (simp add: new_with_config_def build_def default_config_def builder_def rl_def mk_def
        DEFAULT_PING_QUOTA_def DEFAULT_META_DATA_QUOTA_def DEFAULT_STATUS_QUOTA_def DEFAULT_GOODBYE_QUOTA_def
        DEFAULT_POOLED_USER_OP_HASHES_QUOTA_def DEFAULT_POOLED_USER_OPS_BY_HASH_QUOTA_def
        MAX_REQUEST_BLOCKS_def n_every_def one_every_def secs_def from_quota_def Let_def
        try_into_u64_def U64_MAX_def)
  have "fst (rl_allows rl' now peer item) \<noteq> Inl TooLarge"
    if "same_rates rl rl'" "(\<exists>r. item = inbound_item r) \<or> (\<exists>r. item = outbound_item r)"
    for rl' now and peer :: 'p and item
  proof -
    have "lim_t (limiter_of (fst item) rl) * max (snd item) 1 \<le> lim_tau (limiter_of (fst item) rl)"
      using that(2)
    proof
      assume "\<exists>r. item = inbound_item r"
      then obtain r where "item = inbound_item r" ..
      then show ?thesis by (cases r) (simp_all add: inbound_item_def rl_def mk_def)
    next
      assume "\<exists>r. item = outbound_item r"
      then obtain r where "item = outbound_item r" ..
      then show ?thesis by (cases r) (simp_all add: outbound_item_def rl_def mk_def)
    qed
    with that(1) show ?thesis
      by (simp add: rl_allows_def Let_def limiter_allows_too_large same_rates_def split_beta not_less)
  qed
  with built show ?thesis by blast
qed

theorem default_config_never_too_large_witness:
  "\<exists>rl :: nat RPCRateLimiter. new_with_config default_config 0 = Inr rl \<and>
     fst (rl_allows rl 7 3 (outbound_item OutboundRequest.MetaData)) \<noteq> Inl TooLarge"
  using default_config_never_too_large [of 0, where ?'p = nat]
  by (auto simp: same_rates_def)

end
