(* ===== verification/Self_Limiter.thy ===== *)
theory Self_Limiter
  imports Rate_Limiter_Config
begin

text \<open>
  The limiter of our own requests (\<open>p2p_network/src/rpc/self_limiter.rs\<close>) and the commands
  to the connection handlers (\<open>RPCSend\<close> and \<open>BehaviourAction\<close> of \<open>rpc/mod.rs\<close>). A request
  that the rate limiter refuses waits in the queue of its peer and protocol, and a timer
  of the \<open>DelayQueue\<close> (crate \<open>tokio_util\<close>) is armed. The delay queue is the collection of
  its armed timers with their deadlines; which expired timer a poll returns is an argument
  of \<open>poll_ready\<close>. Requests of one peer and protocol share one timer.
\<close>

section \<open>Definitions\<close>

type_synonym SubstreamId = usize

datatype 'id RPCSend =
    Request 'id OutboundRequest
  | Response SubstreamId RPCCodedResponse
  | Shutdown 'id GoodbyeReason

text \<open>
  \<open>ToSwarm\<close>: the actions of a behaviour that this crate emits, and \<open>NotifyHandler\<close> of the library:
  whether one connection of the peer is meant or any of them.
\<close>

type_synonym ConnectionId = usize

datatype NotifyTarget = One ConnectionId | Any

datatype ('id, 'p, 'ev) BehaviourAction =
    NotifyHandler 'p NotifyTarget "'id RPCSend"
  | GenerateEvent 'ev

record 'id QueuedRequest =
  q_req :: OutboundRequest
  q_request_id :: 'id

record ('id, 'p, 'ev) SelfRateLimiter =
  delayed_requests :: "'p \<times> Protocol \<Rightarrow> 'id QueuedRequest list option"
  next_peer_request :: "(('p \<times> Protocol) \<times> instant) list"
  limiter :: "'p RPCRateLimiter"
  ready_requests :: "('id, 'p, 'ev) BehaviourAction list"

datatype SelfLimiterError = PendingRequests | RateLimited

fun self_limiter_new ::
    "OutboundRateLimiterConfig \<Rightarrow> instant \<Rightarrow> string + ('id, 'p, 'ev) SelfRateLimiter" where
  "self_limiter_new (OutboundRateLimiterConfig config) now =
     bind_res (new_with_config config now) (\<lambda>rl.
     Inr \<lparr>delayed_requests = Map.empty, next_peer_request = [], limiter = rl, ready_requests = []\<rparr>)"

definition try_send_request ::
    "'p RPCRateLimiter \<Rightarrow> instant \<Rightarrow> 'p \<Rightarrow> 'id \<Rightarrow> OutboundRequest \<Rightarrow>
     ('id QueuedRequest \<times> duration + ('id, 'p, 'ev) BehaviourAction) \<times> 'p RPCRateLimiter" where
  "try_send_request rl now peer_id request_id req =
     (case rl_allows rl now peer_id (outbound_item req) of
        (Inr _, rl') \<Rightarrow> (Inr (NotifyHandler peer_id Any (RPCSend.Request request_id req)), rl')
      | (Inl TooLarge, rl') \<Rightarrow> (Inr (NotifyHandler peer_id Any (RPCSend.Request request_id req)), rl')
      | (Inl (TooSoon wait_time), rl') \<Rightarrow>
          (Inl (\<lparr>q_req = req, q_request_id = request_id\<rparr>, wait_time), rl'))"

definition self_allows ::
    "('id, 'p, 'ev) SelfRateLimiter \<Rightarrow> instant \<Rightarrow> 'p \<Rightarrow> 'id \<Rightarrow> OutboundRequest \<Rightarrow>
     (SelfLimiterError + ('id, 'p, 'ev) BehaviourAction) \<times> ('id, 'p, 'ev) SelfRateLimiter" where
  "self_allows self now peer_id request_id req =
     (let key = (peer_id, protocol_of (outbound_versioned_protocol req))
      in case delayed_requests self key of
           Some queued_requests \<Rightarrow>
             (Inl PendingRequests, self\<lparr>delayed_requests := (delayed_requests self)
                (key \<mapsto> queued_requests @ [\<lparr>q_req = req, q_request_id = request_id\<rparr>])\<rparr>)
         | None \<Rightarrow>
             (case try_send_request (limiter self) now peer_id request_id req of
                (Inl (rate_limited_req, wait_time), rl') \<Rightarrow>
                  (Inl RateLimited, self\<lparr>limiter := rl',
                     next_peer_request := next_peer_request self @ [(key, now + wait_time)],
                     delayed_requests := (delayed_requests self)
                       (key \<mapsto> unwrap_or (delayed_requests self key) [] @ [rate_limited_req])\<rparr>)
              | (Inr event, rl') \<Rightarrow> (Inr event, self\<lparr>limiter := rl'\<rparr>)))"

text \<open>
  The loop of \<open>next_peer_request_ready\<close>. Its results: the limiter, the events that became
  ready, the queue that remains, and the waiting time if the loop stopped at a refusal. Each
  turn reads the clock once; \<open>clock i\<close> is the reading of the i-th turn.
\<close>

fun ready_loop ::
    "(nat \<Rightarrow> instant) \<Rightarrow> nat \<Rightarrow> 'p \<Rightarrow> 'p RPCRateLimiter \<Rightarrow> 'id QueuedRequest list \<Rightarrow> ('id, 'p, 'ev) BehaviourAction list \<Rightarrow>
     'p RPCRateLimiter \<times> ('id, 'p, 'ev) BehaviourAction list \<times> 'id QueuedRequest list \<times> instant option" where
  "ready_loop clock i peer_id rl [] ready = (rl, ready, [], None)"
| "ready_loop clock i peer_id rl (qr # queued) ready =
     (case try_send_request rl (clock i) peer_id (q_request_id qr) (q_req qr) of
        (Inl (rate_limited_req, wait_time), rl') \<Rightarrow>
          (rl', ready, queued @ [rate_limited_req], Some (clock i + wait_time))
      | (Inr event, rl') \<Rightarrow> ready_loop clock (Suc i) peer_id rl' queued (ready @ [event]))"

definition next_peer_request_ready ::
    "('id, 'p, 'ev) SelfRateLimiter \<Rightarrow> (nat \<Rightarrow> instant) \<Rightarrow> 'p \<Rightarrow> Protocol \<Rightarrow> ('id, 'p, 'ev) SelfRateLimiter" where
  "next_peer_request_ready self clock peer_id protocol =
     (let key = (peer_id, protocol)
      in case delayed_requests self key of
           None \<Rightarrow> self
         | Some queued \<Rightarrow>
             (case ready_loop clock 0 peer_id (limiter self) queued (ready_requests self) of
                (rl', ready', queued', Some deadline) \<Rightarrow>
                  self\<lparr>limiter := rl', ready_requests := ready',
                    next_peer_request := next_peer_request self @ [(key, deadline)],
                    delayed_requests := (delayed_requests self)(key \<mapsto> queued')\<rparr>
              | (rl', ready', queued', None) \<Rightarrow>
                  self\<lparr>limiter := rl', ready_requests := ready',
                    delayed_requests := (if queued' = [] then (delayed_requests self)(key := None)
                       else (delayed_requests self)(key \<mapsto> queued'))\<rparr>))"

text \<open>
  \<open>poll_ready\<close>: the timer that \<open>poll_expired\<close> returns leaves the delay queue; the ticks of
  the pruning interval are given as in \<open>rl_poll\<close>.
\<close>

definition poll_ready ::
    "('id, 'p, 'ev) SelfRateLimiter \<Rightarrow> (('p \<times> Protocol) \<times> instant) option \<Rightarrow> (nat \<Rightarrow> instant) \<Rightarrow> instant list \<Rightarrow>
     ('id, 'p, 'ev) BehaviourAction option \<times> ('id, 'p, 'ev) SelfRateLimiter" where
  "poll_ready self expired clock ready_ticks =
     (let self1 = (case expired of
                     None \<Rightarrow> self
                   | Some timer \<Rightarrow>
                       next_peer_request_ready
                         (self\<lparr>next_peer_request := remove1 timer (next_peer_request self)\<rparr>)
                         clock (fst (fst timer)) (snd (fst timer)));
          self2 = self1\<lparr>limiter := rl_poll (limiter self1) ready_ticks\<rparr>
      in case ready_requests self2 of
           [] \<Rightarrow> (None, self2)
         | event # rest \<Rightarrow> (Some event, self2\<lparr>ready_requests := rest\<rparr>))"

section \<open>Every waiting request has a timer\<close>

definition self_inv :: "('id, 'p, 'ev) SelfRateLimiter \<Rightarrow> bool" where
  "self_inv self \<longleftrightarrow>
     distinct (map fst (next_peer_request self)) \<and>
     set (map fst (next_peer_request self)) = dom (delayed_requests self) \<and>
     (\<forall>key q. delayed_requests self key = Some q \<longrightarrow> q \<noteq> [])"

declare split_paired_All [simp del] split_paired_Ex [simp del]

lemma self_new_inv: "self_limiter_new config now = Inr self \<Longrightarrow> self_inv self"
  by (cases config) (auto simp: bind_res_Inr_iff self_inv_def)

text \<open>The two ways in which a queue appears or grows.\<close>

lemma self_inv_limiter [simp]:
  "self_inv (self\<lparr>limiter := rl\<rparr>) = self_inv self"
  "self_inv (self\<lparr>ready_requests := ready\<rparr>) = self_inv self"
  by (simp_all add: self_inv_def)

lemma self_inv_arm:
  assumes "self_inv self" "k \<notin> dom (delayed_requests self)" "q \<noteq> []"
  shows "self_inv (self\<lparr>limiter := rl, next_peer_request := next_peer_request self @ [(k, d)],
    delayed_requests := (delayed_requests self)(k \<mapsto> q)\<rparr>)"
  using assms unfolding self_inv_def by (auto simp: image_iff split: if_splits)

lemma self_inv_grow:
  assumes "self_inv self" "k \<in> dom (delayed_requests self)" "q \<noteq> []"
  shows "self_inv (self\<lparr>delayed_requests := (delayed_requests self)(k \<mapsto> q)\<rparr>)"
proof -
  have "insert k (dom (delayed_requests self)) = dom (delayed_requests self)" using assms(2) by blast
  with assms show ?thesis unfolding self_inv_def by (simp split: if_splits)
qed

text \<open>
  The outcome of \<open>self_allows\<close>, branch by branch: an armed key only queues; a fresh key
  asks the limiter and is sent, or is queued alone with its timer armed.
\<close>

definition request_key :: "'p \<Rightarrow> OutboundRequest \<Rightarrow> 'p \<times> Protocol" where
  "request_key peer_id req = (peer_id, protocol_of (outbound_versioned_protocol req))"

definition limiter_verdict :: "'p RPCRateLimiter \<Rightarrow> instant \<Rightarrow> 'p \<Rightarrow> OutboundRequest \<Rightarrow> duration option" where
  "limiter_verdict rl now peer_id req =
     (case fst (rl_allows rl now peer_id (outbound_item req)) of Inl (TooSoon w) \<Rightarrow> Some w | _ \<Rightarrow> None)"

definition limiter_after :: "'p RPCRateLimiter \<Rightarrow> instant \<Rightarrow> 'p \<Rightarrow> OutboundRequest \<Rightarrow> 'p RPCRateLimiter" where
  "limiter_after rl now peer_id req = snd (rl_allows rl now peer_id (outbound_item req))"

definition send_event :: "'p \<Rightarrow> 'id QueuedRequest \<Rightarrow> ('id, 'p, 'ev) BehaviourAction" where
  "send_event peer_id qr = NotifyHandler peer_id Any (RPCSend.Request (q_request_id qr) (q_req qr))"

lemma try_send_request_eq:
  "try_send_request rl now peer_id request_id req =
     (case limiter_verdict rl now peer_id req of
        None \<Rightarrow> Inr (send_event peer_id \<lparr>q_req = req, q_request_id = request_id\<rparr>)
      | Some w \<Rightarrow> Inl (\<lparr>q_req = req, q_request_id = request_id\<rparr>, w), limiter_after rl now peer_id req)"
proof -
  obtain v rl' where v: "rl_allows rl now peer_id (outbound_item req) = (v, rl')" by fastforce
  note defs = try_send_request_def limiter_verdict_def limiter_after_def send_event_def v
  show ?thesis
  proof (cases v)
    case (Inl e)
    then show ?thesis by (cases e) (simp_all add: defs)
  next
    case (Inr u)
    then show ?thesis by (simp add: defs)
  qed
qed

lemma self_allows_eq:
  "self_allows self now peer_id request_id req =
    (case delayed_requests self (request_key peer_id req) of
       Some q \<Rightarrow> (Inl PendingRequests, self\<lparr>delayed_requests := (delayed_requests self)
           (request_key peer_id req \<mapsto> q @ [\<lparr>q_req = req, q_request_id = request_id\<rparr>])\<rparr>)
     | None \<Rightarrow>
         (case limiter_verdict (limiter self) now peer_id req of
            None \<Rightarrow> (Inr (send_event peer_id \<lparr>q_req = req, q_request_id = request_id\<rparr>),
                     self\<lparr>limiter := limiter_after (limiter self) now peer_id req\<rparr>)
          | Some w \<Rightarrow> (Inl RateLimited, self\<lparr>limiter := limiter_after (limiter self) now peer_id req,
              next_peer_request := next_peer_request self @ [(request_key peer_id req, now + w)],
              delayed_requests := (delayed_requests self)
                (request_key peer_id req \<mapsto> [\<lparr>q_req = req, q_request_id = request_id\<rparr>])\<rparr>)))"
  by (simp add: self_allows_def Let_def try_send_request_eq request_key_def split: option.splits)

lemma self_allows_inv:
  "self_inv self \<Longrightarrow> self_inv (snd (self_allows self now peer_id request_id req))"
  by (auto simp: self_allows_eq intro: self_inv_arm self_inv_grow split: option.splits)

text \<open>
  What the loop does to a queue: a prefix becomes ready in order; if the loop stops at a
  refusal the refused request moves to the back.
\<close>

lemma ready_loop_Cons:
  "ready_loop clock i peer_id rl (qr # q) ready =
    (case limiter_verdict rl (clock i) peer_id (q_req qr) of
       None \<Rightarrow> ready_loop clock (Suc i) peer_id (limiter_after rl (clock i) peer_id (q_req qr)) q
                (ready @ [send_event peer_id qr])
     | Some w \<Rightarrow> (limiter_after rl (clock i) peer_id (q_req qr), ready, q @ [qr], Some (clock i + w)))"
  by (simp add: try_send_request_eq send_event_def split: option.splits)

lemma ready_loop_split:
  assumes "ready_loop clock i peer_id rl q ready = (rl', ready', q', deadline)"
  shows "\<exists>sent rest. q = sent @ rest \<and> ready' = ready @ map (send_event peer_id) sent \<and>
     q' = rotate1 rest \<and> (deadline = None \<longleftrightarrow> rest = [])"
  using assms
proof (induction q arbitrary: i rl ready)
  case Nil
  then show ?case by simp
next
  case (Cons qr q)
  show ?case
  proof (cases "limiter_verdict rl (clock i) peer_id (q_req qr)")
    case (Some w)
    with Cons.prems show ?thesis
      by (intro exI [of _ "[]"] exI [of _ "qr # q"]) (auto simp: ready_loop_Cons simp del: ready_loop.simps)
  next
    case None
    with Cons.prems have "ready_loop clock (Suc i) peer_id (limiter_after rl (clock i) peer_id (q_req qr)) q
        (ready @ [send_event peer_id qr]) = (rl', ready', q', deadline)"
      by (simp add: ready_loop_Cons del: ready_loop.simps)
    from Cons.IH [OF this] obtain sent rest where
      "q = sent @ rest" "ready' = (ready @ [send_event peer_id qr]) @ map (send_event peer_id) sent"
      "q' = rotate1 rest" "deadline = None \<longleftrightarrow> rest = []" by blast
    then show ?thesis by (intro exI [of _ "qr # sent"] exI [of _ rest]) simp
  qed
qed


lemma next_peer_request_ready_inv:
  assumes "self_inv self" "(k, d) \<in> set (next_peer_request self)"
  shows "self_inv (next_peer_request_ready
    (self\<lparr>next_peer_request := remove1 (k, d) (next_peer_request self)\<rparr>) clock (fst k) (snd k))"
proof -
  let ?rest = "remove1 (k, d) (next_peer_request self)"
  note keys = remove1_keys [OF _ assms(2)]
  have "k \<in> dom (delayed_requests self)"
    using assms by (force simp: self_inv_def)
  then obtain q where q: "delayed_requests self k = Some q" by blast
  obtain rl' ready' q' deadline where loop:
    "ready_loop clock 0 (fst k) (limiter self) q (ready_requests self) = (rl', ready', q', deadline)"
    by (cases "ready_loop clock 0 (fst k) (limiter self) q (ready_requests self)") blast
  from ready_loop_split [OF loop] obtain rest where
    rest: "q' = rotate1 rest" "deadline = None \<longleftrightarrow> rest = []" by blast
  have inv: "distinct (map fst ?rest)" "set (map fst ?rest) = dom (delayed_requests self) - {k}"
    "\<And>j p. delayed_requests self j = Some p \<Longrightarrow> p \<noteq> []"
    using assms(1) keys unfolding self_inv_def by blast+
  show ?thesis
  proof (cases deadline)
    case None
    with rest inv show ?thesis
      by (auto simp: next_peer_request_ready_def q loop self_inv_def split: if_splits)
  next
    case (Some dl)
    with rest have "q' \<noteq> []" by simp
    have "k \<notin> set (map fst ?rest)" using inv by simp
    with Some inv q \<open>q' \<noteq> []\<close> show ?thesis
      by (simp add: next_peer_request_ready_def q loop self_inv_def insert_absorb)
  qed
qed

lemma poll_ready_inv:
  assumes "self_inv self" "\<And>timer. expired = Some timer \<Longrightarrow> timer \<in> set (next_peer_request self)"
  shows "self_inv (snd (poll_ready self expired clock ticks))"
proof -
  define self1 where "self1 = (case expired of None \<Rightarrow> self | Some timer \<Rightarrow> next_peer_request_ready
      (self\<lparr>next_peer_request := remove1 timer (next_peer_request self)\<rparr>) clock (fst (fst timer)) (snd (fst timer)))"
  have "self_inv self1"
    using assms next_peer_request_ready_inv [of self] by (auto simp: self1_def split: option.splits)
  then show ?thesis
    unfolding poll_ready_def Let_def self1_def [symmetric] by (simp split: list.splits)
qed

section \<open>Timers and the limiter\<close>

fun proto_expected :: "Protocol \<Rightarrow> u64" where
  "proto_expected Protocol.Status = 1"
| "proto_expected Protocol.Goodbye = 0"
| "proto_expected Protocol.Ping = 1"
| "proto_expected Protocol.MetaData = 1"
| "proto_expected Protocol.PooledUserOpHashes = 10"
| "proto_expected Protocol.PooledUserOpsByHash = 10"

lemma outbound_item_eq: "outbound_item req = (snd (request_key peer req), proto_expected (snd (request_key peer req)))"
  by (cases req) (simp_all add: outbound_item_def request_key_def)

definition proto_cost :: "'p RPCRateLimiter \<Rightarrow> Protocol \<Rightarrow> nat" where
  "proto_cost rl p = cost (limiter_of p rl) (max (proto_expected p) 1)"

definition proto_tau :: "'p RPCRateLimiter \<Rightarrow> Protocol \<Rightarrow> nat" where
  "proto_tau rl p = unat (lim_tau (limiter_of p rl))"

definition rl_fill :: "'p RPCRateLimiter \<Rightarrow> 'p \<times> Protocol \<Rightarrow> instant \<Rightarrow> nat" where
  "rl_fill rl k now = fill (limiter_of (snd k) rl) (fst k) (now - init_time rl)"

text \<open>A limiter whose quotas fit every request, with times since its start below the bound.\<close>

definition rl_good :: "instant \<Rightarrow> 'p RPCRateLimiter \<Rightarrow> bool" where
  "rl_good now rl \<longleftrightarrow> init_time rl \<le> now \<and>
     (\<forall>p. limiter_inv (now - init_time rl) (limiter_of p rl) \<and> proto_cost rl p \<le> proto_tau rl p)"

definition timer_good :: "'p RPCRateLimiter \<Rightarrow> ('p \<times> Protocol) \<times> instant \<Rightarrow> bool" where
  "timer_good rl timer \<longleftrightarrow> init_time rl \<le> snd timer \<and>
     rl_fill rl (fst timer) (snd timer) + proto_cost rl (snd (fst timer)) \<le>
       (snd timer - init_time rl) + proto_tau rl (snd (fst timer))"

lemma limiter_of_set [simp]: "limiter_of p (set_limiter q l rl) = (if p = q then l else limiter_of p rl)"
  by (cases p; cases q) simp_all

lemma init_time_set [simp]: "init_time (set_limiter q l rl) = init_time rl"
  by (cases q) simp_all

lemma limiter_of_prune: "limiter_of p (rl_prune rl now) = limiter_prune (limiter_of p rl) (now - init_time rl)"
  by (cases p) (simp_all add: rl_prune_def Let_def)

lemma init_time_prune [simp]: "init_time (rl_prune rl now) = init_time rl"
  by (simp add: rl_prune_def Let_def)

lemma limiter_after_eq:
  "limiter_after rl now peer req =
    (let p = snd (request_key peer req)
     in set_limiter p (snd (limiter_allows (limiter_of p rl) (now - init_time rl) peer (max (proto_expected p) 1))) rl)"
  by (simp add: limiter_after_def rl_allows_def outbound_item_eq [of _ peer] Let_def split_beta)

lemma proto_params_after [simp]:
  "proto_cost (limiter_after rl now peer req) p = proto_cost rl p"
  "proto_tau (limiter_after rl now peer req) p = proto_tau rl p"
  "init_time (limiter_after rl now peer req) = init_time rl"
  by (simp_all add: limiter_after_eq proto_cost_def proto_tau_def cost_def Let_def)

lemma proto_params_prune [simp]:
  "proto_cost (rl_prune rl now) p = proto_cost rl p" "proto_tau (rl_prune rl now) p = proto_tau rl p"
  by (simp_all add: limiter_of_prune proto_cost_def proto_tau_def cost_def)

lemma rl_good_no_overflow:
  "rl_good a rl \<Longrightarrow> now - init_time rl < TIME_BOUND \<Longrightarrow>
   no_overflow (limiter_of p rl) (now - init_time rl) (max (proto_expected p) 1)"
  by (auto simp: rl_good_def no_overflow_def proto_cost_def proto_tau_def limiter_inv_def TIME_BOUND_def
      dest!: spec [of _ p])

lemma limiter_verdict_eq:
  assumes "rl_good a rl" "a \<le> now" "now - init_time rl < TIME_BOUND"
  shows "limiter_verdict rl now peer req =
    (let k = request_key peer req; f = rl_fill rl k now + proto_cost rl (snd k) in
     if f \<le> (now - init_time rl) + proto_tau rl (snd k) then None
     else Some (f - proto_tau rl (snd k) - (now - init_time rl)))"
proof -
  let ?p = "snd (request_key peer req)"
  have inv: "limiter_inv (a - init_time rl) (limiter_of ?p rl)" "proto_cost rl ?p \<le> proto_tau rl ?p"
    using assms(1) by (simp_all add: rl_good_def)
  have le: "a - init_time rl \<le> now - init_time rl" using assms(2) by simp
  have "fst (rl_allows rl now peer (outbound_item req)) =
      verdict (limiter_of ?p rl) (now - init_time rl) peer (max (proto_expected ?p) 1)"
    using limiter_allows_verdict [OF inv(1) le rl_good_no_overflow [OF assms(1,3)]]
    by (simp add: rl_allows_def outbound_item_eq [of _ peer] Let_def split_beta)
  with inv(2) show ?thesis
    by (simp add: limiter_verdict_def verdict_def Let_def proto_cost_def proto_tau_def rl_fill_def request_key_def)
qed

lemma rl_good_after:
  assumes "rl_good a rl" "a \<le> now" "now - init_time rl < TIME_BOUND"
  shows "rl_good now (limiter_after rl now peer req)"
proof -
  let ?p = "snd (request_key peer req)"
  have le: "a - init_time rl \<le> now - init_time rl" using assms(2) by simp
  have "limiter_inv (now - init_time rl) (limiter_of p rl)" for p
    using assms(1) limiter_inv_mono [OF _ le] unfolding rl_good_def by blast
  moreover have "limiter_inv (now - init_time rl)
      (snd (limiter_allows (limiter_of ?p rl) (now - init_time rl) peer (max (proto_expected ?p) 1)))"
    using assms(1) by (intro limiter_allows_inv [OF _ le rl_good_no_overflow [OF assms(1,3)]]) (simp add: rl_good_def)
  ultimately show ?thesis
    using assms(1,2) unfolding rl_good_def proto_params_after by (auto simp: limiter_after_eq Let_def)
qed

lemma rl_good_prune:
  assumes "rl_good a rl" "a \<le> now"
  shows "rl_good now (rl_prune rl n)"
proof -
  have le: "a - init_time rl \<le> now - init_time rl" using assms(2) by simp
  with assms limiter_prune_inv show ?thesis
    unfolding rl_good_def by (fastforce simp: limiter_of_prune)
qed

text \<open>The timers of the other keys stay good; the timer armed by a refusal is good.\<close>

lemma rl_fill_after_other:
  assumes "k \<noteq> request_key peer req"
  shows "rl_fill (limiter_after rl now peer req) k n = rl_fill rl k n"
proof -
  have "tat_per_key (limiter_of (snd k) (limiter_after rl now peer req)) (fst k) =
      tat_per_key (limiter_of (snd k) rl) (fst k)"
    using assms by (cases k) (auto simp: limiter_after_eq request_key_def Let_def limiter_allows_def)
  then show ?thesis by (simp add: rl_fill_def fill_def)
qed

lemma timer_good_after:
  "timer_good rl timer \<Longrightarrow> fst timer \<noteq> request_key peer req \<Longrightarrow> timer_good (limiter_after rl now peer req) timer"
  by (auto simp: timer_good_def rl_fill_after_other)

lemma fill_prune_le: "fill (limiter_prune l n) k m \<le> fill l k m"
  by (simp add: limiter_prune_def fill_def split: option.splits)

lemma timer_good_prune: "timer_good rl timer \<Longrightarrow> timer_good (rl_prune rl n) timer"
  using fill_prune_le [of "limiter_of (snd (fst timer)) rl" "n - init_time rl" "fst (fst timer)"
      "snd timer - init_time rl"]
  by (auto simp: timer_good_def rl_fill_def limiter_of_prune)

lemma rl_fill_refused:
  assumes "rl_good a rl" "a \<le> now" "now - init_time rl < TIME_BOUND"
    and "limiter_verdict rl now peer req = Some w"
  shows "rl_fill (limiter_after rl now peer req) (request_key peer req) now = rl_fill rl (request_key peer req) now"
proof -
  let ?p = "snd (request_key peer req)"
  have le: "a - init_time rl \<le> now - init_time rl" using assms(2) by simp
  have inv: "limiter_inv (a - init_time rl) (limiter_of ?p rl)" using assms(1) by (simp add: rl_good_def)
  note spec = inv le rl_good_no_overflow [OF assms(1,3)]
  have "\<not> is_ok (verdict (limiter_of ?p rl) (now - init_time rl) peer (max (proto_expected ?p) 1))"
    using assms(4) limiter_allows_verdict [OF spec, of peer]
    by (auto simp: limiter_verdict_def rl_allows_def outbound_item_eq [of _ peer] Let_def split_beta is_ok_iff)
  with limiter_allows_fill [OF spec, of peer peer] show ?thesis
    by (simp add: rl_fill_def limiter_after_eq request_key_def Let_def)
qed

lemma timer_good_armed:
  assumes "rl_good a rl" "a \<le> now" "now - init_time rl < TIME_BOUND"
    and w: "limiter_verdict rl now peer req = Some w"
  shows "timer_good (limiter_after rl now peer req) (request_key peer req, now + w)"
proof -
  let ?k = "request_key peer req" and ?rl = "limiter_after rl now peer req"
  have good: "init_time rl \<le> now" "proto_cost rl (snd ?k) \<le> proto_tau rl (snd ?k)"
    using assms(1,2) by (auto simp: rl_good_def)
  have f: "rl_fill rl ?k now + proto_cost rl (snd ?k) = w + proto_tau rl (snd ?k) + (now - init_time rl)"
    using w by (auto simp: limiter_verdict_eq [OF assms(1-3)] Let_def split: if_splits)
  have "rl_fill ?rl ?k (now + w) = max (now + w - init_time rl) (rl_fill ?rl ?k now)"
    unfolding rl_fill_def proto_params_after by (rule fill_later) simp
  also have "\<dots> = rl_fill rl ?k now"
    using f good rl_fill_refused [OF assms] by simp
  finally show ?thesis using f good by (simp add: timer_good_def)
qed

lemma timer_fires:
  assumes "rl_good a rl" "a \<le> now" "now - init_time rl < TIME_BOUND"
    and "timer_good rl (request_key peer req, d)" "d \<le> now"
  shows "limiter_verdict rl now peer req = None"
proof -
  let ?k = "request_key peer req"
  have "rl_fill rl ?k now = max (now - init_time rl) (rl_fill rl ?k d)"
    unfolding rl_fill_def using assms(5) by (intro fill_later) simp
  moreover have "proto_cost rl (snd ?k) \<le> proto_tau rl (snd ?k)" using assms(1) by (simp add: rl_good_def)
  ultimately show ?thesis
    using assms(4,5) by (auto simp: limiter_verdict_eq [OF assms(1-3)] timer_good_def Let_def max_def)
qed

text \<open>The loop keeps the limiter good, keeps the other timers good and arms a good one.\<close>

lemma ready_loop_good:
  assumes "ready_loop clock i (fst k) rl q ready = (rl', ready', q', deadline)"
    and "rl_good a rl" "a \<le> clock i" "mono clock" "\<And>j. clock j - init_time rl < TIME_BOUND"
    and "\<forall>j. clock j \<le> e" "a \<le> e" "\<forall>qr \<in> set q. request_key (fst k) (q_req qr) = k"
  shows "rl_good e rl' \<and> init_time rl' = init_time rl \<and>
    (\<forall>timer. fst timer \<noteq> k \<longrightarrow> timer_good rl timer \<longrightarrow> timer_good rl' timer) \<and>
    (\<forall>d. deadline = Some d \<longrightarrow> timer_good rl' (k, d))"
  using assms
proof (induction q arbitrary: i rl ready a)
  case Nil
  then have "rl_good e rl"
    unfolding rl_good_def by (meson diff_le_mono limiter_inv_mono order_trans)
  with Nil show ?case by simp
next
  case (Cons qr q)
  let ?rl = "limiter_after rl (clock i) (fst k) (q_req qr)"
  have k: "request_key (fst k) (q_req qr) = k" using Cons.prems(8) by simp
  note base = Cons.prems(2,3) Cons.prems(5) [of i]
  have good: "rl_good (clock i) ?rl" by (rule rl_good_after [OF base])
  show ?case
  proof (cases "limiter_verdict rl (clock i) (fst k) (q_req qr)")
    case (Some w)
    have "clock i \<le> e" using Cons.prems(6) by simp
    with good have "rl_good e ?rl"
      unfolding rl_good_def by (meson diff_le_mono limiter_inv_mono order_trans)
    moreover have "timer_good ?rl (k, clock i + w)" using timer_good_armed [OF base Some] k by simp
    moreover have "\<forall>timer. fst timer \<noteq> k \<longrightarrow> timer_good rl timer \<longrightarrow> timer_good ?rl timer"
      using timer_good_after k by metis
    ultimately show ?thesis
      using Cons.prems(1) Some by (auto simp: ready_loop_Cons simp del: ready_loop.simps)
  next
    case None
    have loop: "ready_loop clock (Suc i) (fst k) ?rl q (ready @ [send_event (fst k) qr]) = (rl', ready', q', deadline)"
      using Cons.prems(1) None by (simp add: ready_loop_Cons del: ready_loop.simps)
    have "clock i \<le> clock (Suc i)" "clock i \<le> e" using Cons.prems(4,6) by (auto simp: mono_def)
    with Cons.IH [OF loop good _ Cons.prems(4) _ Cons.prems(6)] Cons.prems(5,8)
    have "rl_good e rl' \<and> init_time rl' = init_time rl \<and>
      (\<forall>timer. fst timer \<noteq> k \<longrightarrow> timer_good ?rl timer \<longrightarrow> timer_good rl' timer) \<and>
      (\<forall>d. deadline = Some d \<longrightarrow> timer_good rl' (k, d))" by simp
    then show ?thesis using timer_good_after k by metis
  qed
qed

section \<open>Runs of the self limiter\<close>

fun ev_key :: "('id, 'p, 'ev) BehaviourAction \<Rightarrow> ('p \<times> Protocol) option" where
  "ev_key (NotifyHandler peer t (RPCSend.Request i req)) = Some (request_key peer req)"
| "ev_key _ = None"

definition bag :: "'p \<times> Protocol \<Rightarrow> ('id, 'p, 'ev) BehaviourAction list \<Rightarrow> ('id, 'p, 'ev) BehaviourAction multiset" where
  "bag k evs = filter_mset (\<lambda>e. ev_key e = Some k) (mset evs)"

definition waiting :: "('id, 'p, 'ev) SelfRateLimiter \<Rightarrow> 'p \<times> Protocol \<Rightarrow> ('id, 'p, 'ev) BehaviourAction list" where
  "waiting s k = map (send_event (fst k)) (unwrap_or (delayed_requests s k) [])"

text \<open>
  A run at non-decreasing times: the requests submitted, the events given out, by
  \<open>allows\<close> or by a poll, and the state. A poll only returns a timer that is armed and
  whose deadline has passed.
\<close>

inductive self_run :: "('id, 'p, 'ev) SelfRateLimiter \<Rightarrow> instant \<Rightarrow> ('id, 'p, 'ev) BehaviourAction list \<Rightarrow>
    ('id, 'p, 'ev) BehaviourAction list \<Rightarrow> ('id, 'p, 'ev) SelfRateLimiter \<Rightarrow> bool" for s0 where
  start: "self_run s0 (init_time (limiter s0)) [] [] s0"
| submit: "self_run s0 now subs outs s \<Longrightarrow> now \<le> now' \<Longrightarrow> now' - init_time (limiter s0) < TIME_BOUND \<Longrightarrow>
    self_allows s now' peer i req = (r, s') \<Longrightarrow>
    self_run s0 now' (subs @ [send_event peer \<lparr>q_req = req, q_request_id = i\<rparr>])
      (outs @ (case r of Inr e \<Rightarrow> [e] | Inl _ \<Rightarrow> [])) s'"
| poll: "self_run s0 now subs outs s \<Longrightarrow>
    (\<And>timer. expired = Some timer \<Longrightarrow> timer \<in> set (next_peer_request s) \<and> snd timer \<le> clock 0) \<Longrightarrow>
    now \<le> clock 0 \<Longrightarrow> mono clock \<Longrightarrow> \<forall>j. clock j \<le> now' \<Longrightarrow> now' - init_time (limiter s0) < TIME_BOUND \<Longrightarrow>
    poll_ready s expired clock ticks = (r, s') \<Longrightarrow>
    self_run s0 now' subs (outs @ (case r of Some e \<Rightarrow> [e] | None \<Rightarrow> [])) s'"

definition queue_ok :: "('id, 'p, 'ev) SelfRateLimiter \<Rightarrow> bool" where
  "queue_ok s \<longleftrightarrow> (\<forall>k q. delayed_requests s k = Some q \<longrightarrow> (\<forall>qr \<in> set q. request_key (fst k) (q_req qr) = k))"

definition balanced :: "('id, 'p, 'ev) BehaviourAction list \<Rightarrow> ('id, 'p, 'ev) BehaviourAction list \<Rightarrow>
    ('id, 'p, 'ev) SelfRateLimiter \<Rightarrow> bool" where
  "balanced subs outs s \<longleftrightarrow> (\<forall>k. bag k subs = bag k outs + bag k (ready_requests s) + mset (waiting s k))"

lemma ev_key_send_event [simp]: "ev_key (send_event peer qr) = Some (request_key peer (q_req qr))"
  by (simp add: send_event_def)

lemma bag_append [simp]: "bag k (xs @ ys) = bag k xs + bag k ys"
  by (simp add: bag_def)

lemma bag_Nil [simp]: "bag k [] = {#}"
  by (simp add: bag_def)

lemma bag_single: "bag k [e] = (if ev_key e = Some k then {#e#} else {#})"
  by (simp add: bag_def)

lemma bag_Cons: "bag k (e # es) = bag k [e] + bag k es"
  by (simp add: bag_def)

lemma request_key_fst [simp]: "fst (request_key peer req) = peer"
  by (simp add: request_key_def)

lemma bag_sent:
  "\<forall>qr \<in> set q. request_key peer (q_req qr) = k \<Longrightarrow>
   bag j (map (send_event peer) q) = (if j = k then mset (map (send_event peer) q) else {#})"
  by (induction q) (auto simp: bag_Cons [of _ "send_event peer _"] bag_single)

lemma queue_okD:
  "queue_ok s \<Longrightarrow> delayed_requests s k = Some q \<Longrightarrow> \<forall>qr \<in> set q. request_key (fst k) (q_req qr) = k"
  by (simp add: queue_ok_def)

lemma mset_rotate1: "mset (rotate1 xs) = mset xs"
  by (cases xs) simp_all

lemma self_allows_balanced:
  assumes "balanced subs outs s" "queue_ok s" "self_allows s now peer i req = (r, s')"
  shows "balanced (subs @ [send_event peer \<lparr>q_req = req, q_request_id = i\<rparr>])
      (outs @ (case r of Inr e \<Rightarrow> [e] | Inl _ \<Rightarrow> [])) s' \<and> queue_ok s'"
proof -
  let ?k = "request_key peer req" and ?qr = "\<lparr>q_req = req, q_request_id = i\<rparr>"
  have bal: "bag k subs = bag k outs + bag k (ready_requests s) + mset (waiting s k)" for k
    using assms(1) by (simp add: balanced_def)
  show ?thesis
  proof (cases "delayed_requests s ?k")
    case (Some q)
    with assms have s': "r = Inl PendingRequests"
      "s' = s\<lparr>delayed_requests := (delayed_requests s)(?k \<mapsto> q @ [?qr])\<rparr>"
      by (auto simp: self_allows_eq)
    with Some assms(2) queue_okD [OF assms(2) Some] show ?thesis
      by (auto simp: balanced_def queue_ok_def bal bag_single waiting_def)
  next
    case None
    show ?thesis
    proof (cases "limiter_verdict (limiter s) now peer req")
      case None2: None
      with None assms have "r = Inr (send_event peer ?qr)" "ready_requests s' = ready_requests s"
        "delayed_requests s' = delayed_requests s" by (auto simp: self_allows_eq)
      with assms(2) show ?thesis
        by (auto simp: balanced_def queue_ok_def bal bag_single waiting_def)
    next
      case (Some w)
      with None assms have "r = Inl RateLimited" "ready_requests s' = ready_requests s"
        "delayed_requests s' = (delayed_requests s)(?k \<mapsto> [?qr])" by (auto simp: self_allows_eq)
      with assms(2) None show ?thesis
        by (auto simp: balanced_def queue_ok_def bal bag_single waiting_def)
    qed
  qed
qed

lemma next_ready_eq:
  assumes "delayed_requests s k = Some q"
    and "ready_loop clock 0 (fst k) (limiter s) q (ready_requests s) = (rl', ready', q', deadline)"
  shows "ready_requests (next_peer_request_ready s clock (fst k) (snd k)) = ready'"
    "delayed_requests (next_peer_request_ready s clock (fst k) (snd k)) =
      (delayed_requests s)(k := (if q' = [] then None else Some q'))"
    "limiter (next_peer_request_ready s clock (fst k) (snd k)) = rl'"
    "next_peer_request (next_peer_request_ready s clock (fst k) (snd k)) =
      next_peer_request s @ (case deadline of None \<Rightarrow> [] | Some d \<Rightarrow> [(k, d)])"
  using assms ready_loop_split [OF assms(2)]
  by (auto simp: next_peer_request_ready_def split: option.splits)

lemma next_ready_none:
  "delayed_requests s k = None \<Longrightarrow> next_peer_request_ready s clock (fst k) (snd k) = s"
  by (simp add: next_peer_request_ready_def)

lemma next_ready_balanced:
  assumes "balanced subs outs s" "queue_ok s"
  shows "balanced subs outs (next_peer_request_ready s clock (fst k) (snd k)) \<and>
    queue_ok (next_peer_request_ready s clock (fst k) (snd k))"
proof (cases "delayed_requests s k")
  case None
  with assms show ?thesis by (simp add: next_ready_none)
next
  case (Some q)
  obtain rl' ready' q' deadline where loop:
    "ready_loop clock 0 (fst k) (limiter s) q (ready_requests s) = (rl', ready', q', deadline)"
    by (cases "ready_loop clock 0 (fst k) (limiter s) q (ready_requests s)") blast
  from ready_loop_split [OF loop] obtain sent rest where
    q: "q = sent @ rest" "ready' = ready_requests s @ map (send_event (fst k)) sent" "q' = rotate1 rest" by blast
  have homo: "\<forall>qr \<in> set sent. request_key (fst k) (q_req qr) = k"
    using assms(2) Some q by (auto simp: queue_ok_def)
  have "waiting (next_peer_request_ready s clock (fst k) (snd k)) j =
      (if j = k then map (send_event (fst k)) q' else waiting s j)" for j
    by (auto simp: waiting_def next_ready_eq [OF Some loop])
  moreover have "mset (waiting s k) = mset (map (send_event (fst k)) sent) + mset (map (send_event (fst k)) rest)"
    by (simp add: waiting_def Some q)
  ultimately have "balanced subs outs (next_peer_request_ready s clock (fst k) (snd k))"
    using assms(1) unfolding balanced_def
    by (auto simp: next_ready_eq [OF Some loop] q(2,3) bag_sent [OF homo] mset_rotate1 ac_simps)
  moreover have "queue_ok (next_peer_request_ready s clock (fst k) (snd k))"
    using assms(2) Some q unfolding queue_ok_def by (auto simp: next_ready_eq [OF Some loop] split: if_splits)
  ultimately show ?thesis ..
qed

definition fresh :: "('id, 'p, 'ev) SelfRateLimiter \<Rightarrow> bool" where
  "fresh s \<longleftrightarrow> delayed_requests s = Map.empty \<and> next_peer_request s = [] \<and> ready_requests s = []"

lemma self_new_fresh: "self_limiter_new config now = Inr s \<Longrightarrow> fresh s"
  by (cases config) (auto simp: bind_res_Inr_iff fresh_def)

text \<open>A poll is the expiry of at most one timer, pruning, and handing out one event.\<close>

definition after_expiry :: "('id, 'p, 'ev) SelfRateLimiter \<Rightarrow> (('p \<times> Protocol) \<times> instant) option \<Rightarrow>
    (nat \<Rightarrow> instant) \<Rightarrow> ('id, 'p, 'ev) SelfRateLimiter" where
  "after_expiry s expired clock =
     (case expired of None \<Rightarrow> s | Some timer \<Rightarrow> next_peer_request_ready
        (s\<lparr>next_peer_request := remove1 timer (next_peer_request s)\<rparr>) clock (fst (fst timer)) (snd (fst timer)))"

lemma poll_ready_eq:
  "poll_ready s expired clock ticks =
    (let s1 = after_expiry s expired clock; rl = rl_poll (limiter s1) ticks
     in case ready_requests s1 of [] \<Rightarrow> (None, s1\<lparr>limiter := rl\<rparr>)
        | e # es \<Rightarrow> (Some e, s1\<lparr>limiter := rl, ready_requests := es\<rparr>))"
  by (simp add: poll_ready_def after_expiry_def Let_def)

lemma balanced_npr [simp]:
  "balanced subs outs (s\<lparr>next_peer_request := t\<rparr>) = balanced subs outs s"
  "queue_ok (s\<lparr>next_peer_request := t\<rparr>) = queue_ok s"
  by (simp_all add: balanced_def queue_ok_def waiting_def)

lemma after_expiry_balanced:
  "balanced subs outs s \<Longrightarrow> queue_ok s \<Longrightarrow>
   balanced subs outs (after_expiry s expired clock) \<and> queue_ok (after_expiry s expired clock)"
  by (auto simp: after_expiry_def next_ready_balanced split: option.splits)

lemma poll_ready_balanced:
  assumes "balanced subs outs s" "queue_ok s" "poll_ready s expired clock ticks = (r, s')"
  shows "balanced subs (outs @ (case r of Some e \<Rightarrow> [e] | None \<Rightarrow> [])) s' \<and> queue_ok s'"
proof -
  note bal = after_expiry_balanced [OF assms(1,2), of expired clock]
  show ?thesis
  proof (cases "ready_requests (after_expiry s expired clock)")
    case Nil
    with assms(3) have "r = None"
      and s': "ready_requests s' = []" "delayed_requests s' = delayed_requests (after_expiry s expired clock)"
      by (auto simp: poll_ready_eq Let_def)
    with bal Nil show ?thesis unfolding balanced_def queue_ok_def waiting_def by simp
  next
    case (Cons e es)
    with assms(3) have "r = Some e"
      and s': "ready_requests s' = es" "delayed_requests s' = delayed_requests (after_expiry s expired clock)"
      by (auto simp: poll_ready_eq Let_def)
    with bal Cons bag_Cons [of _ e es] show ?thesis
      unfolding balanced_def queue_ok_def waiting_def by (simp add: ac_simps)
  qed
qed

lemma self_run_safe:
  assumes "self_run s0 now subs outs s" "fresh s0"
  shows "self_inv s \<and> queue_ok s \<and> balanced subs outs s"
  using assms
proof (induction rule: self_run.induct)
  case start
  then show ?case by (simp add: fresh_def self_inv_def queue_ok_def balanced_def waiting_def)
next
  case (submit now subs outs s now' peer i req r s')
  with self_allows_inv [of s now' peer i req] self_allows_balanced [of subs outs s now' peer i req r s'] show ?case by simp
next
  case (poll now subs outs s expired clock now' ticks r s')
  have "self_inv s'"
    using poll_ready_inv [of s expired clock ticks] poll.IH poll.prems poll.hyps(2,7) by simp
  with poll_ready_balanced [of subs outs s expired clock ticks r s'] poll.hyps(7) poll.IH poll.prems show ?case by simp
qed

lemma rl_poll_good:
  "rl_good now rl \<Longrightarrow> rl_good now (rl_poll rl ticks) \<and> init_time (rl_poll rl ticks) = init_time rl \<and>
   (\<forall>timer. timer_good rl timer \<longrightarrow> timer_good (rl_poll rl ticks) timer)"
proof (induction ticks arbitrary: rl)
  case Nil
  then show ?case by (simp add: rl_poll_def)
next
  case (Cons n ticks)
  from Cons.IH [of "rl_prune rl n"] Cons.prems rl_good_prune [of now rl now n] timer_good_prune [of rl _ n]
  show ?case by (simp add: rl_poll_def)
qed

lemma rl_good_later: "rl_good a rl \<Longrightarrow> a \<le> b \<Longrightarrow> rl_good b rl"
  unfolding rl_good_def by (meson diff_le_mono limiter_inv_mono order_trans)

definition timed :: "instant \<Rightarrow> ('id, 'p, 'ev) SelfRateLimiter \<Rightarrow> bool" where
  "timed now s \<longleftrightarrow> rl_good now (limiter s) \<and> (\<forall>timer \<in> set (next_peer_request s). timer_good (limiter s) timer)"

lemma after_expiry_timed:
  assumes "timed now s" "self_inv s" "queue_ok s" "\<And>timer. expired = Some timer \<Longrightarrow> timer \<in> set (next_peer_request s)"
    and "now \<le> clock 0" "mono clock" "\<forall>j. clock j \<le> now'" "now' - init_time (limiter s) < TIME_BOUND"
  shows "timed now' (after_expiry s expired clock) \<and>
    init_time (limiter (after_expiry s expired clock)) = init_time (limiter s)"
proof (cases expired)
  case None
  have "now \<le> now'" using assms(5,7) order_trans by blast
  with None assms(1) show ?thesis by (auto simp: after_expiry_def timed_def intro: rl_good_later)
next
  case (Some timer)
  obtain k d where kd: "timer = (k, d)" by (cases timer)
  with Some assms(4) have mem: "(k, d) \<in> set (next_peer_request s)" by simp
  then have "k \<in> dom (delayed_requests s)" using assms(2) by (force simp: self_inv_def)
  then obtain q where q: "delayed_requests s k = Some q" by blast
  define s1 where "s1 = s\<lparr>next_peer_request := remove1 (k, d) (next_peer_request s)\<rparr>"
  have q1: "delayed_requests s1 k = Some q" by (simp add: s1_def q)
  obtain rl' ready' q' deadline where loop:
    "ready_loop clock 0 (fst k) (limiter s1) q (ready_requests s1) = (rl', ready', q', deadline)"
    by (cases "ready_loop clock 0 (fst k) (limiter s1) q (ready_requests s1)") blast
  have b: "clock j - init_time (limiter s1) < TIME_BOUND" for j
    using assms(7,8) le_less_trans [OF diff_le_mono] by (simp add: s1_def) blast
  have "now \<le> now'" using assms(5,7) order_trans by blast
  with ready_loop_good [OF loop _ assms(5,6) b assms(7)] assms(1) queue_okD [OF assms(3) q]
  have good: "rl_good now' rl'" "init_time rl' = init_time (limiter s)"
    "\<And>timer. fst timer \<noteq> k \<Longrightarrow> timer_good (limiter s) timer \<Longrightarrow> timer_good rl' timer"
    "\<And>d. deadline = Some d \<Longrightarrow> timer_good rl' (k, d)"
    by (auto simp: timed_def s1_def)
  have "k \<notin> fst ` set (next_peer_request s1)"
    using remove1_keys(1) [OF _ mem] assms(2) by (simp add: self_inv_def s1_def)
  then have others: "\<forall>timer \<in> set (next_peer_request s1). fst timer \<noteq> k \<and> timer_good (limiter s) timer"
    using assms(1) notin_set_remove1 by (force simp: timed_def s1_def)
  have "after_expiry s expired clock = next_peer_request_ready s1 clock (fst k) (snd k)"
    by (simp add: after_expiry_def Some kd s1_def)
  then show ?thesis
    using good others by (auto simp: timed_def next_ready_eq [OF q1 loop] split: option.splits)
qed

lemma self_run_timed:
  assumes "self_run s0 now subs outs s" "fresh s0" "rl_good (init_time (limiter s0)) (limiter s0)"
  shows "timed now s \<and> init_time (limiter s) = init_time (limiter s0)"
  using assms
proof (induction rule: self_run.induct)
  case start
  then show ?case by (simp add: fresh_def timed_def)
next
  case (submit now subs outs s now' peer i req r s')
  have good: "rl_good now (limiter s)" and b: "now' - init_time (limiter s) < TIME_BOUND"
    using submit by (simp_all add: timed_def)
  note base = good submit.hyps(2) b
  have after: "rl_good now' (limiter_after (limiter s) now' peer req)" by (rule rl_good_after [OF base])
  show ?case
  proof (cases "delayed_requests s (request_key peer req)")
    case (Some q)
    with submit rl_good_later [OF good submit.hyps(2)] show ?thesis
      by (auto simp: self_allows_eq timed_def)
  next
    case None
    have "request_key peer req \<notin> fst ` set (next_peer_request s)"
      using self_run_safe [OF submit.hyps(1) submit.prems(1)] None by (auto simp: self_inv_def)
    then have "\<forall>timer \<in> set (next_peer_request s). timer_good (limiter_after (limiter s) now' peer req) timer"
      using submit timer_good_after by (force simp: timed_def)
    with None submit.hyps(4) after timer_good_armed [OF base] submit show ?thesis
      by (auto simp: self_allows_eq timed_def split: option.splits)
  qed
next
  case (poll now subs outs s expired clock now' ticks r s')
  note safe = self_run_safe [OF poll.hyps(1) poll.prems(1)]
  have t: "timed now' (after_expiry s expired clock)"
    "init_time (limiter (after_expiry s expired clock)) = init_time (limiter s0)"
    using after_expiry_timed [of now s expired clock now'] poll safe by auto
  with rl_poll_good [of now' "limiter (after_expiry s expired clock)" ticks] poll.hyps(7)
  show ?case by (auto simp: poll_ready_eq Let_def timed_def split: list.splits)
qed

lemma self_new_init: "self_limiter_new config now = Inr s \<Longrightarrow> init_time (limiter s) = now"
  by (cases config) (auto simp: bind_res_Inr_iff new_with_config_def build_def)

lemma length_filter_key:
  "distinct (map fst xs) \<Longrightarrow> length (filter (\<lambda>x. fst x = k) xs) = (if k \<in> set (map fst xs) then 1 else 0)"
  by (induction xs) (auto simp: image_iff)

lemma rotate1_fixed: "distinct xs \<Longrightarrow> rotate1 xs = xs \<longleftrightarrow> length xs \<le> 1"
proof (cases xs)
  case (Cons a ys)
  then show "distinct xs \<Longrightarrow> ?thesis" by (cases ys) auto
qed simp

section \<open>Properties\<close>

text \<open>
  C17. No request is lost or duplicated by the self limiter. In every run from a new limiter
  and for every peer and protocol, the requests submitted are, as a multiset, those already
  given out, those ready to be given out and those waiting; and whatever waits for a key has
  exactly one armed timer, and no timer is armed for a key with nothing waiting.
\<close>

theorem self_limiter_conserves:
  assumes "self_limiter_new config now0 = Inr s0" "self_run s0 now subs outs s"
  shows "bag k subs = bag k outs + bag k (ready_requests s) + mset (waiting s k) \<and>
    length (filter (\<lambda>timer. fst timer = k) (next_peer_request s)) = (if waiting s k = [] then 0 else 1)"
proof -
  have safe: "self_inv s" "balanced subs outs s"
    using self_run_safe [OF assms(2) self_new_fresh [OF assms(1)]] by auto
  from safe(1) have d: "distinct (map fst (next_peer_request s))"
    and dom: "set (map fst (next_peer_request s)) = dom (delayed_requests s)"
    and ne: "delayed_requests s k \<noteq> Some []" by (auto simp: self_inv_def)
  have "length (filter (\<lambda>timer. fst timer = k) (next_peer_request s)) =
      (if k \<in> set (map fst (next_peer_request s)) then 1 else 0)" by (rule length_filter_key [OF d])
  also have "\<dots> = (if waiting s k = [] then 0 else 1)"
    using ne unfolding dom by (cases "delayed_requests s k") (auto simp: waiting_def)
  finally show ?thesis using safe(2) by (simp add: balanced_def)
qed

definition idle :: "u64 \<Rightarrow> u64 \<Rightarrow> nat Limiter" where
  "idle tau t' = \<lparr>lim_tau = tau, lim_t = t', tat_per_key = Map.empty\<rparr>"

definition default_self :: "(nat, nat, unit) SelfRateLimiter" where
  "default_self = \<lparr>delayed_requests = Map.empty, next_peer_request = [],
     limiter = \<lparr>init_time = 0, goodbye_rl = idle 10000000000 10000000000,
       ping_rl = idle 10000000000 5000000000, metadata_rl = idle 5000000000 2500000000,
       status_rl = idle 15000000000 3000000000, pooled_user_op_hashes_rl = idle 10000000000 9765625,
       pooled_user_ops_by_hash_rl = idle 10000000000 78125000\<rparr>, ready_requests = []\<rparr>"

lemma default_self_new: "self_limiter_new (OutboundRateLimiterConfig default_config) 0 = Inr default_self"
  by (simp add: default_self_def idle_def new_with_config_def build_def default_config_def builder_def
        DEFAULT_PING_QUOTA_def DEFAULT_META_DATA_QUOTA_def DEFAULT_STATUS_QUOTA_def DEFAULT_GOODBYE_QUOTA_def
        DEFAULT_POOLED_USER_OP_HASHES_QUOTA_def DEFAULT_POOLED_USER_OPS_BY_HASH_QUOTA_def
        MAX_REQUEST_BLOCKS_def n_every_def one_every_def secs_def from_quota_def Let_def
        try_into_u64_def U64_MAX_def)

lemma default_self_good: "rl_good 0 (limiter default_self)"
proof -
  have "limiter_inv 0 (limiter_of p (limiter default_self)) \<and>
    proto_cost (limiter default_self) p \<le> proto_tau (limiter default_self) p" for p
    by (cases p) (simp_all add: default_self_def idle_def limiter_inv_def TIME_BOUND_def
        proto_cost_def proto_tau_def cost_def)
  then show ?thesis by (simp add: rl_good_def default_self_def)
qed

theorem self_limiter_conserves_witness:
  "\<exists>outs s. self_run default_self 5 [send_event 1 \<lparr>q_req = OutboundRequest.MetaData, q_request_id = 7\<rparr>] outs s \<and>
    bag (1, Protocol.MetaData) [send_event 1 \<lparr>q_req = OutboundRequest.MetaData, q_request_id = 7\<rparr>] =
      bag (1, Protocol.MetaData) outs + bag (1, Protocol.MetaData) (ready_requests s) + mset (waiting s (1, Protocol.MetaData))"
proof -
  obtain r s where rs: "self_allows default_self 5 1 7 OutboundRequest.MetaData = (r, s)" by fastforce
  have "init_time (limiter default_self) = 0" by (rule self_new_init [OF default_self_new])
  then have "self_run default_self 5 ([] @ [send_event 1 \<lparr>q_req = OutboundRequest.MetaData, q_request_id = 7\<rparr>])
      ([] @ (case r of Inr e \<Rightarrow> [e] | Inl _ \<Rightarrow> [])) s"
    using rs by (intro self_run.submit [OF self_run.start]) (simp_all add: TIME_BOUND_def)
  with self_limiter_conserves [OF default_self_new this, of "(1, Protocol.MetaData)"] show ?thesis by auto
qed

text \<open>
  C18. The self limiter makes progress. In every run of a limiter whose quotas admit a
  single request of each protocol, when a timer has expired the poll that takes it hands out
  an event, and at least one request leaves the queue of its peer and protocol: the first of
  the queue is never refused again.
\<close>

theorem self_limiter_progress:
  assumes "self_limiter_new config now0 = Inr s0" "rl_good (init_time (limiter s0)) (limiter s0)"
    and "self_run s0 now subs outs s" "((peer, p), d) \<in> set (next_peer_request s)"
    and "d \<le> clock 0" "now \<le> clock 0" "clock 0 - init_time (limiter s0) < TIME_BOUND"
  shows "\<exists>e s'. poll_ready s (Some ((peer, p), d)) clock ticks = (Some e, s') \<and>
    length (waiting s' (peer, p)) < length (waiting s (peer, p))"
proof -
  let ?k = "(peer, p)" and ?s1 = "s\<lparr>next_peer_request := remove1 ((peer, p), d) (next_peer_request s)\<rparr>"
  note fr = self_new_fresh [OF assms(1)]
  have safe: "self_inv s" "queue_ok s" using self_run_safe [OF assms(3) fr] by auto
  have tm: "rl_good now (limiter s)" "timer_good (limiter s) (?k, d)" "init_time (limiter s) = init_time (limiter s0)"
    using self_run_timed [OF assms(3) fr assms(2)] assms(4) by (auto simp: timed_def)
  have "?k \<in> dom (delayed_requests s)" using safe(1) assms(4) by (force simp: self_inv_def)
  with safe(1) obtain qr q where q: "delayed_requests s ?k = Some (qr # q)"
    unfolding self_inv_def by (metis domIff neq_Nil_conv option.exhaust)
  with queue_okD [OF safe(2) q] have key: "request_key peer (q_req qr) = ?k" by simp
  have ok: "limiter_verdict (limiter s) (clock 0) peer (q_req qr) = None"
    using timer_fires [OF tm(1) assms(6), of peer "q_req qr" d] tm assms(5,7) key by simp
  obtain rl' ready' q' dl where loop:
    "ready_loop clock 0 (fst ?k) (limiter ?s1) (qr # q) (ready_requests ?s1) = (rl', ready', q', dl)"
    by (cases "ready_loop clock 0 (fst ?k) (limiter ?s1) (qr # q) (ready_requests ?s1)") blast
  have q1: "delayed_requests ?s1 ?k = Some (qr # q)" using q by simp
  from loop ok have "ready_loop clock (Suc 0) peer (limiter_after (limiter s) (clock 0) peer (q_req qr)) q
      (ready_requests s @ [send_event peer qr]) = (rl', ready', q', dl)"
    by (simp add: ready_loop_Cons del: ready_loop.simps)
  from ready_loop_split [OF this] obtain sent rest where
    r: "q = sent @ rest" "ready' = (ready_requests s @ [send_event peer qr]) @ map (send_event peer) sent"
      "q' = rotate1 rest" by blast
  from r(2) have "ready' \<noteq> []" by simp
  then obtain e es where e: "ready' = e # es" by (cases ready') simp_all
  have "after_expiry s (Some (?k, d)) clock = next_peer_request_ready ?s1 clock (fst ?k) (snd ?k)"
    by (simp add: after_expiry_def)
  then have "poll_ready s (Some (?k, d)) clock ticks =
      (Some e, (next_peer_request_ready ?s1 clock (fst ?k) (snd ?k))\<lparr>limiter := rl_poll rl' ticks, ready_requests := es\<rparr>)"
    by (simp add: poll_ready_eq Let_def next_ready_eq [OF q1 loop, simplified] e)
  moreover have "length q' < Suc (length q)" using r(1,3) by simp
  ultimately show ?thesis
    by (simp add: waiting_def next_ready_eq [OF q1 loop, simplified] q)
qed

text \<open>Two \<open>Goodbye\<close>s to one peer: the second waits, and its timer releases it.\<close>

theorem self_limiter_progress_witness:
  "\<exists>outs s e s'. self_run default_self 6 [send_event 1 \<lparr>q_req = OutboundRequest.Goodbye Fault, q_request_id = 7\<rparr>,
      send_event 1 \<lparr>q_req = OutboundRequest.Goodbye Fault, q_request_id = 8\<rparr>] outs s \<and>
    next_peer_request s = [((1, Protocol.Goodbye), 10000000005)] \<and>
    poll_ready s (Some ((1, Protocol.Goodbye), 10000000005)) (\<lambda>_. 20000000000) [] = (Some e, s') \<and>
    length (waiting s' (1, Protocol.Goodbye)) < length (waiting s (1, Protocol.Goodbye))"
proof -
  let ?g = "OutboundRequest.Goodbye Fault"
  define s1 where "s1 = snd (self_allows default_self 5 1 7 ?g)"
  define s2 where "s2 = snd (self_allows s1 6 1 8 ?g)"
  note eval = self_allows_def try_send_request_def rl_allows_def outbound_item_def default_self_def idle_def
    limiter_allows_def as_u64_def sat_sub_def Let_def
  have a1: "self_allows default_self 5 1 7 ?g = (Inr (send_event 1 \<lparr>q_req = ?g, q_request_id = 7\<rparr>), s1)"
    by (simp add: s1_def eval send_event_def)
  have npr: "next_peer_request s2 = [((1, Protocol.Goodbye), 10000000005)]"
    and a2: "fst (self_allows s1 6 1 8 ?g) = Inl RateLimited"
    by (simp_all add: s2_def s1_def eval)
  have init: "init_time (limiter default_self) = 0" by (rule self_new_init [OF default_self_new])
  have "self_run default_self 5 ([] @ [send_event 1 \<lparr>q_req = ?g, q_request_id = 7\<rparr>])
      ([] @ [send_event 1 \<lparr>q_req = ?g, q_request_id = 7\<rparr>]) s1"
    using self_run.submit [OF self_run.start _ _ a1] init by (simp add: TIME_BOUND_def)
  from self_run.submit [OF this, of 6 1 8 ?g "Inl RateLimited" s2] a2 init
  have run: "self_run default_self 6 [send_event 1 \<lparr>q_req = ?g, q_request_id = 7\<rparr>, send_event 1 \<lparr>q_req = ?g, q_request_id = 8\<rparr>]
      [send_event 1 \<lparr>q_req = ?g, q_request_id = 7\<rparr>] s2"
    by (simp add: TIME_BOUND_def s2_def prod_eq_iff)
  have good: "rl_good (init_time (limiter default_self)) (limiter default_self)"
    using default_self_good init by simp
  from self_limiter_progress [OF default_self_new good run, of 1 Protocol.Goodbye 10000000005 "\<lambda>_. 20000000000" "[]"]
    npr init run
  show ?thesis by (auto simp: TIME_BOUND_def)
qed

text \<open>
  The order in which a timer serves a queue. The requests that become ready are a prefix
  of the queue, in order; of the rest, the one that was refused moves behind all others. So
  the order of submission is kept exactly when at most one request stays behind.
\<close>

theorem self_limiter_order:
  assumes "delayed_requests s (peer, p) = Some q"
  shows "\<exists>sent rest. q = sent @ rest \<and>
    ready_requests (next_peer_request_ready s clock peer p) = ready_requests s @ map (send_event peer) sent \<and>
    unwrap_or (delayed_requests (next_peer_request_ready s clock peer p) (peer, p)) [] = rotate1 rest \<and>
    (distinct q \<longrightarrow> rotate1 rest = rest \<longleftrightarrow> length rest \<le> 1)"
proof -
  obtain rl' ready' q' dl where loop:
    "ready_loop clock 0 (fst (peer, p)) (limiter s) q (ready_requests s) = (rl', ready', q', dl)"
    by (cases "ready_loop clock 0 (fst (peer, p)) (limiter s) q (ready_requests s)") blast
  from ready_loop_split [OF loop] obtain sent rest where
    r: "q = sent @ rest" "ready' = ready_requests s @ map (send_event peer) sent" "q' = rotate1 rest" by auto
  have "unwrap_or (if q' = [] then None else Some q') [] = q'" by simp
  with r next_ready_eq(1,2) [OF assms loop] rotate1_fixed [of rest] show ?thesis
    by (intro exI [of _ sent] exI [of _ rest]) simp
qed

theorem self_limiter_order_witness:
  "let qa = \<lparr>q_req = OutboundRequest.Goodbye Fault, q_request_id = 0\<rparr>;
       qb = \<lparr>q_req = OutboundRequest.Goodbye Fault, q_request_id = 1\<rparr>;
       qc = \<lparr>q_req = OutboundRequest.Goodbye Fault, q_request_id = 2\<rparr>;
       s = default_self\<lparr>delayed_requests := [(1, Protocol.Goodbye) \<mapsto> [qa, qb, qc]]\<rparr>
   in ready_requests (next_peer_request_ready s (\<lambda>_. 0) 1 Protocol.Goodbye) = [send_event 1 qa] \<and>
      unwrap_or (delayed_requests (next_peer_request_ready s (\<lambda>_. 0) 1 Protocol.Goodbye) (1, Protocol.Goodbye)) [] = [qc, qb]"
proof -
  define qa :: "nat QueuedRequest" where "qa = \<lparr>q_req = OutboundRequest.Goodbye Fault, q_request_id = 0\<rparr>"
  define qb :: "nat QueuedRequest" where "qb = \<lparr>q_req = OutboundRequest.Goodbye Fault, q_request_id = 1\<rparr>"
  define qc :: "nat QueuedRequest" where "qc = \<lparr>q_req = OutboundRequest.Goodbye Fault, q_request_id = 2\<rparr>"
  define s where "s = default_self\<lparr>delayed_requests := [(1, Protocol.Goodbye) \<mapsto> [qa, qb, qc]]\<rparr>"
  have "delayed_requests s (1, Protocol.Goodbye) = Some [qa, qb, qc]" by (simp add: s_def)
  from self_limiter_order [OF this, of "\<lambda>_. 0"] obtain sent rest where
    sr: "[qa, qb, qc] = sent @ rest"
      "ready_requests (next_peer_request_ready s (\<lambda>_. 0) 1 Protocol.Goodbye) = ready_requests s @ map (send_event 1) sent"
      "unwrap_or (delayed_requests (next_peer_request_ready s (\<lambda>_. 0) 1 Protocol.Goodbye) (1, Protocol.Goodbye)) [] = rotate1 rest"
    by blast
  have "length (ready_requests (next_peer_request_ready s (\<lambda>_. 0) 1 Protocol.Goodbye)) = 1"
    by (simp add: s_def next_peer_request_ready_def qa_def qb_def qc_def try_send_request_def rl_allows_def
        outbound_item_def default_self_def idle_def limiter_allows_def as_u64_def sat_sub_def Let_def)
  with sr(2) have "length sent = 1" by (simp add: s_def default_self_def)
  with sr(1) have "sent = [qa] \<and> rest = [qb, qc]" by (auto simp: length_Suc_conv)
  with sr show ?thesis by (simp add: s_def qa_def qb_def qc_def default_self_def)
qed

end
