(* ===== verification/Rpc_Handler.thy ===== *)
theory Rpc_Handler
  imports Self_Limiter "HOL-Library.Monad_Syntax"
begin

text \<open>
  The connection handler of the request/response protocol (\<open>p2p_network/src/rpc/handler.rs\<close>):
  the queue of requests to dial, the inbound and outbound substreams with their timeouts,
  the shutdown, and the whole of \<open>poll\<close>.

  The handler owns one stream per substream id, so a stream is identified with its id and a
  state carries what the code keeps beside the stream. \<open>DelayQueue\<close> belongs to the crate
  \<open>tokio_util\<close>: its operations are the fields of \<open>DelayQueueOps\<close>, where \<open>None\<close> is the panic
  on a key that is not in the queue. The texts of error responses go through the crates
  \<open>ssz_types\<close> and \<open>regex\<close>: \<open>TextOps\<close>. What the streams answer during one poll is the
  argument \<open>PollEnv\<close>. \<open>None\<close> as the result of an operation is a panic, or, for \<open>poll\<close>, a
  loop that does not end. Wakers and log lines are left out.
\<close>

section \<open>Data\<close>

definition IO_ERROR_RETRIES :: u8 where "IO_ERROR_RETRIES = 3"
definition SHUTDOWN_TIMEOUT_SECS :: nat where "SHUTDOWN_TIMEOUT_SECS = 15"
definition MAX_INBOUND_SUBSTREAMS :: usize where "MAX_INBOUND_SUBSTREAMS = 32"

datatype 'id RPCReceived =
    Request SubstreamId InboundRequest
  | Response 'id RPCResponse
  | EndOfStream 'id ResponseTermination

datatype ('id, 'e) HandlerErr =
    Inbound SubstreamId Protocol "'e RPCError"
  | Outbound 'id Protocol "'e RPCError"

type_synonym ('id, 'e) HandlerEvent = "('id, 'e) HandlerErr + 'id RPCReceived"

datatype HandlerState = Active | ShuttingDown instant | Deactivated

text \<open>
  The sending future of \<open>Busy\<close> is the call of \<open>send_message_to_inbound_substream\<close> it was
  made from: its message and its flag \<open>last_chunk\<close>.
\<close>

datatype InboundState = Idle | Busy RPCCodedResponse bool | Poisoned

record 'k InboundInfo =
  in_state :: InboundState
  pending_items :: "RPCCodedResponse list"
  in_protocol :: Protocol
  in_remaining_chunks :: u64
  in_delay_key :: "'k option"

datatype OutboundSubstreamState = RequestPendingResponse OutboundRequest | Closing | Poisoned

record ('id, 'k) OutboundInfo =
  out_state :: OutboundSubstreamState
  out_delay_key :: 'k
  out_proto :: Protocol
  out_remaining_chunks :: "u64 option"
  req_id :: 'id

record ('id, 'e, 'q, 'k) RPCHandler =
  listen_protocol :: RPCProtocol
  events_out :: "('id, 'e) HandlerEvent list"
  dial_queue :: "('id \<times> OutboundRequest) list"
  dial_negotiated :: u32
  inbound_substreams :: "(SubstreamId \<times> 'k InboundInfo) list"
  inbound_substreams_delay :: 'q
  outbound_substreams :: "(SubstreamId \<times> ('id, 'k) OutboundInfo) list"
  outbound_substreams_delay :: 'q
  current_inbound_substream_id :: SubstreamId
  current_outbound_substream_id :: SubstreamId
  max_dial_negotiated :: u32
  handler_state :: HandlerState
  outbound_io_error_retries :: u8
  resp_timeout :: duration

datatype Expiry = Expired SubstreamId | TimerFailed | NoneDue

record ('q, 'k) DelayQueueOps =
  dq_new :: 'q
  dq_insert :: "'q \<Rightarrow> SubstreamId \<Rightarrow> instant \<Rightarrow> duration \<Rightarrow> 'k \<times> 'q"
  dq_remove :: "'q \<Rightarrow> 'k \<Rightarrow> 'q option"
  dq_reset :: "'q \<Rightarrow> 'k \<Rightarrow> instant \<Rightarrow> duration \<Rightarrow> 'q option"
  dq_poll_expired :: "'q \<Rightarrow> instant \<Rightarrow> Expiry \<times> 'q"

record TextOps =
  vl_from :: "u8 list \<Rightarrow> ErrorType"
  strip_control :: "ErrorType \<Rightarrow> string"

definition error_type_from :: "TextOps \<Rightarrow> string \<Rightarrow> ErrorType" where
  "error_type_from X s = vl_from X (map (\<lambda>c. of_char c) s)"

definition error_type_to_string :: "TextOps \<Rightarrow> ErrorType \<Rightarrow> string" where
  "error_type_to_string X err = strip_control X err"

text \<open>
  What the streams answer during one poll: for each inbound stream the results of the sending
  futures that complete (of the send and of the close that may follow it; a future polled after
  these is pending) and of closing it; for each outbound stream the result of reading and whether
  closing it completes.
\<close>

datatype 'e Received = RecvPending | RecvItem "'e RPCError + RPCCodedResponse" | RecvEnd

record 'e PollEnv =
  send_results :: "SubstreamId \<Rightarrow> (('e RPCError + unit) \<times> ('e RPCError + unit)) list"
  close_result :: "SubstreamId \<Rightarrow> ('e RPCError + unit) option"
  received :: "SubstreamId \<Rightarrow> 'e Received"
  out_closed :: "SubstreamId \<Rightarrow> bool"

record OutboundRequestContainer =
  container_req :: OutboundRequest
  container_max_rpc_size :: usize

datatype ('id, 'e) ConnectionHandlerEvent =
    OutboundSubstreamRequest OutboundRequestContainer "'id \<times> OutboundRequest"
  | NotifyBehaviour "('id, 'e) HandlerEvent"
  | Close "'e RPCError"
  | Pending

section \<open>Requests, responses and shutdown\<close>

definition handler_new ::
    "('q, 'k) DelayQueueOps \<Rightarrow> RPCProtocol \<Rightarrow> duration \<Rightarrow> ('id, 'e, 'q, 'k) RPCHandler" where
  "handler_new D proto timeout =
     \<lparr>listen_protocol = proto, events_out = [], dial_queue = [], dial_negotiated = 0,
      inbound_substreams = [], inbound_substreams_delay = dq_new D,
      outbound_substreams = [], outbound_substreams_delay = dq_new D,
      current_inbound_substream_id = 0, current_outbound_substream_id = 0,
      max_dial_negotiated = 8, handler_state = Active, outbound_io_error_retries = 0,
      resp_timeout = timeout\<rparr>"

definition push_out ::
    "('id, 'e) HandlerEvent \<Rightarrow> ('id, 'e, 'q, 'k) RPCHandler \<Rightarrow> ('id, 'e, 'q, 'k) RPCHandler" where
  "push_out ev h = h\<lparr>events_out := events_out h @ [ev]\<rparr>"

definition request_protocol :: "OutboundRequest \<Rightarrow> Protocol" where
  "request_protocol req = protocol_of (outbound_versioned_protocol req)"

definition outbound_failed ::
    "'e RPCError \<Rightarrow> 'id \<times> OutboundRequest \<Rightarrow> ('id, 'e) HandlerEvent" where
  "outbound_failed err r = Inl (Outbound (fst r) (request_protocol (snd r)) err)"

text \<open>The queue is popped from its end.\<close>

definition handler_shutdown ::
    "instant \<Rightarrow> ('id \<times> GoodbyeReason) option \<Rightarrow>
     ('id, 'e, 'q, 'k) RPCHandler \<Rightarrow> ('id, 'e, 'q, 'k) RPCHandler" where
  "handler_shutdown now goodbye_reason h =
     (if handler_state h = Active then
        h\<lparr>events_out := events_out h @ map (outbound_failed Disconnected) (rev (dial_queue h)),
          dial_queue := (case goodbye_reason of
             None \<Rightarrow> []
           | Some (rid, reason) \<Rightarrow> [(rid, OutboundRequest.Goodbye reason)]),
          handler_state := ShuttingDown (now + secs SHUTDOWN_TIMEOUT_SECS)\<rparr>
      else h)"

definition handler_send_request ::
    "'id \<Rightarrow> OutboundRequest \<Rightarrow> ('id, 'e, 'q, 'k) RPCHandler \<Rightarrow> ('id, 'e, 'q, 'k) RPCHandler" where
  "handler_send_request rid req h =
     (case handler_state h of
        Active \<Rightarrow> h\<lparr>dial_queue := dial_queue h @ [(rid, req)]\<rparr>
      | _ \<Rightarrow> push_out (outbound_failed Disconnected (rid, req)) h)"

definition handler_send_response ::
    "TextOps \<Rightarrow> SubstreamId \<Rightarrow> RPCCodedResponse \<Rightarrow>
     ('id, 'e, 'q, 'k) RPCHandler \<Rightarrow> ('id, 'e, 'q, 'k) RPCHandler" where
  "handler_send_response X inbound_id response h =
     (case map_of (inbound_substreams h) inbound_id of
        None \<Rightarrow> h
      | Some info \<Rightarrow>
          let h = (case response of
                Error code reason \<Rightarrow>
                  push_out (Inl (Inbound inbound_id (in_protocol info)
                    (ErrorResponse code (error_type_to_string X reason)))) h
              | _ \<Rightarrow> h)
          in if handler_state h = Deactivated then h
             else h\<lparr>inbound_substreams :=
               AList.update inbound_id (info\<lparr>pending_items := pending_items info @ [response]\<rparr>)
                 (inbound_substreams h)\<rparr>)"

fun on_behaviour_event ::
    "TextOps \<Rightarrow> instant \<Rightarrow> 'id RPCSend \<Rightarrow>
     ('id, 'e, 'q, 'k) RPCHandler \<Rightarrow> ('id, 'e, 'q, 'k) RPCHandler" where
  "on_behaviour_event X now (RPCSend.Request rid req) h = handler_send_request rid req h"
| "on_behaviour_event X now (RPCSend.Response inbound_id response) h =
     handler_send_response X inbound_id response h"
| "on_behaviour_event X now (RPCSend.Shutdown rid reason) h = handler_shutdown now (Some (rid, reason)) h"

definition drained :: "('id, 'e, 'q, 'k) RPCHandler \<Rightarrow> bool" where
  "drained h \<longleftrightarrow> dial_queue h = [] \<and> outbound_substreams h = [] \<and> inbound_substreams h = [] \<and>
     events_out h = [] \<and> dial_negotiated h = 0"

text \<open>\<open>KeepAlive::Yes\<close> is \<open>True\<close>.\<close>

definition connection_keep_alive :: "('id, 'e, 'q, 'k) RPCHandler \<Rightarrow> bool" where
  "connection_keep_alive h =
     (\<not> (case handler_state h of ShuttingDown _ \<Rightarrow> drained h | Deactivated \<Rightarrow> True | Active \<Rightarrow> False))"

section \<open>Negotiated streams\<close>

definition on_fully_negotiated_inbound ::
    "('q, 'k) DelayQueueOps \<Rightarrow> instant \<Rightarrow> InboundRequest \<Rightarrow>
     ('id, 'e, 'q, 'k) RPCHandler \<Rightarrow> ('id, 'e, 'q, 'k) RPCHandler" where
  "on_fully_negotiated_inbound D now req h =
     (if handler_state h \<noteq> Active then h
      else
        let expected_responses = inbound_expected_responses req;
            proto = protocol_of (inbound_versioned_protocol req);
            cur = current_inbound_substream_id h
        in if expected_responses > 0 \<and> \<not> length (inbound_substreams h) < MAX_INBOUND_SUBSTREAMS then
             handler_shutdown now None (push_out (Inl (Inbound cur proto HandlerRejected)) h)
           else
             let h = (if expected_responses > 0 then
                   let (delay_key, q) = dq_insert D (inbound_substreams_delay h) cur now (resp_timeout h)
                   in h\<lparr>inbound_substreams_delay := q,
                        inbound_substreams := AList.update cur
                          \<lparr>in_state = InboundState.Idle, pending_items = [], in_protocol = proto,
                           in_remaining_chunks = expected_responses, in_delay_key = Some delay_key\<rparr>
                          (inbound_substreams h)\<rparr>
                 else h);
                 h = (case req of InboundRequest.Goodbye _ \<Rightarrow> handler_shutdown now None h | _ \<Rightarrow> h)
             in (push_out (Inr (RPCReceived.Request cur req)) h)
                  \<lparr>current_inbound_substream_id := usize_add cur 1\<rparr>)"

definition on_fully_negotiated_outbound ::
    "('q, 'k) DelayQueueOps \<Rightarrow> instant \<Rightarrow> 'id \<times> OutboundRequest \<Rightarrow>
     ('id, 'e, 'q, 'k) RPCHandler \<Rightarrow> ('id, 'e, 'q, 'k) RPCHandler" where
  "on_fully_negotiated_outbound D now r h =
     (let h = h\<lparr>dial_negotiated := dial_negotiated h - 1, outbound_io_error_retries := 0\<rparr>;
          h = (if handler_state h = Deactivated then push_out (outbound_failed Disconnected r) h else h);
          expected_responses = outbound_expected_responses (snd r);
          cur = current_outbound_substream_id h
      in if expected_responses > 0 then
           let (delay_key, q) = dq_insert D (outbound_substreams_delay h) cur now (resp_timeout h)
           in h\<lparr>outbound_substreams_delay := q,
                outbound_substreams := AList.update cur
                  \<lparr>out_state = RequestPendingResponse (snd r), out_delay_key = delay_key,
                   out_proto = request_protocol (snd r),
                   out_remaining_chunks = (if expected_responses > 1 then Some expected_responses else None),
                   req_id = fst r\<rparr>
                  (outbound_substreams h),
                current_outbound_substream_id := usize_add cur 1\<rparr>
         else h)"

datatype 'e StreamUpgradeError = Timeout | Apply "'e RPCError" | NegotiationFailed | Io string

text \<open>The error an upgrade failure is reported with; \<open>Inl\<close> those that count as I/O errors.\<close>

fun upgrade_error :: "'e StreamUpgradeError \<Rightarrow> 'e RPCError + 'e RPCError" where
  "upgrade_error StreamUpgradeError.Timeout = Inr NegotiationTimeout"
| "upgrade_error (Apply (IoError e)) = Inl (IoError e)"
| "upgrade_error NegotiationFailed = Inr UnsupportedProtocol"
| "upgrade_error (Io io_err) = Inl (IoError io_err)"
| "upgrade_error (Apply other) = Inr other"

definition dial_failed ::
    "'e RPCError \<Rightarrow> 'id \<times> OutboundRequest \<Rightarrow>
     ('id, 'e, 'q, 'k) RPCHandler \<Rightarrow> ('id, 'e, 'q, 'k) RPCHandler" where
  "dial_failed err r h =
     push_out (outbound_failed err r)
       (h\<lparr>dial_negotiated := dial_negotiated h - 1, outbound_io_error_retries := 0\<rparr>)"

definition on_dial_upgrade_error ::
    "'id \<times> OutboundRequest \<Rightarrow> 'e StreamUpgradeError \<Rightarrow>
     ('id, 'e, 'q, 'k) RPCHandler \<Rightarrow> ('id, 'e, 'q, 'k) RPCHandler" where
  "on_dial_upgrade_error r err h =
     (case upgrade_error err of
        Inr e \<Rightarrow> dial_failed e r h
      | Inl e \<Rightarrow>
          let h = h\<lparr>outbound_io_error_retries := outbound_io_error_retries h + 1\<rparr>
          in if outbound_io_error_retries h < IO_ERROR_RETRIES then handler_send_request (fst r) (snd r) h
             else dial_failed e r h)"

datatype ('id, 'e) ConnectionEvent =
    FullyNegotiatedInbound InboundRequest
  | FullyNegotiatedOutbound "'id \<times> OutboundRequest"
  | DialUpgradeError "'id \<times> OutboundRequest" "'e StreamUpgradeError"
  | ListenUpgradeError
  | LocalProtocolsChange
  | RemoteProtocolsChange
  | AddressChange

fun on_connection_event ::
    "('q, 'k) DelayQueueOps \<Rightarrow> instant \<Rightarrow> ('id, 'e) ConnectionEvent \<Rightarrow>
     ('id, 'e, 'q, 'k) RPCHandler \<Rightarrow> ('id, 'e, 'q, 'k) RPCHandler" where
  "on_connection_event D now (FullyNegotiatedInbound req) h = on_fully_negotiated_inbound D now req h"
| "on_connection_event D now (FullyNegotiatedOutbound r) h = on_fully_negotiated_outbound D now r h"
| "on_connection_event D now (DialUpgradeError r err) h = on_dial_upgrade_error r err h"
| "on_connection_event D now ListenUpgradeError h = h"
| "on_connection_event D now LocalProtocolsChange h = h"
| "on_connection_event D now RemoteProtocolsChange h = h"
| "on_connection_event D now AddressChange h = h"

section \<open>Polling\<close>

definition send_message_to_inbound_substream ::
    "RPCCodedResponse \<Rightarrow> bool \<Rightarrow> ('e RPCError + unit) \<times> ('e RPCError + unit) \<Rightarrow> 'e RPCError + bool" where
  "send_message_to_inbound_substream message last_chunk io =
     (let (send_result, closing) = io
      in case message of
           StreamTermination _ \<Rightarrow> map_res (\<lambda>_. True) closing
         | _ \<Rightarrow>
             let is_error = (case message of Error _ _ \<Rightarrow> True | _ \<Rightarrow> False)
             in if last_chunk \<or> is_error \<or> \<not> is_ok send_result then
                  (case send_result of Inl e \<Rightarrow> Inl e | Inr _ \<Rightarrow> map_res (\<lambda>_. True) closing)
                else map_res (\<lambda>_. False) send_result)"

text \<open>Whether the last item queued leaves the stream open: \<open>back().map(close_after) == Some(false)\<close>.\<close>

definition still_open :: "RPCCodedResponse list \<Rightarrow> bool" where
  "still_open items \<longleftrightarrow> items \<noteq> [] \<and> \<not> close_after (last items)"

definition inbound_timed_out ::
    "TextOps \<Rightarrow> SubstreamId \<Rightarrow> ('id, 'e, 'q, 'k) RPCHandler \<Rightarrow> ('id, 'e, 'q, 'k) RPCHandler" where
  "inbound_timed_out X i h =
     (case map_of (inbound_substreams h) i of
        None \<Rightarrow> h
      | Some info \<Rightarrow>
          (push_out (Inl (Inbound i (in_protocol info) StreamTimeout)) h)
            \<lparr>inbound_substreams := AList.update i
               (info\<lparr>in_delay_key := None,
                  pending_items := pending_items info @
                    (if still_open (pending_items info)
                     then [Error RPCResponseErrorCode.ServerError (error_type_from X ''Request timed out'')]
                     else [])\<rparr>)
               (inbound_substreams h)\<rparr>)"

partial_function (option) expire_inbound ::
    "('q, 'k) DelayQueueOps \<Rightarrow> TextOps \<Rightarrow> instant \<Rightarrow> ('id, 'e, 'q, 'k) RPCHandler \<Rightarrow>
     (('id, 'e, 'q, 'k) RPCHandler \<times> ('id, 'e) ConnectionHandlerEvent option) option" where
  "expire_inbound D X now h =
     (let (due, q) = dq_poll_expired D (inbound_substreams_delay h) now;
          h = h\<lparr>inbound_substreams_delay := q\<rparr>
      in case due of
           Expired i \<Rightarrow> expire_inbound D X now (inbound_timed_out X i h)
         | TimerFailed \<Rightarrow> Some (h, Some (Close (InternalError ''Could not poll inbound stream timer'')))
         | NoneDue \<Rightarrow> Some (h, None))"

partial_function (option) expire_outbound ::
    "('q, 'k) DelayQueueOps \<Rightarrow> instant \<Rightarrow> ('id, 'e, 'q, 'k) RPCHandler \<Rightarrow>
     (('id, 'e, 'q, 'k) RPCHandler \<times> ('id, 'e) ConnectionHandlerEvent option) option" where
  "expire_outbound D now h =
     (let (due, q) = dq_poll_expired D (outbound_substreams_delay h) now;
          h = h\<lparr>outbound_substreams_delay := q\<rparr>
      in case due of
           Expired i \<Rightarrow>
             (case map_of (outbound_substreams h) i of
                Some info \<Rightarrow>
                  Some (h\<lparr>outbound_substreams := AList.delete i (outbound_substreams h)\<rparr>,
                    Some (NotifyBehaviour (Inl (Outbound (req_id info) (out_proto info) StreamTimeout))))
              | None \<Rightarrow> expire_outbound D now h)
         | TimerFailed \<Rightarrow> Some (h, Some (Close (InternalError ''Could not poll outbound stream timer'')))
         | NoneDue \<Rightarrow> Some (h, None))"

text \<open>
  One inbound stream. The state besides the stream's own: the timers and the events, and whether
  the stream is to be removed. A stream that is removed is left \<open>Poisoned\<close>.
\<close>

definition remove_timer :: "('q, 'k) DelayQueueOps \<Rightarrow> 'q \<Rightarrow> 'k option \<Rightarrow> 'q option" where
  "remove_timer D q key = (case key of None \<Rightarrow> Some q | Some k \<Rightarrow> dq_remove D q k)"

definition reset_timer :: "('q, 'k) DelayQueueOps \<Rightarrow> instant \<Rightarrow> duration \<Rightarrow> 'q \<Rightarrow> 'k option \<Rightarrow> 'q option" where
  "reset_timer D now d q key = (case key of None \<Rightarrow> Some q | Some k \<Rightarrow> dq_reset D q k now d)"

definition drop_inbound ::
    "('q, 'k) DelayQueueOps \<Rightarrow> 'k InboundInfo \<Rightarrow> 'q \<Rightarrow> ('id, 'e) HandlerEvent list \<Rightarrow>
     ('k InboundInfo \<times> 'q \<times> ('id, 'e) HandlerEvent list \<times> bool) option" where
  "drop_inbound D info q evs =
     do { q' \<leftarrow> remove_timer D q (in_delay_key info);
          Some (info\<lparr>in_state := InboundState.Poisoned\<rparr>, q', evs, True) }"

function drive_inbound ::
    "('q, 'k) DelayQueueOps \<Rightarrow> instant \<Rightarrow> duration \<Rightarrow> bool \<Rightarrow> SubstreamId \<Rightarrow> ('e RPCError + unit) option \<Rightarrow>
     (('e RPCError + unit) \<times> ('e RPCError + unit)) list \<Rightarrow>
     'k InboundInfo \<Rightarrow> 'q \<Rightarrow> ('id, 'e) HandlerEvent list \<Rightarrow>
     ('k InboundInfo \<times> 'q \<times> ('id, 'e) HandlerEvent list \<times> bool) option" where
  "drive_inbound D now timeout deactivated i closing ios info q evs =
     (case in_state info of
        InboundState.Idle \<Rightarrow>
          if \<not> deactivated then
            (case pending_items info of
               message # rest \<Rightarrow>
                 drive_inbound D now timeout deactivated i closing ios
                   (info\<lparr>in_state := Busy message (in_remaining_chunks info \<le> 1), pending_items := rest\<rparr>) q evs
             | [] \<Rightarrow> Some (info, q, evs, False))
          else
            (case closing of
               None \<Rightarrow> Some (info, q, evs, False)
             | Some res \<Rightarrow>
                 drop_inbound D info q
                   (evs @ (case res of Inl err \<Rightarrow> [Inl (Inbound i (in_protocol info) err)] | Inr _ \<Rightarrow> []) @
                      (if still_open (pending_items info)
                       then [Inl (Inbound i (in_protocol info) Disconnected)] else [])))
      | Busy message last_chunk \<Rightarrow>
          (case ios of
             [] \<Rightarrow> Some (info, q, evs, False)
           | io # ios' \<Rightarrow>
               (case send_message_to_inbound_substream message last_chunk io of
                  Inr False \<Rightarrow>
                    do { let info = info\<lparr>in_remaining_chunks := sat_sub (in_remaining_chunks info) 1\<rparr>;
                         q' \<leftarrow> reset_timer D now timeout q (in_delay_key info);
                         if deactivated then Some (info\<lparr>in_state := InboundState.Idle\<rparr>, q', evs, False)
                         else (case pending_items info of
                            message' # rest \<Rightarrow>
                              drive_inbound D now timeout deactivated i closing ios'
                                (info\<lparr>in_state := Busy message' (in_remaining_chunks info \<le> 1),
                                   pending_items := rest\<rparr>) q' evs
                          | [] \<Rightarrow> Some (info\<lparr>in_state := InboundState.Idle\<rparr>, q', evs, False)) }
                | Inr True \<Rightarrow> drop_inbound D info q evs
                | Inl err \<Rightarrow> drop_inbound D info q (evs @ [Inl (Inbound i (in_protocol info) err)])))
      | InboundState.Poisoned \<Rightarrow> None)"
  by pat_completeness auto

termination
  by (relation "measure (\<lambda>(D, now, timeout, deactivated, i, closing, ios, info, q, evs).
        length ios + length (pending_items info))") auto

declare drive_inbound.simps [simp del]

fun drive_inbounds ::
    "('q, 'k) DelayQueueOps \<Rightarrow> instant \<Rightarrow> duration \<Rightarrow> bool \<Rightarrow> 'e PollEnv \<Rightarrow> (SubstreamId \<times> 'k InboundInfo) list \<Rightarrow>
     'q \<Rightarrow> ('id, 'e) HandlerEvent list \<Rightarrow>
     ((SubstreamId \<times> 'k InboundInfo) list \<times> 'q \<times> ('id, 'e) HandlerEvent list \<times> SubstreamId list) option" where
  "drive_inbounds D now timeout deactivated env [] q evs = Some ([], q, evs, [])"
| "drive_inbounds D now timeout deactivated env ((i, info) # streams) q evs =
     do { (info', q', evs', closed) \<leftarrow>
            drive_inbound D now timeout deactivated i (close_result env i) (send_results env i) info q evs;
          (streams', q'', evs'', to_remove) \<leftarrow> drive_inbounds D now timeout deactivated env streams q' evs';
          Some ((i, info') # streams', q'', evs'', if closed then i # to_remove else to_remove) }"

text \<open>
  One outbound stream: the handler, and what \<open>poll\<close> returns at once, if it does.
\<close>

definition set_outbound ::
    "SubstreamId \<Rightarrow> ('id, 'k) OutboundInfo \<Rightarrow> ('id, 'e, 'q, 'k) RPCHandler \<Rightarrow> ('id, 'e, 'q, 'k) RPCHandler" where
  "set_outbound oid info h = h\<lparr>outbound_substreams := AList.update oid info (outbound_substreams h)\<rparr>"

definition drop_outbound ::
    "('q, 'k) DelayQueueOps \<Rightarrow> SubstreamId \<Rightarrow> ('id, 'k) OutboundInfo \<Rightarrow> ('id, 'e, 'q, 'k) RPCHandler \<Rightarrow>
     ('id, 'e, 'q, 'k) RPCHandler option" where
  "drop_outbound D oid info h =
     do { q \<leftarrow> dq_remove D (outbound_substreams_delay h) (out_delay_key info);
          Some (h\<lparr>outbound_substreams_delay := q,
                  outbound_substreams := AList.delete oid (outbound_substreams h)\<rparr>) }"

text \<open>The states after a response: closing, or still pending with one chunk fewer to come.\<close>

definition after_response ::
    "('q, 'k) DelayQueueOps \<Rightarrow> instant \<Rightarrow> SubstreamId \<Rightarrow> ('id, 'k) OutboundInfo \<Rightarrow> OutboundRequest \<Rightarrow>
     RPCCodedResponse \<Rightarrow> ('id, 'e, 'q, 'k) RPCHandler \<Rightarrow> ('id, 'e, 'q, 'k) RPCHandler option" where
  "after_response D now oid info request response h =
     (if outbound_expected_responses request > 1 \<and> \<not> close_after response then
        let remaining_chunks =
          unwrap_or (map_option (\<lambda>count. sat_sub count 1) (out_remaining_chunks info)) 0
        in if remaining_chunks = 0 then Some (set_outbound oid (info\<lparr>out_state := Closing\<rparr>) h)
           else
             do { q \<leftarrow> dq_reset D (outbound_substreams_delay h) (out_delay_key info) now (resp_timeout h);
                  Some ((set_outbound oid (info\<lparr>out_remaining_chunks := Some remaining_chunks\<rparr>) h)
                    \<lparr>outbound_substreams_delay := q\<rparr>) }
      else Some (set_outbound oid (info\<lparr>out_state := Closing\<rparr>) h))"

definition response_event ::
    "TextOps \<Rightarrow> ('id, 'k) OutboundInfo \<Rightarrow> RPCCodedResponse \<Rightarrow> ('id, 'e) HandlerEvent" where
  "response_event X info response =
     (case response of
        StreamTermination t \<Rightarrow> Inr (RPCReceived.EndOfStream (req_id info) t)
      | Success resp \<Rightarrow> Inr (RPCReceived.Response (req_id info) resp)
      | Error code r \<Rightarrow>
          Inl (Outbound (req_id info) (out_proto info) (ErrorResponse code (error_type_to_string X r))))"

definition end_event ::
    "('id, 'k) OutboundInfo \<Rightarrow> OutboundRequest \<Rightarrow> ('id, 'e) HandlerEvent option" where
  "end_event info request =
     (if outbound_expected_responses request > 1
      then map_option (\<lambda>t. Inr (RPCReceived.EndOfStream (req_id info) t)) (outbound_stream_termination request)
      else Some (outbound_failed IncompleteStream (req_id info, request)))"

definition drive_outbound ::
    "('q, 'k) DelayQueueOps \<Rightarrow> TextOps \<Rightarrow> instant \<Rightarrow> bool \<Rightarrow> 'e PollEnv \<Rightarrow> SubstreamId \<Rightarrow>
     ('id, 'e, 'q, 'k) RPCHandler \<Rightarrow>
     (('id, 'e, 'q, 'k) RPCHandler \<times> ('id, 'e) ConnectionHandlerEvent option) option" where
  "drive_outbound D X now deactivated env oid h =
     do { info \<leftarrow> map_of (outbound_substreams h) oid;
          (case out_state info of
             RequestPendingResponse request \<Rightarrow>
               if deactivated then
                 Some (push_out (Inl (Outbound (req_id info) (out_proto info) Disconnected))
                   (set_outbound oid (info\<lparr>out_state := Closing\<rparr>) h), None)
               else
                 (case received env oid of
                    RecvItem (Inr response) \<Rightarrow>
                      do { h' \<leftarrow> after_response D now oid info request response h;
                           Some (h', Some (NotifyBehaviour (response_event X info response))) }
                  | RecvEnd \<Rightarrow>
                      do { h' \<leftarrow> drop_outbound D oid info h;
                           ev \<leftarrow> end_event info request;
                           Some (h', Some (NotifyBehaviour ev)) }
                  | RecvPending \<Rightarrow> Some (h, None)
                  | RecvItem (Inl e) \<Rightarrow>
                      do { h' \<leftarrow> drop_outbound D oid info h;
                           Some (h', Some (NotifyBehaviour (Inl (Outbound (req_id info) (out_proto info) e)))) })
           | Closing \<Rightarrow>
               if out_closed env oid then
                 do { h' \<leftarrow> drop_outbound D oid info h; Some (h', None) }
               else Some (h, None)
           | OutboundSubstreamState.Poisoned \<Rightarrow> None) }"

fun drive_outbounds ::
    "('q, 'k) DelayQueueOps \<Rightarrow> TextOps \<Rightarrow> instant \<Rightarrow> bool \<Rightarrow> 'e PollEnv \<Rightarrow> SubstreamId list \<Rightarrow>
     ('id, 'e, 'q, 'k) RPCHandler \<Rightarrow>
     (('id, 'e, 'q, 'k) RPCHandler \<times> ('id, 'e) ConnectionHandlerEvent option) option" where
  "drive_outbounds D X now deactivated env [] h = Some (h, None)"
| "drive_outbounds D X now deactivated env (oid # oids) h =
     do { (h', r) \<leftarrow> drive_outbound D X now deactivated env oid h;
          (case r of
             Some out \<Rightarrow> Some (h', Some out)
           | None \<Rightarrow> drive_outbounds D X now deactivated env oids h') }"

definition poll_inbounds ::
    "('q, 'k) DelayQueueOps \<Rightarrow> instant \<Rightarrow> 'e PollEnv \<Rightarrow> ('id, 'e, 'q, 'k) RPCHandler \<Rightarrow>
     ('id, 'e, 'q, 'k) RPCHandler option" where
  "poll_inbounds D now env h =
     do { (streams, q, evs, to_remove) \<leftarrow>
            drive_inbounds D now (resp_timeout h) (handler_state h = Deactivated) env
              (inbound_substreams h) (inbound_substreams_delay h) (events_out h);
          Some (h\<lparr>inbound_substreams := fold AList.delete to_remove streams,
                  inbound_substreams_delay := q, events_out := evs\<rparr>) }"

text \<open>The end of \<open>poll\<close>: the next request to dial, the close of a handler that is done.\<close>

definition poll_dial ::
    "('id, 'e, 'q, 'k) RPCHandler \<Rightarrow> ('id, 'e, 'q, 'k) RPCHandler \<times> ('id, 'e) ConnectionHandlerEvent" where
  "poll_dial h =
     (case dial_queue h of
        r # rest \<Rightarrow>
          if dial_negotiated h < max_dial_negotiated h then
            (h\<lparr>dial_negotiated := dial_negotiated h + 1, dial_queue := rest\<rparr>,
             OutboundSubstreamRequest
               \<lparr>container_req = snd r, container_max_rpc_size = protocol_max_rpc_size (listen_protocol h)\<rparr> r)
          else (h, Pending)
      | [] \<Rightarrow>
          (case handler_state h of
             ShuttingDown _ \<Rightarrow> (h, if drained h then Close Disconnected else Pending)
           | _ \<Rightarrow> (h, Pending)))"

definition poll_streams ::
    "('q, 'k) DelayQueueOps \<Rightarrow> TextOps \<Rightarrow> instant \<Rightarrow> 'e PollEnv \<Rightarrow> ('id, 'e, 'q, 'k) RPCHandler \<Rightarrow>
     (('id, 'e, 'q, 'k) RPCHandler \<times> ('id, 'e) ConnectionHandlerEvent) option" where
  "poll_streams D X now env h =
     do { (h, r) \<leftarrow> expire_inbound D X now h;
          (case r of
             Some out \<Rightarrow> Some (h, out)
           | None \<Rightarrow>
               do { (h, r) \<leftarrow> expire_outbound D now h;
                    (case r of
                       Some out \<Rightarrow> Some (h, out)
                     | None \<Rightarrow>
                         do { h \<leftarrow> poll_inbounds D now env h;
                              (h, r) \<leftarrow> drive_outbounds D X now (handler_state h = Deactivated) env
                                (map fst (outbound_substreams h)) h;
                              (case r of
                                 Some out \<Rightarrow> Some (h, out)
                               | None \<Rightarrow> Some (poll_dial h)) }) }) }"

definition handler_poll ::
    "('q, 'k) DelayQueueOps \<Rightarrow> TextOps \<Rightarrow> instant \<Rightarrow> 'e PollEnv \<Rightarrow> ('id, 'e, 'q, 'k) RPCHandler \<Rightarrow>
     (('id, 'e, 'q, 'k) RPCHandler \<times> ('id, 'e) ConnectionHandlerEvent) option" where
  "handler_poll D X now env h =
     (case events_out h of
        ev # evs \<Rightarrow> Some (h\<lparr>events_out := evs\<rparr>, NotifyBehaviour ev)
      | [] \<Rightarrow>
          (case handler_state h of
             ShuttingDown deadline \<Rightarrow>
               if deadline \<le> now then Some (h\<lparr>handler_state := Deactivated\<rparr>, Close Disconnected)
               else poll_streams D X now env h
           | _ \<Rightarrow> poll_streams D X now env h))"

end
