(* ===== verification/Rpc_Handler_Runs.thy ===== *)
theory Rpc_Handler_Runs
  imports Rpc_Handler
begin

text \<open>
  Runs of the connection handler: the handler with the streams the swarm is opening for it and
  what it has reported so far, the steps of a run, and the invariant of every run. The laws of
  \<open>DelayQueue\<close> that the handler relies on are \<open>dq_laws\<close>.
\<close>

section \<open>The delay queue\<close>

text \<open>
  \<open>entries q\<close> are the live keys of a queue with their values. Inserting returns a key that was
  not in use; removing and resetting accept the keys in use; polling removes the entry that it
  returns and nothing else.
\<close>

definition dq_laws ::
    "('q, 'k) DelayQueueOps \<Rightarrow> ('q \<Rightarrow> 'k \<Rightarrow> SubstreamId option) \<Rightarrow> bool" where
  "dq_laws D entries \<longleftrightarrow>
     entries (dq_new D) = Map.empty \<and>
     (\<forall>q. finite (dom (entries q))) \<and>
     (\<forall>q i now d. entries q (fst (dq_insert D q i now d)) = None \<and>
        entries (snd (dq_insert D q i now d)) = (entries q)(fst (dq_insert D q i now d) \<mapsto> i)) \<and>
     (\<forall>q k. entries q k \<noteq> None \<longrightarrow>
        (\<exists>q'. dq_remove D q k = Some q' \<and> entries q' = (entries q)(k := None))) \<and>
     (\<forall>q k now d. entries q k \<noteq> None \<longrightarrow>
        (\<exists>q'. dq_reset D q k now d = Some q' \<and> entries q' = entries q)) \<and>
     (\<forall>q now i q'. dq_poll_expired D q now = (Expired i, q') \<longrightarrow>
        (\<exists>k. entries q k = Some i \<and> entries q' = (entries q)(k := None))) \<and>
     (\<forall>q now. fst (dq_poll_expired D q now) \<in> {TimerFailed, NoneDue} \<longrightarrow>
        entries (snd (dq_poll_expired D q now)) = entries q)"

lemma dq_newD: "dq_laws D entries \<Longrightarrow> entries (dq_new D) = Map.empty"
  by (simp add: dq_laws_def)

lemma dq_finite: "dq_laws D entries \<Longrightarrow> finite (dom (entries q))"
  by (simp add: dq_laws_def)

lemma dq_insertD:
  assumes "dq_laws D entries" and "dq_insert D q i now d = (k, q')"
  shows "entries q k = None" and "entries q' = (entries q)(k \<mapsto> i)"
proof -
  from assms(1) have "entries q (fst (dq_insert D q i now d)) = None \<and>
    entries (snd (dq_insert D q i now d)) = (entries q)(fst (dq_insert D q i now d) \<mapsto> i)"
    unfolding dq_laws_def by blast
  with assms(2) show "entries q k = None" "entries q' = (entries q)(k \<mapsto> i)" by simp_all
qed

lemma dq_removeD:
  assumes "dq_laws D entries" and "entries q k = Some i"
  obtains q' where "dq_remove D q k = Some q'" "entries q' = (entries q)(k := None)"
proof -
  from assms(2) have "entries q k \<noteq> None" by simp
  with assms(1) that show ?thesis unfolding dq_laws_def by blast
qed

lemma dq_resetD:
  assumes "dq_laws D entries" and "entries q k = Some i"
  obtains q' where "dq_reset D q k now d = Some q'" "entries q' = entries q"
proof -
  from assms(2) have "entries q k \<noteq> None" by simp
  with assms(1) that show ?thesis unfolding dq_laws_def by blast
qed

lemma dq_expiredD:
  assumes "dq_laws D entries" and "dq_poll_expired D q now = (Expired i, q')"
  obtains k where "entries q k = Some i" "entries q' = (entries q)(k := None)"
  using assms unfolding dq_laws_def by blast

lemma dq_not_dueD:
  assumes "dq_laws D entries" and "dq_poll_expired D q now = (due, q')" "due \<in> {TimerFailed, NoneDue}"
  shows "entries q' = entries q"
proof -
  from assms(1) have "fst (dq_poll_expired D q now) \<in> {TimerFailed, NoneDue} \<longrightarrow>
    entries (snd (dq_poll_expired D q now)) = entries q"
    unfolding dq_laws_def by blast
  with assms(2,3) show ?thesis by simp
qed

section \<open>Timers and streams\<close>

text \<open>
  The timers of a table of streams: a key is live for a stream exactly when the stream holds it.
\<close>

definition timers_ok ::
    "('k \<Rightarrow> SubstreamId option) \<Rightarrow> ('v \<Rightarrow> 'k option) \<Rightarrow> (SubstreamId \<Rightarrow> 'v option) \<Rightarrow> bool" where
  "timers_ok m key f \<longleftrightarrow> (\<forall>k i. m k = Some i \<longleftrightarrow> Option.bind (f i) key = Some k)"

lemma timers_ok_iff: "timers_ok m key f \<Longrightarrow> m k = Some i \<longleftrightarrow> Option.bind (f i) key = Some k"
  by (simp add: timers_ok_def)

lemma timers_okI: "(\<And>k i. m k = Some i \<longleftrightarrow> Option.bind (f i) key = Some k) \<Longrightarrow> timers_ok m key f"
  by (simp add: timers_ok_def)

lemma timers_okD: "timers_ok m key f \<Longrightarrow> f i = Some v \<Longrightarrow> key v = Some k \<Longrightarrow> m k = Some i"
  by (simp add: timers_ok_iff)

lemma timers_okE:
  assumes "timers_ok m key f" "m k = Some i"
  obtains v where "f i = Some v" "key v = Some k"
  using assms by (auto simp: timers_ok_iff bind_eq_Some_conv)

lemma timers_ok_insert:
  assumes "timers_ok m key f" "m k = None" "f i = None" "key v = Some k"
  shows "timers_ok (m(k \<mapsto> i)) key (f(i \<mapsto> v))"
proof (rule timers_okI)
  fix j l
  show "(m(k \<mapsto> i)) l = Some j \<longleftrightarrow> Option.bind ((f(i \<mapsto> v)) j) key = Some l"
    using timers_ok_iff [OF assms(1), of l j] timers_ok_iff [OF assms(1), of k j] assms(2-) by auto
qed

lemma timers_ok_update:
  assumes "timers_ok m key f" "f i = Some v" "key w = key v"
  shows "timers_ok m key (f(i \<mapsto> w))"
proof (rule timers_okI)
  fix j l
  show "m l = Some j \<longleftrightarrow> Option.bind ((f(i \<mapsto> w)) j) key = Some l"
    using timers_ok_iff [OF assms(1), of l j] assms(2-) by auto
qed

lemma timers_ok_expired:
  assumes "timers_ok m key f" "f i = Some v" "key v = Some k" "key w = None"
  shows "timers_ok (m(k := None)) key (f(i \<mapsto> w))"
proof (rule timers_okI)
  fix j l
  show "(m(k := None)) l = Some j \<longleftrightarrow> Option.bind ((f(i \<mapsto> w)) j) key = Some l"
    using timers_ok_iff [OF assms(1), of l j] timers_ok_iff [OF assms(1), of k i] assms(2-) by auto
qed

text \<open>Removing a set of streams with their timers.\<close>

definition without :: "SubstreamId set \<Rightarrow> ('k \<Rightarrow> SubstreamId option) \<Rightarrow> 'k \<Rightarrow> SubstreamId option" where
  "without I m = (\<lambda>k. case m k of Some i \<Rightarrow> if i \<in> I then None else Some i | None \<Rightarrow> None)"

lemma without_simps [simp]:
  "without {} m = m" "without I (without J m) = without (I \<union> J) m"
  by (auto simp: without_def fun_eq_iff split: option.splits)

lemma without_Some [simp]: "without I m k = Some i \<longleftrightarrow> m k = Some i \<and> i \<notin> I"
  by (auto simp: without_def split: option.splits)

lemma without_single:
  assumes "timers_ok m key f" "f i = Some v"
  shows "without {i} m = (case key v of None \<Rightarrow> m | Some k \<Rightarrow> m(k := None))"
proof (rule ext)
  fix k
  have "m k = Some i \<longleftrightarrow> key v = Some k"
    using timers_ok_iff [OF assms(1), of k i] assms(2) by simp
  then show "without {i} m k = (case key v of None \<Rightarrow> m | Some k \<Rightarrow> m(k := None)) k"
    by (cases "m k") (auto simp: without_def split: option.splits)
qed

lemma timers_ok_without:
  assumes "timers_ok m key f"
    and "\<And>i. i \<in> I \<Longrightarrow> g i = None"
    and "\<And>i. i \<notin> I \<Longrightarrow> map_option key (g i) = map_option key (f i)"
  shows "timers_ok (without I m) key g"
proof (rule timers_okI)
  fix j l
  show "without I m l = Some j \<longleftrightarrow> Option.bind (g j) key = Some l"
    using timers_ok_iff [OF assms(1), of l j] assms(2,3) [of j]
    by (cases "j \<in> I"; cases "f j"; cases "g j") auto
qed

lemma timers_ok_delete:
  assumes "timers_ok m key f" "f i = Some v" "key v = Some k"
  shows "timers_ok (m(k := None)) key (f(i := None))"
  using timers_ok_without [OF assms(1), of "{i}" "f(i := None)"] without_single [OF assms(1,2)] assms(3)
  by simp

lemma map_of_fold_delete:
  "map_of (fold AList.delete is al) = (\<lambda>i. if i \<in> set is then None else map_of al i)"
  by (induction "is" arbitrary: al) auto

lemma distinct_fold_delete:
  "distinct (map fst al) \<Longrightarrow> distinct (map fst (fold AList.delete is al))"
  by (induction "is" arbitrary: al) auto

lemma length_fold_delete: "length (fold AList.delete is al) \<le> length al"
proof (induction "is" arbitrary: al)
  case (Cons i js)
  have "length (AList.delete i al) \<le> length al" by (simp add: AList.delete_eq)
  with Cons [of "AList.delete i al"] show ?case by simp
qed simp

section \<open>Tables of streams\<close>

lemma length_update_known: "map_of al i = Some v \<Longrightarrow> length (AList.update i w al) = length al"
  by (induction al) auto

lemma length_update_new: "map_of al i = None \<Longrightarrow> length (AList.update i w al) = Suc (length al)"
  by (induction al) (auto split: if_splits)

text \<open>A table of streams with its timers: distinct ids below the next one, each stream in a good state.\<close>

definition streams_ok ::
    "('k \<Rightarrow> SubstreamId option) \<Rightarrow> ('v \<Rightarrow> 'k option) \<Rightarrow> ('v \<Rightarrow> bool) \<Rightarrow> nat \<Rightarrow> (SubstreamId \<times> 'v) list \<Rightarrow> bool" where
  "streams_ok m key good n al \<longleftrightarrow>
     distinct (map fst al) \<and> timers_ok m key (map_of al) \<and>
     (\<forall>i v. map_of al i = Some v \<longrightarrow> good v \<and> i < n)"

lemma streams_okD:
  assumes "streams_ok m key good n al"
  shows "distinct (map fst al)" "timers_ok m key (map_of al)"
    "map_of al i = Some v \<Longrightarrow> good v" "map_of al i = Some v \<Longrightarrow> i < n" "map_of al n = None"
proof -
  from assms have all: "\<forall>i v. map_of al i = Some v \<longrightarrow> good v \<and> i < n"
    and rest: "distinct (map fst al)" "timers_ok m key (map_of al)"
    unfolding streams_ok_def by blast+
  show "distinct (map fst al)" "timers_ok m key (map_of al)" by (fact rest)+
  show "good v" "i < n" if "map_of al i = Some v" using all that by blast+
  show "map_of al n = None" using all by (cases "map_of al n") blast+
qed

lemma streams_okI:
  assumes "distinct (map fst al)" "timers_ok m key (map_of al)"
    and "\<And>i v. map_of al i = Some v \<Longrightarrow> good v \<and> i < n"
  shows "streams_ok m key good n al"
  using assms unfolding streams_ok_def by blast

lemma streams_ok_empty: "streams_ok Map.empty key good n []"
  by (simp add: streams_ok_def timers_ok_def)

lemma streams_ok_insert:
  assumes "streams_ok m key good n al" "m k = None" "key v = Some k" "good v"
  shows "streams_ok (m(k \<mapsto> n)) key good (Suc n) (AList.update n v al)"
proof (rule streams_okI)
  show "timers_ok (m(k \<mapsto> n)) key (map_of (AList.update n v al))"
    using timers_ok_insert [OF streams_okD(2) [OF assms(1)] assms(2) streams_okD(5) [OF assms(1)] assms(3)]
    by simp
qed (use assms streams_okD [OF assms(1)] in \<open>auto split: if_splits simp: less_Suc_eq\<close>)

lemma streams_ok_update:
  assumes "streams_ok m key good n al" "map_of al i = Some v" "key w = key v" "good w"
  shows "streams_ok m key good n (AList.update i w al)"
proof (rule streams_okI)
  show "timers_ok m key (map_of (AList.update i w al))"
    using timers_ok_update [OF streams_okD(2) [OF assms(1)] assms(2,3)] by simp
qed (use assms streams_okD [OF assms(1)] in \<open>auto split: if_splits\<close>)

lemma streams_ok_expired:
  assumes "streams_ok m key good n al" "map_of al i = Some v" "key v = Some k" "key w = None" "good w"
  shows "streams_ok (m(k := None)) key good n (AList.update i w al)"
proof (rule streams_okI)
  show "timers_ok (m(k := None)) key (map_of (AList.update i w al))"
    using timers_ok_expired [OF streams_okD(2) [OF assms(1)] assms(2-4)] by simp
qed (use assms streams_okD [OF assms(1)] in \<open>auto split: if_splits\<close>)

lemma streams_ok_delete:
  assumes "streams_ok m key good n al" "map_of al i = Some v" "key v = Some k"
  shows "streams_ok (m(k := None)) key good n (AList.delete i al)"
proof (rule streams_okI)
  show "timers_ok (m(k := None)) key (map_of (AList.delete i al))"
    using timers_ok_delete [OF streams_okD(2) [OF assms(1)] assms(2,3)] by simp
qed (use assms streams_okD [OF assms(1)] in \<open>auto split: if_splits\<close>)

lemma streams_ok_mono:
  assumes "streams_ok m key good n al" "n \<le> n'"
  shows "streams_ok m key good n' al"
  using assms unfolding streams_ok_def by (meson less_le_trans)

lemma streams_ok_reorder:
  assumes "streams_ok m key good n al" "mset bl = mset al"
  shows "streams_ok m key good n bl"
proof -
  from assms(2) have "mset (map fst bl) = mset (map fst al)" by simp
  then have dist: "distinct (map fst bl)"
    using streams_okD(1) [OF assms(1)] mset_eq_imp_distinct_iff by blast
  from assms(2) have "set bl = set al" by (rule mset_eq_setD)
  then have "map_of bl = map_of al"
    using dist streams_okD(1) [OF assms(1)] map_of_inject_set by blast
  with assms(1) dist show ?thesis by (simp add: streams_ok_def)
qed

lemma streams_ok_without:
  assumes "streams_ok m key good n al" "map fst bl = map fst al"
    and "\<And>i. map_option key (map_of bl i) = map_option key (map_of al i)"
    and "\<And>i v. map_of bl i = Some v \<Longrightarrow> i \<notin> set is \<Longrightarrow> good v"
  shows "streams_ok (without (set is) m) key good n (fold AList.delete is bl)"
proof (rule streams_okI)
  show "distinct (map fst (fold AList.delete is bl))"
    using streams_okD(1) [OF assms(1)] assms(2) by (simp add: distinct_fold_delete)
  show "timers_ok (without (set is) m) key (map_of (fold AList.delete is bl))"
    by (rule timers_ok_without [OF streams_okD(2) [OF assms(1)]])
      (simp_all add: map_of_fold_delete assms(3))
next
  fix i v
  assume v: "map_of (fold AList.delete is bl) i = Some v"
  then have "map_of bl i = Some v" "i \<notin> set is" by (auto simp: map_of_fold_delete split: if_splits)
  moreover from this(1) assms(3) [of i] obtain w where "map_of al i = Some w" by (cases "map_of al i") auto
  ultimately show "good v \<and> i < n" using assms(4) streams_okD(4) [OF assms(1)] by blast
qed

section \<open>The invariant of the handler\<close>

definition inbound_ok where
  "inbound_ok entries n h \<longleftrightarrow>
     streams_ok (entries (inbound_substreams_delay h)) in_delay_key
       (\<lambda>info. in_state info \<noteq> InboundState.Poisoned) (current_inbound_substream_id h) (inbound_substreams h) \<and>
     length (inbound_substreams h) \<le> MAX_INBOUND_SUBSTREAMS \<and> current_inbound_substream_id h \<le> n"

definition outbound_ok where
  "outbound_ok entries n h \<longleftrightarrow>
     streams_ok (entries (outbound_substreams_delay h)) (\<lambda>info. Some (out_delay_key info))
       (\<lambda>info. out_state info \<noteq> OutboundSubstreamState.Poisoned) (current_outbound_substream_id h)
       (outbound_substreams h) \<and> current_outbound_substream_id h \<le> n"

definition handler_ok ::
    "('q \<Rightarrow> 'k \<Rightarrow> SubstreamId option) \<Rightarrow> nat \<Rightarrow> ('id, 'e, 'q, 'k) RPCHandler \<Rightarrow> bool" where
  "handler_ok entries n h \<longleftrightarrow> inbound_ok entries n h \<and> outbound_ok entries n h \<and>
     max_dial_negotiated h = 8 \<and> dial_negotiated h \<le> 8"

text \<open>
  Where a request is: in the queue, on a stream that waits for its response, or named by an
  event; and the requests an output of \<open>poll\<close> accounts for.
\<close>

fun event_id :: "('id, 'e) HandlerEvent \<Rightarrow> 'id option" where
  "event_id (Inl (Outbound rid proto err)) = Some rid"
| "event_id (Inl (Inbound i proto err)) = None"
| "event_id (Inr (RPCReceived.Request i req)) = None"
| "event_id (Inr (RPCReceived.Response rid resp)) = Some rid"
| "event_id (Inr (RPCReceived.EndOfStream rid t)) = Some rid"

definition awaiting :: "('id, 'e, 'q, 'k) RPCHandler \<Rightarrow> 'id \<times> OutboundRequest \<Rightarrow> bool" where
  "awaiting h r \<longleftrightarrow> (\<exists>oid info. map_of (outbound_substreams h) oid = Some info \<and>
     out_state info = RequestPendingResponse (snd r) \<and> req_id info = fst r)"

definition located :: "('id, 'e, 'q, 'k) RPCHandler \<Rightarrow> 'id \<times> OutboundRequest \<Rightarrow> bool" where
  "located h r \<longleftrightarrow> r \<in> set (dial_queue h) \<or> awaiting h r \<or> Some (fst r) \<in> event_id ` set (events_out h)"

fun accounts :: "('id, 'e) ConnectionHandlerEvent \<Rightarrow> 'id \<times> OutboundRequest \<Rightarrow> bool" where
  "accounts (OutboundSubstreamRequest c r') r = (r = r')"
| "accounts (NotifyBehaviour ev) r = (event_id ev = Some (fst r))"
| "accounts (Close err) r = False"
| "accounts Pending r = False"

lemma located_push [simp]: "located h r \<Longrightarrow> located (push_out ev h) r"
  by (auto simp: located_def push_out_def awaiting_def)

lemma event_id_failed [simp]: "event_id (outbound_failed err r) = Some (fst r)"
  by (simp add: outbound_failed_def)

lemma handler_ok_cong:
  assumes "handler_ok entries n h" "inbound_substreams h' = inbound_substreams h"
    "inbound_substreams_delay h' = inbound_substreams_delay h"
    "outbound_substreams h' = outbound_substreams h"
    "outbound_substreams_delay h' = outbound_substreams_delay h"
    "current_inbound_substream_id h' = current_inbound_substream_id h"
    "current_outbound_substream_id h' = current_outbound_substream_id h"
    "max_dial_negotiated h' = max_dial_negotiated h" "dial_negotiated h' = dial_negotiated h"
  shows "handler_ok entries n h'"
  using assms by (simp add: handler_ok_def inbound_ok_def outbound_ok_def)

lemma push_out_ok [simp]: "handler_ok entries n h \<Longrightarrow> handler_ok entries n (push_out ev h)"
  by (erule handler_ok_cong) (simp_all add: push_out_def handler_ok_def)

lemma shutdown_ok: "handler_ok entries n h \<Longrightarrow> handler_ok entries n (handler_shutdown now g h)"
  by (erule handler_ok_cong) (simp_all add: handler_shutdown_def handler_ok_def)

lemma shutdown_located: "located h r \<Longrightarrow> located (handler_shutdown now g h) r"
  by (auto simp: located_def handler_shutdown_def awaiting_def image_Un image_image)

lemma send_request_ok: "handler_ok entries n h \<Longrightarrow> handler_ok entries n (handler_send_request rid req h)"
  by (erule handler_ok_cong) (simp_all add: handler_send_request_def handler_ok_def push_out_def split: HandlerState.splits)

lemma send_request_located:
  "r = (rid, req) \<or> located h r \<Longrightarrow> located (handler_send_request rid req h) r"
  by (auto simp: located_def handler_send_request_def awaiting_def push_out_def split: HandlerState.splits)

lemma ok_pending_item:
  assumes "handler_ok entries n h" "map_of (inbound_substreams h) i = Some info"
    "in_delay_key info' = in_delay_key info" "in_state info' \<noteq> InboundState.Poisoned"
  shows "handler_ok entries n (h\<lparr>inbound_substreams := AList.update i info' (inbound_substreams h)\<rparr>)"
proof -
  have "length (AList.update i info' (inbound_substreams h)) = length (inbound_substreams h)"
    by (rule length_update_known [OF assms(2)])
  with assms streams_ok_update [OF _ assms(2), of _ in_delay_key _ _ info'] show ?thesis
    by (simp add: handler_ok_def inbound_ok_def outbound_ok_def)
qed

lemma send_response_ok:
  fixes h :: "('id, 'e, 'q, 'k) RPCHandler"
  assumes "handler_ok entries n h"
  shows "handler_ok entries n (handler_send_response X i resp h)"
proof (cases "map_of (inbound_substreams h) i")
  case (Some info)
  have alive: "in_state info \<noteq> InboundState.Poisoned"
    using assms Some streams_okD(3) by (fastforce simp: handler_ok_def inbound_ok_def)
  let ?info = "info\<lparr>pending_items := pending_items info @ [resp]\<rparr>"
  have upd: "handler_ok entries n (g\<lparr>inbound_substreams := AList.update i ?info (inbound_substreams g)\<rparr>)"
    if "handler_ok entries n g" "inbound_substreams g = inbound_substreams h"
    for g :: "('id, 'e, 'q, 'k) RPCHandler"
    using ok_pending_item [OF that(1), of i info ?info] that(2) Some alive by simp
  have "inbound_substreams (push_out ev h) = inbound_substreams h" for ev by (simp add: push_out_def)
  with Some assms upd [of h] upd [of "push_out ev h" for ev] show ?thesis
    by (cases resp) (simp_all add: handler_send_response_def Let_def)
qed (use assms in \<open>simp add: handler_send_response_def\<close>)

lemma send_response_located: "located h r \<Longrightarrow> located (handler_send_response X i resp h) r"
  by (auto simp: handler_send_response_def Let_def push_out_def located_def awaiting_def
      split: option.splits RPCCodedResponse.splits)

lemma handler_ok_mono: "handler_ok entries n h \<Longrightarrow> n \<le> n' \<Longrightarrow> handler_ok entries n' h"
  by (simp add: handler_ok_def inbound_ok_def outbound_ok_def)

lemma inbound_stored_ok:
  assumes "dq_laws D entries" "handler_ok entries n h" "n < USIZE_MAX"
    and "length (inbound_substreams h) < MAX_INBOUND_SUBSTREAMS"
    and "dq_insert D (inbound_substreams_delay h) (current_inbound_substream_id h) now d = (k, q)"
    and "in_delay_key info = Some k" "in_state info \<noteq> InboundState.Poisoned"
  shows "handler_ok entries (Suc n) (h\<lparr>inbound_substreams_delay := q,
    inbound_substreams := AList.update (current_inbound_substream_id h) info (inbound_substreams h),
    current_inbound_substream_id := usize_add (current_inbound_substream_id h) 1\<rparr>)"
proof -
  let ?c = "current_inbound_substream_id h"
  from assms(2) have inb: "streams_ok (entries (inbound_substreams_delay h)) in_delay_key
      (\<lambda>info. in_state info \<noteq> InboundState.Poisoned) ?c (inbound_substreams h)" and c: "?c \<le> n"
    by (simp_all add: handler_ok_def inbound_ok_def)
  from c assms(3) have "usize_add ?c 1 = Suc ?c" by (simp add: rust_simps)
  with c assms(2,4,6,7) dq_insertD [OF assms(1,5)]
    streams_ok_insert [OF inb, of k info] length_update_new [OF streams_okD(5) [OF inb], of info]
  show ?thesis by (simp add: handler_ok_def inbound_ok_def outbound_ok_def)
qed

lemma next_inbound_ok:
  assumes "handler_ok entries n h" "n < USIZE_MAX"
  shows "handler_ok entries (Suc n)
    (h\<lparr>current_inbound_substream_id := usize_add (current_inbound_substream_id h) 1\<rparr>)"
proof -
  from assms have "usize_add (current_inbound_substream_id h) 1 = Suc (current_inbound_substream_id h)"
    by (simp add: rust_simps handler_ok_def inbound_ok_def)
  with assms(1) show ?thesis
    by (simp add: handler_ok_def inbound_ok_def outbound_ok_def streams_ok_mono [OF _ le_SucI [OF le_refl]])
qed

lemma negotiated_inbound_ok:
  assumes "dq_laws D entries" "handler_ok entries n h" "n < USIZE_MAX"
  shows "handler_ok entries (Suc n) (on_fully_negotiated_inbound D now req h)"
proof -
  let ?c = "current_inbound_substream_id h"
  obtain k q where ins: "dq_insert D (inbound_substreams_delay h) ?c now (resp_timeout h) = (k, q)"
    by (cases "dq_insert D (inbound_substreams_delay h) ?c now (resp_timeout h)")
  let ?info = "\<lparr>in_state = InboundState.Idle, pending_items = [],
    in_protocol = protocol_of (inbound_versioned_protocol req),
    in_remaining_chunks = inbound_expected_responses req, in_delay_key = Some k\<rparr>"
  let ?h = "h\<lparr>inbound_substreams_delay := q, inbound_substreams := AList.update ?c ?info (inbound_substreams h)\<rparr>"
  have full: "handler_ok entries (Suc n) (handler_shutdown now None (push_out ev h))" for ev
    by (rule handler_ok_mono [OF shutdown_ok [OF push_out_ok [OF assms(2)]]]) simp
  have stored: "handler_ok entries (Suc n)
      ((push_out ev ?h)\<lparr>current_inbound_substream_id := usize_add ?c 1\<rparr>)"
    if "length (inbound_substreams h) < MAX_INBOUND_SUBSTREAMS" for ev
    by (rule handler_ok_cong [OF inbound_stored_ok [OF assms that ins, of ?info]]) (simp_all add: push_out_def)
  have goodbye: "handler_ok entries (Suc n)
      ((push_out ev (handler_shutdown now None h))\<lparr>current_inbound_substream_id := usize_add ?c 1\<rparr>)" for ev
    by (rule handler_ok_cong [OF next_inbound_ok [OF assms(2,3)]])
      (simp_all add: push_out_def handler_shutdown_def)
  from assms(2) full stored goodbye ins show ?thesis
    by (cases req) (simp_all add: on_fully_negotiated_inbound_def Let_def handler_ok_mono)
qed

lemma negotiated_inbound_located:
  "located h r \<Longrightarrow> located (on_fully_negotiated_inbound D now req h) r"
  by (cases req)
    (auto simp: on_fully_negotiated_inbound_def Let_def push_out_def located_def awaiting_def
      handler_shutdown_def image_Un image_image split: prod.splits)

lemma dial_minus_1:
  assumes "(0 :: u32) < d" "d \<le> 8"
  shows "d - 1 \<le> 8" "unat (d - 1) = unat d - 1"
proof -
  from assms(1) have "1 \<le> unat d" by (simp add: word_less_nat_alt)
  then show "unat (d - 1) = unat d - 1" by (subst unat_sub) (simp_all add: word_le_nat_alt)
  with assms(2) show "d - 1 \<le> 8" by (simp add: word_le_nat_alt)
qed

lemma dial_released_ok:
  assumes "handler_ok entries n h" "0 < dial_negotiated h"
  shows "handler_ok entries n (h\<lparr>dial_negotiated := dial_negotiated h - 1, outbound_io_error_retries := c\<rparr>)"
  using assms dial_minus_1 [of "dial_negotiated h"]
  by (simp add: handler_ok_def inbound_ok_def outbound_ok_def)

lemma outbound_stored_ok:
  assumes "dq_laws D entries" "handler_ok entries n h" "n < USIZE_MAX"
    and "dq_insert D (outbound_substreams_delay h) (current_outbound_substream_id h) now d = (k, q)"
    and "out_delay_key info = k" "out_state info \<noteq> OutboundSubstreamState.Poisoned"
  shows "handler_ok entries (Suc n) (h\<lparr>outbound_substreams_delay := q,
    outbound_substreams := AList.update (current_outbound_substream_id h) info (outbound_substreams h),
    current_outbound_substream_id := usize_add (current_outbound_substream_id h) 1\<rparr>)"
proof -
  let ?c = "current_outbound_substream_id h"
  from assms(2) have out: "streams_ok (entries (outbound_substreams_delay h)) (\<lambda>info. Some (out_delay_key info))
      (\<lambda>info. out_state info \<noteq> OutboundSubstreamState.Poisoned) ?c (outbound_substreams h)" and c: "?c \<le> n"
    by (simp_all add: handler_ok_def outbound_ok_def)
  from c assms(3) have "usize_add ?c 1 = Suc ?c" by (simp add: rust_simps)
  with c assms(2,5,6) dq_insertD [OF assms(1,4)] streams_ok_insert [OF out, of k info]
  show ?thesis by (simp add: handler_ok_def inbound_ok_def outbound_ok_def)
qed

lemma negotiated_outbound_ok:
  assumes "dq_laws D entries" "handler_ok entries n h" "n < USIZE_MAX" "0 < dial_negotiated h"
  shows "handler_ok entries (Suc n) (on_fully_negotiated_outbound D now r h)"
proof -
  let ?h = "h\<lparr>dial_negotiated := dial_negotiated h - 1, outbound_io_error_retries := 0\<rparr>"
  define g where "g = (if handler_state h = Deactivated then push_out (outbound_failed Disconnected r) ?h else ?h)"
  have g: "handler_ok entries n g" unfolding g_def using dial_released_ok [OF assms(2,4)] by simp
  obtain k q where "dq_insert D (outbound_substreams_delay g) (current_outbound_substream_id g) now (resp_timeout g) = (k, q)"
    by (cases "dq_insert D (outbound_substreams_delay g) (current_outbound_substream_id g) now (resp_timeout g)")
  moreover have "on_fully_negotiated_outbound D now r h =
     (let expected_responses = outbound_expected_responses (snd r); cur = current_outbound_substream_id g
      in if expected_responses > 0 then
           let (delay_key, q) = dq_insert D (outbound_substreams_delay g) cur now (resp_timeout g)
           in g\<lparr>outbound_substreams_delay := q,
                outbound_substreams := AList.update cur
                  \<lparr>out_state = RequestPendingResponse (snd r), out_delay_key = delay_key,
                   out_proto = request_protocol (snd r),
                   out_remaining_chunks = (if expected_responses > 1 then Some expected_responses else None),
                   req_id = fst r\<rparr>
                  (outbound_substreams g),
                current_outbound_substream_id := usize_add cur 1\<rparr>
         else g)"
    by (simp add: on_fully_negotiated_outbound_def g_def Let_def)
  ultimately show ?thesis
    using outbound_stored_ok [OF assms(1) g assms(3)] handler_ok_mono [OF g] by (simp add: Let_def)
qed

lemma awaitingI:
  "map_of (outbound_substreams h) oid = Some info \<Longrightarrow> out_state info = RequestPendingResponse (snd r) \<Longrightarrow>
   req_id info = fst r \<Longrightarrow> awaiting h r"
  unfolding awaiting_def by blast

lemma awaitingE:
  assumes "awaiting h r"
  obtains oid info where "map_of (outbound_substreams h) oid = Some info"
    "out_state info = RequestPendingResponse (snd r)" "req_id info = fst r"
  using assms unfolding awaiting_def by blast

lemma awaiting_stored:
  assumes "map_of (outbound_substreams h) i = None"
    and "outbound_substreams h' = AList.update i info (outbound_substreams h)"
    and "awaiting h r \<or> out_state info = RequestPendingResponse (snd r) \<and> req_id info = fst r"
  shows "awaiting h' r"
  using assms(3)
proof
  assume "awaiting h r"
  then obtain oid info' where s: "map_of (outbound_substreams h) oid = Some info'"
    "out_state info' = RequestPendingResponse (snd r)" "req_id info' = fst r" by (rule awaitingE)
  with assms(1) have "oid \<noteq> i" by auto
  with s assms(2) show ?thesis by (intro awaitingI [of _ oid info']) simp_all
next
  assume "out_state info = RequestPendingResponse (snd r) \<and> req_id info = fst r"
  with assms(2) show ?thesis by (intro awaitingI [of _ i info]) simp_all
qed

lemma negotiated_outbound_located:
  assumes "handler_ok entries n h" "located h r \<or> r = s \<and> outbound_expected_responses (snd r) > 0"
  shows "located (on_fully_negotiated_outbound D now s h) r"
proof -
  have none: "map_of (outbound_substreams h) (current_outbound_substream_id h) = None"
    using assms(1) streams_okD(5) by (fastforce simp: handler_ok_def outbound_ok_def)
  obtain info where info: "out_state info = RequestPendingResponse (snd s)" "req_id info = fst s"
    "outbound_expected_responses (snd s) > 0 \<Longrightarrow>
     outbound_substreams (on_fully_negotiated_outbound D now s h) =
       AList.update (current_outbound_substream_id h) info (outbound_substreams h)"
    by (cases "dq_insert D (outbound_substreams_delay h) (current_outbound_substream_id h) now (resp_timeout h)")
      (force simp: on_fully_negotiated_outbound_def Let_def push_out_def)
  have await: "awaiting h r \<or> r = s \<and> outbound_expected_responses (snd r) > 0 \<Longrightarrow>
    awaiting (on_fully_negotiated_outbound D now s h) r"
  proof (cases "outbound_expected_responses (snd s) > 0")
    case True
    then show "awaiting h r \<or> r = s \<and> outbound_expected_responses (snd r) > 0 \<Longrightarrow> ?thesis"
      by (intro awaiting_stored [OF none info(3)]) (auto simp: info)
  next
    case False
    then show "awaiting h r \<or> r = s \<and> outbound_expected_responses (snd r) > 0 \<Longrightarrow> ?thesis"
      by (auto simp: awaiting_def on_fully_negotiated_outbound_def Let_def push_out_def)
  qed
  have "dial_queue (on_fully_negotiated_outbound D now s h) = dial_queue h"
    "set (events_out h) \<subseteq> set (events_out (on_fully_negotiated_outbound D now s h))"
    by (auto simp: on_fully_negotiated_outbound_def Let_def push_out_def split: prod.splits)
  with await assms(2) show ?thesis unfolding located_def by auto
qed

lemma dial_failed_ok:
  "handler_ok entries n h \<Longrightarrow> 0 < dial_negotiated h \<Longrightarrow> handler_ok entries n (dial_failed err r h)"
  by (simp add: dial_failed_def dial_released_ok)

lemma dial_error_ok:
  assumes "handler_ok entries n h" "0 < dial_negotiated h"
  shows "handler_ok entries n (on_dial_upgrade_error r err h)"
proof -
  have "handler_ok entries n (h\<lparr>outbound_io_error_retries := c\<rparr>)" for c
    by (rule handler_ok_cong [OF assms(1)]) simp_all
  with assms show ?thesis
    by (simp add: on_dial_upgrade_error_def Let_def send_request_ok dial_failed_ok split: sum.split)
qed

lemma dial_error_located:
  "located h r \<or> r = s \<Longrightarrow> located (on_dial_upgrade_error s err h) r"
  by (auto simp: on_dial_upgrade_error_def Let_def dial_failed_def handler_send_request_def located_def
      push_out_def awaiting_def split: sum.split HandlerState.split)

section \<open>Polling keeps the invariant\<close>

text \<open>A step that changes only the inbound side and appends events.\<close>

definition inbound_only ::
    "('id, 'e, 'q, 'k) RPCHandler \<Rightarrow> ('id, 'e, 'q, 'k) RPCHandler \<Rightarrow> bool" where
  "inbound_only h h' \<longleftrightarrow> outbound_substreams h' = outbound_substreams h \<and>
     outbound_substreams_delay h' = outbound_substreams_delay h \<and> dial_queue h' = dial_queue h \<and>
     dial_negotiated h' = dial_negotiated h \<and> handler_state h' = handler_state h \<and>
     current_inbound_substream_id h' = current_inbound_substream_id h \<and>
     (\<exists>evs. events_out h' = events_out h @ evs)"

lemma inbound_only_refl: "inbound_only h (h\<lparr>inbound_substreams_delay := q\<rparr>)"
  by (simp add: inbound_only_def)

lemma inbound_only_trans: "inbound_only h h' \<Longrightarrow> inbound_only h' h'' \<Longrightarrow> inbound_only h h''"
  by (auto simp: inbound_only_def)

lemma inbound_only_located: "inbound_only h h' \<Longrightarrow> located h r \<Longrightarrow> located h' r"
  by (auto simp: inbound_only_def located_def awaiting_def)

lemma timed_out_only: "inbound_only h (inbound_timed_out X i (h\<lparr>inbound_substreams_delay := q\<rparr>))"
  by (simp add: inbound_timed_out_def inbound_only_def push_out_def split: option.split)

lemma timed_out_ok:
  assumes "dq_laws D entries" "handler_ok entries n h"
    and "dq_poll_expired D (inbound_substreams_delay h) now = (Expired i, q)"
  shows "handler_ok entries n (inbound_timed_out X i (h\<lparr>inbound_substreams_delay := q\<rparr>)) \<and>
    card (dom (entries q)) < card (dom (entries (inbound_substreams_delay h)))"
proof -
  let ?m = "entries (inbound_substreams_delay h)"
  from assms(1,3) obtain k where k: "?m k = Some i" "entries q = ?m(k := None)" by (rule dq_expiredD)
  from assms(2) have inb: "streams_ok ?m in_delay_key (\<lambda>info. in_state info \<noteq> InboundState.Poisoned)
      (current_inbound_substream_id h) (inbound_substreams h)"
    by (simp add: handler_ok_def inbound_ok_def)
  from streams_okD(2) [OF inb] k(1) obtain info
    where info: "map_of (inbound_substreams h) i = Some info" "in_delay_key info = Some k" by (rule timers_okE)
  have alive: "in_state info \<noteq> InboundState.Poisoned" by (rule streams_okD(3) [OF inb info(1)])
  have "streams_ok (entries q) in_delay_key (\<lambda>info. in_state info \<noteq> InboundState.Poisoned)
      (current_inbound_substream_id h) (AList.update i (info\<lparr>in_delay_key := None, pending_items := its\<rparr>) (inbound_substreams h))" for its
    unfolding k(2) by (rule streams_ok_expired [OF inb info]) (simp_all add: alive)
  then have "handler_ok entries n (inbound_timed_out X i (h\<lparr>inbound_substreams_delay := q\<rparr>))"
    using assms(2) length_update_known [OF info(1)] info(1)
    by (simp add: handler_ok_def inbound_ok_def outbound_ok_def inbound_timed_out_def push_out_def)
  moreover have "card (dom (entries q)) < card (dom ?m)"
    unfolding k(2) using k(1) by (intro psubset_card_mono dq_finite [OF assms(1)]) auto
  ultimately show ?thesis by blast
qed

lemma poll_delay_ok:
  assumes "handler_ok entries n h" "entries q = entries (inbound_substreams_delay h)"
  shows "handler_ok entries n (h\<lparr>inbound_substreams_delay := q\<rparr>)"
  using assms by (simp add: handler_ok_def inbound_ok_def outbound_ok_def)

lemma expire_inbound_ok:
  assumes "dq_laws D entries" "handler_ok entries n h"
  shows "\<exists>h' r. expire_inbound D X now h = Some (h', r) \<and> handler_ok entries n h' \<and> inbound_only h h' \<and>
    (r = None \<or> r = Some (Close (InternalError ''Could not poll inbound stream timer'')))"
  using assms(2)
proof (induction "card (dom (entries (inbound_substreams_delay h)))" arbitrary: h rule: less_induct)
  case less
  obtain due q where p: "dq_poll_expired D (inbound_substreams_delay h) now = (due, q)"
    by (cases "dq_poll_expired D (inbound_substreams_delay h) now")
  note eq = expire_inbound.simps [of D X now h, unfolded p Let_def prod.case]
  show ?case
  proof (cases due)
    case (Expired i)
    let ?h = "inbound_timed_out X i (h\<lparr>inbound_substreams_delay := q\<rparr>)"
    note step = timed_out_ok [OF assms(1) less.prems p [unfolded Expired], of X]
    have "inbound_substreams_delay ?h = q"
      by (simp add: inbound_timed_out_def push_out_def split: option.split)
    with step less.hyps [of ?h] obtain h' r where "expire_inbound D X now ?h = Some (h', r)"
      "handler_ok entries n h'" "inbound_only ?h h'"
      "r = None \<or> r = Some (Close (InternalError ''Could not poll inbound stream timer''))" by auto
    with eq Expired inbound_only_trans [OF timed_out_only] show ?thesis by auto
  next
    case TimerFailed
    then have "entries q = entries (inbound_substreams_delay h)"
      using dq_not_dueD [OF assms(1) p] by simp
    from poll_delay_ok [OF less.prems this] eq TimerFailed show ?thesis by (simp add: inbound_only_refl)
  next
    case NoneDue
    then have "entries q = entries (inbound_substreams_delay h)"
      using dq_not_dueD [OF assms(1) p] by simp
    from poll_delay_ok [OF less.prems this] eq NoneDue show ?thesis by (simp add: inbound_only_refl)
  qed
qed

text \<open>
  A stage of \<open>poll\<close> on the outbound side: no request is lost, apart from the one its output
  accounts for; the stage neither dials nor changes the state of the handler.
\<close>

definition keeps ::
    "('id, 'e, 'q, 'k) RPCHandler \<Rightarrow> ('id, 'e, 'q, 'k) RPCHandler \<Rightarrow>
     ('id, 'e) ConnectionHandlerEvent option \<Rightarrow> bool" where
  "keeps h h' r \<longleftrightarrow> dial_negotiated h' = dial_negotiated h \<and> handler_state h' = handler_state h \<and>
     current_inbound_substream_id h' = current_inbound_substream_id h \<and>
     (\<forall>s. located h s \<longrightarrow> located h' s \<or> (\<exists>out. r = Some out \<and> accounts out s)) \<and>
     (\<forall>c s. r \<noteq> Some (OutboundSubstreamRequest c s))"

lemma keeps_refl: "keeps h h None"
  by (simp add: keeps_def)

lemma keeps_trans: "keeps h h' None \<Longrightarrow> keeps h' h'' r \<Longrightarrow> keeps h h'' r"
  by (simp add: keeps_def)

lemma inbound_only_keeps: "inbound_only h h' \<Longrightarrow> keeps h h' None"
  by (simp add: keeps_def inbound_only_located) (simp add: inbound_only_def)

lemma keeps_close: "keeps h h' None \<Longrightarrow> keeps h h' (Some (Close err))"
  by (simp add: keeps_def)

text \<open>Taking a stream off the table, or to the state \<open>Closing\<close>, concerns its own request only.\<close>

lemma off_stream_located:
  assumes "map_of (outbound_substreams h) oid = Some info"
    and "\<And>j. j \<noteq> oid \<Longrightarrow> map_of (outbound_substreams h') j = map_of (outbound_substreams h) j"
    and "dial_queue h' = dial_queue h" "set (events_out h) \<subseteq> set (events_out h')" "located h s"
  shows "located h' s \<or> out_state info = RequestPendingResponse (snd s) \<and> req_id info = fst s"
proof (cases "awaiting h s")
  case True
  then obtain j info' where s: "map_of (outbound_substreams h) j = Some info'"
    "out_state info' = RequestPendingResponse (snd s)" "req_id info' = fst s" by (rule awaitingE)
  show ?thesis
  proof (cases "j = oid")
    case True
    with s assms(1) show ?thesis by simp
  next
    case False
    with s assms(2) have "awaiting h' s" by (intro awaitingI [of _ j info']) simp_all
    then show ?thesis by (simp add: located_def)
  qed
next
  case False
  with assms(3-5) show ?thesis unfolding located_def by auto
qed

lemma off_stream_keeps:
  assumes "map_of (outbound_substreams h) oid = Some info"
    and "\<And>j. j \<noteq> oid \<Longrightarrow> map_of (outbound_substreams h') j = map_of (outbound_substreams h) j"
    and "dial_queue h' = dial_queue h" "set (events_out h) \<subseteq> set (events_out h')"
    and "dial_negotiated h' = dial_negotiated h" "handler_state h' = handler_state h"
      "current_inbound_substream_id h' = current_inbound_substream_id h"
    and "(\<forall>req. out_state info \<noteq> RequestPendingResponse req) \<or>
      Some (req_id info) \<in> event_id ` set (events_out h') \<and> r = None \<or>
      (\<exists>ev. r = Some (NotifyBehaviour ev) \<and> event_id ev = Some (req_id info))"
    and "\<And>c s. r \<noteq> Some (OutboundSubstreamRequest c s)"
  shows "keeps h h' r"
proof -
  have "located h' s \<or> (\<exists>out. r = Some out \<and> accounts out s)" if "located h s" for s
    using off_stream_located [OF assms(1-4) that] assms(8) by (auto simp: located_def)
  with assms show ?thesis by (simp add: keeps_def)
qed

lemma delete_outbound_ok:
  assumes "handler_ok entries n h" "map_of (outbound_substreams h) oid = Some info"
    and "entries q = (entries (outbound_substreams_delay h))(out_delay_key info := None)"
  shows "handler_ok entries n (h\<lparr>outbound_substreams_delay := q,
    outbound_substreams := AList.delete oid (outbound_substreams h)\<rparr>)"
proof -
  from assms(1) have out: "streams_ok (entries (outbound_substreams_delay h)) (\<lambda>info. Some (out_delay_key info))
      (\<lambda>info. out_state info \<noteq> OutboundSubstreamState.Poisoned) (current_outbound_substream_id h) (outbound_substreams h)"
    by (simp add: handler_ok_def outbound_ok_def)
  from streams_ok_delete [OF out assms(2) refl] assms(1,3) show ?thesis
    by (simp add: handler_ok_def inbound_ok_def outbound_ok_def)
qed

lemma outbound_timer:
  assumes "handler_ok entries n h" "map_of (outbound_substreams h) oid = Some info"
  shows "entries (outbound_substreams_delay h) (out_delay_key info) = Some oid"
    and "out_state info \<noteq> OutboundSubstreamState.Poisoned"
  using assms timers_okD [OF streams_okD(2)] streams_okD(3) unfolding handler_ok_def outbound_ok_def
  by (fastforce, fastforce)

lemma expire_outbound_ok:
  assumes "dq_laws D entries" "handler_ok entries n h"
  shows "\<exists>h' r. expire_outbound D now h = Some (h', r) \<and> handler_ok entries n h' \<and> keeps h h' r"
proof -
  let ?m = "entries (outbound_substreams_delay h)"
  obtain due q where p: "dq_poll_expired D (outbound_substreams_delay h) now = (due, q)"
    by (cases "dq_poll_expired D (outbound_substreams_delay h) now")
  note eq = expire_outbound.simps [of D now h, unfolded p Let_def prod.case]
  have same: "handler_ok entries n (h\<lparr>outbound_substreams_delay := q\<rparr>)" "keeps h (h\<lparr>outbound_substreams_delay := q\<rparr>) None"
    if "entries q = ?m"
    using assms(2) that
    by (simp_all add: handler_ok_def inbound_ok_def outbound_ok_def keeps_def located_def awaiting_def)
  show ?thesis
  proof (cases due)
    case (Expired i)
    with assms(1) p obtain k where k: "?m k = Some i" "entries q = ?m(k := None)" by (metis dq_expiredD)
    from assms(2) have "timers_ok ?m (\<lambda>info. Some (out_delay_key info)) (map_of (outbound_substreams h))"
      unfolding handler_ok_def outbound_ok_def using streams_okD(2) by blast
    then obtain info where info: "map_of (outbound_substreams h) i = Some info" "Some (out_delay_key info) = Some k"
      using k(1) by (rule timers_okE)
    let ?h = "h\<lparr>outbound_substreams_delay := q, outbound_substreams := AList.delete i (outbound_substreams h)\<rparr>"
    have "handler_ok entries n ?h" using delete_outbound_ok [OF assms(2) info(1), of q] k(2) info(2) by simp
    moreover have "keeps h ?h (Some (NotifyBehaviour (Inl (Outbound (req_id info) (out_proto info) StreamTimeout))))"
      by (rule off_stream_keeps [OF info(1)]) simp_all
    ultimately show ?thesis using eq Expired info(1) by simp
  next
    case TimerFailed
    with same keeps_close [OF same(2)] dq_not_dueD [OF assms(1) p] eq show ?thesis by simp
  next
    case NoneDue
    with same dq_not_dueD [OF assms(1) p] eq show ?thesis by simp
  qed
qed

text \<open>One inbound stream: it returns, keeps its key, and loses its timer exactly when it is dropped.\<close>

definition driven ::
    "('q \<Rightarrow> 'k \<Rightarrow> SubstreamId option) \<Rightarrow> 'k InboundInfo \<Rightarrow> 'q \<Rightarrow> ('id, 'e) HandlerEvent list \<Rightarrow>
     ('k InboundInfo \<times> 'q \<times> ('id, 'e) HandlerEvent list \<times> bool) option \<Rightarrow> bool" where
  "driven entries info q evs res \<longleftrightarrow>
     (\<exists>info' q' evs' closed. res = Some (info', q', evs @ evs', closed) \<and>
        in_delay_key info' = in_delay_key info \<and>
        entries q' = (if closed then (case in_delay_key info of None \<Rightarrow> entries q | Some k \<Rightarrow> (entries q)(k := None))
                      else entries q) \<and>
        (\<not> closed \<longrightarrow> in_state info' \<noteq> InboundState.Poisoned))"

lemma drivenI:
  assumes "res = Some (info', q', evs @ evs', False)" "in_delay_key info' = in_delay_key info"
    "entries q' = entries q" "in_state info' \<noteq> InboundState.Poisoned"
  shows "driven entries info q evs res"
  using assms unfolding driven_def by auto

lemma drivenI_same:
  assumes "res = Some (info', q', evs, False)" "in_delay_key info' = in_delay_key info"
    "entries q' = entries q" "in_state info' \<noteq> InboundState.Poisoned"
  shows "driven entries info q evs res"
  using drivenI [of res info' q' evs "[]"] assms by simp

lemma drivenI_stay:
  "res = Some (info, q, evs, False) \<Longrightarrow> in_state info \<noteq> InboundState.Poisoned \<Longrightarrow> driven entries info q evs res"
  by (rule drivenI_same [where info' = info and q' = q]) simp_all

lemma driven_step:
  assumes "driven entries info' q' evs res" "in_delay_key info' = in_delay_key info" "entries q' = entries q"
  shows "driven entries info q evs res"
  using assms(1) unfolding driven_def assms(2,3) .

lemma drivenI_closed:
  assumes "res = Some (info', q', evs @ evs', True)" "in_delay_key info' = in_delay_key info"
    "entries q' = (case in_delay_key info of None \<Rightarrow> entries q | Some k \<Rightarrow> (entries q)(k := None))"
  shows "driven entries info q evs res"
  unfolding driven_def by (intro exI [of _ info'] exI [of _ q'] exI [of _ evs'] exI [of _ True]) (simp add: assms)

lemma drop_inbound_driven:
  assumes "dq_laws D entries" "\<And>k. in_delay_key info = Some k \<Longrightarrow> entries q k = Some i"
  shows "driven entries info q evs (drop_inbound D info q (evs @ evs'))"
proof (cases "in_delay_key info")
  case None
  then show ?thesis
    by (intro drivenI_closed [of _ "info\<lparr>in_state := InboundState.Poisoned\<rparr>" q _ evs'])
      (simp_all add: drop_inbound_def remove_timer_def)
next
  case (Some k)
  from assms(1) assms(2) [OF Some] obtain q' where "dq_remove D q k = Some q'" "entries q' = (entries q)(k := None)"
    by (rule dq_removeD)
  with Some show ?thesis
    by (intro drivenI_closed [of _ "info\<lparr>in_state := InboundState.Poisoned\<rparr>" q' _ evs'])
      (simp_all add: drop_inbound_def remove_timer_def)
qed

lemma reset_timer_ok:
  assumes "dq_laws D entries" "\<And>k. key = Some k \<Longrightarrow> entries q k = Some i"
  obtains q' where "reset_timer D now d q key = Some q'" "entries q' = entries q"
proof (cases key)
  case None
  with that show ?thesis by (simp add: reset_timer_def)
next
  case (Some k)
  from assms(1) assms(2) [OF Some] obtain q' where "dq_reset D q k now d = Some q'" "entries q' = entries q"
    by (rule dq_resetD)
  with Some that show ?thesis by (simp add: reset_timer_def)
qed

lemma drive_inbound_driven:
  assumes "dq_laws D entries" "in_state info \<noteq> InboundState.Poisoned"
    and "\<And>k. in_delay_key info = Some k \<Longrightarrow> entries q k = Some i"
  shows "driven entries info q evs (drive_inbound D now timeout deactivated i closing ios info q evs)"
  using assms(2,3)
proof (induction "length ios + length (pending_items info)" arbitrary: ios info q rule: less_induct)
  case less
  note eq = drive_inbound.simps [of D now timeout deactivated i closing ios info q evs, unfolded Let_def]
  have drop: "driven entries info q evs (drop_inbound D info q (evs @ evs'))" for evs'
    by (rule drop_inbound_driven [OF assms(1)]) (use less.prems in blast)
  have stay: "driven entries info q evs (Some (info, q, evs, False))"
    by (rule drivenI_stay [OF refl less.prems(1)])
  have rec: "driven entries info q evs (drive_inbound D now timeout deactivated i closing ios2 info2 q2 evs)"
    if "length ios2 + length (pending_items info2) < length ios + length (pending_items info)"
      "in_state info2 \<noteq> InboundState.Poisoned" "in_delay_key info2 = in_delay_key info" "entries q2 = entries q"
    for ios2 info2 q2
    by (rule driven_step [OF less.hyps [OF that(1,2)] that(3,4)]) (use less.prems that in simp)
  show ?case
  proof (cases "in_state info")
    case Idle
    show ?thesis
    proof (cases deactivated)
      case True
      with Idle eq drop stay show ?thesis
        by (cases closing) simp_all
    next
      case False
      show ?thesis
      proof (cases "pending_items info")
        case Nil
        with Idle False eq stay show ?thesis by simp
      next
        case (Cons m rest)
        then show ?thesis
          using rec [of ios "info\<lparr>in_state := Busy m (in_remaining_chunks info \<le> 1), pending_items := rest\<rparr>" q]
            Idle False eq by simp
      qed
    qed
  next
    case (Busy m l)
    show ?thesis
    proof (cases ios)
      case Nil
      with Busy eq stay show ?thesis by simp
    next
      case (Cons io ios')
      show ?thesis
      proof (cases "send_message_to_inbound_substream m l io")
        case (Inl e)
        with Busy Cons eq drop show ?thesis by simp
      next
        case (Inr c)
        show ?thesis
        proof (cases c)
          case True
          with Inr Busy Cons eq drop [of "[]"] show ?thesis by simp
        next
          case False
          let ?info = "info\<lparr>in_remaining_chunks := sat_sub (in_remaining_chunks info) 1\<rparr>"
          obtain q' where q': "reset_timer D now timeout q (in_delay_key ?info) = Some q'" "entries q' = entries q"
            by (rule reset_timer_ok [OF assms(1), of "in_delay_key ?info" q i])
              (use less.prems in simp_all)
          show ?thesis
          proof (cases "deactivated \<or> pending_items info = []")
            case True
            with q' Inr False Busy Cons eq show ?thesis
              by (intro drivenI_same [of _ "?info\<lparr>in_state := InboundState.Idle\<rparr>" q']) auto
          next
            case more: False
            then obtain m' rest where "pending_items info = m' # rest" by (cases "pending_items info") auto
            with q' Inr False Busy Cons eq more
              rec [of ios' "?info\<lparr>in_state := Busy m' (in_remaining_chunks ?info \<le> 1), pending_items := rest\<rparr>" q']
            show ?thesis by simp
          qed
        qed
      qed
    qed
  next
    case Poisoned
    with less.prems(1) show ?thesis by simp
  qed
qed

definition all_driven ::
    "('q \<Rightarrow> 'k \<Rightarrow> SubstreamId option) \<Rightarrow> (SubstreamId \<times> 'k InboundInfo) list \<Rightarrow> 'q \<Rightarrow> ('id, 'e) HandlerEvent list \<Rightarrow>
     ((SubstreamId \<times> 'k InboundInfo) list \<times> 'q \<times> ('id, 'e) HandlerEvent list \<times> SubstreamId list) option \<Rightarrow> bool" where
  "all_driven entries streams q evs res \<longleftrightarrow>
     (\<exists>streams' q' evs' rm. res = Some (streams', q', evs @ evs', rm) \<and> map fst streams' = map fst streams \<and>
        entries q' = without (set rm) (entries q) \<and>
        map (in_delay_key \<circ> snd) streams' = map (in_delay_key \<circ> snd) streams \<and>
        (\<forall>(i, info) \<in> set streams'. i \<notin> set rm \<longrightarrow> in_state info \<noteq> InboundState.Poisoned))"

lemma drive_inbounds_ok:
  assumes "dq_laws D entries" "distinct (map fst streams)"
    and "\<And>i info. (i, info) \<in> set streams \<Longrightarrow> in_state info \<noteq> InboundState.Poisoned"
    and "\<And>i info k. (i, info) \<in> set streams \<Longrightarrow> entries q k = Some i \<longleftrightarrow> in_delay_key info = Some k"
  shows "all_driven entries streams q evs (drive_inbounds D now timeout deactivated env streams q evs)"
  using assms(2-)
proof (induction streams arbitrary: q evs)
  case Nil
  then show ?case by (simp add: all_driven_def)
next
  case (Cons x streams)
  obtain i info where x: "x = (i, info)" by (cases x)
  from Cons.prems(2) [of i info] x have alive: "in_state info \<noteq> InboundState.Poisoned" by simp
  from Cons.prems(3) [of i info] x have key: "entries q k = Some i \<longleftrightarrow> in_delay_key info = Some k" for k
    by simp
  from drive_inbound_driven [OF assms(1) alive, of q i, folded key]
  obtain info' q1 evs1 c where one: "drive_inbound D now timeout deactivated i (close_result env i)
      (send_results env i) info q evs = Some (info', q1, evs @ evs1, c)"
    "in_delay_key info' = in_delay_key info" "\<not> c \<Longrightarrow> in_state info' \<noteq> InboundState.Poisoned"
    "entries q1 = (if c then (case in_delay_key info of None \<Rightarrow> entries q | Some k \<Rightarrow> (entries q)(k := None))
       else entries q)"
    unfolding driven_def by blast
  have q1: "entries q1 = without (if c then {i} else {}) (entries q)"
  proof (cases c)
    case True
    have "(case in_delay_key info of None \<Rightarrow> entries q | Some k \<Rightarrow> (entries q)(k := None)) k = without {i} (entries q) k" for k
      using key [of k] by (cases "entries q k") (auto simp: without_def split: option.splits)
    with True one(4) show ?thesis by auto
  qed (use one(4) in simp)
  have later: "entries q1 k = Some j \<longleftrightarrow> in_delay_key info2 = Some k" if "(j, info2) \<in> set streams" for j info2 k
  proof -
    from that Cons.prems(1) x have "j \<noteq> i" by force
    with q1 Cons.prems(3) [of j info2 k] that show ?thesis by simp
  qed
  have alive2: "in_state info2 \<noteq> InboundState.Poisoned" if "(j, info2) \<in> set streams" for j info2
    using Cons.prems(2) [of j info2] that by simp
  have "all_driven entries streams q1 (evs @ evs1)
      (drive_inbounds D now timeout deactivated env streams q1 (evs @ evs1))"
    using Cons.prems(1) by (intro Cons.IH alive2 later) simp_all
  then obtain streams' q2 evs2 rm where rest:
    "drive_inbounds D now timeout deactivated env streams q1 (evs @ evs1) = Some (streams', q2, (evs @ evs1) @ evs2, rm)"
    "map fst streams' = map fst streams" "entries q2 = without (set rm) (entries q1)"
    "map (in_delay_key \<circ> snd) streams' = map (in_delay_key \<circ> snd) streams"
    "\<forall>(i, info) \<in> set streams'. i \<notin> set rm \<longrightarrow> in_state info \<noteq> InboundState.Poisoned"
    unfolding all_driven_def by blast
  let ?rm = "if c then i # rm else rm"
  have "drive_inbounds D now timeout deactivated env (x # streams) q evs =
      Some ((i, info') # streams', q2, evs @ (evs1 @ evs2), ?rm)"
    using x one(1) rest(1) by simp
  moreover have "map fst ((i, info') # streams') = map fst (x # streams)"
    "map (in_delay_key \<circ> snd) ((i, info') # streams') = map (in_delay_key \<circ> snd) (x # streams)"
    using x one(2) rest(2,4) by simp_all
  moreover have "entries q2 = without (set ?rm) (entries q)" using rest(3) q1 by simp
  moreover have "\<forall>(i, info) \<in> set ((i, info') # streams'). i \<notin> set ?rm \<longrightarrow> in_state info \<noteq> InboundState.Poisoned"
    using rest(5) one(3) by (auto split: if_splits)
  ultimately show ?case unfolding all_driven_def by (intro exI conjI)
qed

lemma map_of_same_keys:
  assumes "map fst al = map fst bl" "map (f \<circ> snd) al = map (f \<circ> snd) bl"
  shows "map_option f (map_of al i) = map_option f (map_of bl i)"
  using assms
proof (induction al arbitrary: bl)
  case (Cons x al)
  then obtain y bl' where "bl = y # bl'" by (cases bl) auto
  with Cons show ?case by (cases x; cases y) auto
qed simp

lemma poll_inbounds_ok:
  assumes "dq_laws D entries" "handler_ok entries n h"
  shows "\<exists>h'. poll_inbounds D now env h = Some h' \<and> handler_ok entries n h' \<and> inbound_only h h'"
proof -
  let ?m = "entries (inbound_substreams_delay h)" and ?al = "inbound_substreams h"
  from assms(2) have inb: "streams_ok ?m in_delay_key (\<lambda>info. in_state info \<noteq> InboundState.Poisoned)
      (current_inbound_substream_id h) ?al"
    and len: "length ?al \<le> MAX_INBOUND_SUBSTREAMS"
    by (simp_all add: handler_ok_def inbound_ok_def)
  note dist = streams_okD(1) [OF inb]
  have "?m k = Some i \<longleftrightarrow> in_delay_key info = Some k" if "(i, info) \<in> set ?al" for i info k
    using timers_ok_iff [OF streams_okD(2) [OF inb], of k i] map_of_is_SomeI [OF dist that] by simp
  moreover have "in_state info \<noteq> InboundState.Poisoned" if "(i, info) \<in> set ?al" for i info
    using streams_okD(3) [OF inb map_of_is_SomeI [OF dist that]] .
  ultimately have "all_driven entries ?al (inbound_substreams_delay h) (events_out h)
      (drive_inbounds D now (resp_timeout h) (handler_state h = Deactivated) env ?al
        (inbound_substreams_delay h) (events_out h))"
    by (intro drive_inbounds_ok [OF assms(1) dist]) blast+
  then obtain streams' q' evs' rm where r:
    "drive_inbounds D now (resp_timeout h) (handler_state h = Deactivated) env ?al (inbound_substreams_delay h)
      (events_out h) = Some (streams', q', events_out h @ evs', rm)" "map fst streams' = map fst ?al"
    "entries q' = without (set rm) ?m" "map (in_delay_key \<circ> snd) streams' = map (in_delay_key \<circ> snd) ?al"
    "\<forall>(i, info) \<in> set streams'. i \<notin> set rm \<longrightarrow> in_state info \<noteq> InboundState.Poisoned"
    unfolding all_driven_def by blast
  have "streams_ok (entries q') in_delay_key (\<lambda>info. in_state info \<noteq> InboundState.Poisoned)
      (current_inbound_substream_id h) (fold AList.delete rm streams')"
    unfolding r(3) using map_of_same_keys [OF r(2,4)] r(5)
    by (intro streams_ok_without [OF inb r(2)]) (auto dest: map_of_SomeD)
  moreover have "length (fold AList.delete rm streams') \<le> MAX_INBOUND_SUBSTREAMS"
    using length_fold_delete [of rm streams'] len map_eq_imp_length_eq [OF r(2)] by simp
  ultimately show ?thesis
    using r(1) assms(2)
    by (simp add: poll_inbounds_def handler_ok_def inbound_ok_def outbound_ok_def inbound_only_def)
qed

text \<open>One outbound stream, then all of them.\<close>

lemma set_outbound_ok:
  assumes "handler_ok entries n h" "map_of (outbound_substreams h) oid = Some info"
    and "out_delay_key info' = out_delay_key info" "out_state info' \<noteq> OutboundSubstreamState.Poisoned"
  shows "handler_ok entries n (set_outbound oid info' h)"
proof -
  from assms(1) have out: "streams_ok (entries (outbound_substreams_delay h)) (\<lambda>info. Some (out_delay_key info))
      (\<lambda>info. out_state info \<noteq> OutboundSubstreamState.Poisoned) (current_outbound_substream_id h) (outbound_substreams h)"
    by (simp add: handler_ok_def outbound_ok_def)
  from streams_ok_update [OF out assms(2), of info'] assms(1,3,4) show ?thesis
    by (simp add: set_outbound_def handler_ok_def inbound_ok_def outbound_ok_def)
qed

lemma reset_delay_ok:
  assumes "handler_ok entries n h" "entries q = entries (outbound_substreams_delay h)"
  shows "handler_ok entries n (h\<lparr>outbound_substreams_delay := q\<rparr>)"
  using assms by (simp add: handler_ok_def inbound_ok_def outbound_ok_def)

lemma drop_outbound_ok:
  assumes "dq_laws D entries" "handler_ok entries n h" "map_of (outbound_substreams h) oid = Some info"
  obtains q where "drop_outbound D oid info h = Some (h\<lparr>outbound_substreams_delay := q,
      outbound_substreams := AList.delete oid (outbound_substreams h)\<rparr>)"
    "handler_ok entries n (h\<lparr>outbound_substreams_delay := q,
      outbound_substreams := AList.delete oid (outbound_substreams h)\<rparr>)"
proof -
  from assms(1) outbound_timer(1) [OF assms(2,3)] obtain q where
    "dq_remove D (outbound_substreams_delay h) (out_delay_key info) = Some q"
    "entries q = (entries (outbound_substreams_delay h))(out_delay_key info := None)" by (rule dq_removeD)
  with that [of q] delete_outbound_ok [OF assms(2,3)] show ?thesis by (simp add: drop_outbound_def)
qed

lemma after_response_ok:
  assumes "dq_laws D entries" "handler_ok entries n h" "map_of (outbound_substreams h) oid = Some info"
  obtains q info' where "after_response D now oid info request response h =
      Some ((set_outbound oid info' h)\<lparr>outbound_substreams_delay := q\<rparr>)"
    "handler_ok entries n ((set_outbound oid info' h)\<lparr>outbound_substreams_delay := q\<rparr>)"
proof -
  from assms(1) outbound_timer(1) [OF assms(2,3)] obtain q where q:
    "dq_reset D (outbound_substreams_delay h) (out_delay_key info) now (resp_timeout h) = Some q"
    "entries q = entries (outbound_substreams_delay h)" by (rule dq_resetD)
  have same: "(set_outbound oid i h)\<lparr>outbound_substreams_delay := outbound_substreams_delay h\<rparr> = set_outbound oid i h" for i
    by (simp add: set_outbound_def)
  have closing: "handler_ok entries n (set_outbound oid (info\<lparr>out_state := Closing\<rparr>) h)"
    by (rule set_outbound_ok [OF assms(2,3)]) simp_all
  have open_: "handler_ok entries n ((set_outbound oid (info\<lparr>out_remaining_chunks := c\<rparr>) h)\<lparr>outbound_substreams_delay := q\<rparr>)" for c
    by (rule reset_delay_ok [OF set_outbound_ok [OF assms(2,3)]])
      (use outbound_timer(2) [OF assms(2,3)] q(2) in \<open>simp_all add: set_outbound_def\<close>)
  define rem where "rem = unwrap_or (map_option (\<lambda>count. sat_sub count 1) (out_remaining_chunks info)) 0"
  show ?thesis
  proof (cases "outbound_expected_responses request > 1 \<and> \<not> close_after response \<and> rem \<noteq> 0")
    case True
    with q that [of q "info\<lparr>out_remaining_chunks := Some rem\<rparr>"] open_ show ?thesis
      by (simp add: after_response_def Let_def rem_def)
  next
    case False
    then have "after_response D now oid info request response h = Some (set_outbound oid (info\<lparr>out_state := Closing\<rparr>) h)"
      by (auto simp: after_response_def Let_def rem_def)
    with that [of "outbound_substreams_delay h" "info\<lparr>out_state := Closing\<rparr>"] closing same show ?thesis by simp
  qed
qed

lemma stream_termination_Some:
  "outbound_expected_responses req > 1 \<Longrightarrow> \<exists>t. outbound_stream_termination req = Some t"
  by (cases req) simp_all

lemma end_event_Some: "\<exists>ev. end_event info req = Some ev \<and> event_id ev = Some (req_id info)"
  using stream_termination_Some [of req] by (auto simp: end_event_def)

lemma response_event_id [simp]: "event_id (response_event X info response) = Some (req_id info)"
  by (simp add: response_event_def split: RPCCodedResponse.split)

text \<open>The streams other than \<open>oid\<close> are still there.\<close>

definition outbound_driven where
  "outbound_driven entries n oid h res \<longleftrightarrow>
     (\<exists>h' r. res = Some (h', r) \<and> handler_ok entries n h' \<and> keeps h h' r \<and>
        (\<forall>j. j \<noteq> oid \<longrightarrow> map_of (outbound_substreams h') j = map_of (outbound_substreams h) j))"

lemma outbound_drivenI:
  assumes "res = Some (h', r)" "handler_ok entries n h'" "keeps h h' r"
    and "\<And>j. j \<noteq> oid \<Longrightarrow> map_of (outbound_substreams h') j = map_of (outbound_substreams h) j"
  shows "outbound_driven entries n oid h res"
  using assms unfolding outbound_driven_def by blast

lemma drive_outbound_ok:
  fixes h :: "('id, 'e, 'q, 'k) RPCHandler"
  assumes "dq_laws D entries" "handler_ok entries n h" "map_of (outbound_substreams h) oid = Some info"
  shows "outbound_driven entries n oid h (drive_outbound D X now deactivated env oid h)"
proof -
  obtain d where drop: "drop_outbound D oid info h = Some d" "handler_ok entries n d"
    "outbound_substreams d = AList.delete oid (outbound_substreams h)" "dial_queue d = dial_queue h"
    "events_out d = events_out h" "dial_negotiated d = dial_negotiated h" "handler_state d = handler_state h"
    "current_inbound_substream_id d = current_inbound_substream_id h"
    by (rule drop_outbound_ok [OF assms]) (fastforce dest: arg_cong)
  have dropped: "outbound_driven entries n oid h (Some (d, r))"
    if "(\<forall>req. out_state info \<noteq> RequestPendingResponse req) \<and> r = None \<or>
      (\<exists>ev. r = Some (NotifyBehaviour ev) \<and> event_id ev = Some (req_id info))" for r
    by (rule outbound_drivenI [OF refl drop(2)])
      (rule off_stream_keeps [OF assms(3)], use that drop(3-) in auto)
  have stay: "outbound_driven entries n oid h (Some (h, None))"
    by (rule outbound_drivenI [OF refl assms(2) keeps_refl]) simp
  note defs = drive_outbound_def assms(3)
  show ?thesis
  proof (cases "out_state info")
    case Closing
    with stay dropped [of None] drop(1) show ?thesis by (simp add: defs)
  next
    case Poisoned
    with outbound_timer(2) [OF assms(2,3)] show ?thesis by simp
  next
    case (RequestPendingResponse request)
    show ?thesis
    proof (cases deactivated)
      case True
      let ?h = "push_out (Inl (Outbound (req_id info) (out_proto info) Disconnected))
        (set_outbound oid (info\<lparr>out_state := Closing\<rparr>) h)"
      have "outbound_driven entries n oid h (Some (?h, None))"
      proof (rule outbound_drivenI [OF refl])
        show "handler_ok entries n ?h" by (rule push_out_ok, rule set_outbound_ok [OF assms(2,3)]) simp_all
        show "keeps h ?h None"
          by (rule off_stream_keeps [OF assms(3)]) (auto simp: push_out_def set_outbound_def)
      qed (simp add: push_out_def set_outbound_def)
      with True RequestPendingResponse show ?thesis by (simp add: defs)
    next
      case active: False
      show ?thesis
      proof (cases "received env oid")
        case RecvPending
        with stay active RequestPendingResponse show ?thesis by (simp add: defs)
      next
        case RecvEnd
        obtain ev :: "('id, 'e) HandlerEvent" where
          "end_event info request = Some ev" "event_id ev = Some (req_id info)"
          using end_event_Some by blast
        with RecvEnd dropped [of "Some (NotifyBehaviour ev)"] drop(1) active RequestPendingResponse
        show ?thesis by (simp add: defs)
      next
        case (RecvItem item)
        show ?thesis
        proof (cases item)
          case (Inl e)
          with RecvItem dropped [of "Some (NotifyBehaviour (Inl (Outbound (req_id info) (out_proto info) e)))"]
            drop(1) active RequestPendingResponse
          show ?thesis by (simp add: defs)
        next
          case (Inr response)
          obtain q info' where r: "after_response D now oid info request response h =
              Some ((set_outbound oid info' h)\<lparr>outbound_substreams_delay := q\<rparr>)"
            "handler_ok entries n ((set_outbound oid info' h)\<lparr>outbound_substreams_delay := q\<rparr>)"
            by (rule after_response_ok [OF assms])
          have "outbound_driven entries n oid h (Some ((set_outbound oid info' h)\<lparr>outbound_substreams_delay := q\<rparr>,
              Some (NotifyBehaviour (response_event X info response))))"
            by (rule outbound_drivenI [OF refl r(2)])
              (rule off_stream_keeps [OF assms(3)], auto simp: set_outbound_def)
          with Inr RecvItem r(1) active RequestPendingResponse show ?thesis by (simp add: defs)
        qed
      qed
    qed
  qed
qed

lemma drive_outbounds_ok:
  assumes "dq_laws D entries" "handler_ok entries n h"
    and "distinct oids" "\<And>oid. oid \<in> set oids \<Longrightarrow> map_of (outbound_substreams h) oid \<noteq> None"
  shows "\<exists>h' r. drive_outbounds D X now deactivated env oids h = Some (h', r) \<and> handler_ok entries n h' \<and> keeps h h' r"
  using assms(2-)
proof (induction oids arbitrary: h)
  case Nil
  then show ?case by (simp add: keeps_refl)
next
  case (Cons oid oids)
  obtain info where "map_of (outbound_substreams h) oid = Some info" using Cons.prems(3) [of oid] by auto
  from drive_outbound_ok [OF assms(1) Cons.prems(1) this] obtain h1 r1 where one:
    "drive_outbound D X now deactivated env oid h = Some (h1, r1)" "handler_ok entries n h1" "keeps h h1 r1"
    "\<And>j. j \<noteq> oid \<Longrightarrow> map_of (outbound_substreams h1) j = map_of (outbound_substreams h) j"
    unfolding outbound_driven_def by blast
  show ?case
  proof (cases r1)
    case (Some out)
    with one show ?thesis by simp
  next
    case None
    have "map_of (outbound_substreams h1) j \<noteq> None" if "j \<in> set oids" for j
      using that Cons.prems(2) Cons.prems(3) [of j] one(4) [of j] by (cases "j = oid") simp_all
    with Cons.IH [OF one(2)] Cons.prems(2) obtain h' r where
      "drive_outbounds D X now deactivated env oids h1 = Some (h', r)" "handler_ok entries n h'" "keeps h1 h' r"
      by auto
    with None one keeps_trans [of h h1 h' r] show ?thesis by simp
  qed
qed

text \<open>What a poll does to the requests and to the count of streams being opened.\<close>

definition polled ::
    "('id, 'e, 'q, 'k) RPCHandler \<Rightarrow> ('id, 'e, 'q, 'k) RPCHandler \<Rightarrow> ('id, 'e) ConnectionHandlerEvent \<Rightarrow> bool" where
  "polled h h' out \<longleftrightarrow> (\<forall>s. located h s \<longrightarrow> located h' s \<or> accounts out s) \<and>
     current_inbound_substream_id h' = current_inbound_substream_id h \<and>
     (handler_state h' = handler_state h \<or> handler_state h' = Deactivated) \<and>
     (case out of
        OutboundSubstreamRequest _ _ \<Rightarrow> dial_negotiated h < 8 \<and> dial_negotiated h' = dial_negotiated h + 1
      | _ \<Rightarrow> dial_negotiated h' = dial_negotiated h)"

lemma keeps_polled: "keeps h h' (Some out) \<Longrightarrow> polled h h' out"
  by (auto simp: keeps_def polled_def split: ConnectionHandlerEvent.split)

lemma keeps_polled_trans: "keeps h h' None \<Longrightarrow> polled h' h'' out \<Longrightarrow> polled h h'' out"
  by (auto simp: keeps_def polled_def split: ConnectionHandlerEvent.splits)

lemma dial_plus_1: "(d :: u32) < 8 \<Longrightarrow> d + 1 \<le> 8 \<and> unat (d + 1) = Suc (unat d)"
proof -
  assume "d < 8"
  then have "unat d < 8" by (simp add: word_less_nat_alt)
  then have "unat (d + 1) = Suc (unat d)" by (simp add: unat_word_ariths)
  with \<open>unat d < 8\<close> show ?thesis by (simp add: word_le_nat_alt)
qed

lemma poll_dial_ok:
  assumes "handler_ok entries n h"
  shows "handler_ok entries n (fst (poll_dial h)) \<and> polled h (fst (poll_dial h)) (snd (poll_dial h))"
proof (cases "\<exists>r rest. dial_queue h = r # rest \<and> dial_negotiated h < 8")
  case True
  then obtain r rest where dial: "dial_queue h = r # rest" "dial_negotiated h < 8" by blast
  moreover from assms have "max_dial_negotiated h = 8" by (simp add: handler_ok_def)
  ultimately show ?thesis
    using assms dial_plus_1 [OF dial(2)]
    by (auto simp: poll_dial_def polled_def located_def awaiting_def handler_ok_def inbound_ok_def outbound_ok_def)
next
  case False
  with assms have "fst (poll_dial h) = h \<and> (\<forall>c r. snd (poll_dial h) \<noteq> OutboundSubstreamRequest c r)"
    by (auto simp: poll_dial_def handler_ok_def split: list.splits HandlerState.splits)
  with assms show ?thesis by (auto simp: polled_def split: ConnectionHandlerEvent.split)
qed

lemma poll_streams_ok:
  assumes "dq_laws D entries" "handler_ok entries n h"
  shows "\<exists>h' out. poll_streams D X now env h = Some (h', out) \<and> handler_ok entries n h' \<and> polled h h' out"
proof -
  obtain h1 r1 where 1: "expire_inbound D X now h = Some (h1, r1)" "handler_ok entries n h1" "inbound_only h h1"
    "r1 = None \<or> r1 = Some (Close (InternalError ''Could not poll inbound stream timer''))"
    using expire_inbound_ok [OF assms] by blast
  note k1 = inbound_only_keeps [OF 1(3)]
  show ?thesis
  proof (cases r1)
    case (Some out)
    with 1 keeps_polled [OF keeps_close [OF k1]] show ?thesis by (auto simp: poll_streams_def)
  next
    case r1: None
    obtain h2 r2 where 2: "expire_outbound D now h1 = Some (h2, r2)" "handler_ok entries n h2" "keeps h1 h2 r2"
      using expire_outbound_ok [OF assms(1) 1(2)] by blast
    show ?thesis
    proof (cases r2)
      case (Some out)
      with 1 2 r1 keeps_polled_trans [OF k1 keeps_polled] show ?thesis by (simp add: poll_streams_def)
    next
      case r2: None
      obtain h3 where 3: "poll_inbounds D now env h2 = Some h3" "handler_ok entries n h3" "inbound_only h2 h3"
        using poll_inbounds_ok [OF assms(1) 2(2)] by blast
      have k3: "keeps h h3 None"
        using keeps_trans [OF keeps_trans [OF k1] inbound_only_keeps [OF 3(3)]] 2(3) r2 by blast
      have dist: "distinct (map fst (outbound_substreams h3))"
        using 3(2) streams_okD(1) unfolding handler_ok_def outbound_ok_def by blast
      obtain h4 r4 where 4: "drive_outbounds D X now (handler_state h3 = Deactivated) env
          (map fst (outbound_substreams h3)) h3 = Some (h4, r4)" "handler_ok entries n h4" "keeps h3 h4 r4"
        using drive_outbounds_ok [OF assms(1) 3(2) dist] by (metis (no_types) list.set_map map_of_eq_None_iff)
      show ?thesis
      proof (cases r4)
        case (Some out)
        with 1 2 3 4 r1 r2 keeps_polled_trans [OF k3 keeps_polled] show ?thesis by (simp add: poll_streams_def)
      next
        case None
        have "polled h (fst (poll_dial h4)) (snd (poll_dial h4))"
          using keeps_polled_trans [OF keeps_trans [OF k3]] 4(3) None poll_dial_ok [OF 4(2)] by blast
        with 1 2 3 4 r1 r2 None poll_dial_ok [OF 4(2)] show ?thesis
          by (cases "poll_dial h4") (simp add: poll_streams_def)
      qed
    qed
  qed
qed

lemma handler_poll_ok:
  assumes "dq_laws D entries" "handler_ok entries n h"
  shows "\<exists>h' out. handler_poll D X now env h = Some (h', out) \<and> handler_ok entries n h' \<and> polled h h' out"
proof (cases "events_out h")
  case (Cons ev evs)
  have "handler_ok entries n (h\<lparr>events_out := evs\<rparr>)" by (rule handler_ok_cong [OF assms(2)]) simp_all
  moreover have "polled h (h\<lparr>events_out := evs\<rparr>) (NotifyBehaviour ev)"
    using Cons by (auto simp: polled_def located_def awaiting_def)
  ultimately show ?thesis using Cons by (simp add: handler_poll_def)
next
  case Nil
  have "handler_ok entries n (h\<lparr>handler_state := s\<rparr>)" for s by (rule handler_ok_cong [OF assms(2)]) simp_all
  moreover have "polled h (h\<lparr>handler_state := Deactivated\<rparr>) (Close err)" for err
    by (simp add: polled_def located_def awaiting_def)
  ultimately show ?thesis
    using Nil poll_streams_ok [OF assms] by (auto simp: handler_poll_def split: HandlerState.split)
qed

end
