(* ===== verification/Rpc_Handler_Props.thy ===== *)
theory Rpc_Handler_Props
  imports Rpc_Handler_Runs
begin

text \<open>
  Properties of the connection handler over every run: the calls of the behaviour, the streams
  the swarm opens or fails to open for it, and polls, in any order.
\<close>

section \<open>Runs\<close>

text \<open>
  The handler together with what is outside of it: the requests whose streams the swarm is
  opening, the events it has received from the handler, and the requests submitted so far.
\<close>

record ('id, 'e, 'q, 'k) HandlerWorld =
  hw_handler :: "('id, 'e, 'q, 'k) RPCHandler"
  hw_dialing :: "('id \<times> OutboundRequest) list"
  hw_reported :: "('id, 'e) HandlerEvent list"
  hw_submitted :: "('id \<times> OutboundRequest) list"

text \<open>
  \<open>HDialed\<close> and \<open>HDialError\<close> name the stream being opened by its position. \<open>HReorder\<close> is the
  freedom of the two hash maps to be iterated in any order.
\<close>

datatype ('id, 'e, 'k) handler_op =
    HCall instant "'id RPCSend"
  | HInbound instant InboundRequest
  | HDialed instant nat
  | HDialError instant nat "'e StreamUpgradeError"
  | HPoll instant "'e PollEnv"
  | HReorder "(SubstreamId \<times> 'k InboundInfo) list" "(SubstreamId \<times> ('id, 'k) OutboundInfo) list"

definition world_new ::
    "('q, 'k) DelayQueueOps \<Rightarrow> RPCProtocol \<Rightarrow> duration \<Rightarrow> ('id, 'e, 'q, 'k) HandlerWorld" where
  "world_new D proto timeout =
     \<lparr>hw_handler = handler_new D proto timeout, hw_dialing = [], hw_reported = [], hw_submitted = []\<rparr>"

definition dial_ended ::
    "nat \<Rightarrow> ('id \<times> OutboundRequest \<Rightarrow> ('id, 'e, 'q, 'k) RPCHandler \<Rightarrow> ('id, 'e, 'q, 'k) RPCHandler) \<Rightarrow>
     ('id, 'e, 'q, 'k) HandlerWorld \<Rightarrow> ('id, 'e, 'q, 'k) HandlerWorld" where
  "dial_ended j f w =
     (case remove_at j (hw_dialing w) of
        None \<Rightarrow> w
      | Some (r, rest) \<Rightarrow> w\<lparr>hw_handler := f r (hw_handler w), hw_dialing := rest\<rparr>)"

fun handler_step ::
    "('q, 'k) DelayQueueOps \<Rightarrow> TextOps \<Rightarrow> ('id, 'e, 'q, 'k) HandlerWorld \<Rightarrow> ('id, 'e, 'k) handler_op \<Rightarrow>
     ('id, 'e, 'q, 'k) HandlerWorld option" where
  "handler_step D X w (HCall now ev) =
     Some (w\<lparr>hw_handler := on_behaviour_event X now ev (hw_handler w),
       hw_submitted := hw_submitted w @ (case ev of RPCSend.Request rid req \<Rightarrow> [(rid, req)] | _ \<Rightarrow> [])\<rparr>)"
| "handler_step D X w (HInbound now req) =
     Some (w\<lparr>hw_handler := on_connection_event D now (FullyNegotiatedInbound req) (hw_handler w)\<rparr>)"
| "handler_step D X w (HDialed now j) =
     Some (dial_ended j (\<lambda>r. on_connection_event D now (FullyNegotiatedOutbound r)) w)"
| "handler_step D X w (HDialError now j err) =
     Some (dial_ended j (\<lambda>r. on_connection_event D now (DialUpgradeError r err)) w)"
| "handler_step D X w (HPoll now env) =
     do { (h, out) \<leftarrow> handler_poll D X now env (hw_handler w);
          Some (w\<lparr>hw_handler := h,
            hw_dialing := hw_dialing w @ (case out of OutboundSubstreamRequest _ r \<Rightarrow> [r] | _ \<Rightarrow> []),
            hw_reported := hw_reported w @ (case out of NotifyBehaviour ev \<Rightarrow> [ev] | _ \<Rightarrow> [])\<rparr>) }"
| "handler_step D X w (HReorder ins outs) =
     Some (if mset ins = mset (inbound_substreams (hw_handler w)) \<and> mset outs = mset (outbound_substreams (hw_handler w))
           then w\<lparr>hw_handler := (hw_handler w)\<lparr>inbound_substreams := ins, outbound_substreams := outs\<rparr>\<rparr>
           else w)"

definition world_ok ::
    "('q \<Rightarrow> 'k \<Rightarrow> SubstreamId option) \<Rightarrow> nat \<Rightarrow> ('id, 'e, 'q, 'k) HandlerWorld \<Rightarrow> bool" where
  "world_ok entries n w \<longleftrightarrow> handler_ok entries n (hw_handler w) \<and>
     length (hw_dialing w) \<le> unat (dial_negotiated (hw_handler w)) \<and>
     (\<forall>r \<in> set (hw_submitted w). outbound_expected_responses (snd r) > 0 \<longrightarrow>
        located (hw_handler w) r \<or> r \<in> set (hw_dialing w) \<or> Some (fst r) \<in> event_id ` set (hw_reported w))"

lemma world_okI:
  assumes "handler_ok entries n h" "length (hw_dialing w) \<le> unat (dial_negotiated h)" "h = hw_handler w"
    and "\<And>r. r \<in> set (hw_submitted w) \<Longrightarrow> outbound_expected_responses (snd r) > 0 \<Longrightarrow>
      located h r \<or> r \<in> set (hw_dialing w) \<or> Some (fst r) \<in> event_id ` set (hw_reported w)"
  shows "world_ok entries n w"
  using assms by (simp add: world_ok_def)

lemma world_okD:
  assumes "world_ok entries n w"
  shows "handler_ok entries n (hw_handler w)" "length (hw_dialing w) \<le> unat (dial_negotiated (hw_handler w))"
    and "r \<in> set (hw_submitted w) \<Longrightarrow> outbound_expected_responses (snd r) > 0 \<Longrightarrow>
      located (hw_handler w) r \<or> r \<in> set (hw_dialing w) \<or> Some (fst r) \<in> event_id ` set (hw_reported w)"
  using assms by (simp_all add: world_ok_def)

lemma world_new_ok: "dq_laws D entries \<Longrightarrow> world_ok entries 0 (world_new D proto timeout)"
  by (simp add: world_ok_def world_new_def handler_new_def handler_ok_def inbound_ok_def outbound_ok_def
      dq_newD streams_ok_empty)

section \<open>Each step keeps the invariant\<close>

lemma behaviour_dial [simp]:
  "dial_negotiated (on_behaviour_event X now ev h) = dial_negotiated h"
  by (cases ev) (simp_all add: handler_send_request_def handler_send_response_def handler_shutdown_def
      push_out_def Let_def split: HandlerState.split option.split RPCCodedResponse.split)

lemma inbound_dial [simp]:
  "dial_negotiated (on_fully_negotiated_inbound D now req h) = dial_negotiated h"
  by (cases req) (simp_all add: on_fully_negotiated_inbound_def handler_shutdown_def push_out_def Let_def
      split: prod.split)

lemma outbound_dial [simp]:
  "dial_negotiated (on_fully_negotiated_outbound D now r h) = dial_negotiated h - 1"
  by (simp add: on_fully_negotiated_outbound_def push_out_def Let_def split: prod.split)

lemma behaviour_ok:
  assumes "handler_ok entries n h"
  shows "handler_ok entries n (on_behaviour_event X now ev h)"
    and "located h r \<or> (\<exists>rid req. ev = RPCSend.Request rid req \<and> r = (rid, req)) \<Longrightarrow>
      located (on_behaviour_event X now ev h) r"
  using assms
  by (cases ev; auto simp: send_request_ok send_response_ok shutdown_ok send_request_located
      send_response_located shutdown_located)+

lemma remove_at_SomeD:
  assumes "remove_at j xs = Some (x, ys)"
  shows "x \<in> set xs" "set xs = insert x (set ys)" "length xs = Suc (length ys)"
proof -
  from assms have j: "j < length xs" "x = xs ! j" "ys = take j xs @ drop (Suc j) xs"
    by (auto simp: remove_at_def split: if_splits)
  then have xs: "xs = take j xs @ x # drop (Suc j) xs" using id_take_nth_drop by blast
  have "set xs = set (take j xs @ x # drop (Suc j) xs)" by (rule arg_cong [OF xs])
  with j(3) show "set xs = insert x (set ys)" by simp
  then show "x \<in> set xs" by simp
  from j show "length xs = Suc (length ys)" by simp
qed

lemma dial_ended_ok:
  assumes "world_ok entries n w"
    and "\<And>r. 0 < dial_negotiated (hw_handler w) \<Longrightarrow> handler_ok entries (Suc n) (f r (hw_handler w))"
    and "\<And>r. dial_negotiated (f r (hw_handler w)) \<in> {dial_negotiated (hw_handler w), dial_negotiated (hw_handler w) - 1}"
    and "\<And>r s. located (hw_handler w) r \<or> r = s \<and> outbound_expected_responses (snd r) > 0 \<Longrightarrow>
      located (f s (hw_handler w)) r"
  shows "world_ok entries (Suc n) (dial_ended j f w)"
proof (cases "remove_at j (hw_dialing w)")
  case None
  then have same: "dial_ended j f w = w" by (simp add: dial_ended_def)
  show ?thesis unfolding same
    by (rule world_okI [OF handler_ok_mono [OF world_okD(1) [OF assms(1)]] world_okD(2) [OF assms(1)] refl])
      (use world_okD(3) [OF assms(1)] in simp_all)
next
  case (Some p)
  then obtain r rest where rest: "remove_at j (hw_dialing w) = Some (r, rest)" by (cases p) auto
  note d = remove_at_SomeD [OF rest]
  let ?h = "hw_handler w"
  from world_okD(2) [OF assms(1)] d(3) have len: "Suc (length rest) \<le> unat (dial_negotiated ?h)" by simp
  then have pos: "0 < dial_negotiated ?h" by (simp add: word_less_nat_alt)
  have le: "dial_negotiated ?h \<le> 8" using world_okD(1) [OF assms(1)] by (simp add: handler_ok_def)
  have "length rest \<le> unat (dial_negotiated (f r ?h))"
    using assms(3) [of r] len dial_minus_1(2) [OF pos le] by auto
  moreover have "located (f r ?h) s \<or> s \<in> set rest \<or> Some (fst s) \<in> event_id ` set (hw_reported w)"
    if "s \<in> set (hw_submitted w)" "outbound_expected_responses (snd s) > 0" for s
    using world_okD(3) [OF assms(1) that] assms(4) [of s r] that(2) d(2) by auto
  ultimately show ?thesis using rest assms(2) [OF pos, of r] by (simp add: dial_ended_def world_ok_def)
qed

lemma reorder_ok:
  assumes "handler_ok entries n h" "mset ins = mset (inbound_substreams h)" "mset outs = mset (outbound_substreams h)"
  shows "handler_ok entries n (h\<lparr>inbound_substreams := ins, outbound_substreams := outs\<rparr>)"
    and "located (h\<lparr>inbound_substreams := ins, outbound_substreams := outs\<rparr>) r \<longleftrightarrow> located h r"
proof -
  from assms(1) have inb: "streams_ok (entries (inbound_substreams_delay h)) in_delay_key
      (\<lambda>info. in_state info \<noteq> InboundState.Poisoned) (current_inbound_substream_id h) (inbound_substreams h)"
    and out: "streams_ok (entries (outbound_substreams_delay h)) (\<lambda>info. Some (out_delay_key info))
      (\<lambda>info. out_state info \<noteq> OutboundSubstreamState.Poisoned) (current_outbound_substream_id h) (outbound_substreams h)"
    by (simp_all add: handler_ok_def inbound_ok_def outbound_ok_def)
  note re = streams_ok_reorder [OF out assms(3)]
  from assms streams_ok_reorder [OF inb assms(2)] re mset_eq_length [OF assms(2)]
  show "handler_ok entries n (h\<lparr>inbound_substreams := ins, outbound_substreams := outs\<rparr>)"
    by (simp add: handler_ok_def inbound_ok_def outbound_ok_def)
  have "map_of outs = map_of (outbound_substreams h)"
    using map_of_inject_set [OF streams_okD(1) [OF re] streams_okD(1) [OF out]] mset_eq_setD [OF assms(3)] by simp
  then show "located (h\<lparr>inbound_substreams := ins, outbound_substreams := outs\<rparr>) r \<longleftrightarrow> located h r"
    by (simp add: located_def awaiting_def)
qed

lemma upgrade_dial:
  "dial_negotiated (on_dial_upgrade_error r err h) \<in> {dial_negotiated h, dial_negotiated h - 1}"
  by (simp add: on_dial_upgrade_error_def dial_failed_def handler_send_request_def push_out_def Let_def
      split: sum.split HandlerState.split)

lemma poll_step_ok:
  assumes "world_ok entries n w" "handler_ok entries n h" "polled (hw_handler w) h out"
  shows "world_ok entries n (w\<lparr>hw_handler := h,
    hw_dialing := hw_dialing w @ (case out of OutboundSubstreamRequest _ r \<Rightarrow> [r] | _ \<Rightarrow> []),
    hw_reported := hw_reported w @ (case out of NotifyBehaviour ev \<Rightarrow> [ev] | _ \<Rightarrow> [])\<rparr>)" (is "world_ok _ _ ?w")
proof (rule world_okI [OF assms(2)])
  show "length (hw_dialing ?w) \<le> unat (dial_negotiated h)"
    using assms(3) world_okD(2) [OF assms(1)] dial_plus_1 [of "dial_negotiated (hw_handler w)"]
    by (simp add: polled_def split: ConnectionHandlerEvent.splits)
  show "located h r \<or> r \<in> set (hw_dialing ?w) \<or> Some (fst r) \<in> event_id ` set (hw_reported ?w)"
    if r: "r \<in> set (hw_submitted ?w)" "outbound_expected_responses (snd r) > 0" for r
  proof -
    have "located (hw_handler w) r \<Longrightarrow> located h r \<or> accounts out r" using assms(3) unfolding polled_def by blast
    moreover have "accounts out r \<Longrightarrow> r \<in> set (hw_dialing ?w) \<or> Some (fst r) \<in> event_id ` set (hw_reported ?w)"
      by (cases out) (auto intro: image_eqI [rotated])
    ultimately show ?thesis using world_okD(3) [OF assms(1), of r] r by auto
  qed
qed simp

lemma connection_event_fun [simp]:
  "on_connection_event D now (FullyNegotiatedOutbound r) = on_fully_negotiated_outbound D now r"
  "on_connection_event D now (DialUpgradeError r err) = on_dial_upgrade_error r err"
  by (rule ext, simp)+

lemma world_ok_handler:
  assumes "world_ok entries n w" "handler_ok entries m h" "dial_negotiated h = dial_negotiated (hw_handler w)"
    and "\<And>r. located (hw_handler w) r \<Longrightarrow> located h r"
  shows "world_ok entries m (w\<lparr>hw_handler := h\<rparr>)"
proof (rule world_okI [OF assms(2)])
  fix r
  assume "r \<in> set (hw_submitted (w\<lparr>hw_handler := h\<rparr>))" "outbound_expected_responses (snd r) > 0"
  then show "located h r \<or> r \<in> set (hw_dialing (w\<lparr>hw_handler := h\<rparr>)) \<or>
      Some (fst r) \<in> event_id ` set (hw_reported (w\<lparr>hw_handler := h\<rparr>))"
    using world_okD(3) [OF assms(1), of r] assms(4) [of r] by auto
qed (use world_okD(2) [OF assms(1)] assms(3) in simp_all)

lemma world_ok_mono: "world_ok entries n w \<Longrightarrow> world_ok entries (Suc n) w"
  by (auto simp: world_ok_def intro: handler_ok_mono)

lemma handler_step_ok:
  assumes "dq_laws D entries" "world_ok entries n w" "n < USIZE_MAX"
  shows "\<exists>w'. handler_step D X w op = Some w' \<and> world_ok entries (Suc n) w'"
proof (cases op)
  case (HCall now ev)
  let ?w = "w\<lparr>hw_handler := on_behaviour_event X now ev (hw_handler w),
    hw_submitted := hw_submitted w @ (case ev of RPCSend.Request rid req \<Rightarrow> [(rid, req)] | _ \<Rightarrow> [])\<rparr>"
  note later = behaviour_ok(2) [OF world_okD(1) [OF assms(2)], where X = X and now = now and ev = ev]
  have "world_ok entries n ?w"
  proof (rule world_okI [OF behaviour_ok(1) [OF world_okD(1) [OF assms(2)]]])
    fix r
    assume r: "r \<in> set (hw_submitted ?w)" "outbound_expected_responses (snd r) > 0"
    then consider "r \<in> set (hw_submitted w)" | "\<exists>rid req. ev = RPCSend.Request rid req \<and> r = (rid, req)"
      by (cases ev) auto
    then show "located (on_behaviour_event X now ev (hw_handler w)) r \<or> r \<in> set (hw_dialing ?w) \<or>
        Some (fst r) \<in> event_id ` set (hw_reported ?w)"
      using later [of r] world_okD(3) [OF assms(2) _ r(2)] by cases auto
  qed (use world_okD(2) [OF assms(2)] in simp_all)
  with HCall world_ok_mono show ?thesis by auto
next
  case (HInbound now req)
  have "world_ok entries (Suc n) (w\<lparr>hw_handler := on_fully_negotiated_inbound D now req (hw_handler w)\<rparr>)"
    by (rule world_ok_handler [OF assms(2) negotiated_inbound_ok [OF assms(1) world_okD(1) [OF assms(2)] assms(3)]])
      (simp_all add: negotiated_inbound_located)
  with HInbound show ?thesis by simp
next
  case (HDialed now j)
  have "world_ok entries (Suc n) (dial_ended j (on_fully_negotiated_outbound D now) w)"
    by (rule dial_ended_ok [OF assms(2)])
      (simp_all add: negotiated_outbound_ok [OF assms(1) world_okD(1) [OF assms(2)] assms(3)]
        negotiated_outbound_located [OF world_okD(1) [OF assms(2)]])
  with HDialed show ?thesis by simp
next
  case (HDialError now j err)
  have "world_ok entries (Suc n) (dial_ended j (\<lambda>r. on_dial_upgrade_error r err) w)"
  proof (rule dial_ended_ok [OF assms(2)])
    show "handler_ok entries (Suc n) (on_dial_upgrade_error r err (hw_handler w))"
      if "0 < dial_negotiated (hw_handler w)" for r
      using handler_ok_mono [OF dial_error_ok [OF world_okD(1) [OF assms(2)] that]] by simp
  qed (use upgrade_dial dial_error_located in blast)+
  with HDialError show ?thesis by simp
next
  case (HPoll now env)
  obtain h out where p: "handler_poll D X now env (hw_handler w) = Some (h, out)" "handler_ok entries n h"
    "polled (hw_handler w) h out" using handler_poll_ok [OF assms(1) world_okD(1) [OF assms(2)]] by blast
  from world_ok_mono [OF poll_step_ok [OF assms(2) p(2,3)]] p(1) HPoll show ?thesis by simp
next
  case (HReorder ins outs)
  note re = reorder_ok [OF world_okD(1) [OF assms(2)], of ins outs]
  let ?w = "w\<lparr>hw_handler := (hw_handler w)\<lparr>inbound_substreams := ins, outbound_substreams := outs\<rparr>\<rparr>"
  have "world_ok entries n ?w" if "mset ins = mset (inbound_substreams (hw_handler w))"
    "mset outs = mset (outbound_substreams (hw_handler w))"
    by (rule world_ok_handler [OF assms(2) re(1) [OF that]]) (simp_all add: re(2) [OF that])
  with HReorder assms(2) show ?thesis by (simp add: world_ok_mono)
qed

lemma handler_run_ok:
  assumes "dq_laws D entries" "world_ok entries n w" "n + length ops \<le> USIZE_MAX"
  shows "\<exists>w'. run_steps (handler_step D X) w ops = Some w' \<and> world_ok entries (n + length ops) w'"
  using assms(2,3)
proof (induction ops arbitrary: n w)
  case Nil
  then show ?case by simp
next
  case (Cons op ops)
  have "n < USIZE_MAX" using Cons.prems(2) by simp
  from handler_step_ok [OF assms(1) Cons.prems(1) this]
  obtain w1 where "handler_step D X w op = Some w1" "world_ok entries (Suc n) w1" by blast
  with Cons.IH [of "Suc n" w1] Cons.prems(2) show ?case by simp
qed

lemma handler_reached:
  assumes "dq_laws D entries" "length ops \<le> USIZE_MAX"
    and "run_steps (handler_step D X) (world_new D proto timeout) ops = Some w"
  shows "world_ok entries (length ops) w"
  using handler_run_ok [OF assms(1) world_new_ok [OF assms(1)], of ops X proto timeout] assms(2,3) by simp

section \<open>Every run is safe\<close>

text \<open>
  C5. The handler never panics and its loops end: whatever the behaviour asks, whatever the
  swarm and the peer answer and in whatever order the hash maps are iterated, every operation
  of a run returns. No \<open>Poisoned\<close> state is met, no timer is removed twice, no stream without a
  termination is asked for one. In the state reached there are at most 32 inbound streams and
  at most 8 streams being opened.
\<close>

theorem handler_run_safe:
  assumes "dq_laws D entries" "length ops \<le> USIZE_MAX"
  shows "\<exists>w. run_steps (handler_step D X) (world_new D proto timeout) ops = Some w \<and>
    length (inbound_substreams (hw_handler w)) \<le> MAX_INBOUND_SUBSTREAMS \<and> length (hw_dialing w) \<le> 8"
proof -
  obtain w where w: "run_steps (handler_step D X) (world_new D proto timeout) ops = Some w"
    "world_ok entries (length ops) w"
    using handler_run_ok [OF assms(1) world_new_ok [OF assms(1)], of ops X proto timeout] assms(2) by auto
  moreover have "length (inbound_substreams (hw_handler w)) \<le> MAX_INBOUND_SUBSTREAMS"
    "dial_negotiated (hw_handler w) \<le> 8"
    using world_okD(1) [OF w(2)] by (simp_all add: handler_ok_def inbound_ok_def)
  ultimately show ?thesis using world_okD(2) [OF w(2)] by (auto simp: word_le_nat_alt)
qed

text \<open>
  C6. Timeouts and streams correspond: in every state that a run reaches, a timer is live
  exactly for the outbound stream that holds its key, and for the inbound stream that holds
  its key. An outbound stream therefore always has a timeout, and the branch of the code that
  reports a timed out stream as not being in the books is never taken.
\<close>

theorem handler_timers:
  assumes "dq_laws D entries" "length ops \<le> USIZE_MAX"
    and "run_steps (handler_step D X) (world_new D proto timeout) ops = Some w"
  shows "(entries (outbound_substreams_delay (hw_handler w)) k = Some i \<longleftrightarrow>
      (\<exists>info. map_of (outbound_substreams (hw_handler w)) i = Some info \<and> out_delay_key info = k)) \<and>
    (entries (inbound_substreams_delay (hw_handler w)) k = Some i \<longleftrightarrow>
      (\<exists>info. map_of (inbound_substreams (hw_handler w)) i = Some info \<and> in_delay_key info = Some k))"
proof -
  from world_okD(1) [OF handler_reached [OF assms]]
  have "timers_ok (entries (outbound_substreams_delay (hw_handler w))) (\<lambda>info. Some (out_delay_key info))
      (map_of (outbound_substreams (hw_handler w)))"
    "timers_ok (entries (inbound_substreams_delay (hw_handler w))) in_delay_key
      (map_of (inbound_substreams (hw_handler w)))"
    using streams_okD(2) unfolding handler_ok_def inbound_ok_def outbound_ok_def by blast+
  from this [THEN timers_ok_iff, of k i] show ?thesis by (simp add: bind_eq_Some_conv)
qed

text \<open>
  C4. No request is lost: a request that was submitted and expects a response is, at any time
  of any run, waiting in the queue, being dialled, on a stream that awaits its response, or has
  been named in an event. When the handler has drained, which is when it closes the connection
  by itself, every such request has been reported to the behaviour.
\<close>

theorem no_request_lost:
  assumes "dq_laws D entries" "length ops \<le> USIZE_MAX"
    and "run_steps (handler_step D X) (world_new D proto timeout) ops = Some w"
    and "r \<in> set (hw_submitted w)" "outbound_expected_responses (snd r) > 0"
  shows "(r \<in> set (dial_queue (hw_handler w)) \<or> r \<in> set (hw_dialing w) \<or> awaiting (hw_handler w) r \<or>
      Some (fst r) \<in> event_id ` (set (events_out (hw_handler w)) \<union> set (hw_reported w))) \<and>
    (drained (hw_handler w) \<longrightarrow> Some (fst r) \<in> event_id ` set (hw_reported w))"
proof -
  note ok = handler_reached [OF assms(1-3)]
  note here = world_okD(3) [OF ok assms(4,5)]
  have "Some (fst r) \<in> event_id ` set (hw_reported w)" if "drained (hw_handler w)"
  proof -
    from that world_okD(2) [OF ok] have "hw_dialing w = []" by (simp add: drained_def)
    moreover from that have "\<not> located (hw_handler w) r" by (simp add: drained_def located_def awaiting_def)
    ultimately show ?thesis using here by simp
  qed
  with here show ?thesis unfolding located_def by auto
qed

section \<open>A queue and texts for the witnesses\<close>

text \<open>A delay queue as an association list from keys to values with their deadlines.\<close>

type_synonym lqueue = "(nat \<times> SubstreamId \<times> instant) list"

definition list_queue :: "(lqueue, nat) DelayQueueOps" where
  "list_queue =
     \<lparr>dq_new = [],
      dq_insert = \<lambda>q i now d. let k = Suc (sum_list (map fst q)) in (k, (k, i, now + d) # q),
      dq_remove = \<lambda>q k. if map_of q k = None then None else Some (AList.delete k q),
      dq_reset = \<lambda>q k now d.
        (case map_of q k of None \<Rightarrow> None | Some (i, _) \<Rightarrow> Some (AList.update k (i, now + d) q)),
      dq_poll_expired = \<lambda>q now.
        (case find (\<lambda>k. case map_of q k of None \<Rightarrow> False | Some (_, t) \<Rightarrow> t \<le> now) (map fst q) of
           None \<Rightarrow> (NoneDue, q)
         | Some k \<Rightarrow> (Expired (fst (the (map_of q k))), AList.delete k q))\<rparr>"

definition list_entries :: "lqueue \<Rightarrow> nat \<Rightarrow> SubstreamId option" where
  "list_entries q k = map_option fst (map_of q k)"

lemma list_queue_fresh: "map_of q (Suc (sum_list (map fst q))) = None"
proof -
  have "k \<le> sum_list (map fst q)" if "k \<in> fst ` set q" for k
    using that by (intro member_le_sum_list) auto
  then have "Suc (sum_list (map fst q)) \<notin> fst ` set q" using not_less_eq_eq by blast
  then show ?thesis by (simp add: map_of_eq_None_iff)
qed

lemma list_queue_laws: "dq_laws list_queue list_entries"
  unfolding dq_laws_def
proof (intro conjI allI impI)
  fix q :: lqueue
  show "finite (dom (list_entries q))"
    by (rule finite_subset [OF _ finite_dom_map_of [of q]]) (auto simp: list_entries_def)
next
  fix q :: lqueue and now i q'
  assume "dq_poll_expired list_queue q now = (Expired i, q')"
  then obtain k where "find (\<lambda>k. case map_of q k of None \<Rightarrow> False | Some (_, t) \<Rightarrow> t \<le> now) (map fst q) = Some k"
    "i = fst (the (map_of q k))" "q' = AList.delete k q"
    by (auto simp: list_queue_def split: option.splits)
  moreover from this(1) obtain v where "map_of q k = Some v"
    by (auto simp: find_Some_iff split: option.splits)
  ultimately show "\<exists>k. list_entries q k = Some i \<and> list_entries q' = (list_entries q)(k := None)"
    by (intro exI [of _ k]) (auto simp: list_entries_def)
qed (auto simp: list_queue_def list_entries_def list_queue_fresh Let_def fun_eq_iff split: option.splits)

definition plain_texts :: TextOps where
  "plain_texts = \<lparr>vl_from = take 256, strip_control = \<lambda>_. ''printable''\<rparr>"

definition quiet :: "'e PollEnv" where
  "quiet = \<lparr>send_results = \<lambda>_. [], close_result = \<lambda>_. None, received = \<lambda>_. RecvPending, out_closed = \<lambda>_. False\<rparr>"

definition sample_rpc :: RPCProtocol where
  "sample_rpc = \<lparr>protocol_max_rpc_size = 64, ttfb_timeout = 5\<rparr>"

definition sample_world :: "(nat, unit, lqueue, nat) HandlerWorld" where
  "sample_world = world_new list_queue sample_rpc 10"

text \<open>
  A run: two requests, the stream of the first is opened, the second is refused, a peer's request
  is received, answered and times out, the first stream times out, and the events are reported.
\<close>

definition sample_ops :: "(nat, unit, nat) handler_op list" where
  "sample_ops =
     [HCall 0 (RPCSend.Request 1 OutboundRequest.MetaData),
      HCall 0 (RPCSend.Request 2 (OutboundRequest.Ping \<lparr>ping_data = 7\<rparr>)),
      HPoll 0 quiet, HPoll 0 quiet, HDialed 1 0, HDialError 1 0 NegotiationFailed,
      HInbound 2 InboundRequest.MetaData, HPoll 3 quiet, HPoll 3 quiet,
      HCall 4 (RPCSend.Response 0 (Error RPCResponseErrorCode.ServerError [])), HPoll 5 quiet,
      HPoll 20 quiet]"

definition sample_w :: "(nat, unit, lqueue, nat) HandlerWorld" where
  "sample_w = the (run_steps (handler_step list_queue plain_texts) sample_world sample_ops)"

lemma usize_add_code [code]: "usize_add a b = nat ((int a + int b) mod 18446744073709551616)"
  by (simp add: usize_add_def nat_mod_distrib nat_add_distrib)

declare expire_inbound.simps [code] expire_outbound.simps [code]

lemma sample_run: "run_steps (handler_step list_queue plain_texts) sample_world sample_ops = Some sample_w"
proof -
  have "run_steps (handler_step list_queue plain_texts) sample_world sample_ops \<noteq> None" by code_simp
  then show ?thesis by (auto simp: sample_w_def)
qed

lemma sample_length: "length sample_ops \<le> USIZE_MAX"
  by (simp add: sample_ops_def USIZE_MAX_def)

theorem handler_run_safe_witness:
  "\<exists>w. run_steps (handler_step list_queue plain_texts) (world_new list_queue sample_rpc 10) sample_ops =
      Some w \<and> length (inbound_substreams (hw_handler w)) \<le> MAX_INBOUND_SUBSTREAMS \<and> length (hw_dialing w) \<le> 8"
  by (rule handler_run_safe [OF list_queue_laws sample_length])

theorem handler_timers_witness:
  "(list_entries (outbound_substreams_delay (hw_handler sample_w)) 1 = Some 0 \<longleftrightarrow>
      (\<exists>info. map_of (outbound_substreams (hw_handler sample_w)) 0 = Some info \<and> out_delay_key info = 1)) \<and>
    (list_entries (inbound_substreams_delay (hw_handler sample_w)) 1 = Some 0 \<longleftrightarrow>
      (\<exists>info. map_of (inbound_substreams (hw_handler sample_w)) 0 = Some info \<and> in_delay_key info = Some 1))"
  by (rule handler_timers [OF list_queue_laws sample_length sample_run [unfolded sample_world_def]])

theorem no_request_lost_witness:
  "(1, OutboundRequest.MetaData) \<in> set (hw_submitted sample_w) \<and>
   Some 1 \<in> event_id ` (set (events_out (hw_handler sample_w)) \<union> set (hw_reported sample_w))"
proof -
  have sub: "(1, OutboundRequest.MetaData) \<in> set (hw_submitted sample_w)" by code_simp
  have "(1, OutboundRequest.MetaData) \<notin> set (dial_queue (hw_handler sample_w))"
    "(1, OutboundRequest.MetaData) \<notin> set (hw_dialing sample_w)" by code_simp+
  moreover have "outbound_substreams (hw_handler sample_w) = []" by code_simp
  ultimately show ?thesis
    using no_request_lost [OF list_queue_laws sample_length sample_run [unfolded sample_world_def] sub] sub
    by (simp add: awaiting_def)
qed

section \<open>Facts that a run carries forward\<close>

lemma handler_run_carries:
  assumes "dq_laws D entries" "world_ok entries n w" "n + length ops \<le> USIZE_MAX"
    and "run_steps (handler_step D X) w ops = Some w'" "P w"
    and "\<And>m v op v'. world_ok entries m v \<Longrightarrow> P v \<Longrightarrow> handler_step D X v op = Some v' \<Longrightarrow> P v'"
  shows "P w'"
  using assms(2-5)
proof (induction ops arbitrary: n w)
  case Nil
  then show ?case by simp
next
  case (Cons op ops)
  have "n < USIZE_MAX" using Cons.prems(2) by simp
  from handler_step_ok [OF assms(1) Cons.prems(1) this]
  obtain w1 where w1: "handler_step D X w op = Some w1" "world_ok entries (Suc n) w1" by blast
  from Cons.IH [OF w1(2)] Cons.prems w1(1) assms(6) [OF Cons.prems(1,4) w1(1)] show ?case by simp
qed

lemma poll_step_polled:
  assumes "dq_laws D entries" "world_ok entries n w" "handler_step D X w (HPoll now env) = Some w'"
  obtains h out where "polled (hw_handler w) h out" "hw_handler w' = h"
    "hw_dialing w' = hw_dialing w @ (case out of OutboundSubstreamRequest _ r \<Rightarrow> [r] | _ \<Rightarrow> [])"
proof -
  obtain h out where "handler_poll D X now env (hw_handler w) = Some (h, out)" "polled (hw_handler w) h out"
    using handler_poll_ok [OF assms(1) world_okD(1) [OF assms(2)]] by blast
  with that [of h out] assms(3) show ?thesis by auto
qed

section \<open>Dial slots\<close>

lemma full_step:
  assumes "dq_laws D entries" "world_ok entries n w" "handler_step D X w op = Some w'"
    and "hw_dialing w = [] \<and> dial_negotiated (hw_handler w) = 8"
  shows "hw_dialing w' = [] \<and> dial_negotiated (hw_handler w') = 8"
proof (cases op)
  case (HPoll now env)
  with assms(1-3) obtain h out where "polled (hw_handler w) h out" "hw_handler w' = h"
    "hw_dialing w' = hw_dialing w @ (case out of OutboundSubstreamRequest _ r \<Rightarrow> [r] | _ \<Rightarrow> [])"
    using poll_step_polled by metis
  with assms(4) show ?thesis by (cases out) (simp_all add: polled_def)
qed (use assms(3,4) in \<open>auto simp: dial_ended_def remove_at_def split: if_splits\<close>)

text \<open>
  C9. The count of streams being opened can be used up for good. A dial that fails with an I/O
  error and is retried returns to the queue without giving its slot back, and is counted again
  when it is dialled again. Once the eight slots are counted while no stream is being opened,
  no request is dialled any more, whatever happens: not even the goodbye of a shutdown, and
  the handler never drains, so that it can close only by its timeout.
\<close>

theorem dial_slots_exhausted:
  assumes "dq_laws D entries" "length ops + length ops' \<le> USIZE_MAX"
    and "run_steps (handler_step D X) (world_new D proto timeout) ops = Some w"
    and "hw_dialing w = []" "dial_negotiated (hw_handler w) = 8"
    and "run_steps (handler_step D X) w ops' = Some w'"
  shows "hw_dialing w' = [] \<and> dial_negotiated (hw_handler w') = 8 \<and> \<not> drained (hw_handler w')"
proof -
  have ok: "world_ok entries (length ops) w" using handler_reached [OF assms(1) _ assms(3)] assms(2) by simp
  have "hw_dialing w' = [] \<and> dial_negotiated (hw_handler w') = 8"
    by (rule handler_run_carries [OF assms(1) ok assms(2,6)]) (use assms(4,5) full_step [OF assms(1)] in blast)+
  then show ?thesis by (simp add: drained_def)
qed

text \<open>Four requests whose dials fail three times each with an I/O error.\<close>

definition failing_dial :: "nat \<Rightarrow> (nat, unit, nat) handler_op list" where
  "failing_dial rid =
     [HCall 0 (RPCSend.Request rid OutboundRequest.MetaData), HPoll 0 quiet, HDialError 0 0 (Io ''reset''),
      HPoll 0 quiet, HDialError 0 0 (Io ''reset''), HPoll 0 quiet, HDialError 0 0 (Io ''reset''), HPoll 0 quiet]"

definition failing_dials :: "(nat, unit, nat) handler_op list" where
  "failing_dials = failing_dial 1 @ failing_dial 2 @ failing_dial 3 @ failing_dial 4"

definition full_w :: "(nat, unit, lqueue, nat) HandlerWorld" where
  "full_w = the (run_steps (handler_step list_queue plain_texts) sample_world failing_dials)"

definition after_full :: "(nat, unit, nat) handler_op list" where
  "after_full = [HCall 1 (RPCSend.Request 5 OutboundRequest.MetaData), HPoll 1 quiet]"

theorem dial_slots_exhausted_witness:
  "\<exists>w'. run_steps (handler_step list_queue plain_texts) full_w after_full = Some w' \<and>
     hw_dialing w' = [] \<and> dial_negotiated (hw_handler w') = 8 \<and> \<not> drained (hw_handler w')"
proof -
  have full: "run_steps (handler_step list_queue plain_texts) sample_world failing_dials \<noteq> None"
    "hw_dialing full_w = []" "dial_negotiated (hw_handler full_w) = 8"
    "run_steps (handler_step list_queue plain_texts) full_w after_full \<noteq> None" by code_simp+
  from full(1) have "run_steps (handler_step list_queue plain_texts) (world_new list_queue sample_rpc 10) failing_dials =
      Some full_w" by (auto simp: full_w_def sample_world_def)
  moreover have "length failing_dials + length after_full \<le> USIZE_MAX"
    by (simp add: failing_dials_def failing_dial_def after_full_def USIZE_MAX_def)
  ultimately show ?thesis
    using dial_slots_exhausted [OF list_queue_laws, of failing_dials after_full plain_texts sample_rpc 10 full_w] full(2-4)
    by auto
qed

section \<open>Shutdown\<close>

definition closing_since :: "instant \<Rightarrow> SubstreamId \<Rightarrow> ('id, 'e, 'q, 'k) RPCHandler \<Rightarrow> bool" where
  "closing_since d c h \<longleftrightarrow> handler_state h \<in> {ShuttingDown d, Deactivated} \<and> current_inbound_substream_id h = c"

lemma closing_events:
  assumes "closing_since d c h"
  shows "closing_since d c (on_behaviour_event X now ev h)" "on_fully_negotiated_inbound D now req h = h"
    "closing_since d c (on_fully_negotiated_outbound D now r h)" "closing_since d c (on_dial_upgrade_error r err h)"
proof -
  show "closing_since d c (on_behaviour_event X now ev h)"
    using assms by (cases ev) (auto simp: closing_since_def handler_send_request_def handler_send_response_def
        handler_shutdown_def push_out_def Let_def split: option.split RPCCodedResponse.split)
  show "on_fully_negotiated_inbound D now req h = h"
    using assms by (auto simp: closing_since_def on_fully_negotiated_inbound_def)
  show "closing_since d c (on_fully_negotiated_outbound D now r h)"
    using assms by (auto simp: closing_since_def on_fully_negotiated_outbound_def push_out_def Let_def split: prod.split)
  show "closing_since d c (on_dial_upgrade_error r err h)"
    using assms by (auto simp: closing_since_def on_dial_upgrade_error_def dial_failed_def handler_send_request_def
        push_out_def Let_def split: sum.split)
qed

lemma closing_step:
  assumes "dq_laws D entries" "world_ok entries n w" "handler_step D X w op = Some w'"
    and "closing_since d c (hw_handler w)"
  shows "closing_since d c (hw_handler w')"
proof (cases op)
  case (HPoll now env)
  with assms(1-3) obtain h out where "polled (hw_handler w) h out" "hw_handler w' = h"
    using poll_step_polled by metis
  with assms(4) show ?thesis by (auto simp: polled_def closing_since_def)
next
  case (HReorder ins outs)
  with assms(3,4) show ?thesis by (auto simp: closing_since_def split: if_splits)
qed (use assms(3,4) closing_events [OF assms(4)] in \<open>auto simp: dial_ended_def split: option.splits\<close>)

text \<open>
  C8. A shutdown is final and bounded in time. When an active handler is told to shut down, the
  requests in its queue are reported as \<open>Disconnected\<close> and the goodbye is all that is left to dial.
  From then on, in every continuation, the handler is shutting down towards the same deadline, 15
  seconds after the request, or is deactivated; it accepts no further request of the peer; a
  request of its own is refused at once with \<open>Disconnected\<close>; and the first poll at or after the
  deadline that finds no event to report closes the connection.
\<close>

theorem shutdown_is_final:
  assumes "dq_laws D entries" "Suc (length ops + length ops') \<le> USIZE_MAX"
    and "run_steps (handler_step D X) (world_new D proto timeout) ops = Some w"
    and "handler_state (hw_handler w) = Active"
    and "handler_step D X w (HCall now (RPCSend.Shutdown rid reason)) = Some w1"
    and "run_steps (handler_step D X) w1 ops' = Some w'"
  shows "dial_queue (hw_handler w1) = [(rid, OutboundRequest.Goodbye reason)] \<and>
    events_out (hw_handler w1) =
      events_out (hw_handler w) @ map (outbound_failed Disconnected) (rev (dial_queue (hw_handler w))) \<and>
    handler_state (hw_handler w') \<in> {ShuttingDown (now + secs 15), Deactivated} \<and>
    current_inbound_substream_id (hw_handler w') = current_inbound_substream_id (hw_handler w) \<and>
    on_behaviour_event X t (RPCSend.Request rid' req) (hw_handler w') =
      push_out (outbound_failed Disconnected (rid', req)) (hw_handler w') \<and>
    (events_out (hw_handler w') = [] \<and> handler_state (hw_handler w') \<noteq> Deactivated \<and> now + secs 15 \<le> t \<longrightarrow>
      handler_poll D X t env (hw_handler w') =
        Some ((hw_handler w')\<lparr>handler_state := Deactivated\<rparr>, Close Disconnected))"
proof -
  let ?c = "current_inbound_substream_id (hw_handler w)"
  have ok: "world_ok entries (length ops) w" using handler_reached [OF assms(1) _ assms(3)] assms(2) by simp
  have ok1: "world_ok entries (Suc (length ops)) w1"
    using handler_step_ok [OF assms(1) ok, of X "HCall now (RPCSend.Shutdown rid reason)"] assms(2,5) by simp
  from assms(4,5) have w1: "hw_handler w1 = handler_shutdown now (Some (rid, reason)) (hw_handler w)" by auto
  with assms(4) have start: "closing_since (now + secs 15) ?c (hw_handler w1)"
    by (simp add: closing_since_def handler_shutdown_def SHUTDOWN_TIMEOUT_SECS_def)
  have late: "closing_since (now + secs 15) ?c (hw_handler w')"
  proof (rule handler_run_carries [OF assms(1) ok1 _ assms(6)])
    show "closing_since (now + secs 15) ?c (hw_handler v')"
      if "world_ok entries m v" "closing_since (now + secs 15) ?c (hw_handler v)" "handler_step D X v op = Some v'"
      for m v op v' using closing_step [OF assms(1) that(1,3,2)] .
  qed (use start assms(2) in simp_all)
  then have "handler_send_request rid' req (hw_handler w') =
      push_out (outbound_failed Disconnected (rid', req)) (hw_handler w')"
    by (auto simp: closing_since_def handler_send_request_def)
  moreover have "handler_poll D X t env (hw_handler w') =
        Some ((hw_handler w')\<lparr>handler_state := Deactivated\<rparr>, Close Disconnected)"
    if "events_out (hw_handler w') = []" "handler_state (hw_handler w') \<noteq> Deactivated" "now + secs 15 \<le> t"
    using late that by (auto simp: closing_since_def handler_poll_def)
  ultimately show ?thesis
    using late w1 assms(4) by (auto simp: closing_since_def handler_shutdown_def)
qed

definition sd_ops :: "(nat, unit, nat) handler_op list" where
  "sd_ops = [HCall 0 (RPCSend.Request 1 OutboundRequest.MetaData)]"

definition sd_w :: "(nat, unit, lqueue, nat) HandlerWorld" where
  "sd_w = sample_world\<lparr>hw_handler := (hw_handler sample_world)\<lparr>dial_queue := [(1, OutboundRequest.MetaData)]\<rparr>,
     hw_submitted := [(1, OutboundRequest.MetaData)]\<rparr>"

definition sd_w1 :: "(nat, unit, lqueue, nat) HandlerWorld" where
  "sd_w1 = sd_w\<lparr>hw_handler := handler_shutdown 3 (Some (9, GoodbyeReason.TooManyPeers)) (hw_handler sd_w)\<rparr>"

theorem shutdown_is_final_witness:
  "dial_queue (hw_handler sd_w1) = [(9, OutboundRequest.Goodbye GoodbyeReason.TooManyPeers)] \<and>
   events_out (hw_handler sd_w1) = [outbound_failed Disconnected (1, OutboundRequest.MetaData)] \<and>
   handler_state (hw_handler sd_w1) = ShuttingDown (3 + secs 15)"
proof -
  have run: "run_steps (handler_step list_queue plain_texts) (world_new list_queue sample_rpc 10) sd_ops = Some sd_w"
    by (simp add: sd_ops_def sd_w_def sample_world_def world_new_def handler_new_def handler_send_request_def)
  have step: "handler_step list_queue plain_texts sd_w (HCall 3 (RPCSend.Shutdown 9 GoodbyeReason.TooManyPeers)) = Some sd_w1"
    and act: "handler_state (hw_handler sd_w) = Active" and "handler_state (hw_handler sd_w1) \<noteq> Deactivated"
      "events_out (hw_handler sd_w) = []" "dial_queue (hw_handler sd_w) = [(1, OutboundRequest.MetaData)]"
    by (simp_all add: sd_w1_def sd_w_def sample_world_def world_new_def handler_new_def handler_shutdown_def)
  moreover have rest: "run_steps (handler_step list_queue plain_texts) sd_w1 [] = Some sd_w1" by simp
  moreover have len: "Suc (length sd_ops + length ([] :: (nat, unit, nat) handler_op list)) \<le> USIZE_MAX"
    by (simp add: sd_ops_def USIZE_MAX_def)
  ultimately show ?thesis
    using shutdown_is_final [OF list_queue_laws len run act step rest] by simp
qed

section \<open>Delivery of responses\<close>

text \<open>
  What a stream owes its peer, as a specification: responses are sent in order until one closes
  the stream, an error, a termination or the last one expected. The result is what is sent and,
  if the stream is closed, what is discarded.
\<close>

fun serve :: "nat \<Rightarrow> RPCCodedResponse list \<Rightarrow> RPCCodedResponse list \<times> RPCCodedResponse list option" where
  "serve budget [] = ([], None)"
| "serve budget (m # ms) =
     (if budget \<le> 1 \<or> close_after m then ([m], Some ms)
      else let (sent, left) = serve (budget - 1) ms in (m # sent, left))"

abbreviation sent_ok :: "('e RPCError + unit) \<times> ('e RPCError + unit)" where
  "sent_ok \<equiv> (Inr (), Inr ())"

lemma send_message_ok: "send_message_to_inbound_substream m l sent_ok = Inr (l \<or> close_after m)"
  by (cases m) (simp_all add: send_message_to_inbound_substream_def close_after_def)

definition served ::
    "('q \<Rightarrow> 'k \<Rightarrow> SubstreamId option) \<Rightarrow> 'k InboundInfo \<Rightarrow> 'q \<Rightarrow> ('id, 'e) HandlerEvent list \<Rightarrow>
     RPCCodedResponse list \<times> RPCCodedResponse list option \<Rightarrow>
     ('k InboundInfo \<times> 'q \<times> ('id, 'e) HandlerEvent list \<times> bool) option \<Rightarrow> bool" where
  "served entries info q evs spec res \<longleftrightarrow>
     (\<exists>q'. case spec of
        (sent, None) \<Rightarrow>
          res = Some (info\<lparr>in_remaining_chunks := in_remaining_chunks info - of_nat (length sent),
            in_state := InboundState.Idle, pending_items := []\<rparr>, q', evs, False) \<and>
          entries q' = entries q
      | (sent, Some left) \<Rightarrow>
          res = Some (info\<lparr>in_remaining_chunks := in_remaining_chunks info - of_nat (length sent - 1),
            in_state := InboundState.Poisoned, pending_items := left\<rparr>, q', evs, True) \<and>
          entries q' = (case in_delay_key info of None \<Rightarrow> entries q | Some k \<Rightarrow> (entries q)(k := None)))"

lemma served_closed:
  assumes "dq_laws D entries" "\<And>k. in_delay_key info = Some k \<Longrightarrow> entries q k = Some i"
  shows "served entries info q evs ([m], Some (pending_items info)) (drop_inbound D info q evs)"
proof (cases "in_delay_key info")
  case None
  then show ?thesis by (simp add: served_def drop_inbound_def remove_timer_def)
next
  case (Some k)
  from assms(1) assms(2) [OF Some] obtain q' where "dq_remove D q k = Some q'" "entries q' = (entries q)(k := None)"
    by (rule dq_removeD)
  with Some show ?thesis by (simp add: served_def drop_inbound_def remove_timer_def)
qed

lemma served_one_more:
  assumes "served entries (info\<lparr>in_remaining_chunks := in_remaining_chunks info - 1, in_state := s,
      pending_items := p\<rparr>) q' evs (sent, left) res"
    and "entries q' = entries q" "sent \<noteq> []"
  shows "served entries info q evs (m # sent, left) res"
proof -
  have "in_remaining_chunks info - 1 - of_nat (length sent) = in_remaining_chunks info - of_nat (length (m # sent))"
    "in_remaining_chunks info - 1 - of_nat (length sent - 1) = in_remaining_chunks info - of_nat (length (m # sent) - 1)"
    using assms(3) by (simp_all add: of_nat_diff Suc_leI)
  with assms(1) show ?thesis unfolding served_def assms(2) by (cases left) auto
qed

lemma served_restart:
  "served entries (info\<lparr>in_state := s, pending_items := p\<rparr>) q evs spec res = served entries info q evs spec res"
proof (cases spec)
  case (Pair sent left)
  then show ?thesis by (cases left) (simp_all add: served_def)
qed

lemma serve_sent: "fst (serve b (m # ms)) \<noteq> []"
  by (auto split: prod.split)

lemma busy_served:
  assumes "dq_laws D entries" "\<And>k. in_delay_key info = Some k \<Longrightarrow> entries q k = Some i"
    and "in_state info = Busy m (in_remaining_chunks info \<le> 1)" "length (pending_items info) \<le> n"
  shows "served entries info q evs (serve (unat (in_remaining_chunks info)) (m # pending_items info))
    (drive_inbound D now timeout False i closing (replicate (Suc n) sent_ok) info q evs)"
  using assms(2-)
proof (induction "pending_items info" arbitrary: m info q n)
  case Nil
  note eq = drive_inbound.simps [of D now timeout False i closing "replicate (Suc n) sent_ok" info q evs, unfolded Let_def]
  obtain q' where q': "reset_timer D now timeout q (in_delay_key info) = Some q'" "entries q' = entries q"
    by (rule reset_timer_ok [OF assms(1), of "in_delay_key info" q i]) (use Nil.prems(1) in blast)+
  have closed: "served entries info q evs ([m], Some (pending_items info)) (drop_inbound D info q evs)"
    by (rule served_closed [OF assms(1)]) (use Nil.prems(1) in blast)
  show ?case
  proof (cases "in_remaining_chunks info \<le> 1 \<or> close_after m")
    case True
    with closed Nil.hyps [symmetric] Nil.prems(2) eq show ?thesis
      by (auto simp: send_message_ok word_le_nat_alt)
  next
    case False
    then have "sat_sub (in_remaining_chunks info) 1 = in_remaining_chunks info - 1"
      by (auto simp: sat_sub_def not_less word_less_nat_alt word_le_nat_alt)
    with False q' Nil.hyps [symmetric] Nil.prems(2) eq show ?thesis
      by (auto simp: send_message_ok word_le_nat_alt served_def)
  qed
next
  case (Cons m' ms)
  note eq = drive_inbound.simps [of D now timeout False i closing "replicate (Suc n) sent_ok" info q evs, unfolded Let_def]
  obtain q' where q': "reset_timer D now timeout q (in_delay_key info) = Some q'" "entries q' = entries q"
    by (rule reset_timer_ok [OF assms(1), of "in_delay_key info" q i]) (use Cons.prems(1) in blast)+
  have closed: "served entries info q evs ([m], Some (pending_items info)) (drop_inbound D info q evs)"
    by (rule served_closed [OF assms(1)]) (use Cons.prems(1) in blast)
  show ?case
  proof (cases "in_remaining_chunks info \<le> 1 \<or> close_after m")
    case True
    with closed Cons.prems(2) eq show ?thesis
      by (auto simp: send_message_ok word_le_nat_alt)
  next
    case False
    then have big: "\<not> in_remaining_chunks info \<le> 1" "\<not> close_after m" by simp_all
    then have sub: "sat_sub (in_remaining_chunks info) 1 = in_remaining_chunks info - 1"
      "unat (in_remaining_chunks info - 1) = unat (in_remaining_chunks info) - 1"
      by (auto simp: sat_sub_def not_less word_less_nat_alt word_le_nat_alt unat_sub)
    let ?info = "info\<lparr>in_remaining_chunks := in_remaining_chunks info - 1,
      in_state := Busy m' (in_remaining_chunks info - 1 \<le> 1), pending_items := ms\<rparr>"
    obtain n' where n: "n = Suc n'" "length ms \<le> n'" using Cons.prems(3) Cons.hyps(2) [symmetric] by (cases n) auto
    have "served entries ?info q' evs (serve (unat (in_remaining_chunks info - 1)) (m' # ms))
        (drive_inbound D now timeout False i closing (replicate (Suc n') sent_ok) ?info q' evs)"
      using Cons.hyps(1) [of ?info q' m' n'] Cons.prems(1) q'(2) n(2) by simp
    then have "served entries info q evs (m # fst (serve (unat (in_remaining_chunks info - 1)) (m' # ms)),
        snd (serve (unat (in_remaining_chunks info - 1)) (m' # ms)))
        (drive_inbound D now timeout False i closing (replicate (Suc n') sent_ok) ?info q' evs)"
      by (intro served_one_more [OF _ q'(2) serve_sent]) simp
    moreover have "serve (unat (in_remaining_chunks info)) (m # pending_items info) =
        (m # fst (serve (unat (in_remaining_chunks info - 1)) (m' # ms)),
         snd (serve (unat (in_remaining_chunks info - 1)) (m' # ms)))"
      using big sub(2) Cons.hyps(2) [symmetric] by (simp add: word_le_nat_alt split: prod.split)
    moreover have "drive_inbound D now timeout False i closing (replicate (Suc n) sent_ok) info q evs =
        drive_inbound D now timeout False i closing (replicate (Suc n') sent_ok) ?info q' evs"
      using eq Cons.prems(2) big q'(1) Cons.hyps(2) [symmetric] n(1) sub(1) by (simp add: send_message_ok)
    ultimately show ?thesis by simp
  qed
qed

lemma serve_split:
  "fst (serve b ms) @ (case snd (serve b ms) of None \<Rightarrow> [] | Some left \<Rightarrow> left) = ms \<and>
   length (fst (serve b ms)) \<le> max 1 b"
proof (induction b ms rule: serve.induct)
  case (2 b m ms)
  show ?case
  proof (cases "b \<le> 1 \<or> close_after m")
    case False
    then have "serve b (m # ms) = (m # fst (serve (b - 1) ms), snd (serve (b - 1) ms))" by (simp add: split_def Let_def)
    with 2 [OF False] False show ?thesis by (auto split: option.splits simp del: serve.simps)
  qed auto
qed simp

text \<open>
  C7. An idle inbound stream of an active handler implements its specification: when the sends
  succeed, one poll sends the queued responses in order, exactly those that \<open>serve\<close> gives for the
  number of responses still expected, never more than that number (one, if none was expected); it
  then is idle with the count reduced, and its timer running, or it is closed, its timer removed,
  and the responses queued behind the closing one are discarded.
\<close>

theorem inbound_delivery:
  assumes "dq_laws D entries" "\<And>k. in_delay_key info = Some k \<Longrightarrow> entries q k = Some i"
    and "in_state info = InboundState.Idle" "length (pending_items info) \<le> n"
  shows "served entries info q evs (serve (unat (in_remaining_chunks info)) (pending_items info))
      (drive_inbound D now timeout False i closing (replicate n sent_ok) info q evs) \<and>
    (\<exists>sent left. serve (unat (in_remaining_chunks info)) (pending_items info) = (sent, left) \<and>
      sent @ (case left of None \<Rightarrow> [] | Some xs \<Rightarrow> xs) = pending_items info \<and>
      length sent \<le> max 1 (unat (in_remaining_chunks info)))"
proof
  note eq = drive_inbound.simps [of D now timeout False i closing "replicate n sent_ok" info q evs]
  show "served entries info q evs (serve (unat (in_remaining_chunks info)) (pending_items info))
      (drive_inbound D now timeout False i closing (replicate n sent_ok) info q evs)"
  proof (cases "pending_items info")
    case Nil
    with assms(3) eq show ?thesis by (simp add: served_def)
  next
    case (Cons m ms)
    with assms(4) obtain n' where n: "n = Suc n'" "length ms \<le> n'" by (cases n) auto
    let ?info = "info\<lparr>in_state := Busy m (in_remaining_chunks info \<le> 1), pending_items := ms\<rparr>"
    have "served entries ?info q evs (serve (unat (in_remaining_chunks ?info)) (m # pending_items ?info))
        (drive_inbound D now timeout False i closing (replicate (Suc n') sent_ok) ?info q evs)"
      by (rule busy_served [OF assms(1)]) (use assms(2) n(2) in simp_all)
    with Cons assms(3) eq n(1) show ?thesis by (simp add: served_restart del: serve.simps)
  qed
  show "\<exists>sent left. serve (unat (in_remaining_chunks info)) (pending_items info) = (sent, left) \<and>
      sent @ (case left of None \<Rightarrow> [] | Some xs \<Rightarrow> xs) = pending_items info \<and>
      length sent \<le> max 1 (unat (in_remaining_chunks info))"
    using serve_split [of "unat (in_remaining_chunks info)" "pending_items info"]
    by (cases "serve (unat (in_remaining_chunks info)) (pending_items info)") simp
qed

definition sample_stream :: "nat InboundInfo" where
  "sample_stream = \<lparr>in_state = InboundState.Idle,
     pending_items = [Success (RPCResponse.Pong \<lparr>ping_data = 1\<rparr>), Error RPCResponseErrorCode.ServerError [],
       Success (RPCResponse.Pong \<lparr>ping_data = 2\<rparr>)],
     in_protocol = Protocol.PooledUserOpHashes, in_remaining_chunks = 10, in_delay_key = Some 1\<rparr>"

theorem inbound_delivery_witness:
  "\<exists>q'. drive_inbound list_queue 5 10 False 0 None (replicate 3 sent_ok) sample_stream [(1, 0, 9)]
      ([] :: (nat, unit) HandlerEvent list) =
    Some (sample_stream\<lparr>in_remaining_chunks := 9, in_state := InboundState.Poisoned,
      pending_items := [Success (RPCResponse.Pong \<lparr>ping_data = 2\<rparr>)]\<rparr>, q', [], True)"
proof -
  have "served list_entries sample_stream [(1, 0, 9)] ([] :: (nat, unit) HandlerEvent list)
      (serve (unat (in_remaining_chunks sample_stream)) (pending_items sample_stream))
      (drive_inbound list_queue 5 10 False 0 None (replicate 3 sent_ok) sample_stream [(1, 0, 9)] [])"
    using inbound_delivery [OF list_queue_laws, of sample_stream "[(1, 0, 9)]" 0 3 "[] :: (nat, unit) HandlerEvent list" 5 10 None]
    by (simp add: sample_stream_def list_entries_def)
  then show ?thesis
    by (auto simp: served_def sample_stream_def close_after_def)
qed

end
