(* ===== verification/Ssz_Codec.thy ===== *)
theory Ssz_Codec
  imports Rpc_Protocol Rust_Strings
begin

text \<open>
  The codec of the request/response streams (\<open>p2p_network/src/rpc/codec\<close>: \<open>mod.rs\<close>,
  \<open>base.rs\<close>, \<open>ssz_snappy.rs\<close>) and the outbound upgrade of \<open>outbound.rs\<close> that sends a request
  through it.

  A buffer is a list of bytes. An encoder returns the bytes of the buffer after the call, a
  decoder its result, its new state and what is left of the buffer. \<open>None\<close> in place of a result
  is a panic (\<open>expect\<close>, \<open>unreachable!\<close>). The derived SSZ coders (\<open>ssz\<close>, \<open>ssz_types\<close>), the
  variable-length integers (\<open>unsigned_varint\<close>) and the snappy frames (\<open>snap\<close>) are the fields of
  \<open>CodecOps\<close>. An I/O error is its kind, as far as the code looks at it, and its text.
\<close>

section \<open>Definitions\<close>

definition CONTEXT_BYTES_LEN :: usize where "CONTEXT_BYTES_LEN = 4"
definition ERROR_TYPE_MAX :: usize where "ERROR_TYPE_MAX = 100000"
definition ERROR_TYPE_MIN :: usize where "ERROR_TYPE_MIN = 1"

record io_error =
  io_unexpected_eof :: bool
  io_text :: string

record 'e CodecOps =
  ssz_u64 :: "'e u64_ssz"
  ping_fixed_len :: usize
  status_enc :: "StatusMessage \<Rightarrow> u8 list"
  status_dec :: "u8 list \<Rightarrow> 'e + StatusMessage"
  ping_enc :: "PingMessage \<Rightarrow> u8 list"
  hashes_req_enc :: "PooledUserOpHashesRequest \<Rightarrow> u8 list"
  hashes_req_dec :: "u8 list \<Rightarrow> 'e + PooledUserOpHashesRequest"
  by_hash_req_enc :: "PooledUserOpsByHashRequest \<Rightarrow> u8 list"
  by_hash_req_dec :: "u8 list \<Rightarrow> 'e + PooledUserOpsByHashRequest"
  hashes_enc :: "PooledUserOpHashesMessage \<Rightarrow> u8 list"
  hashes_dec :: "u8 list \<Rightarrow> 'e + PooledUserOpHashesMessage"
  by_hash_enc :: "PooledUserOpsByHashMessage \<Rightarrow> u8 list"
  by_hash_dec :: "u8 list \<Rightarrow> 'e + PooledUserOpsByHashMessage"
  meta_enc :: "MetaDataMessage \<Rightarrow> u8 list"
  meta_dec :: "u8 list \<Rightarrow> 'e + MetaDataMessage"
  error_enc :: "ErrorType \<Rightarrow> u8 list"
  error_dec :: "u8 list \<Rightarrow> 'e + ErrorType"
  uvi_encode :: "usize \<Rightarrow> io_error + u8 list"
  uvi_decode :: "u8 list \<Rightarrow> io_error + (usize \<times> u8 list) option"
  frame_encode :: "u8 list \<Rightarrow> io_error + u8 list"
  frame_read :: "u8 list \<Rightarrow> usize \<Rightarrow> io_error \<times> usize + u8 list \<times> usize"
  max_compress_len :: "usize \<Rightarrow> usize"

text \<open>\<open>From<ssz::DecodeError>\<close> and \<open>From<io::Error>\<close>, as applied by \<open>?\<close> and \<open>map_err\<close>.\<close>

definition of_ssz :: "'e + 'a \<Rightarrow> 'e RPCError + 'a" where
  "of_ssz r = (case r of Inl e \<Rightarrow> Inl (SSZDecodeError e) | Inr v \<Rightarrow> Inr v)"

definition of_io :: "io_error + 'a \<Rightarrow> 'e RPCError + 'a" where
  "of_io r = (case r of Inl e \<Rightarrow> Inl (IoError (io_text e)) | Inr v \<Rightarrow> Inr v)"

fun supported_debug :: "SupportedProtocol \<Rightarrow> string" where
  "supported_debug StatusV1 = ''StatusV1''"
| "supported_debug GoodbyeV1 = ''GoodbyeV1''"
| "supported_debug PingV1 = ''PingV1''"
| "supported_debug MetaDataV1 = ''MetaDataV1''"
| "supported_debug PooledUserOpHashesV1 = ''PooledUserOpHashesV1''"
| "supported_debug PooledUserOpsByHashV1 = ''PooledUserOpsByHashV1''"

subsection \<open>Shared parts\<close>

definition handle_error :: "io_error \<Rightarrow> usize \<Rightarrow> usize \<Rightarrow> 'e RPCError + 'a option" where
  "handle_error err num_bytes max_compressed_len =
     (if io_unexpected_eof err then
        (if num_bytes \<ge> max_compressed_len then
           Inl (InvalidData (''Received malicious snappy message, num_bytes '' @ show_nat num_bytes @
             '', max_compressed_len '' @ show_nat max_compressed_len))
         else Inr None)
      else Inl (IoError (io_text err)))"

text \<open>The result, the stored length and the rest of the buffer.\<close>

definition handle_length ::
    "'e CodecOps \<Rightarrow> usize option \<Rightarrow> u8 list \<Rightarrow> ('e RPCError + usize option) \<times> usize option \<times> u8 list" where
  "handle_length C len bytes =
     (case len of
        Some n \<Rightarrow> (Inr (Some n), len, bytes)
      | None \<Rightarrow>
          (case of_io (uvi_decode C bytes) of
             Inl e \<Rightarrow> (Inl e, None, bytes)
           | Inr None \<Rightarrow> (Inr None, None, bytes)
           | Inr (Some (n, rest)) \<Rightarrow> (Inr (Some n), Some n, rest)))"

definition handle_rpc_request ::
    "'e CodecOps \<Rightarrow> SupportedProtocol \<Rightarrow> u8 list \<Rightarrow> 'e RPCError + InboundRequest option" where
  "handle_rpc_request C vp buf =
     (case vp of
        StatusV1 \<Rightarrow> map_res (Some \<circ> InboundRequest.Status) (of_ssz (status_dec C buf))
      | GoodbyeV1 \<Rightarrow> map_res (Some \<circ> InboundRequest.Goodbye) (of_ssz (goodbye_from_ssz_bytes (ssz_u64 C) buf))
      | PooledUserOpHashesV1 \<Rightarrow> map_res (Some \<circ> InboundRequest.PooledUserOpHashes) (of_ssz (hashes_req_dec C buf))
      | PooledUserOpsByHashV1 \<Rightarrow> map_res (Some \<circ> InboundRequest.PooledUserOpsByHash) (of_ssz (by_hash_req_dec C buf))
      | PingV1 \<Rightarrow> map_res (\<lambda>n. Some (InboundRequest.Ping \<lparr>ping_data = n\<rparr>)) (of_ssz (u64_from_bytes (ssz_u64 C) buf))
      | MetaDataV1 \<Rightarrow>
          if buf \<noteq> [] then Inl (InvalidData ''Metadata request'') else Inr (Some InboundRequest.MetaData))"

definition handle_rpc_response ::
    "'e CodecOps \<Rightarrow> SupportedProtocol \<Rightarrow> u8 list \<Rightarrow> 'e RPCError + RPCResponse option" where
  "handle_rpc_response C vp buf =
     (case vp of
        StatusV1 \<Rightarrow> map_res (Some \<circ> RPCResponse.Status) (of_ssz (status_dec C buf))
      | GoodbyeV1 \<Rightarrow> Inl (InvalidData ''Goodbye RPC message has no valid response'')
      | PingV1 \<Rightarrow> map_res (\<lambda>n. Some (RPCResponse.Pong \<lparr>ping_data = n\<rparr>)) (of_ssz (u64_from_bytes (ssz_u64 C) buf))
      | MetaDataV1 \<Rightarrow> map_res (Some \<circ> RPCResponse.MetaData) (of_ssz (meta_dec C buf))
      | PooledUserOpHashesV1 \<Rightarrow> map_res (Some \<circ> RPCResponse.PooledUserOpHashes) (of_ssz (hashes_dec C buf))
      | PooledUserOpsByHashV1 \<Rightarrow> map_res (Some \<circ> RPCResponse.PooledUserOpsByHash) (of_ssz (by_hash_dec C buf)))"

text \<open>
  The end of every encoder: the size check, the length prefix, the compressed bytes.
\<close>

definition put_chunk :: "'e CodecOps \<Rightarrow> usize \<Rightarrow> u8 list \<Rightarrow> u8 list \<Rightarrow> 'e RPCError + u8 list" where
  "put_chunk C max_packet_size bytes dst =
     (if length bytes > max_packet_size then
        Inl (InternalError ''attempting to encode data > max_packet_size'')
      else
        bind_res (of_io (uvi_encode C (length bytes))) (\<lambda>prefix.
        bind_res (of_io (frame_encode C bytes)) (\<lambda>compressed.
        Inr (dst @ prefix @ compressed))))"

text \<open>
  The end of every decoder, for a length within bounds: the snappy reader sees at most
  \<open>max_compressed_len\<close> bytes; what it decoded goes to \<open>decode\<close>.
\<close>

definition take_chunk ::
    "'e CodecOps \<Rightarrow> (u8 list \<Rightarrow> 'e RPCError + 'a option) \<Rightarrow> usize \<Rightarrow> usize option \<Rightarrow> u8 list \<Rightarrow>
     ('e RPCError + 'a option) \<times> usize option \<times> u8 list" where
  "take_chunk C decode n len src =
     (let max_compressed_len = max_compress_len C n
      in case frame_read C (take max_compressed_len src) n of
           Inr (decoded_buffer, pos) \<Rightarrow> (decode decoded_buffer, None, drop pos src)
         | Inl (e, pos) \<Rightarrow> (handle_error e pos max_compressed_len, len, src))"

subsection \<open>Inbound streams\<close>

record SSZSnappyInboundCodec =
  ic_protocol :: ProtocolId
  ic_len :: "usize option"
  ic_max_packet_size :: usize

definition inbound_codec_new :: "ProtocolId \<Rightarrow> usize \<Rightarrow> SSZSnappyInboundCodec" where
  "inbound_codec_new protocol max_packet_size =
     \<lparr>ic_protocol = protocol, ic_len = None, ic_max_packet_size = max_packet_size\<rparr>"

definition response_ssz_bytes :: "'e CodecOps \<Rightarrow> SupportedProtocol \<Rightarrow> RPCCodedResponse \<Rightarrow> u8 list option" where
  "response_ssz_bytes C vp item =
     (case item of
        Success resp \<Rightarrow>
          (case resp of
             RPCResponse.Status res \<Rightarrow> Some (status_enc C res)
           | RPCResponse.PooledUserOpHashes res \<Rightarrow> Some (hashes_enc C res)
           | RPCResponse.PooledUserOpsByHash res \<Rightarrow> Some (by_hash_enc C res)
           | RPCResponse.Pong res \<Rightarrow> Some (u64_append (ssz_u64 C) (ping_data res))
           | RPCResponse.MetaData res \<Rightarrow> (case vp of MetaDataV1 \<Rightarrow> Some (meta_enc C res) | _ \<Rightarrow> None))
      | Error code err \<Rightarrow> Some (error_enc C err)
      | StreamTermination t \<Rightarrow> None)"

definition ssz_inbound_encode ::
    "'e CodecOps \<Rightarrow> SSZSnappyInboundCodec \<Rightarrow> RPCCodedResponse \<Rightarrow> u8 list \<Rightarrow> ('e RPCError + u8 list) option" where
  "ssz_inbound_encode C self item dst =
     map_option (\<lambda>bytes. put_chunk C (ic_max_packet_size self) bytes dst)
       (response_ssz_bytes C (versioned_protocol (ic_protocol self)) item)"

definition ssz_inbound_decode ::
    "'e CodecOps \<Rightarrow> SSZSnappyInboundCodec \<Rightarrow> u8 list \<Rightarrow>
     ('e RPCError + InboundRequest option) \<times> SSZSnappyInboundCodec \<times> u8 list" where
  "ssz_inbound_decode C self src =
     (let vp = versioned_protocol (ic_protocol self)
      in if vp = MetaDataV1 then (Inr (Some InboundRequest.MetaData), self, src)
         else
           case handle_length C (ic_len self) src of
             (Inl e, len, src) \<Rightarrow> (Inl e, self\<lparr>ic_len := len\<rparr>, src)
           | (Inr None, len, src) \<Rightarrow> (Inr None, self\<lparr>ic_len := len\<rparr>, src)
           | (Inr (Some n), len, src) \<Rightarrow>
               let ssz_limits = rpc_request_limits (ssz_u64 C) (ping_fixed_len C) (ic_protocol self)
               in if is_out_of_bounds ssz_limits n (ic_max_packet_size self) then
                    (Inl (InvalidData (''RPC request length for protocol '' @ supported_debug vp @
                       '' is out of bounds, length '' @ show_nat n)), self\<lparr>ic_len := len\<rparr>, src)
                  else
                    let (r, len, src) = take_chunk C (handle_rpc_request C vp) n len src
                    in (r, self\<lparr>ic_len := len\<rparr>, src))"

subsection \<open>Outbound streams\<close>

record SSZSnappyOutboundCodec =
  oc_protocol :: ProtocolId
  oc_len :: "usize option"
  oc_max_packet_size :: usize

definition outbound_codec_new :: "ProtocolId \<Rightarrow> usize \<Rightarrow> SSZSnappyOutboundCodec" where
  "outbound_codec_new protocol max_packet_size =
     \<lparr>oc_protocol = protocol, oc_len = None, oc_max_packet_size = max_packet_size\<rparr>"

fun request_ssz_bytes :: "'e CodecOps \<Rightarrow> OutboundRequest \<Rightarrow> u8 list option" where
  "request_ssz_bytes C (OutboundRequest.Status req) = Some (status_enc C req)"
| "request_ssz_bytes C (OutboundRequest.Goodbye req) = Some (goodbye_ssz_append (ssz_u64 C) req [])"
| "request_ssz_bytes C (OutboundRequest.PooledUserOpHashes req) = Some (hashes_req_enc C req)"
| "request_ssz_bytes C (OutboundRequest.PooledUserOpsByHash req) = Some (by_hash_req_enc C req)"
| "request_ssz_bytes C (OutboundRequest.Ping req) = Some (ping_enc C req)"
| "request_ssz_bytes C OutboundRequest.MetaData = None"

definition ssz_outbound_encode ::
    "'e CodecOps \<Rightarrow> SSZSnappyOutboundCodec \<Rightarrow> OutboundRequest \<Rightarrow> u8 list \<Rightarrow> 'e RPCError + u8 list" where
  "ssz_outbound_encode C self item dst =
     (case request_ssz_bytes C item of
        None \<Rightarrow> Inr dst
      | Some bytes \<Rightarrow> put_chunk C (oc_max_packet_size self) bytes dst)"

definition ssz_outbound_decode ::
    "'e CodecOps \<Rightarrow> SSZSnappyOutboundCodec \<Rightarrow> u8 list \<Rightarrow>
     ('e RPCError + RPCResponse option) \<times> SSZSnappyOutboundCodec \<times> u8 list" where
  "ssz_outbound_decode C self src =
     (if has_context_bytes (oc_protocol self) \<and> length src < CONTEXT_BYTES_LEN then (Inr None, self, src)
      else
        let src = (if has_context_bytes (oc_protocol self) then drop CONTEXT_BYTES_LEN src else src)
        in case handle_length C (oc_len self) src of
             (Inl e, len, src) \<Rightarrow> (Inl e, self\<lparr>oc_len := len\<rparr>, src)
           | (Inr None, len, src) \<Rightarrow> (Inr None, self\<lparr>oc_len := len\<rparr>, src)
           | (Inr (Some n), len, src) \<Rightarrow>
               let ssz_limits = rpc_response_limits (ping_fixed_len C) (oc_protocol self)
               in if is_out_of_bounds ssz_limits n (oc_max_packet_size self) then
                    (Inl (InvalidData (''RPC response length is out of bounds, length '' @ show_nat n)),
                     self\<lparr>oc_len := len\<rparr>, src)
                  else
                    let (r, len, src) =
                      take_chunk C (handle_rpc_response C (versioned_protocol (oc_protocol self))) n len src
                    in (r, self\<lparr>oc_len := len\<rparr>, src))"

definition decode_error ::
    "'e CodecOps \<Rightarrow> SSZSnappyOutboundCodec \<Rightarrow> u8 list \<Rightarrow>
     ('e RPCError + ErrorType option) \<times> SSZSnappyOutboundCodec \<times> u8 list" where
  "decode_error C self src =
     (case handle_length C (oc_len self) src of
        (Inl e, len, src) \<Rightarrow> (Inl e, self\<lparr>oc_len := len\<rparr>, src)
      | (Inr None, len, src) \<Rightarrow> (Inr None, self\<lparr>oc_len := len\<rparr>, src)
      | (Inr (Some n), len, src) \<Rightarrow>
          if n > oc_max_packet_size self \<or> n > ERROR_TYPE_MAX \<or> n < ERROR_TYPE_MIN then
            (Inl (InvalidData (''RPC Error length is out of bounds, length '' @ show_nat n)),
             self\<lparr>oc_len := len\<rparr>, src)
          else
            let (r, len, src) = take_chunk C (\<lambda>buf. map_res Some (of_ssz (error_dec C buf))) n len src
            in (r, self\<lparr>oc_len := len\<rparr>, src))"

subsection \<open>The base codecs\<close>

record BaseInboundCodec =
  bi_inner :: SSZSnappyInboundCodec

definition base_inbound_new :: "SSZSnappyInboundCodec \<Rightarrow> BaseInboundCodec" where
  "base_inbound_new codec = \<lparr>bi_inner = codec\<rparr>"

record BaseOutboundCodec =
  bo_inner :: SSZSnappyOutboundCodec
  current_response_code :: "u8 option"

definition base_outbound_new :: "SSZSnappyOutboundCodec \<Rightarrow> BaseOutboundCodec" where
  "base_outbound_new codec = \<lparr>bo_inner = codec, current_response_code = None\<rparr>"

text \<open>The buffer is cleared before the response code is put.\<close>

definition base_inbound_encode ::
    "'e CodecOps \<Rightarrow> BaseInboundCodec \<Rightarrow> RPCCodedResponse \<Rightarrow> u8 list \<Rightarrow> ('e RPCError + u8 list) option" where
  "base_inbound_encode C self item dst =
     (case coded_as_u8 item of
        None \<Rightarrow> None
      | Some code \<Rightarrow> ssz_inbound_encode C (bi_inner self) item [code])"

definition base_inbound_decode ::
    "'e CodecOps \<Rightarrow> BaseInboundCodec \<Rightarrow> u8 list \<Rightarrow>
     ('e RPCError + InboundRequest option) \<times> BaseInboundCodec \<times> u8 list" where
  "base_inbound_decode C self src =
     (let (r, inner, src) = ssz_inbound_decode C (bi_inner self) src in (r, self\<lparr>bi_inner := inner\<rparr>, src))"

definition base_outbound_encode ::
    "'e CodecOps \<Rightarrow> BaseOutboundCodec \<Rightarrow> OutboundRequest \<Rightarrow> u8 list \<Rightarrow> 'e RPCError + u8 list" where
  "base_outbound_encode C self item dst = ssz_outbound_encode C (bo_inner self) item dst"

definition base_outbound_decode ::
    "'e CodecOps \<Rightarrow> BaseOutboundCodec \<Rightarrow> u8 list \<Rightarrow>
     ('e RPCError + RPCCodedResponse option) \<times> BaseOutboundCodec \<times> u8 list" where
  "base_outbound_decode C self src =
     (if length src \<le> 1 then (Inr None, self, src)
      else
        let (response_code, src) =
              (case current_response_code self of Some code \<Rightarrow> (code, src) | None \<Rightarrow> (hd src, tl src));
            (inner_result, inner, src) =
              (if is_response response_code then
                 (let (r, inner, src) = ssz_outbound_decode C (bo_inner self) src
                  in (map_res (map_option Success) r, inner, src))
               else
                 (let (r, inner, src) = decode_error C (bo_inner self) src
                  in (map_res (map_option (from_error response_code)) r, inner, src)))
        in (inner_result,
            \<lparr>bo_inner = inner,
             current_response_code = (case inner_result of Inr (Some _) \<Rightarrow> None | _ \<Rightarrow> Some response_code)\<rparr>,
            src))"

text \<open>The enumerations of \<open>codec/mod.rs\<close>, with their only variant.\<close>

datatype InboundCodec = SSZSnappyIn BaseInboundCodec
datatype OutboundCodec = SSZSnappyOut BaseOutboundCodec

fun inbound_encode ::
    "'e CodecOps \<Rightarrow> InboundCodec \<Rightarrow> RPCCodedResponse \<Rightarrow> u8 list \<Rightarrow> ('e RPCError + u8 list) option" where
  "inbound_encode C (SSZSnappyIn codec) item dst = base_inbound_encode C codec item dst"

fun inbound_decode ::
    "'e CodecOps \<Rightarrow> InboundCodec \<Rightarrow> u8 list \<Rightarrow> ('e RPCError + InboundRequest option) \<times> InboundCodec \<times> u8 list" where
  "inbound_decode C (SSZSnappyIn codec) src =
     (let (r, codec, src) = base_inbound_decode C codec src in (r, SSZSnappyIn codec, src))"

fun outbound_encode :: "'e CodecOps \<Rightarrow> OutboundCodec \<Rightarrow> OutboundRequest \<Rightarrow> u8 list \<Rightarrow> 'e RPCError + u8 list" where
  "outbound_encode C (SSZSnappyOut codec) item dst = base_outbound_encode C codec item dst"

fun outbound_decode ::
    "'e CodecOps \<Rightarrow> OutboundCodec \<Rightarrow> u8 list \<Rightarrow> ('e RPCError + RPCCodedResponse option) \<times> OutboundCodec \<times> u8 list" where
  "outbound_decode C (SSZSnappyOut codec) src =
     (let (r, codec, src) = base_outbound_decode C codec src in (r, SSZSnappyOut codec, src))"

text \<open>
  The codecs the two upgrades build for a negotiated protocol. \<open>upgrade_outbound\<close> sends the request
  and closes the writing side; the results of flushing and of closing the socket are arguments.
\<close>

definition upgrade_inbound_codec :: "RPCProtocol \<Rightarrow> ProtocolId \<Rightarrow> InboundCodec" where
  "upgrade_inbound_codec self protocol =
     (case encoding protocol of
        SSZSnappy \<Rightarrow> SSZSnappyIn (base_inbound_new (inbound_codec_new protocol (protocol_max_rpc_size self))))"

definition upgrade_outbound_codec :: "usize \<Rightarrow> ProtocolId \<Rightarrow> OutboundCodec" where
  "upgrade_outbound_codec max_size protocol =
     (case encoding protocol of
        SSZSnappy \<Rightarrow> SSZSnappyOut (base_outbound_new (outbound_codec_new protocol max_size)))"

definition upgrade_outbound ::
    "'e CodecOps \<Rightarrow> usize \<Rightarrow> OutboundRequest \<Rightarrow> ProtocolId \<Rightarrow> io_error + unit \<Rightarrow> io_error + unit \<Rightarrow>
     'e RPCError + OutboundCodec \<times> u8 list" where
  "upgrade_outbound C max_size req protocol flushed closed =
     (let codec = upgrade_outbound_codec max_size protocol
      in bind_res (outbound_encode C codec req []) (\<lambda>bytes.
         bind_res (of_io flushed) (\<lambda>_.
         bind_res (of_io closed) (\<lambda>_.
         Inr (codec, bytes)))))"

end
