(* ===== verification/Ssz_Codec_Props.thy ===== *)
theory Ssz_Codec_Props
  imports Ssz_Codec "HOL-Library.Sublist"
begin

text \<open>
  Correctness of the codec. A stream reaches the decoder in pieces of any size: \<open>framed_next\<close> is
  the way the contract of the trait \<open>Decoder\<close> lets a reader call it. What the crates promise about
  lengths and frames is \<open>codec_laws\<close>; what they promise on bytes of any origin is \<open>codec_limits\<close>.
\<close>

section \<open>Reading a stream in pieces\<close>

text \<open>
  A reader holds the bytes not yet decoded. It calls the decoder; as long as the decoder asks for
  later, it appends the next piece. After the last piece, bytes that are left over are an error.
\<close>

fun framed_next ::
    "('s \<Rightarrow> u8 list \<Rightarrow> ('e RPCError + 'a option) \<times> 's \<times> u8 list) \<Rightarrow> 's \<Rightarrow> u8 list \<Rightarrow> u8 list list \<Rightarrow>
     ('e RPCError + 'a) option \<times> 's \<times> u8 list \<times> u8 list list" where
  "framed_next decode codec src pieces =
     (case decode codec src of
        (Inl e, codec, src) \<Rightarrow> (Some (Inl e), codec, src, pieces)
      | (Inr (Some x), codec, src) \<Rightarrow> (Some (Inr x), codec, src, pieces)
      | (Inr None, codec, src) \<Rightarrow>
          (case pieces of
             [] \<Rightarrow> (if src = [] then None else Some (Inl (IoError ''bytes remaining on stream'')), codec, src, [])
           | piece # pieces \<Rightarrow> framed_next decode codec (src @ piece) pieces))"

declare framed_next.simps [simp del]

primrec framed_take ::
    "('s \<Rightarrow> u8 list \<Rightarrow> ('e RPCError + 'a option) \<times> 's \<times> u8 list) \<Rightarrow> nat \<Rightarrow> 's \<Rightarrow> u8 list \<Rightarrow> u8 list list \<Rightarrow>
     ('e RPCError + 'a) option list" where
  "framed_take decode 0 codec src pieces = []"
| "framed_take decode (Suc n) codec src pieces =
     (let (r, codec, src, pieces) = framed_next decode codec src pieces
      in r # framed_take decode n codec src pieces)"

text \<open>
  What a decoder needs to be robust against fragmentation: as long as the stream owes \<open>items\<close>, a
  call on any prefix of it either returns the first of them, and the rest of the stream owes the
  others, or asks for more, which it does at the end of the stream only if nothing is owed.
\<close>

locale framed_decoder =
  fixes decode :: "'s \<Rightarrow> u8 list \<Rightarrow> ('e RPCError + 'a option) \<times> 's \<times> u8 list"
    and owes :: "'s \<Rightarrow> 'a list \<Rightarrow> u8 list \<Rightarrow> bool"
  assumes decode_step: "owes s items (src @ later) \<Longrightarrow>
    (\<exists>x rest s' src'. items = x # rest \<and> decode s src = (Inr (Some x), s', src') \<and> owes s' rest (src' @ later)) \<or>
    (\<exists>s' src'. decode s src = (Inr None, s', src') \<and> owes s' items (src' @ later) \<and>
       (later = [] \<longrightarrow> items = [] \<and> src' = []))"
begin

lemma next_owed:
  assumes "owes s (x # rest) (src @ concat pieces)"
  shows "\<exists>s' src' pieces'. framed_next decode s src pieces = (Some (Inr x), s', src', pieces') \<and>
    owes s' rest (src' @ concat pieces')"
  using assms
proof (induction pieces arbitrary: s src)
  case Nil
  then obtain s' src' where "decode s src = (Inr (Some x), s', src')" "owes s' rest (src' @ [])"
    using decode_step [of s "x # rest" src "[]"] by auto
  then show ?case by (simp add: framed_next.simps)
next
  case (Cons p ps)
  from decode_step [of s "x # rest" src "concat (p # ps)"] Cons.prems
  consider s' src' where "decode s src = (Inr (Some x), s', src')" "owes s' rest (src' @ concat (p # ps))"
    | s' src' where "decode s src = (Inr None, s', src')" "owes s' (x # rest) (src' @ concat (p # ps))"
    by blast
  then show ?case
  proof cases
    case (1 s' src')
    then show ?thesis by (simp add: framed_next.simps)
  next
    case (2 s' src')
    then have "owes s' (x # rest) ((src' @ p) @ concat ps)" by simp
    from Cons.IH [OF this] 2(1) show ?thesis by (simp add: framed_next.simps)
  qed
qed

lemma next_end:
  assumes "owes s [] (src @ concat pieces)"
  shows "fst (framed_next decode s src pieces) = None"
  using assms
proof (induction pieces arbitrary: s src)
  case Nil
  then obtain s' where "decode s src = (Inr None, s', [])"
    using decode_step [of s "[]" src "[]"] by auto
  then show ?case by (simp add: framed_next.simps)
next
  case (Cons p ps)
  from decode_step [of s "[]" src "concat (p # ps)"] Cons.prems
  obtain s' src' where *: "decode s src = (Inr None, s', src')" "owes s' [] (src' @ concat (p # ps))"
    by blast
  then have "owes s' [] ((src' @ p) @ concat ps)" by simp
  from Cons.IH [OF this] *(1) show ?case by (simp add: framed_next.simps)
qed

lemma take_owed:
  "owes s items (src @ concat pieces) \<Longrightarrow>
   framed_take decode (Suc (length items)) s src pieces = map (Some \<circ> Inr) items @ [None]"
proof (induction items arbitrary: s src pieces)
  case Nil
  then show ?case using next_end [OF Nil] by (cases "framed_next decode s src pieces") simp
next
  case (Cons x rest)
  from next_owed [OF Cons.prems] obtain s' src' pieces' where
    "framed_next decode s src pieces = (Some (Inr x), s', src', pieces')"
    and "owes s' rest (src' @ concat pieces')" by blast
  with Cons.IH show ?case by simp
qed

end

section \<open>The laws of the crates\<close>

definition uvi_laws :: "'e CodecOps \<Rightarrow> bool" where
  "uvi_laws C \<longleftrightarrow> (\<forall>n \<le> USIZE_MAX. \<exists>p. uvi_encode C n = Inr p \<and> p \<noteq> [] \<and>
     (\<forall>r. uvi_decode C (p @ r) = Inr (Some (n, r))) \<and>
     (\<forall>q. strict_prefix q p \<longrightarrow> uvi_decode C q = Inr None))"

definition frame_laws :: "'e CodecOps \<Rightarrow> bool" where
  "frame_laws C \<longleftrightarrow> (\<forall>b. \<exists>f. frame_encode C b = Inr f \<and> length f \<le> max_compress_len C (length b) \<and>
     (f = [] \<or> 2 \<le> length f) \<and>
     (\<forall>r. frame_read C (f @ r) (length b) = Inr (b, length f)) \<and>
     (\<forall>q. strict_prefix q f \<longrightarrow>
        (\<exists>e pos. frame_read C q (length b) = Inl (e, pos) \<and> io_unexpected_eof e \<and> pos \<le> length q)))"

definition codec_laws :: "'e CodecOps \<Rightarrow> bool" where
  "codec_laws C \<longleftrightarrow> uvi_laws C \<and> frame_laws C"

definition prefix_of :: "'e CodecOps \<Rightarrow> u8 list \<Rightarrow> u8 list" where
  "prefix_of C b = projr (uvi_encode C (length b))"

definition frame_of :: "'e CodecOps \<Rightarrow> u8 list \<Rightarrow> u8 list" where
  "frame_of C b = projr (frame_encode C b)"

lemma prefix_of:
  assumes "codec_laws C" "length b \<le> USIZE_MAX"
  shows "uvi_encode C (length b) = Inr (prefix_of C b)" "prefix_of C b \<noteq> []"
    and "uvi_decode C (prefix_of C b @ r) = Inr (Some (length b, r))"
    and "strict_prefix q (prefix_of C b) \<Longrightarrow> uvi_decode C q = Inr None"
proof -
  from assms obtain p where *: "uvi_encode C (length b) = Inr p" "p \<noteq> []"
    "\<forall>r. uvi_decode C (p @ r) = Inr (Some (length b, r))"
    "\<forall>q. strict_prefix q p \<longrightarrow> uvi_decode C q = Inr None"
    unfolding codec_laws_def uvi_laws_def by blast
  then show "uvi_encode C (length b) = Inr (prefix_of C b)" "prefix_of C b \<noteq> []"
    "uvi_decode C (prefix_of C b @ r) = Inr (Some (length b, r))"
    "strict_prefix q (prefix_of C b) \<Longrightarrow> uvi_decode C q = Inr None"
    by (simp_all add: prefix_of_def)
qed

lemma frame_of:
  assumes "codec_laws C"
  shows "frame_encode C b = Inr (frame_of C b)" "length (frame_of C b) \<le> max_compress_len C (length b)"
    and "frame_of C b \<noteq> [] \<Longrightarrow> 2 \<le> length (frame_of C b)"
    and "frame_read C (frame_of C b @ r) (length b) = Inr (b, length (frame_of C b))"
    and "strict_prefix q (frame_of C b) \<Longrightarrow>
      \<exists>e pos. frame_read C q (length b) = Inl (e, pos) \<and> io_unexpected_eof e \<and> pos \<le> length q"
proof -
  from assms obtain f where *: "frame_encode C b = Inr f" "length f \<le> max_compress_len C (length b)"
    "f = [] \<or> 2 \<le> length f" "\<forall>r. frame_read C (f @ r) (length b) = Inr (b, length f)"
    "\<forall>q. strict_prefix q f \<longrightarrow>
        (\<exists>e pos. frame_read C q (length b) = Inl (e, pos) \<and> io_unexpected_eof e \<and> pos \<le> length q)"
    unfolding codec_laws_def frame_laws_def by blast
  then show "frame_encode C b = Inr (frame_of C b)" "length (frame_of C b) \<le> max_compress_len C (length b)"
    "frame_of C b \<noteq> [] \<Longrightarrow> 2 \<le> length (frame_of C b)"
    "frame_read C (frame_of C b @ r) (length b) = Inr (b, length (frame_of C b))"
    "strict_prefix q (frame_of C b) \<Longrightarrow>
      \<exists>e pos. frame_read C q (length b) = Inl (e, pos) \<and> io_unexpected_eof e \<and> pos \<le> length q"
    by (simp_all add: frame_of_def)
qed

lemma put_chunk_ok:
  assumes "codec_laws C" "length b \<le> m" "m \<le> USIZE_MAX"
  shows "put_chunk C m b dst = Inr (dst @ prefix_of C b @ frame_of C b)"
  using assms prefix_of(1) [of C b] frame_of(1) [of C b]
  by (simp add: put_chunk_def of_io_def)

section \<open>One chunk\<close>

text \<open>The shape that the three decoders share: length, bounds, body.\<close>

definition read_body ::
    "'e CodecOps \<Rightarrow> (usize \<Rightarrow> bool) \<Rightarrow> (usize \<Rightarrow> 'e RPCError) \<Rightarrow> (u8 list \<Rightarrow> 'e RPCError + 'a option) \<Rightarrow>
     usize option \<Rightarrow> u8 list \<Rightarrow> ('e RPCError + 'a option) \<times> usize option \<times> u8 list" where
  "read_body C bad err decode len src =
     (case handle_length C len src of
        (Inl e, len, src) \<Rightarrow> (Inl e, len, src)
      | (Inr None, len, src) \<Rightarrow> (Inr None, len, src)
      | (Inr (Some n), len, src) \<Rightarrow>
          if bad n then (Inl (err n), len, src) else take_chunk C decode n len src)"

text \<open>What a stream still holds of a body, given the stored length, followed by \<open>rest\<close>.\<close>

definition body_left :: "'e CodecOps \<Rightarrow> u8 list \<Rightarrow> usize option \<Rightarrow> u8 list \<Rightarrow> u8 list \<Rightarrow> bool" where
  "body_left C b len rest rem \<longleftrightarrow>
     (case len of
        None \<Rightarrow> rem = prefix_of C b @ frame_of C b @ rest
      | Some n \<Rightarrow> n = length b \<and> frame_of C b \<noteq> [] \<and> rem = frame_of C b @ rest)"

lemma append_split:
  assumes "src @ later = a @ b"
  obtains (part) "strict_prefix src a" "later \<noteq> []" | (whole) r where "src = a @ r" "b = r @ later"
proof -
  from assms obtain us where "src = a @ us \<and> us @ later = b \<or> src @ us = a \<and> later = us @ b"
    by (auto simp: append_eq_append_conv2)
  then show thesis using whole [of us] whole [of "[]"] part by (cases "us = []") (auto simp: strict_prefix_def)
qed

lemma take_chunk_whole:
  assumes "codec_laws C"
  shows "take_chunk C decode (length b) len (frame_of C b @ r) = (decode b, None, r)"
proof -
  have "take (max_compress_len C (length b)) (frame_of C b @ r) =
      frame_of C b @ take (max_compress_len C (length b) - length (frame_of C b)) r"
    using frame_of(2) [OF assms, of b] by simp
  then show ?thesis using frame_of(4) [OF assms, of b] by (simp add: take_chunk_def)
qed

lemma take_chunk_part:
  assumes "codec_laws C" "strict_prefix q (frame_of C b)"
  shows "take_chunk C decode (length b) len q = (Inr None, len, q)"
proof -
  have "length q < length (frame_of C b)" using assms(2) by (rule prefix_length_less)
  then have lt: "length q < max_compress_len C (length b)" using frame_of(2) [OF assms(1), of b] by simp
  obtain e pos where "frame_read C q (length b) = Inl (e, pos)" "io_unexpected_eof e" "pos \<le> length q"
    using frame_of(5) [OF assms] by blast
  with lt show ?thesis by (simp add: take_chunk_def handle_error_def)
qed

lemma read_body_sized:
  assumes laws: "codec_laws C" and "\<not> bad (length b)" and "decode b = Inr (Some x)"
    and rem: "src @ later = frame_of C b @ rest"
    and handled: "handle_length C len src0 = (Inr (Some (length b)), Some (length b), src)"
  shows "(\<exists>src'. read_body C bad err decode len src0 = (Inr (Some x), None, src') \<and> rest = src' @ later) \<or>
    (read_body C bad err decode len src0 = (Inr None, Some (length b), src) \<and>
     later \<noteq> [] \<and> frame_of C b \<noteq> [])"
  using rem
proof (cases rule: append_split)
  case part
  then show ?thesis using take_chunk_part [OF laws part(1)] assms by (auto simp: read_body_def)
next
  case (whole r)
  have "take_chunk C decode (length b) (Some (length b)) src = (decode b, None, r)"
    unfolding whole(1) by (rule take_chunk_whole [OF laws])
  then show ?thesis using whole(2) assms by (simp add: read_body_def)
qed

lemma read_body_step:
  assumes laws: "codec_laws C" and fits: "\<not> bad (length b)" "length b \<le> USIZE_MAX"
    and dec: "decode b = Inr (Some x)" and left: "body_left C b len rest (src @ later)"
  shows "(\<exists>src'. read_body C bad err decode len src = (Inr (Some x), None, src') \<and> rest = src' @ later) \<or>
    (\<exists>len' src'. read_body C bad err decode len src = (Inr None, len', src') \<and>
       body_left C b len' rest (src' @ later) \<and> later \<noteq> [] \<and>
       (src \<noteq> [] \<or> len \<noteq> None \<longrightarrow> 2 \<le> length (src' @ later)))"
proof (cases len)
  case (Some n)
  with left have n: "n = length b" "frame_of C b \<noteq> []" and rem: "src @ later = frame_of C b @ rest"
    by (simp_all add: body_left_def)
  then have "2 \<le> length (src @ later)" using frame_of(3) [OF laws n(2)] by simp
  then show ?thesis
    using read_body_sized [of C bad b decode x src later rest len src err, OF laws fits(1) dec rem] left Some n
    by (auto simp: handle_length_def)
next
  case None
  with left have rem: "src @ later = prefix_of C b @ frame_of C b @ rest" by (simp add: body_left_def)
  then show ?thesis
  proof (cases rule: append_split)
    case part
    then have "uvi_decode C src = Inr None" using prefix_of(4) [OF laws fits(2)] by blast
    then have "read_body C bad err decode len src = (Inr None, None, src)"
      by (simp add: read_body_def handle_length_def None of_io_def)
    then show ?thesis using left part(2) None by (cases src; cases later) auto
  next
    case (whole r)
    then have h: "handle_length C len src = (Inr (Some (length b)), Some (length b), r)"
      using prefix_of(3) [OF laws fits(2)] by (simp add: handle_length_def None of_io_def)
    have rem: "r @ later = frame_of C b @ rest" using whole by simp
    from read_body_sized [of C bad b decode x r later rest len src err, OF laws fits(1) dec rem h]
    show ?thesis
    proof
      assume *: "read_body C bad err decode len src = (Inr None, Some (length b), r) \<and>
        later \<noteq> [] \<and> frame_of C b \<noteq> []"
      have "2 \<le> length r + length later"
        using frame_of(3) [OF laws, of b] * arg_cong [OF rem, of length] by simp
      with * rem show ?thesis by (auto simp: body_left_def)
    qed blast
  qed
qed


section \<open>A stream of responses\<close>

lemma no_context_bytes [simp]: "\<not> has_context_bytes p"
  by (cases "versioned_protocol p") (simp_all add: has_context_bytes_def)

lemma map_handle_error [simp]: "map_res (map_option g) (handle_error e n m) = handle_error e n m"
  by (simp add: handle_error_def)

lemma read_body_map:
  "read_body C bad err (\<lambda>b. map_res (map_option g) (decode b)) len src =
   (case read_body C bad err decode len src of (r, len, src) \<Rightarrow> (map_res (map_option g) r, len, src))"
  by (auto simp: read_body_def take_chunk_def Let_def split: prod.splits sum.splits option.splits if_splits)

text \<open>Whether SSZ decoding inverts encoding on an item, and whether its size is within the limits.\<close>

fun ssz_response_ok :: "'e CodecOps \<Rightarrow> RPCCodedResponse \<Rightarrow> bool" where
  "ssz_response_ok C (Success (RPCResponse.Status m)) \<longleftrightarrow> status_dec C (status_enc C m) = Inr m"
| "ssz_response_ok C (Success (RPCResponse.PooledUserOpHashes m)) \<longleftrightarrow> hashes_dec C (hashes_enc C m) = Inr m"
| "ssz_response_ok C (Success (RPCResponse.PooledUserOpsByHash m)) \<longleftrightarrow> by_hash_dec C (by_hash_enc C m) = Inr m"
| "ssz_response_ok C (Success (RPCResponse.Pong m)) \<longleftrightarrow>
     u64_from_bytes (ssz_u64 C) (u64_append (ssz_u64 C) (ping_data m)) = Inr (ping_data m)"
| "ssz_response_ok C (Success (RPCResponse.MetaData m)) \<longleftrightarrow> meta_dec C (meta_enc C m) = Inr m"
| "ssz_response_ok C (Error code e) \<longleftrightarrow> error_dec C (error_enc C e) = Inr e"
| "ssz_response_ok C (StreamTermination t) \<longleftrightarrow> False"

definition response_bytes :: "'e CodecOps \<Rightarrow> ProtocolId \<Rightarrow> RPCCodedResponse \<Rightarrow> u8 list" where
  "response_bytes C p item = the (response_ssz_bytes C (versioned_protocol p) item)"

fun response_within :: "'e CodecOps \<Rightarrow> ProtocolId \<Rightarrow> usize \<Rightarrow> RPCCodedResponse \<Rightarrow> bool" where
  "response_within C p m (Success r) \<longleftrightarrow> response_protocol r = protocol_of (versioned_protocol p) \<and>
     \<not> is_out_of_bounds (rpc_response_limits (ping_fixed_len C) p) (length (response_bytes C p (Success r))) m"
| "response_within C p m (Error code e) \<longleftrightarrow>
     ERROR_TYPE_MIN \<le> length (error_enc C e) \<and> length (error_enc C e) \<le> min ERROR_TYPE_MAX m"
| "response_within C p m (StreamTermination t) \<longleftrightarrow> False"

definition response_wire :: "'e CodecOps \<Rightarrow> ProtocolId \<Rightarrow> RPCCodedResponse \<Rightarrow> u8 list" where
  "response_wire C p item =
     (let b = response_bytes C p item in the (coded_as_u8 item) # prefix_of C b @ frame_of C b)"

lemma protocol_of_inj [simp]: "protocol_of a = protocol_of b \<longleftrightarrow> a = b"
  by (cases a; cases b) simp_all

lemma response_bytes_ok:
  assumes "response_within C p m item"
  shows "response_ssz_bytes C (versioned_protocol p) item = Some (response_bytes C p item)"
    "length (response_bytes C p item) \<le> m"
proof -
  have "response_ssz_bytes C (versioned_protocol p) item \<noteq> None"
  proof (cases item)
    case (Success r)
    with assms show ?thesis
      by (cases r; cases "versioned_protocol p") (simp_all add: response_ssz_bytes_def)
  qed (use assms in \<open>simp_all add: response_ssz_bytes_def\<close>)
  then show "response_ssz_bytes C (versioned_protocol p) item = Some (response_bytes C p item)"
    by (auto simp: response_bytes_def)
  show "length (response_bytes C p item) \<le> m"
    using assms by (cases item) (auto simp: not_out_of_bounds_iff response_bytes_def response_ssz_bytes_def)
qed

lemma inbound_encode_wire:
  assumes "codec_laws C" "response_within C p m item" "m \<le> USIZE_MAX"
  shows "inbound_encode C (SSZSnappyIn (base_inbound_new (inbound_codec_new p m))) item dst =
    Some (Inr (response_wire C p item))"
proof -
  from assms(2) obtain c where "coded_as_u8 item = Some c" by (cases item) auto
  then show ?thesis
    using response_bytes_ok [OF assms(2)] put_chunk_ok [OF assms(1) _ assms(3)]
    by (simp add: base_inbound_encode_def base_inbound_new_def inbound_codec_new_def ssz_inbound_encode_def
        response_wire_def Let_def)
qed

text \<open>The body that follows a response code.\<close>

definition code_body ::
    "'e CodecOps \<Rightarrow> ProtocolId \<Rightarrow> usize \<Rightarrow> u8 \<Rightarrow> usize option \<Rightarrow> u8 list \<Rightarrow>
     ('e RPCError + RPCCodedResponse option) \<times> usize option \<times> u8 list" where
  "code_body C p m code =
     (if is_response code then
        read_body C (\<lambda>n. is_out_of_bounds (rpc_response_limits (ping_fixed_len C) p) n m)
          (\<lambda>n. InvalidData (''RPC response length is out of bounds, length '' @ show_nat n))
          (\<lambda>b. map_res (map_option Success) (handle_rpc_response C (versioned_protocol p) b))
      else
        read_body C (\<lambda>n. n > m \<or> n > ERROR_TYPE_MAX \<or> n < ERROR_TYPE_MIN)
          (\<lambda>n. InvalidData (''RPC Error length is out of bounds, length '' @ show_nat n))
          (\<lambda>b. map_res (map_option (from_error code)) (map_res Some (of_ssz (error_dec C b)))))"

definition outbound_state :: "ProtocolId \<Rightarrow> usize \<Rightarrow> usize option \<Rightarrow> u8 option \<Rightarrow> OutboundCodec" where
  "outbound_state p m len code =
     SSZSnappyOut \<lparr>bo_inner = \<lparr>oc_protocol = p, oc_len = len, oc_max_packet_size = m\<rparr>,
       current_response_code = code\<rparr>"

lemma outbound_state_ex: "\<exists>p m len code. codec = outbound_state p m len code"
proof -
  obtain b where b: "codec = SSZSnappyOut b" by (cases codec)
  obtain i code where i: "b = \<lparr>bo_inner = i, current_response_code = code\<rparr>" by (cases b)
  obtain p len m where "i = \<lparr>oc_protocol = p, oc_len = len, oc_max_packet_size = m\<rparr>" by (cases i)
  with b i show ?thesis by (auto simp: outbound_state_def)
qed

lemma ssz_outbound_decode_body:
  "ssz_outbound_decode C \<lparr>oc_protocol = p, oc_len = len, oc_max_packet_size = m\<rparr> src =
   (case read_body C (\<lambda>n. is_out_of_bounds (rpc_response_limits (ping_fixed_len C) p) n m)
      (\<lambda>n. InvalidData (''RPC response length is out of bounds, length '' @ show_nat n))
      (handle_rpc_response C (versioned_protocol p)) len src of
      (r, len, src) \<Rightarrow> (r, \<lparr>oc_protocol = p, oc_len = len, oc_max_packet_size = m\<rparr>, src))"
  by (auto simp: ssz_outbound_decode_def read_body_def Let_def split: prod.splits sum.splits option.splits if_splits)

lemma decode_error_body:
  "decode_error C \<lparr>oc_protocol = p, oc_len = len, oc_max_packet_size = m\<rparr> src =
   (case read_body C (\<lambda>n. n > m \<or> n > ERROR_TYPE_MAX \<or> n < ERROR_TYPE_MIN)
      (\<lambda>n. InvalidData (''RPC Error length is out of bounds, length '' @ show_nat n))
      (\<lambda>b. map_res Some (of_ssz (error_dec C b))) len src of
      (r, len, src) \<Rightarrow> (r, \<lparr>oc_protocol = p, oc_len = len, oc_max_packet_size = m\<rparr>, src))"
  by (auto simp: decode_error_def read_body_def Let_def split: prod.splits sum.splits option.splits if_splits)

lemma outbound_decode_state:
  "outbound_decode C (outbound_state p m len code) src =
   (if length src \<le> 1 then (Inr None, outbound_state p m len code, src)
    else
      let (c, src) = (case code of Some c \<Rightarrow> (c, src) | None \<Rightarrow> (hd src, tl src));
          (r, len, src) = code_body C p m c len src
      in (r, outbound_state p m len (case r of Inr (Some _) \<Rightarrow> None | _ \<Rightarrow> Some c), src))"
  by (cases code)
    (simp_all add: outbound_state_def base_outbound_decode_def ssz_outbound_decode_body decode_error_body
      code_body_def read_body_map Let_def split: prod.splits)


lemma response_decodes:
  assumes "ssz_response_ok C (Success r)" "response_within C p m (Success r)"
  shows "handle_rpc_response C (versioned_protocol p) (response_bytes C p (Success r)) = Inr (Some r)"
  using assms
  by (cases r; cases "versioned_protocol p")
    (simp_all add: response_bytes_def response_ssz_bytes_def handle_rpc_response_def of_ssz_def)

lemma code_body_step:
  assumes laws: "codec_laws C" and m: "m \<le> USIZE_MAX"
    and ok: "ssz_response_ok C x" "response_within C p m x" and code: "coded_as_u8 x = Some c"
    and left: "body_left C (response_bytes C p x) len rest (src @ later)"
  shows "(\<exists>src'. code_body C p m c len src = (Inr (Some x), None, src') \<and> rest = src' @ later) \<or>
    (\<exists>len' src'. code_body C p m c len src = (Inr None, len', src') \<and>
       body_left C (response_bytes C p x) len' rest (src' @ later) \<and> later \<noteq> [] \<and>
       (src \<noteq> [] \<or> len \<noteq> None \<longrightarrow> 2 \<le> length (src' @ later)))"
proof -
  have len: "length (response_bytes C p x) \<le> USIZE_MAX"
    using response_bytes_ok(2) [OF ok(2)] m by simp
  show ?thesis
  proof (cases x)
    case (Success r)
    with code have c: "is_response c" by (simp add: is_response_def)
    show ?thesis
      unfolding code_body_def if_P [OF c]
      by (rule read_body_step [OF laws _ len _ left]) (use ok Success response_decodes [of C r p m] in simp_all)
  next
    case (Error e msg)
    then have bytes: "response_bytes C p x = error_enc C msg"
      by (simp add: response_bytes_def response_ssz_bytes_def)
    from code Error have c: "\<not> is_response c" "c = error_code_as_u8 e"
      by (auto simp: is_response_def error_code_nonzero)
    show ?thesis
      unfolding code_body_def if_not_P [OF c(1)]
      by (rule read_body_step [OF laws _ len _ left])
        (use ok Error bytes c(2) in \<open>auto simp: of_ssz_def from_error_as_u8\<close>)
  qed (use code in simp)
qed

definition owes_responses :: "'e CodecOps \<Rightarrow> OutboundCodec \<Rightarrow> RPCCodedResponse list \<Rightarrow> u8 list \<Rightarrow> bool" where
  "owes_responses C codec items rem \<longleftrightarrow> codec_laws C \<and>
     (\<exists>p m len code. codec = outbound_state p m len code \<and> m \<le> USIZE_MAX \<and>
        (\<forall>x \<in> set items. ssz_response_ok C x \<and> response_within C p m x) \<and>
        (case code of
           None \<Rightarrow> len = None \<and> rem = concat (map (response_wire C p) items)
         | Some c \<Rightarrow> \<exists>x xs. items = x # xs \<and> coded_as_u8 x = Some c \<and> 2 \<le> length rem \<and>
             body_left C (response_bytes C p x) len (concat (map (response_wire C p) xs)) rem))"

lemma owes_responses_boundary:
  "codec_laws C \<Longrightarrow> m \<le> USIZE_MAX \<Longrightarrow> \<forall>x \<in> set items. ssz_response_ok C x \<and> response_within C p m x \<Longrightarrow>
   rem = concat (map (response_wire C p) items) \<Longrightarrow> owes_responses C (outbound_state p m None None) items rem"
  unfolding owes_responses_def by force

lemma owes_responses_body:
  "codec_laws C \<Longrightarrow> m \<le> USIZE_MAX \<Longrightarrow> \<forall>x \<in> set (x # xs). ssz_response_ok C x \<and> response_within C p m x \<Longrightarrow>
   coded_as_u8 x = Some c \<Longrightarrow> 2 \<le> length rem \<Longrightarrow>
   body_left C (response_bytes C p x) len (concat (map (response_wire C p) xs)) rem \<Longrightarrow>
   owes_responses C (outbound_state p m len (Some c)) (x # xs) rem"
  unfolding owes_responses_def by force

text \<open>A call that has the response code and at least one byte.\<close>

lemma owes_responses_coded:
  assumes laws: "codec_laws C" "m \<le> USIZE_MAX"
    and ok: "\<forall>x \<in> set (x # xs). ssz_response_ok C x \<and> response_within C p m x" "coded_as_u8 x = Some c"
    and left: "body_left C (response_bytes C p x) len (concat (map (response_wire C p) xs)) (src @ later)"
    and some: "src \<noteq> [] \<or> len \<noteq> None"
    and run: "decode = (let (r, len, src) = code_body C p m c len src
      in (r, outbound_state p m len (case r of Inr (Some _) \<Rightarrow> None | _ \<Rightarrow> Some c), src))"
  shows "(\<exists>s' src'. decode = (Inr (Some x), s', src') \<and> owes_responses C s' xs (src' @ later)) \<or>
    (\<exists>s' src'. decode = (Inr None, s', src') \<and> owes_responses C s' (x # xs) (src' @ later) \<and> later \<noteq> [])"
proof -
  have x: "ssz_response_ok C x" "response_within C p m x" using ok(1) by simp_all
  from code_body_step [OF laws x ok(2) left] show ?thesis
  proof (elim disjE exE conjE)
    fix src' assume "code_body C p m c len src = (Inr (Some x), None, src')"
      and "concat (map (response_wire C p) xs) = src' @ later"
    then show ?thesis
      unfolding run using owes_responses_boundary [OF laws, of xs p "src' @ later"] ok(1) by simp
  next
    fix len' src' assume *: "code_body C p m c len src = (Inr None, len', src')" "later \<noteq> []"
      "body_left C (response_bytes C p x) len' (concat (map (response_wire C p) xs)) (src' @ later)"
      "src \<noteq> [] \<or> len \<noteq> None \<longrightarrow> 2 \<le> length (src' @ later)"
    then have "owes_responses C (outbound_state p m len' (Some c)) (x # xs) (src' @ later)"
      using owes_responses_body [OF laws ok _ *(3)] some by blast
    with * show ?thesis unfolding run by simp
  qed
qed

lemma owes_responses_step:
  assumes "owes_responses C s items (src @ later)"
  shows "(\<exists>x rest s' src'. items = x # rest \<and> outbound_decode C s src = (Inr (Some x), s', src') \<and>
      owes_responses C s' rest (src' @ later)) \<or>
    (\<exists>s' src'. outbound_decode C s src = (Inr None, s', src') \<and> owes_responses C s' items (src' @ later) \<and>
       (later = [] \<longrightarrow> items = [] \<and> src' = []))"
proof -
  from assms obtain p m len code where laws: "codec_laws C" "m \<le> USIZE_MAX"
    and s: "s = outbound_state p m len code"
    and ok: "\<forall>x \<in> set items. ssz_response_ok C x \<and> response_within C p m x"
    and rem: "case code of
           None \<Rightarrow> len = None \<and> src @ later = concat (map (response_wire C p) items)
         | Some c \<Rightarrow> \<exists>x xs. items = x # xs \<and> coded_as_u8 x = Some c \<and> 2 \<le> length (src @ later) \<and>
             body_left C (response_bytes C p x) len (concat (map (response_wire C p) xs)) (src @ later)"
    unfolding owes_responses_def by blast
  have two: "2 \<le> length (response_wire C p x)" if "x \<in> set items" for x
    using prefix_of(2) [OF laws(1), of "response_bytes C p x"] response_bytes_ok(2) [of C p m x] ok that laws(2)
    by (force simp: response_wire_def Let_def Suc_le_eq)
  show ?thesis
  proof (cases "length src \<le> 1")
    case True
    have "items = [] \<and> src = []" if "later = []"
      using rem True that two [of "hd items"] by (cases items; cases code) auto
    with True assms s show ?thesis by (auto simp: outbound_decode_state)
  next
    case False
    show ?thesis
    proof (cases code)
      case None
      with rem False obtain x xs where items: "items = x # xs" by (cases items) auto
      then obtain c where c: "coded_as_u8 x = Some c" using ok by (cases x) auto
      from False obtain b src1 where src: "src = b # src1" "src1 \<noteq> []"
        by (cases src; cases "tl src") auto
      with rem None items c have b: "b = c"
        and left: "body_left C (response_bytes C p x) None (concat (map (response_wire C p) xs)) (src1 @ later)"
        by (auto simp: response_wire_def Let_def body_left_def)
      from owes_responses_coded [OF laws ok [unfolded items] c left _ refl] src
      show ?thesis using False None rem by (auto simp: s outbound_decode_state items b)
    next
      case (Some c)
      with rem obtain x xs where items: "items = x # xs" and c: "coded_as_u8 x = Some c"
        and left: "body_left C (response_bytes C p x) len (concat (map (response_wire C p) xs)) (src @ later)"
        by auto
      from False have "src \<noteq> [] \<or> len \<noteq> None" by auto
      from owes_responses_coded [OF laws ok [unfolded items] c left this refl] False
      show ?thesis using Some by (auto simp: s outbound_decode_state items)
    qed
  qed
qed

interpretation responses: framed_decoder "outbound_decode C" "owes_responses C" for C
  by unfold_locales (rule owes_responses_step)


section \<open>A request\<close>

fun inbound_of :: "OutboundRequest \<Rightarrow> InboundRequest" where
  "inbound_of (OutboundRequest.Status m) = InboundRequest.Status m"
| "inbound_of (OutboundRequest.Goodbye r) = InboundRequest.Goodbye r"
| "inbound_of (OutboundRequest.PooledUserOpHashes r) = InboundRequest.PooledUserOpHashes r"
| "inbound_of (OutboundRequest.PooledUserOpsByHash r) = InboundRequest.PooledUserOpsByHash r"
| "inbound_of (OutboundRequest.Ping p) = InboundRequest.Ping p"
| "inbound_of OutboundRequest.MetaData = InboundRequest.MetaData"

fun ssz_request_ok :: "'e CodecOps \<Rightarrow> OutboundRequest \<Rightarrow> bool" where
  "ssz_request_ok C (OutboundRequest.Status m) \<longleftrightarrow> status_dec C (status_enc C m) = Inr m"
| "ssz_request_ok C (OutboundRequest.Goodbye r) \<longleftrightarrow>
     u64_from_bytes (ssz_u64 C) (u64_append (ssz_u64 C) (goodbye_to_u64 r)) = Inr (goodbye_to_u64 r)"
| "ssz_request_ok C (OutboundRequest.PooledUserOpHashes r) \<longleftrightarrow> hashes_req_dec C (hashes_req_enc C r) = Inr r"
| "ssz_request_ok C (OutboundRequest.PooledUserOpsByHash r) \<longleftrightarrow> by_hash_req_dec C (by_hash_req_enc C r) = Inr r"
| "ssz_request_ok C (OutboundRequest.Ping p) \<longleftrightarrow>
     u64_from_bytes (ssz_u64 C) (ping_enc C p) = Inr (ping_data p)"
| "ssz_request_ok C OutboundRequest.MetaData \<longleftrightarrow> True"

definition request_bytes :: "'e CodecOps \<Rightarrow> OutboundRequest \<Rightarrow> u8 list" where
  "request_bytes C req = (case request_ssz_bytes C req of Some b \<Rightarrow> b | None \<Rightarrow> [])"

definition request_within :: "'e CodecOps \<Rightarrow> ProtocolId \<Rightarrow> usize \<Rightarrow> OutboundRequest \<Rightarrow> bool" where
  "request_within C p m req \<longleftrightarrow> outbound_versioned_protocol req = versioned_protocol p \<and>
     \<not> is_out_of_bounds (rpc_request_limits (ssz_u64 C) (ping_fixed_len C) p) (length (request_bytes C req)) m"

definition request_wire :: "'e CodecOps \<Rightarrow> OutboundRequest \<Rightarrow> u8 list" where
  "request_wire C req =
     (if req = OutboundRequest.MetaData then []
      else prefix_of C (request_bytes C req) @ frame_of C (request_bytes C req))"

definition inbound_state :: "ProtocolId \<Rightarrow> usize \<Rightarrow> usize option \<Rightarrow> InboundCodec" where
  "inbound_state p m len =
     SSZSnappyIn \<lparr>bi_inner = \<lparr>ic_protocol = p, ic_len = len, ic_max_packet_size = m\<rparr>\<rparr>"

lemma inbound_state_ex: "\<exists>p m len. codec = inbound_state p m len"
proof -
  obtain b where b: "codec = SSZSnappyIn b" by (cases codec)
  obtain i where i: "b = \<lparr>bi_inner = i\<rparr>" by (cases b)
  obtain p len m where "i = \<lparr>ic_protocol = p, ic_len = len, ic_max_packet_size = m\<rparr>" by (cases i)
  with b i show ?thesis by (auto simp: inbound_state_def)
qed

definition request_body ::
    "'e CodecOps \<Rightarrow> ProtocolId \<Rightarrow> usize \<Rightarrow> usize option \<Rightarrow> u8 list \<Rightarrow>
     ('e RPCError + InboundRequest option) \<times> usize option \<times> u8 list" where
  "request_body C p m =
     read_body C (\<lambda>n. is_out_of_bounds (rpc_request_limits (ssz_u64 C) (ping_fixed_len C) p) n m)
       (\<lambda>n. InvalidData (''RPC request length for protocol '' @ supported_debug (versioned_protocol p) @
          '' is out of bounds, length '' @ show_nat n))
       (handle_rpc_request C (versioned_protocol p))"

lemma inbound_decode_state:
  "inbound_decode C (inbound_state p m len) src =
   (if versioned_protocol p = MetaDataV1 then (Inr (Some InboundRequest.MetaData), inbound_state p m len, src)
    else let (r, len, src) = request_body C p m len src in (r, inbound_state p m len, src))"
  by (auto simp: inbound_state_def base_inbound_decode_def ssz_inbound_decode_def request_body_def read_body_def
      Let_def split: prod.splits sum.splits option.splits if_splits)

lemma request_decodes:
  assumes "ssz_request_ok C req" "request_within C p m req"
  shows "handle_rpc_request C (versioned_protocol p) (request_bytes C req) = Inr (Some (inbound_of req))"
  using assms
  by (cases req; cases "versioned_protocol p")
    (simp_all add: request_within_def request_bytes_def handle_rpc_request_def of_ssz_def
      goodbye_from_ssz_bytes_def goodbye_ssz_append_def)

definition owes_requests :: "'e CodecOps \<Rightarrow> InboundCodec \<Rightarrow> InboundRequest list \<Rightarrow> u8 list \<Rightarrow> bool" where
  "owes_requests C codec items rem \<longleftrightarrow> codec_laws C \<and>
     (\<exists>p m len reqs. codec = inbound_state p m len \<and> m \<le> USIZE_MAX \<and> versioned_protocol p \<noteq> MetaDataV1 \<and>
        items = map inbound_of reqs \<and> (\<forall>x \<in> set reqs. ssz_request_ok C x \<and> request_within C p m x) \<and>
        (case reqs of
           [] \<Rightarrow> len = None \<and> rem = []
         | x # xs \<Rightarrow> body_left C (request_bytes C x) len (concat (map (request_wire C) xs)) rem))"

lemma request_not_meta:
  "request_within C p m x \<Longrightarrow> versioned_protocol p \<noteq> MetaDataV1 \<Longrightarrow>
   request_wire C x = prefix_of C (request_bytes C x) @ frame_of C (request_bytes C x)"
  by (cases x) (simp_all add: request_wire_def request_within_def)

lemma owes_requests_boundary:
  assumes "codec_laws C" "m \<le> USIZE_MAX" "versioned_protocol p \<noteq> MetaDataV1"
    and "\<forall>x \<in> set reqs. ssz_request_ok C x \<and> request_within C p m x" "rem = concat (map (request_wire C) reqs)"
  shows "owes_requests C (inbound_state p m None) (map inbound_of reqs) rem"
  unfolding owes_requests_def
  by (intro conjI exI [of _ p] exI [of _ m] exI [of _ None] exI [of _ reqs])
    (use assms request_not_meta [OF _ assms(3)] in \<open>auto simp: body_left_def split: list.split\<close>)

lemma owes_requests_step:
  assumes "owes_requests C s items (src @ later)"
  shows "(\<exists>x rest s' src'. items = x # rest \<and> inbound_decode C s src = (Inr (Some x), s', src') \<and>
      owes_requests C s' rest (src' @ later)) \<or>
    (\<exists>s' src'. inbound_decode C s src = (Inr None, s', src') \<and> owes_requests C s' items (src' @ later) \<and>
       (later = [] \<longrightarrow> items = [] \<and> src' = []))"
proof -
  from assms obtain p m len reqs where laws: "codec_laws C" "m \<le> USIZE_MAX"
    and s: "s = inbound_state p m len" "versioned_protocol p \<noteq> MetaDataV1" and items: "items = map inbound_of reqs"
    and ok: "\<forall>x \<in> set reqs. ssz_request_ok C x \<and> request_within C p m x"
    and rem: "case reqs of [] \<Rightarrow> len = None \<and> src @ later = []
      | x # xs \<Rightarrow> body_left C (request_bytes C x) len (concat (map (request_wire C) xs)) (src @ later)"
    unfolding owes_requests_def by blast
  show ?thesis
  proof (cases reqs)
    case Nil
    have "strict_prefix [] (prefix_of C [])" using prefix_of(2) [OF laws(1), of "[]"] by (simp add: strict_prefix_def)
    then have "uvi_decode C [] = Inr None" by (rule prefix_of(4) [OF laws(1), rotated]) simp
    then show ?thesis
      using Nil rem assms items s
      by (auto simp: inbound_decode_state request_body_def read_body_def handle_length_def of_io_def)
  next
    case (Cons x xs)
    then have x: "ssz_request_ok C x" "request_within C p m x" using ok by simp_all
    have len: "length (request_bytes C x) \<le> USIZE_MAX"
      using x(2) laws(2) by (simp add: request_within_def not_out_of_bounds_iff)
    have left: "body_left C (request_bytes C x) len (concat (map (request_wire C) xs)) (src @ later)"
      using rem Cons by simp
    have "(\<exists>src'. request_body C p m len src = (Inr (Some (inbound_of x)), None, src') \<and>
        concat (map (request_wire C) xs) = src' @ later) \<or>
      (\<exists>len' src'. request_body C p m len src = (Inr None, len', src') \<and>
        body_left C (request_bytes C x) len' (concat (map (request_wire C) xs)) (src' @ later) \<and> later \<noteq> [] \<and>
        (src \<noteq> [] \<or> len \<noteq> None \<longrightarrow> 2 \<le> length (src' @ later)))"
      unfolding request_body_def
      by (rule read_body_step [OF laws(1) _ len _ left])
        (use x(2) request_decodes [OF x] in \<open>simp_all add: request_within_def\<close>)
    then show ?thesis
    proof (elim disjE exE conjE)
      fix src' assume "request_body C p m len src = (Inr (Some (inbound_of x)), None, src')"
        and "concat (map (request_wire C) xs) = src' @ later"
      then show ?thesis
        using owes_requests_boundary [OF laws s(2), of xs "src' @ later"] ok Cons s items
        by (simp add: inbound_decode_state)
    next
      fix len' src' assume *: "request_body C p m len src = (Inr None, len', src')" "later \<noteq> []"
        "body_left C (request_bytes C x) len' (concat (map (request_wire C) xs)) (src' @ later)"
      then have "owes_requests C (inbound_state p m len') items (src' @ later)"
        unfolding owes_requests_def
        by (intro conjI exI [of _ p] exI [of _ m] exI [of _ len'] exI [of _ reqs])
          (use laws s ok Cons items in simp_all)
      with * s show ?thesis by (simp add: inbound_decode_state)
    qed
  qed
qed

interpretation requests: framed_decoder "inbound_decode C" "owes_requests C" for C
  by unfold_locales (rule owes_requests_step)


section \<open>Round trips\<close>

lemma upgrade_inbound_codec_state:
  "upgrade_inbound_codec P p = inbound_state p (protocol_max_rpc_size P) None"
  by (cases "encoding p")
    (simp add: upgrade_inbound_codec_def inbound_state_def base_inbound_new_def inbound_codec_new_def)

lemma upgrade_outbound_codec_state: "upgrade_outbound_codec m p = outbound_state p m None None"
  by (cases "encoding p")
    (simp add: upgrade_outbound_codec_def outbound_state_def base_outbound_new_def outbound_codec_new_def)

text \<open>
  C10. Responses survive any fragmentation. If the length prefix and the frame formats behave as
  documented and the responses are of the protocol of the stream and within its limits, the server's
  codec encodes all of them, and however the transport cuts the bytes into pieces, the client's codec
  reads exactly these responses, in order, and then the end of the stream.
\<close>

theorem responses_roundtrip:
  assumes "codec_laws C" "protocol_max_rpc_size P \<le> USIZE_MAX"
    and "\<forall>x \<in> set items. ssz_response_ok C x \<and> response_within C p (protocol_max_rpc_size P) x"
  shows "\<exists>wires. map (\<lambda>x. inbound_encode C (upgrade_inbound_codec P p) x []) items = map (Some \<circ> Inr) wires \<and>
    (\<forall>pieces. concat pieces = concat wires \<longrightarrow>
       framed_take (outbound_decode C) (Suc (length items))
         (upgrade_outbound_codec (protocol_max_rpc_size P) p) [] pieces = map (Some \<circ> Inr) items @ [None])"
proof (intro exI [of _ "map (response_wire C p) items"] conjI allI impI)
  have "inbound_encode C (upgrade_inbound_codec P p) x [] = Some (Inr (response_wire C p x))"
    if "x \<in> set items" for x
    using inbound_encode_wire [OF assms(1) _ assms(2)] assms(3) that
    by (simp add: upgrade_inbound_codec_state inbound_state_def base_inbound_new_def inbound_codec_new_def)
  then show "map (\<lambda>x. inbound_encode C (upgrade_inbound_codec P p) x []) items =
      map (Some \<circ> Inr) (map (response_wire C p) items)" by simp
next
  fix pieces assume "concat pieces = concat (map (response_wire C p) items)"
  then have "owes_responses C (outbound_state p (protocol_max_rpc_size P) None None) items ([] @ concat pieces)"
    using owes_responses_boundary [OF assms, of "concat pieces"] by simp
  then show "framed_take (outbound_decode C) (Suc (length items))
      (upgrade_outbound_codec (protocol_max_rpc_size P) p) [] pieces = map (Some \<circ> Inr) items @ [None]"
    unfolding upgrade_outbound_codec_state by (rule responses.take_owed)
qed

text \<open>What \<open>upgrade_inbound\<close> makes of the first item of the stream.\<close>

definition first_of :: "('e RPCError + InboundRequest) option \<Rightarrow> 'e first_item" where
  "first_of r = (case r of Some i \<Rightarrow> Item i | None \<Rightarrow> EndOfStream)"

lemma outbound_encode_wire:
  assumes "codec_laws C" "m \<le> USIZE_MAX" "request_within C p m req"
  shows "outbound_encode C (outbound_state p m None None) req [] = Inr (request_wire C req)"
proof -
  have "length (request_bytes C req) \<le> m" using assms(3) by (simp add: request_within_def not_out_of_bounds_iff)
  then show ?thesis
    using put_chunk_ok [OF assms(1) _ assms(2)]
    by (cases req) (simp_all add: outbound_state_def base_outbound_encode_def ssz_outbound_encode_def
        request_wire_def request_bytes_def)
qed

text \<open>
  C11. A request reaches the server as it was sent. A request within the limits of its protocol is
  written by \<open>upgrade_outbound\<close>, and however the transport cuts its bytes, \<open>upgrade_inbound\<close> on the
  other side ends with that request; the \<open>MetaData\<close> request is written as no bytes at all.
\<close>

theorem request_roundtrip:
  assumes "codec_laws C" "protocol_max_rpc_size P \<le> USIZE_MAX"
    and "ssz_request_ok C req" "request_within C p (protocol_max_rpc_size P) req"
  shows "\<exists>codec bytes. upgrade_outbound C (protocol_max_rpc_size P) req p (Inr ()) (Inr ()) = Inr (codec, bytes) \<and>
    (bytes = [] \<longleftrightarrow> req = OutboundRequest.MetaData) \<and>
    (\<forall>pieces. concat pieces = bytes \<longrightarrow>
       upgrade_inbound p (first_of (fst (framed_next (inbound_decode C) (upgrade_inbound_codec P p) [] pieces))) =
         Inr (inbound_of req))"
proof (intro exI [of _ "upgrade_outbound_codec (protocol_max_rpc_size P) p"] exI [of _ "request_wire C req"]
    conjI allI impI)
  let ?m = "protocol_max_rpc_size P"
  show "upgrade_outbound C ?m req p (Inr ()) (Inr ()) = Inr (upgrade_outbound_codec ?m p, request_wire C req)"
    using outbound_encode_wire [OF assms(1,2,4)]
    by (simp add: upgrade_outbound_def upgrade_outbound_codec_state of_io_def)
  have "length (request_bytes C req) \<le> USIZE_MAX"
    using assms(2,4) by (simp add: request_within_def not_out_of_bounds_iff)
  then show "request_wire C req = [] \<longleftrightarrow> req = OutboundRequest.MetaData"
    using prefix_of(2) [OF assms(1)] by (auto simp: request_wire_def)
  fix pieces assume pieces: "concat pieces = request_wire C req"
  show "upgrade_inbound p (first_of (fst (framed_next (inbound_decode C) (upgrade_inbound_codec P p) [] pieces))) =
      Inr (inbound_of req)"
  proof (cases "versioned_protocol p = MetaDataV1")
    case True
    then have "req = OutboundRequest.MetaData" using assms(4) by (cases req) (simp_all add: request_within_def)
    with True show ?thesis by (simp add: upgrade_inbound_def)
  next
    case False
    have "owes_requests C (inbound_state p ?m None) (map inbound_of [req]) ([] @ concat pieces)"
      by (rule owes_requests_boundary [OF assms(1,2) False]) (use assms(3,4) pieces in simp_all)
    then obtain s src' pieces' where
      "framed_next (inbound_decode C) (inbound_state p ?m None) [] pieces = (Some (Inr (inbound_of req)), s, src', pieces')"
      using requests.next_owed [of C "inbound_state p ?m None" "inbound_of req" "[]" "[]" pieces] by auto
    with False show ?thesis
      by (cases "versioned_protocol p") (simp_all add: upgrade_inbound_codec_state upgrade_inbound_def first_of_def)
  qed
qed

section \<open>Bytes of any origin\<close>

text \<open>A property of the codec state that every call keeps holds along a stream.\<close>

lemma framed_next_invariant:
  assumes step: "\<And>s src r s' src'. decode s src = (r, s', src') \<Longrightarrow> I s \<Longrightarrow> I s' \<and> (\<forall>x. r = Inr (Some x) \<longrightarrow> Q x)"
    and "I s" "framed_next decode s src pieces = (r, s', src', pieces')"
  shows "I s' \<and> (\<forall>x. r = Some (Inr x) \<longrightarrow> Q x)"
  using assms(2,3)
proof (induction pieces arbitrary: s src)
  case Nil
  then show ?case
    using step [of s src]
    by (auto simp: framed_next.simps [of _ _ _ "[]"] split: prod.splits sum.splits option.splits if_splits)
next
  case (Cons p ps)
  obtain q t src1 where d: "decode s src = (q, t, src1)" by (cases "decode s src")
  show ?case
    using step [OF d Cons.prems(1)] Cons.prems(2) Cons.IH [of t "src1 @ p"] d
    by (auto simp: framed_next.simps [of _ _ _ "p # ps"] split: sum.splits option.splits)
qed

lemma framed_take_invariant:
  assumes step: "\<And>s src r s' src'. decode s src = (r, s', src') \<Longrightarrow> I s \<Longrightarrow> I s' \<and> (\<forall>x. r = Inr (Some x) \<longrightarrow> Q x)"
    and "I s" "Some (Inr x) \<in> set (framed_take decode n s src pieces)"
  shows "Q x"
  using assms(2,3)
proof (induction n arbitrary: s src pieces)
  case (Suc n)
  obtain r s' src' pieces' where f: "framed_next decode s src pieces = (r, s', src', pieces')"
    by (cases "framed_next decode s src pieces")
  have "I s' \<and> (\<forall>x. r = Some (Inr x) \<longrightarrow> Q x)"
    by (rule framed_next_invariant [of decode I Q, OF _ Suc.prems(1) f]) (rule step)
  with Suc f show ?case by auto
qed simp


lemma read_body_decoded:
  "read_body C bad err decode len src = (Inr (Some x), len', src') \<Longrightarrow> \<exists>b. decode b = Inr (Some x)"
  by (auto simp: read_body_def take_chunk_def handle_error_def Let_def
      split: prod.splits sum.splits option.splits if_splits)

lemma map_res_Inr: "map_res f r = Inr y \<longleftrightarrow> (\<exists>v. r = Inr v \<and> f v = y)"
  by (cases r) auto

lemma handle_rpc_response_typed:
  "handle_rpc_response C vp b = Inr (Some r) \<Longrightarrow> response_protocol r = protocol_of vp"
  by (cases vp) (auto simp: handle_rpc_response_def map_res_Inr)

lemma handle_rpc_request_typed:
  "handle_rpc_request C vp b = Inr (Some r) \<Longrightarrow> inbound_versioned_protocol r = vp"
  by (cases vp) (auto simp: handle_rpc_request_def map_res_Inr split: if_splits)

fun coded_typed :: "Protocol \<Rightarrow> RPCCodedResponse \<Rightarrow> bool" where
  "coded_typed p (Success r) \<longleftrightarrow> response_protocol r = p"
| "coded_typed p (Error code e) \<longleftrightarrow> True"
| "coded_typed p (StreamTermination t) \<longleftrightarrow> False"

lemma code_body_typed:
  assumes "code_body C p m c len src = (Inr (Some x), len', src')"
  shows "coded_typed (protocol_of (versioned_protocol p)) x"
proof (cases "is_response c")
  case True
  obtain b where "map_res (map_option Success) (handle_rpc_response C (versioned_protocol p) b) = Inr (Some x)"
    using read_body_decoded [OF assms [unfolded code_body_def if_P [OF True]]] by blast
  then show ?thesis by (auto simp: map_res_Inr dest: handle_rpc_response_typed)
next
  case False
  obtain b where "map_res (map_option (from_error c)) (map_res Some (of_ssz (error_dec C b))) = Inr (Some x)"
    using read_body_decoded [OF assms [unfolded code_body_def if_not_P [OF False]]] by blast
  then show ?thesis by (auto simp: map_res_Inr from_error_def)
qed

lemma outbound_decode_typed:
  assumes "outbound_decode C s src = (r, s', src')" "\<exists>len code. s = outbound_state p m len code"
  shows "(\<exists>len code. s' = outbound_state p m len code) \<and>
    (\<forall>x. r = Inr (Some x) \<longrightarrow> coded_typed (protocol_of (versioned_protocol p)) x)"
proof -
  from assms(2) obtain len code where s: "s = outbound_state p m len code" by blast
  have "(\<exists>len code. s' = outbound_state p m len code) \<and> (r = Inr None \<or> (\<exists>c len src len' src'. code_body C p m c len src = (r, len', src')))"
    using assms(1) unfolding s outbound_decode_state Let_def by (auto split: if_splits prod.splits)
  then show ?thesis using code_body_typed by blast
qed

lemma inbound_decode_typed:
  assumes "inbound_decode C s src = (r, s', src')" "\<exists>len. s = inbound_state p m len"
  shows "(\<exists>len. s' = inbound_state p m len) \<and>
    (\<forall>x. r = Inr (Some x) \<longrightarrow> inbound_versioned_protocol x = versioned_protocol p)"
proof -
  have "inbound_versioned_protocol x = versioned_protocol p"
    if "request_body C p m len src = (Inr (Some x), l, t)" for len x l t
    using read_body_decoded [OF that [unfolded request_body_def]] handle_rpc_request_typed by blast
  then show ?thesis using assms by (auto simp: inbound_decode_state Let_def split: if_splits prod.splits)
qed

lemma typed_response_encodes:
  assumes "coded_typed (protocol_of (versioned_protocol p)) resp"
  shows "inbound_encode C (upgrade_inbound_codec P p) resp dst \<noteq> None"
proof (cases resp)
  case (Success r)
  with assms show ?thesis
    by (cases r; cases "versioned_protocol p")
      (simp_all add: upgrade_inbound_codec_state inbound_state_def base_inbound_encode_def
        ssz_inbound_encode_def response_ssz_bytes_def)
qed (use assms in \<open>simp_all add: upgrade_inbound_codec_state inbound_state_def base_inbound_encode_def
      ssz_inbound_encode_def response_ssz_bytes_def\<close>)

text \<open>
  C12. The streams are typed, whatever bytes a peer sends and whatever the crates return: every
  request read from a stream is a request of the protocol negotiated for it; every response read is a
  response of that protocol or an error, never a stream termination; and a server that answers with a
  response of the protocol of the request does not panic in its encoder.
\<close>

theorem streams_typed:
  "(Some (Inr req) \<in> set (framed_take (inbound_decode C) n (upgrade_inbound_codec P p) src pieces) \<longrightarrow>
     inbound_versioned_protocol req = versioned_protocol p \<and>
     (coded_typed (protocol_of (inbound_versioned_protocol req)) resp \<longrightarrow>
        inbound_encode C (upgrade_inbound_codec P p) resp dst \<noteq> None)) \<and>
   (Some (Inr item) \<in> set (framed_take (outbound_decode C) n (upgrade_outbound_codec m p) src pieces) \<longrightarrow>
     coded_typed (protocol_of (versioned_protocol p)) item)"
proof (intro conjI impI)
  assume "Some (Inr req) \<in> set (framed_take (inbound_decode C) n (upgrade_inbound_codec P p) src pieces)"
  then show vp: "inbound_versioned_protocol req = versioned_protocol p"
    by (rule framed_take_invariant [rotated 2])
      (erule inbound_decode_typed [where m = "protocol_max_rpc_size P"],
        auto simp: upgrade_inbound_codec_state)
  assume "coded_typed (protocol_of (inbound_versioned_protocol req)) resp"
  with vp show "inbound_encode C (upgrade_inbound_codec P p) resp dst \<noteq> None"
    by (auto dest: typed_response_encodes)
next
  assume "Some (Inr item) \<in> set (framed_take (outbound_decode C) n (upgrade_outbound_codec m p) src pieces)"
  then show "coded_typed (protocol_of (versioned_protocol p)) item"
    by (rule framed_take_invariant [rotated 2])
      (erule outbound_decode_typed [where m = m], auto simp: upgrade_outbound_codec_state)
qed

section \<open>Bounded buffers\<close>

text \<open>
  What the decoders rely on for bytes of any origin: a varint has at most ten bytes, a frame that ends
  too soon has been read to its end, and \<open>max_compress_len\<close> is monotone up to the largest input of
  \<open>snap\<close>, above which it is 0.
\<close>

definition codec_limits :: "'e CodecOps \<Rightarrow> bool" where
  "codec_limits C \<longleftrightarrow> (\<forall>q. uvi_decode C q = Inr None \<longrightarrow> length q < 10) \<and>
     (\<forall>q n e pos. frame_read C q n = Inl (e, pos) \<and> io_unexpected_eof e \<longrightarrow> pos = length q) \<and>
     (\<forall>n m. n \<le> m \<and> max_compress_len C m \<noteq> 0 \<longrightarrow> max_compress_len C n \<le> max_compress_len C m)"

lemma take_chunk_waits:
  assumes limits: "codec_limits C" and n: "n \<le> m" "max_compress_len C m \<noteq> 0" and total: "\<And>b. decode b \<noteq> Inr None"
    and wait: "take_chunk C decode n len src = (Inr None, len', src')"
  shows "length src' < max_compress_len C m"
proof -
  let ?k = "max_compress_len C n"
  from wait total obtain e pos where "frame_read C (take ?k src) n = Inl (e, pos)"
    and h: "handle_error e pos ?k = (Inr None :: 'a RPCError + 'b option)" and src': "src' = src"
    by (auto simp: take_chunk_def Let_def split: sum.splits prod.splits)
  then have "io_unexpected_eof e" "pos < ?k" by (auto simp: handle_error_def split: if_splits)
  moreover have "?k \<le> max_compress_len C m" using limits n by (simp add: codec_limits_def)
  ultimately show ?thesis
    using limits \<open>frame_read C (take ?k src) n = Inl (e, pos)\<close> src' unfolding codec_limits_def by fastforce
qed

lemma read_body_waits:
  assumes "codec_limits C" "\<And>n. \<not> bad n \<Longrightarrow> n \<le> m" "\<And>b. decode b \<noteq> Inr None" "max_compress_len C m \<noteq> 0"
    and "read_body C bad err decode len src = (Inr None, len', src')"
  shows "length src' < max 10 (max_compress_len C m)"
proof -
  consider "src' = src" "uvi_decode C src = Inr None"
    | n l t where "\<not> bad n" "take_chunk C decode n l t = (Inr None, len', src')"
    using assms(5)
    by (auto simp: read_body_def handle_length_def of_io_def split: option.splits sum.splits if_splits prod.splits)
  then show ?thesis
  proof cases
    case 1
    with assms(1) show ?thesis by (auto simp: codec_limits_def less_max_iff_disj)
  next
    case (2 n l t)
    with take_chunk_waits [OF assms(1) assms(2) assms(4,3)] show ?thesis by (auto simp: less_max_iff_disj)
  qed
qed


lemma handle_rpc_answers: "handle_rpc_response C vp b \<noteq> Inr None" "handle_rpc_request C vp b \<noteq> Inr None"
  by (cases vp; simp add: handle_rpc_response_def map_res_Inr)
    (cases vp; simp add: handle_rpc_request_def map_res_Inr)

lemma code_body_waits:
  assumes "codec_limits C" "max_compress_len C m \<noteq> 0" "code_body C p m c len src = (Inr None, len', src')"
  shows "length src' < max 10 (max_compress_len C m)"
proof (cases "is_response c")
  case True
  from assms(3) [unfolded code_body_def if_P [OF True]] show ?thesis
    by (rule read_body_waits [OF assms(1) _ _ assms(2), rotated 2])
      (auto simp: not_out_of_bounds_iff map_res_Inr handle_rpc_answers)
next
  case False
  from assms(3) [unfolded code_body_def if_not_P [OF False]] show ?thesis
    by (rule read_body_waits [OF assms(1) _ _ assms(2), rotated 2]) (auto simp: map_res_Inr)
qed

text \<open>
  C13. A peer cannot make a reader buffer without bound. For a codec made for packets that \<open>snap\<close> can
  compress, so that \<open>max_compress_len\<close> of the largest packet is not 0: whenever a decoder, in any state
  and on any bytes, asks for more, what it leaves in the buffer is shorter than the worst compressed size
  of the largest packet or, while it reads a length, than ten bytes; a longer message is refused.
\<close>

theorem decode_buffer_bounded:
  assumes "codec_limits C"
  shows "(max_compress_len C (oc_max_packet_size (bo_inner out)) \<noteq> 0 \<and>
      outbound_decode C (SSZSnappyOut out) src = (Inr None, codec, src') \<longrightarrow>
      length src' < max 10 (max_compress_len C (oc_max_packet_size (bo_inner out)))) \<and>
    (max_compress_len C (ic_max_packet_size (bi_inner inb)) \<noteq> 0 \<and>
      inbound_decode C (SSZSnappyIn inb) src = (Inr None, codec', src') \<longrightarrow>
      length src' < max 10 (max_compress_len C (ic_max_packet_size (bi_inner inb))))"
proof (intro conjI impI; elim conjE)
  obtain p m len code where out: "SSZSnappyOut out = outbound_state p m len code"
    using outbound_state_ex by blast
  assume "max_compress_len C (oc_max_packet_size (bo_inner out)) \<noteq> 0"
  with out have m: "max_compress_len C m \<noteq> 0" by (simp add: outbound_state_def)
  assume "outbound_decode C (SSZSnappyOut out) src = (Inr None, codec, src')"
  then have "length src' \<le> 1 \<or> (\<exists>c l s l'. code_body C p m c l s = (Inr None, l', src'))"
    unfolding out outbound_decode_state by (auto simp: Let_def split: if_splits prod.splits)
  then show "length src' < max 10 (max_compress_len C (oc_max_packet_size (bo_inner out)))"
    using code_body_waits [OF assms m] out by (auto simp: outbound_state_def)
next
  obtain p m len where inb: "SSZSnappyIn inb = inbound_state p m len" using inbound_state_ex by blast
  assume "max_compress_len C (ic_max_packet_size (bi_inner inb)) \<noteq> 0"
  with inb have m: "max_compress_len C m \<noteq> 0" by (simp add: inbound_state_def)
  assume "inbound_decode C (SSZSnappyIn inb) src = (Inr None, codec', src')"
  then obtain l' where "request_body C p m len src = (Inr None, l', src')"
    unfolding inb inbound_decode_state by (auto split: if_splits prod.splits)
  then have "length src' < max 10 (max_compress_len C m)"
    unfolding request_body_def
    by (rule read_body_waits [OF assms _ _ m, rotated 2]) (auto simp: not_out_of_bounds_iff handle_rpc_answers)
  then show "length src' < max 10 (max_compress_len C (ic_max_packet_size (bi_inner inb)))"
    using inb by (simp add: inbound_state_def)
qed

section \<open>Examples\<close>

text \<open>
  A concrete codec that satisfies the laws: lengths as eight bytes, frames with a header of two bytes.
\<close>

definition eof :: io_error where
  "eof = \<lparr>io_unexpected_eof = True, io_text = ''failed to fill whole buffer''\<rparr>"

definition sample_codec :: "string CodecOps" where
  "sample_codec =
     \<lparr>ssz_u64 = le_u64_ssz, ping_fixed_len = 8,
      status_enc = \<lambda>_. [], status_dec = \<lambda>_. Inl ''unused'', ping_enc = \<lambda>p. le_bytes 8 (unat (ping_data p)),
      hashes_req_enc = cursor, hashes_req_dec = \<lambda>b. Inr \<lparr>cursor = b\<rparr>,
      by_hash_req_enc = concat \<circ> req_hashes, by_hash_req_dec = \<lambda>b. Inr \<lparr>req_hashes = [b]\<rparr>,
      hashes_enc = \<lambda>_. [], hashes_dec = \<lambda>_. Inl ''unused'',
      by_hash_enc = \<lambda>_. [], by_hash_dec = \<lambda>_. Inl ''unused'',
      meta_enc = \<lambda>_. [], meta_dec = \<lambda>_. Inl ''unused'',
      error_enc = \<lambda>e. e, error_dec = Inr,
      uvi_encode = \<lambda>n. Inr (le_bytes 8 n),
      uvi_decode = \<lambda>b. if length b < 8 then Inr None else Inr (Some (le_value (take 8 b), drop 8 b)),
      frame_encode = \<lambda>b. Inr (if b = [] then [] else 0 # 255 # b),
      frame_read = \<lambda>b n. if n = 0 then Inr ([], 0)
        else if length b < n + 2 then Inl (eof, length b) else Inr (take n (drop 2 b), n + 2),
      max_compress_len = \<lambda>n. n + 2\<rparr>"

lemma sample_codec_laws: "codec_laws sample_codec"
proof -
  have "uvi_laws sample_codec"
    by (auto simp: uvi_laws_def sample_codec_def le_value_le_bytes USIZE_MAX_def
        dest!: prefix_length_less)
      (metis length_0_conv length_le_bytes zero_neq_numeral)
  moreover have "frame_laws sample_codec"
    by (auto simp: frame_laws_def sample_codec_def eof_def dest: prefix_length_less)
  ultimately show ?thesis by (simp add: codec_laws_def)
qed

lemma sample_codec_limits: "codec_limits sample_codec"
  by (auto simp: codec_limits_def sample_codec_def mono_def split: if_splits)

definition ping_id :: ProtocolId where "ping_id = protocol_id_new PingV1 SSZSnappy"

definition sample_protocol :: RPCProtocol where
  "sample_protocol = \<lparr>protocol_max_rpc_size = 100, ttfb_timeout = 5\<rparr>"

lemma sample_within:
  "ssz_response_ok sample_codec (Success (RPCResponse.Pong \<lparr>ping_data = 7\<rparr>))"
  "response_within sample_codec ping_id 100 (Success (RPCResponse.Pong \<lparr>ping_data = 7\<rparr>))"
  "ssz_response_ok sample_codec (Error RPCResponseErrorCode.ServerError [104, 105])"
  "response_within sample_codec ping_id 100 (Error RPCResponseErrorCode.ServerError [104, 105])"
  "ssz_request_ok sample_codec (OutboundRequest.Ping \<lparr>ping_data = 7\<rparr>)"
  "request_within sample_codec ping_id 100 (OutboundRequest.Ping \<lparr>ping_data = 7\<rparr>)"
  by (simp_all add: sample_codec_def le_u64_ssz_def le_value_le_bytes ping_id_def protocol_id_new_def response_bytes_def
      response_ssz_bytes_def not_out_of_bounds_iff rpc_response_limits_def limits_new_def ERROR_TYPE_MIN_def
      ERROR_TYPE_MAX_def request_within_def request_bytes_def rpc_request_limits_def)

lemma concat_singletons [simp]: "concat (map (\<lambda>b. [b]) xs) = xs"
  by (induction xs) auto

text \<open>Two responses, delivered one byte at a time.\<close>

definition sample_items :: "RPCCodedResponse list" where
  "sample_items =
     [Success (RPCResponse.Pong \<lparr>ping_data = 7\<rparr>), Error RPCResponseErrorCode.ServerError [104, 105]]"

theorem responses_roundtrip_witness:
  "\<exists>wires. map (\<lambda>x. inbound_encode sample_codec (upgrade_inbound_codec sample_protocol ping_id) x []) sample_items =
       map (Some \<circ> Inr) wires \<and>
     framed_take (outbound_decode sample_codec) (Suc (length sample_items)) (upgrade_outbound_codec 100 ping_id) []
       (map (\<lambda>b. [b]) (concat wires)) = map (Some \<circ> Inr) sample_items @ [None]"
proof -
  have m: "protocol_max_rpc_size sample_protocol = 100" by (simp add: sample_protocol_def)
  have ok: "\<forall>x \<in> set sample_items. ssz_response_ok sample_codec x \<and>
      response_within sample_codec ping_id (protocol_max_rpc_size sample_protocol) x"
    using sample_within m by (simp add: sample_items_def)
  have "protocol_max_rpc_size sample_protocol \<le> USIZE_MAX" by (simp add: m USIZE_MAX_def)
  from responses_roundtrip [OF sample_codec_laws this ok, unfolded m] show ?thesis
    using concat_singletons by blast
qed

lemmas sample_decode_simps = sample_protocol_def sample_codec_def le_u64_ssz_def ping_id_def protocol_id_new_def
  request_body_def read_body_def handle_length_def of_io_def of_ssz_def take_chunk_def handle_error_def eof_def
  handle_rpc_request_def rpc_request_limits_def limits_new_def is_out_of_bounds_def le_value_le_bytes

theorem streams_typed_witness:
  "Some (Inr (InboundRequest.Ping \<lparr>ping_data = 7\<rparr>)) \<in>
     set (framed_take (inbound_decode sample_codec) 1 (upgrade_inbound_codec sample_protocol ping_id) []
       [le_bytes 8 8, 0 # 255 # le_bytes 8 7]) \<and>
   inbound_versioned_protocol (InboundRequest.Ping \<lparr>ping_data = 7\<rparr>) = versioned_protocol ping_id \<and>
   inbound_encode sample_codec (upgrade_inbound_codec sample_protocol ping_id)
     (Success (RPCResponse.Pong \<lparr>ping_data = 7\<rparr>)) [] \<noteq> None"
proof -
  have "Some (Inr (InboundRequest.Ping \<lparr>ping_data = 7\<rparr>)) \<in>
     set (framed_take (inbound_decode sample_codec) 1 (upgrade_inbound_codec sample_protocol ping_id) []
       [le_bytes 8 8, 0 # 255 # le_bytes 8 7])"
    by (simp add: upgrade_inbound_codec_state inbound_decode_state framed_next.simps sample_decode_simps)
  with streams_typed [of "InboundRequest.Ping \<lparr>ping_data = 7\<rparr>" sample_codec 1 sample_protocol ping_id "[]"
      "[le_bytes 8 8, 0 # 255 # le_bytes 8 7]" "Success (RPCResponse.Pong \<lparr>ping_data = 7\<rparr>)"]
  show ?thesis by simp
qed

text \<open>The end of a body is missing: the reader waits with five bytes.\<close>

theorem decode_buffer_bounded_witness:
  "inbound_decode sample_codec (upgrade_inbound_codec sample_protocol ping_id) (le_bytes 8 8 @ [0, 255, 7, 0, 0]) =
     (Inr None, inbound_state ping_id 100 (Some 8), [0, 255, 7, 0, 0]) \<and>
   length [0, 255, 7, 0, 0 :: u8] < max 10 (max_compress_len sample_codec 100)"
proof -
  have "inbound_decode sample_codec (upgrade_inbound_codec sample_protocol ping_id) (le_bytes 8 8 @ [0, 255, 7, 0, 0]) =
     (Inr None, inbound_state ping_id 100 (Some 8), [0, 255, 7, 0, 0])"
    by (simp add: upgrade_inbound_codec_state inbound_decode_state sample_decode_simps)
  moreover have "upgrade_inbound_codec sample_protocol ping_id =
      SSZSnappyIn \<lparr>bi_inner = \<lparr>ic_protocol = ping_id, ic_len = None, ic_max_packet_size = 100\<rparr>\<rparr>"
    by (simp add: upgrade_inbound_codec_state inbound_state_def sample_protocol_def)
  ultimately show ?thesis
    using decode_buffer_bounded [OF sample_codec_limits, of _ _ _ _
        "\<lparr>bi_inner = \<lparr>ic_protocol = ping_id, ic_len = None, ic_max_packet_size = 100\<rparr>\<rparr>"]
    by (fastforce simp: sample_codec_def)
qed

theorem request_roundtrip_witness:
  "\<exists>codec bytes. upgrade_outbound sample_codec 100 (OutboundRequest.Ping \<lparr>ping_data = 7\<rparr>) ping_id (Inr ()) (Inr ()) =
       Inr (codec, bytes) \<and>
     upgrade_inbound ping_id (first_of (fst (framed_next (inbound_decode sample_codec)
       (upgrade_inbound_codec sample_protocol ping_id) [] (map (\<lambda>b. [b]) bytes)))) =
       Inr (InboundRequest.Ping \<lparr>ping_data = 7\<rparr>)"
proof -
  have "protocol_max_rpc_size sample_protocol = 100" by (simp add: sample_protocol_def)
  with request_roundtrip [of sample_codec sample_protocol "OutboundRequest.Ping \<lparr>ping_data = 7\<rparr>" ping_id]
    sample_codec_laws sample_within
  show ?thesis by (fastforce simp: USIZE_MAX_def)
qed

end
