(* ===== verification/Rpc_Behaviour.thy ===== *)
theory Rpc_Behaviour
  imports Rpc_Handler
begin

text \<open>
  The request/response behaviour (\<open>p2p_network/src/rpc/mod.rs\<close>): the limiter of the requests of
  peers, the limiter of our own requests and the queue of actions for the swarm, together with the
  handlers it makes for new connections. \<open>None\<close> in place of a result is a panic (\<open>expect\<close>).
\<close>

section \<open>Definitions\<close>

text \<open>
  \<open>Debug\<close> of \<open>Duration\<close> in the standard library: the largest unit with a non-zero integer part,
  and the decimals up to the last non-zero one. The micro sign is two bytes.
\<close>

primrec decimals :: "nat \<Rightarrow> nat \<Rightarrow> nat \<Rightarrow> string" where
  "decimals 0 frac divisor = []"
| "decimals (Suc k) frac divisor =
     (if frac = 0 then [] else char_of (48 + frac div divisor) # decimals k (frac mod divisor) (divisor div 10))"

definition fmt_decimal :: "nat \<Rightarrow> nat \<Rightarrow> nat \<Rightarrow> string \<Rightarrow> string" where
  "fmt_decimal n frac divisor unit_name =
     show_nat n @ (let ds = decimals 9 frac divisor in if ds = [] then [] else CHR ''.'' # ds) @ unit_name"

definition duration_debug :: "duration \<Rightarrow> string" where
  "duration_debug d =
     (let s = as_secs d; nanos = d mod 1000000000
      in if s > 0 then fmt_decimal s nanos 100000000 ''s''
         else if nanos \<ge> 1000000 then fmt_decimal (nanos div 1000000) (nanos mod 1000000) 100000 ''ms''
         else if nanos \<ge> 1000 then fmt_decimal (nanos div 1000) (nanos mod 1000) 100 [char_of (194 :: nat), char_of (181 :: nat), CHR ''s'']
         else fmt_decimal nanos 0 1 ''ns'')"

record ('id, 'p, 'e) RPCMessage =
  msg_peer_id :: 'p
  msg_conn_id :: ConnectionId
  msg_event :: "('id, 'e) HandlerEvent"

type_synonym ('id, 'p, 'e) rpc_action = "('id, 'p, ('id, 'p, 'e) RPCMessage) BehaviourAction"

record NetworkParams =
  np_max_chunk_size :: usize
  np_ttfb_timeout :: duration
  np_resp_timeout :: duration

record ('id, 'p, 'e) RPC =
  rpc_limiter :: "'p RPCRateLimiter option"
  rpc_self_limiter :: "('id, 'p, ('id, 'p, 'e) RPCMessage) SelfRateLimiter option"
  rpc_events :: "('id, 'p, 'e) rpc_action list"
  rpc_network_params :: NetworkParams

definition expect :: "'e + 'a \<Rightarrow> 'a option" where
  "expect r = (case r of Inl e \<Rightarrow> None | Inr v \<Rightarrow> Some v)"

text \<open>\<open>RPC::new\<close>, with the clock read by each of the two limiters.\<close>

definition rpc_new ::
    "InboundRateLimiterConfig option \<Rightarrow> OutboundRateLimiterConfig option \<Rightarrow> NetworkParams \<Rightarrow> instant \<Rightarrow> instant \<Rightarrow>
     ('id, 'p, 'e) RPC option" where
  "rpc_new inbound_config outbound_config params now now' = do {
     rl \<leftarrow> (case inbound_config of
             None \<Rightarrow> Some None
           | Some (InboundRateLimiterConfig config) \<Rightarrow> map_option Some (expect (new_with_config config now)));
     self_rl \<leftarrow> (case outbound_config of
             None \<Rightarrow> Some None
           | Some config \<Rightarrow> map_option Some (expect (self_limiter_new config now')));
     Some \<lparr>rpc_limiter = rl, rpc_self_limiter = self_rl, rpc_events = [], rpc_network_params = params\<rparr>
   }"

definition push_action :: "('id, 'p, 'e) rpc_action \<Rightarrow> ('id, 'p, 'e) RPC \<Rightarrow> ('id, 'p, 'e) RPC" where
  "push_action e self = self\<lparr>rpc_events := rpc_events self @ [e]\<rparr>"

definition rpc_send_response ::
    "'p \<Rightarrow> ConnectionId \<times> SubstreamId \<Rightarrow> RPCCodedResponse \<Rightarrow> ('id, 'p, 'e) RPC \<Rightarrow> ('id, 'p, 'e) RPC" where
  "rpc_send_response peer_id conn event self =
     push_action (NotifyHandler peer_id (One (fst conn)) (RPCSend.Response (snd conn) event)) self"

definition rpc_send_request ::
    "instant \<Rightarrow> 'p \<Rightarrow> 'id \<Rightarrow> OutboundRequest \<Rightarrow> ('id, 'p, 'e) RPC \<Rightarrow> ('id, 'p, 'e) RPC" where
  "rpc_send_request now peer_id request_id req self =
     (case rpc_self_limiter self of
        Some self_limiter \<Rightarrow>
          (case self_allows self_limiter now peer_id request_id req of
             (Inr event, self_limiter') \<Rightarrow> push_action event (self\<lparr>rpc_self_limiter := Some self_limiter'\<rparr>)
           | (Inl _, self_limiter') \<Rightarrow> self\<lparr>rpc_self_limiter := Some self_limiter'\<rparr>)
      | None \<Rightarrow> push_action (NotifyHandler peer_id Any (RPCSend.Request request_id req)) self)"

definition rpc_shutdown :: "'p \<Rightarrow> 'id \<Rightarrow> GoodbyeReason \<Rightarrow> ('id, 'p, 'e) RPC \<Rightarrow> ('id, 'p, 'e) RPC" where
  "rpc_shutdown peer_id rid reason self =
     push_action (NotifyHandler peer_id Any (RPCSend.Shutdown rid reason)) self"

subsection \<open>The swarm interface\<close>

definition handle_established_inbound_connection ::
    "('q, 'k) DelayQueueOps \<Rightarrow> ('id, 'p, 'e) RPC \<Rightarrow> ('id, 'e, 'q, 'k) RPCHandler" where
  "handle_established_inbound_connection D self =
     handler_new D \<lparr>protocol_max_rpc_size = max_rpc_size (np_max_chunk_size (rpc_network_params self)),
       ttfb_timeout = np_ttfb_timeout (rpc_network_params self)\<rparr> (np_resp_timeout (rpc_network_params self))"

definition handle_established_outbound_connection ::
    "('q, 'k) DelayQueueOps \<Rightarrow> ('id, 'p, 'e) RPC \<Rightarrow> ('id, 'e, 'q, 'k) RPCHandler" where
  "handle_established_outbound_connection D self =
     handler_new D \<lparr>protocol_max_rpc_size = max_rpc_size (np_max_chunk_size (rpc_network_params self)),
       ttfb_timeout = np_ttfb_timeout (rpc_network_params self)\<rparr> (np_resp_timeout (rpc_network_params self))"

datatype SwarmNotice =
    ConnectionClosed | ConnectionEstablished | AddressChange | DialFailure | ListenFailure | NewListener
  | NewListenAddr | ExpiredListenAddr | ListenerError | ListenerClosed | NewExternalAddrCandidate
  | ExternalAddrExpired | ExternalAddrConfirmed

fun rpc_on_swarm_event :: "SwarmNotice \<Rightarrow> ('id, 'p, 'e) RPC \<Rightarrow> ('id, 'p, 'e) RPC" where
  "rpc_on_swarm_event event self = self"

definition generate ::
    "'p \<Rightarrow> ConnectionId \<Rightarrow> ('id, 'e) HandlerEvent \<Rightarrow> ('id, 'p, 'e) rpc_action" where
  "generate peer_id conn_id event =
     GenerateEvent \<lparr>msg_peer_id = peer_id, msg_conn_id = conn_id, msg_event = event\<rparr>"

definition rpc_on_connection_handler_event ::
    "TextOps \<Rightarrow> instant \<Rightarrow> 'p \<Rightarrow> ConnectionId \<Rightarrow> ('id, 'e) HandlerEvent \<Rightarrow>
     ('id, 'p, 'e) RPC \<Rightarrow> ('id, 'p, 'e) RPC" where
  "rpc_on_connection_handler_event X now peer_id conn_id event self =
     (case event of
        Inr (RPCReceived.Request rid req) \<Rightarrow>
          (case rpc_limiter self of
             Some rl \<Rightarrow>
               (case rl_allows rl now peer_id (inbound_item req) of
                  (Inr _, rl') \<Rightarrow> push_action (generate peer_id conn_id event) (self\<lparr>rpc_limiter := Some rl'\<rparr>)
                | (Inl TooLarge, rl') \<Rightarrow>
                    rpc_send_response peer_id (conn_id, rid)
                      (Error RPCResponseErrorCode.RateLimited (error_type_from X ''Rate limited. Request too large''))
                      (self\<lparr>rpc_limiter := Some rl'\<rparr>)
                | (Inl (TooSoon wait_time), rl') \<Rightarrow>
                    rpc_send_response peer_id (conn_id, rid)
                      (Error RPCResponseErrorCode.RateLimited (error_type_from X (''Wait '' @ duration_debug wait_time)))
                      (self\<lparr>rpc_limiter := Some rl'\<rparr>))
           | None \<Rightarrow> push_action (generate peer_id conn_id event) self)
      | _ \<Rightarrow> push_action (generate peer_id conn_id event) self)"

text \<open>
  \<open>poll\<close>, with the ticks of the two pruning intervals and the timer of the self limiter that
  expires, as in \<open>rl_poll\<close> and \<open>poll_ready\<close>.
\<close>

definition rpc_poll ::
    "instant list \<Rightarrow> (('p \<times> Protocol) \<times> instant) option \<Rightarrow> (nat \<Rightarrow> instant) \<Rightarrow> instant list \<Rightarrow>
     ('id, 'p, 'e) RPC \<Rightarrow> ('id, 'p, 'e) rpc_action option \<times> ('id, 'p, 'e) RPC" where
  "rpc_poll ticks expired clock self_ticks self =
     (let self1 = self\<lparr>rpc_limiter := map_option (\<lambda>rl. rl_poll rl ticks) (rpc_limiter self)\<rparr>;
          self2 = (case rpc_self_limiter self1 of
                     None \<Rightarrow> self1
                   | Some self_limiter \<Rightarrow>
                       (case poll_ready self_limiter expired clock self_ticks of
                          (Some event, self_limiter') \<Rightarrow> push_action event (self1\<lparr>rpc_self_limiter := Some self_limiter'\<rparr>)
                        | (None, self_limiter') \<Rightarrow> self1\<lparr>rpc_self_limiter := Some self_limiter'\<rparr>))
      in case rpc_events self2 of
           [] \<Rightarrow> (None, self2)
         | event # rest \<Rightarrow> (Some event, self2\<lparr>rpc_events := rest\<rparr>))"

text \<open>The fields that \<open>slog::KV\<close> writes for a message, given the text of a peer id.\<close>

fun termination_protocol :: "ResponseTermination \<Rightarrow> Protocol" where
  "termination_protocol ResponseTermination.PooledUserOpHashes = Protocol.PooledUserOpHashes"
| "termination_protocol ResponseTermination.PooledUserOpsByHash = Protocol.PooledUserOpsByHash"

definition rpc_message_kind :: "('id, 'e) HandlerEvent \<Rightarrow> string \<times> Protocol" where
  "rpc_message_kind event =
     (case event of
        Inr (RPCReceived.Request _ req) \<Rightarrow> (''request'', protocol_of (inbound_versioned_protocol req))
      | Inr (RPCReceived.Response _ res) \<Rightarrow> (''response'', response_protocol res)
      | Inr (RPCReceived.EndOfStream _ end_) \<Rightarrow> (''end_of_stream'', termination_protocol end_)
      | Inl (HandlerErr.Inbound _ proto _) \<Rightarrow> (''inbound_err'', proto)
      | Inl (HandlerErr.Outbound _ proto _) \<Rightarrow> (''outbound_err'', proto))"

definition message_kv :: "('p \<Rightarrow> string) \<Rightarrow> ('id, 'p, 'e) RPCMessage \<Rightarrow> (string \<times> string) list" where
  "message_kv show_peer self =
     (let (msg_kind, protocol) = rpc_message_kind (msg_event self)
      in [(''peer_id'', show_peer (msg_peer_id self)), (''msg_kind'', msg_kind),
          (''protocol'', protocol_as_ref protocol)])"

end
