(* ===== verification/Rpc_Behaviour_Props.thy ===== *)
theory Rpc_Behaviour_Props
  imports Rpc_Behaviour
begin

text \<open>
  Correctness of the request/response behaviour with its two limiters: on every sequence of
  operations nothing that is submitted is lost, duplicated or, our own requests apart, reordered;
  and what reaches the application of the requests of a peer obeys the quota of their protocol.
\<close>

section \<open>Runs\<close>

datatype ('id, 'p, 'e) rpc_op =
    SendResponse 'p "ConnectionId \<times> SubstreamId" RPCCodedResponse
  | SendRequest 'p 'id OutboundRequest
  | ShutdownPeer 'p 'id GoodbyeReason
  | HandlerSays 'p ConnectionId "('id, 'e) HandlerEvent"
  | SwarmSays SwarmNotice
  | PollRpc "instant list" "(('p \<times> Protocol) \<times> instant) option" "nat \<Rightarrow> instant" "instant list"

fun rpc_exec ::
    "TextOps \<Rightarrow> ('id, 'p, 'e) RPC \<Rightarrow> instant \<times> ('id, 'p, 'e) rpc_op \<Rightarrow> ('id, 'p, 'e) rpc_action option \<times> ('id, 'p, 'e) RPC" where
  "rpc_exec X s (now, SendResponse peer conn r) = (None, rpc_send_response peer conn r s)"
| "rpc_exec X s (now, SendRequest peer rid req) = (None, rpc_send_request now peer rid req s)"
| "rpc_exec X s (now, ShutdownPeer peer rid reason) = (None, rpc_shutdown peer rid reason s)"
| "rpc_exec X s (now, HandlerSays peer conn event) = (None, rpc_on_connection_handler_event X now peer conn event s)"
| "rpc_exec X s (now, SwarmSays event) = (None, rpc_on_swarm_event event s)"
| "rpc_exec X s (now, PollRpc ticks expired clock self_ticks) = rpc_poll ticks expired clock self_ticks s"

text \<open>
  What an operation is due to tell the swarm, sooner or later. A request of a peer that its quota
  does not allow is due an error on the stream it came from, any other event is due to the user.
\<close>

definition answer ::
    "TextOps \<Rightarrow> 'p RPCRateLimiter option \<Rightarrow> instant \<Rightarrow> 'p \<Rightarrow> ConnectionId \<Rightarrow> ('id, 'e) HandlerEvent \<Rightarrow> ('id, 'p, 'e) rpc_action" where
  "answer X rl now peer conn event =
     (case (event, rl) of
        (Inr (RPCReceived.Request rid req), Some rl) \<Rightarrow>
          (case fst (rl_allows rl now peer (inbound_item req)) of
             Inr _ \<Rightarrow> generate peer conn event
           | Inl why \<Rightarrow> NotifyHandler peer (One conn) (RPCSend.Response rid
               (Error RPCResponseErrorCode.RateLimited (error_type_from X
                 (case why of TooLarge \<Rightarrow> ''Rate limited. Request too large''
                  | TooSoon w \<Rightarrow> ''Wait '' @ duration_debug w)))))
      | _ \<Rightarrow> generate peer conn event)"

fun due ::
    "TextOps \<Rightarrow> ('id, 'p, 'e) RPC \<Rightarrow> instant \<times> ('id, 'p, 'e) rpc_op \<Rightarrow> ('id, 'p, 'e) rpc_action list" where
  "due X s (now, SendResponse peer conn r) = [NotifyHandler peer (One (fst conn)) (RPCSend.Response (snd conn) r)]"
| "due X s (now, SendRequest peer rid req) = [NotifyHandler peer Any (RPCSend.Request rid req)]"
| "due X s (now, ShutdownPeer peer rid reason) = [NotifyHandler peer Any (RPCSend.Shutdown rid reason)]"
| "due X s (now, HandlerSays peer conn event) = [answer X (rpc_limiter s) now peer conn event]"
| "due X s (now, SwarmSays event) = []"
| "due X s (now, PollRpc ticks expired clock self_ticks) = []"

text \<open>What a run was due to say, what its polls said, and its final state.\<close>

fun rpc_run ::
    "TextOps \<Rightarrow> ('id, 'p, 'e) RPC \<Rightarrow> (instant \<times> ('id, 'p, 'e) rpc_op) list \<Rightarrow>
     ('id, 'p, 'e) rpc_action list \<times> ('id, 'p, 'e) rpc_action list \<times> ('id, 'p, 'e) RPC" where
  "rpc_run X s [] = ([], [], s)"
| "rpc_run X s (x # xs) =
     (let (out, s1) = rpc_exec X s x; (dues, outs, s2) = rpc_run X s1 xs
      in (due X s x @ dues, (case out of None \<Rightarrow> [] | Some e \<Rightarrow> [e]) @ outs, s2))"

section \<open>Nothing is lost\<close>

definition ready_ok :: "('id, 'p, 'ev) SelfRateLimiter \<Rightarrow> bool" where
  "ready_ok s \<longleftrightarrow> (\<forall>e \<in> set (ready_requests s). ev_key e \<noteq> None)"

definition others :: "('id, 'p, 'e) rpc_action list \<Rightarrow> ('id, 'p, 'e) rpc_action list" where
  "others = filter (\<lambda>e. ev_key e = None)"

text \<open>The requests with a key that wait in the self limiter.\<close>

definition held :: "('id, 'p, 'e) RPC \<Rightarrow> 'p \<times> Protocol \<Rightarrow> ('id, 'p, 'e) rpc_action multiset" where
  "held s k = (case rpc_self_limiter s of None \<Rightarrow> {#} | Some sl \<Rightarrow> bag k (ready_requests sl) + mset (waiting sl k))"

definition rpc_balanced ::
    "('id, 'p, 'e) rpc_action list \<Rightarrow> ('id, 'p, 'e) rpc_action list \<Rightarrow> ('id, 'p, 'e) RPC \<Rightarrow> bool" where
  "rpc_balanced dues outs s \<longleftrightarrow> others dues = others (outs @ rpc_events s) \<and>
     (case rpc_self_limiter s of
        None \<Rightarrow> \<forall>k. bag k dues = bag k (outs @ rpc_events s)
      | Some sl \<Rightarrow> balanced dues (outs @ rpc_events s) sl \<and> queue_ok sl \<and> ready_ok sl)"

lemma others_append [simp]: "others (xs @ ys) = others xs @ others ys"
  by (simp add: others_def)

lemma rpc_events_push [simp]: "rpc_events (push_action e s) = rpc_events s @ [e]"
  "rpc_self_limiter (push_action e s) = rpc_self_limiter s" "rpc_limiter (push_action e s) = rpc_limiter s"
  by (simp_all add: push_action_def)

lemma balanced_same: "balanced dues outs sl \<Longrightarrow> balanced (dues @ [e]) (outs @ [e]) sl"
  by (simp add: balanced_def ac_simps)

lemma rpc_balanced_push:
  "rpc_balanced dues outs s \<Longrightarrow> rpc_balanced (dues @ [e]) outs (push_action e s)"
  using balanced_same [of dues "outs @ rpc_events s" _ e]
  by (auto simp: rpc_balanced_def split: option.splits)

lemma rpc_balanced_limiter [simp]:
  "rpc_balanced dues outs (s\<lparr>rpc_limiter := rl\<rparr>) = rpc_balanced dues outs s"
  by (cases "rpc_self_limiter s") (simp_all add: rpc_balanced_def)

lemma handler_event_eq:
  "\<exists>rl. rpc_on_connection_handler_event X now peer conn event s =
     push_action (answer X (rpc_limiter s) now peer conn event) (s\<lparr>rpc_limiter := rl\<rparr>) \<and>
   (rpc_limiter s = None \<longrightarrow> rl = None)"
proof (cases "\<exists>rid req l. event = Inr (RPCReceived.Request rid req) \<and> rpc_limiter s = Some l")
  case True
  then obtain rid req l where e: "event = Inr (RPCReceived.Request rid req)" "rpc_limiter s = Some l" by blast
  obtain v rl' where v: "rl_allows l now peer (inbound_item req) = (v, rl')" by fastforce
  show ?thesis
    by (intro exI [of _ "Some rl'"])
      (auto simp: rpc_on_connection_handler_event_def answer_def e v rpc_send_response_def
        split: sum.splits RateLimitedErr.splits)
next
  case False
  then show ?thesis
    by (intro exI [of _ "rpc_limiter s"])
      (auto simp: rpc_on_connection_handler_event_def answer_def push_action_def
        split: sum.splits RPCReceived.splits option.splits)
qed

lemma ready_ok_after_expiry:
  assumes "ready_ok s" "queue_ok s"
  shows "ready_ok (after_expiry s expired clock)"
proof (cases expired)
  case (Some timer)
  let ?s = "s\<lparr>next_peer_request := remove1 timer (next_peer_request s)\<rparr>" and ?k = "fst timer"
  show ?thesis
  proof (cases "delayed_requests s ?k")
    case None
    then have "next_peer_request_ready ?s clock (fst ?k) (snd ?k) = ?s" by (intro next_ready_none) simp
    with Some assms(1) show ?thesis by (simp add: after_expiry_def ready_ok_def)
  next
    case q: (Some q)
    obtain rl' ready' q' deadline where
      loop: "ready_loop clock 0 (fst ?k) (limiter ?s) q (ready_requests ?s) = (rl', ready', q', deadline)"
      by (cases "ready_loop clock 0 (fst ?k) (limiter ?s) q (ready_requests ?s)") blast
    have "ready_requests (after_expiry s expired clock) = ready'"
      unfolding after_expiry_def Some option.case by (rule next_ready_eq [OF _ loop]) (simp add: q)
    with ready_loop_split [OF loop] assms(1) show ?thesis by (auto simp: ready_ok_def)
  qed
qed (simp add: after_expiry_def assms)

lemma poll_ready_ok:
  assumes "ready_ok s" "queue_ok s" "poll_ready s expired clock ticks = (r, s')"
  shows "ready_ok s' \<and> (\<forall>e. r = Some e \<longrightarrow> ev_key e \<noteq> None)"
  using ready_ok_after_expiry [OF assms(1,2), of expired clock] assms(3)
  by (auto simp: poll_ready_eq Let_def ready_ok_def split: list.splits)

lemma send_request_balanced:
  assumes "rpc_balanced dues outs s"
  shows "rpc_balanced (dues @ [NotifyHandler peer Any (RPCSend.Request rid req)]) outs
    (rpc_send_request now peer rid req s)"
proof (cases "rpc_self_limiter s")
  case None
  then show ?thesis using rpc_balanced_push [OF assms] by (simp add: rpc_send_request_def)
next
  case (Some sl)
  obtain r sl' where r: "self_allows sl now peer rid req = (r, sl')" by fastforce
  have send: "NotifyHandler peer Any (RPCSend.Request rid req) = send_event peer \<lparr>q_req = req, q_request_id = rid\<rparr>"
    by (simp add: send_event_def)
  have bal: "balanced dues (outs @ rpc_events s) sl" "queue_ok sl" "ready_ok sl"
    and oth: "others dues = others (outs @ rpc_events s)"
    using assms Some by (simp_all add: rpc_balanced_def)
  note step = self_allows_balanced [OF bal(1,2) r, folded send]
  have "ready_requests sl' = ready_requests sl" using r by (auto simp: self_allows_eq split: option.splits)
  then have ready: "ready_ok sl'" using bal(3) by (simp add: ready_ok_def)
  have ev: "ev_key e \<noteq> None" if "r = Inr e" for e
    using r that by (auto simp: self_allows_eq split: option.splits)
  show ?thesis
  proof (cases r)
    case (Inl x)
    with Some r step oth ready show ?thesis
      by (simp add: rpc_send_request_def rpc_balanced_def others_def)
  next
    case (Inr e)
    with ev have "ev_key e \<noteq> None" by blast
    with Inr Some r step oth ready show ?thesis
      by (simp add: rpc_send_request_def rpc_balanced_def others_def)
  qed
qed

lemma poll_balanced:
  assumes "rpc_balanced dues outs s" "rpc_poll ticks expired clock self_ticks s = (out, s')"
  shows "rpc_balanced dues (outs @ (case out of None \<Rightarrow> [] | Some e \<Rightarrow> [e])) s'"
proof -
  define s1 where "s1 = s\<lparr>rpc_limiter := map_option (\<lambda>rl. rl_poll rl ticks) (rpc_limiter s)\<rparr>"
  define s2 where "s2 = (case rpc_self_limiter s1 of
                     None \<Rightarrow> s1
                   | Some self_limiter \<Rightarrow>
                       (case poll_ready self_limiter expired clock self_ticks of
                          (Some event, self_limiter') \<Rightarrow> push_action event (s1\<lparr>rpc_self_limiter := Some self_limiter'\<rparr>)
                        | (None, self_limiter') \<Rightarrow> s1\<lparr>rpc_self_limiter := Some self_limiter'\<rparr>))"
  have bal: "rpc_balanced dues outs s1" using assms(1) by (simp add: s1_def)
  have "rpc_balanced dues outs s2"
  proof (cases "rpc_self_limiter s1")
    case None
    with bal show ?thesis by (simp add: s2_def)
  next
    case (Some sl)
    obtain r sl' where r: "poll_ready sl expired clock self_ticks = (r, sl')" by fastforce
    have b: "balanced dues (outs @ rpc_events s1) sl" "queue_ok sl" "ready_ok sl"
      using bal Some by (simp_all add: rpc_balanced_def)
    from poll_ready_balanced [OF b(1,2) r] poll_ready_ok [OF b(3,2) r] bal Some r show ?thesis
      by (cases r) (auto simp: s2_def rpc_balanced_def others_def)
  qed
  moreover have "(case rpc_events s2 of [] \<Rightarrow> (None, s2) | event # rest \<Rightarrow> (Some event, s2\<lparr>rpc_events := rest\<rparr>)) = (out, s')"
    using assms(2) unfolding rpc_poll_def Let_def s1_def s2_def .
  ultimately show ?thesis
  proof (cases "rpc_events s2")
    case (Cons e rest)
    assume *: "rpc_balanced dues outs s2"
      "(case rpc_events s2 of [] \<Rightarrow> (None, s2) | event # rest \<Rightarrow> (Some event, s2\<lparr>rpc_events := rest\<rparr>)) = (out, s')"
    with Cons have s': "out = Some e" "s' = s2\<lparr>rpc_events := rest\<rparr>" by simp_all
    from * Cons show ?thesis
      by (cases "rpc_self_limiter s2")
        (simp_all add: s' rpc_balanced_def del: others_append bag_append)
  qed simp
qed


lemma exec_balanced:
  assumes "rpc_balanced dues outs s" "rpc_exec X s x = (out, s')"
  shows "rpc_balanced (dues @ due X s x) (outs @ (case out of None \<Rightarrow> [] | Some e \<Rightarrow> [e])) s'"
proof -
  obtain now op where x: "x = (now, op)" by fastforce
  show ?thesis
  proof (cases op)
    case (HandlerSays peer conn event)
    obtain rl where h: "rpc_on_connection_handler_event X now peer conn event s =
        push_action (answer X (rpc_limiter s) now peer conn event) (s\<lparr>rpc_limiter := rl\<rparr>)"
      using handler_event_eq [of X now peer conn event s] by blast
    have "rpc_balanced dues outs (s\<lparr>rpc_limiter := rl\<rparr>)" using assms(1) by simp
    from rpc_balanced_push [OF this, of "answer X (rpc_limiter s) now peer conn event", folded h]
    show ?thesis using assms(2) x HandlerSays by auto
  qed (use assms x rpc_balanced_push [OF assms(1)] send_request_balanced [OF assms(1)] poll_balanced [OF assms(1)]
      in \<open>auto simp: rpc_send_response_def rpc_shutdown_def\<close>)
qed

text \<open>
  A sound state is one in which the self limiter holds only requests, in queues with their timers. Then
  what an operation adds to the actions for the swarm, our own requests apart, is what it is due.
\<close>

definition rpc_sound :: "('id, 'p, 'e) RPC \<Rightarrow> bool" where
  "rpc_sound s \<longleftrightarrow> (\<exists>dues outs. rpc_balanced dues outs s)"

definition out_list :: "'a option \<Rightarrow> 'a list" where
  "out_list out = (case out of None \<Rightarrow> [] | Some e \<Rightarrow> [e])"

lemma exec_others:
  assumes "rpc_sound s" "rpc_exec X s x = (out, s')"
  shows "rpc_sound s'" "others (out_list out @ rpc_events s') = others (rpc_events s) @ others (due X s x)"
proof -
  from assms(1) obtain dues outs where bal: "rpc_balanced dues outs s" by (auto simp: rpc_sound_def)
  from exec_balanced [OF bal assms(2)] show "rpc_sound s'" unfolding rpc_sound_def by blast
  from exec_balanced [OF bal assms(2)] bal
  show "others (out_list out @ rpc_events s') = others (rpc_events s) @ others (due X s x)"
    by (simp add: rpc_balanced_def out_list_def)
qed

lemma run_balanced:
  assumes "rpc_balanced dues outs s" "rpc_run X s xs = (dues', outs', s')"
  shows "rpc_balanced (dues @ dues') (outs @ outs') s'"
  using assms
proof (induction xs arbitrary: s dues outs dues' outs')
  case (Cons x xs)
  obtain out s1 where x: "rpc_exec X s x = (out, s1)" by fastforce
  obtain d o' s2 where xs: "rpc_run X s1 xs = (d, o', s2)" by (cases "rpc_run X s1 xs")
  have s2: "s2 = s'" "dues' = due X s x @ d" "outs' = (case out of None \<Rightarrow> [] | Some e \<Rightarrow> [e]) @ o'"
    using Cons.prems(2) x xs by simp_all
  from Cons.IH [OF exec_balanced [OF Cons.prems(1) x] xs [unfolded s2(1)]] show ?case by (simp add: s2)
qed simp

lemma rpc_new_balanced:
  assumes "rpc_new ic oc params now now' = Some s"
  shows "rpc_balanced [] [] s"
proof -
  from assms have "rpc_events s = []" by (auto simp: rpc_new_def bind_eq_Some_conv split: option.splits)
  moreover have "fresh sl" if "rpc_self_limiter s = Some sl" for sl
    using assms that
    by (auto simp: rpc_new_def expect_def bind_eq_Some_conv split: option.splits sum.splits intro: self_new_fresh)
  ultimately show ?thesis
    by (auto simp: rpc_balanced_def fresh_def balanced_def queue_ok_def ready_ok_def waiting_def unwrap_or_def
        split: option.splits)
qed

text \<open>
  C15. The behaviour neither loses, nor invents, nor reorders. On every sequence of operations
  from a new behaviour, with or without the two limiters and however their timers fire: what is due
  to the swarm other than our own requests (events for the user, responses, errors for requests over
  the quota, shutdowns) is what the polls returned followed by what is still queued, in the order in
  which it was due; and for every peer and protocol each of our requests is, exactly as often as it
  was submitted, returned by a poll, queued, or held back by the self limiter.
\<close>

theorem rpc_conserves:
  assumes "rpc_new ic oc params now now' = Some s0" "rpc_run X s0 xs = (dues, outs, s)"
  shows "others dues = others (outs @ rpc_events s) \<and>
    (\<forall>k. bag k dues = bag k outs + bag k (rpc_events s) + held s k)"
proof -
  have "rpc_balanced dues outs s" using run_balanced [OF rpc_new_balanced [OF assms(1)] assms(2)] by simp
  then show ?thesis
    by (auto simp: rpc_balanced_def held_def balanced_def ac_simps split: option.splits)
qed


section \<open>What reaches the application\<close>

text \<open>The tokens that an event for the user costs, if it is a request with a key.\<close>

fun user_tokens :: "'p \<times> Protocol \<Rightarrow> ('id, 'p, 'e) rpc_action \<Rightarrow> nat" where
  "user_tokens k (GenerateEvent m) =
     (case msg_event m of
        Inr (RPCReceived.Request rid req) \<Rightarrow>
          if (msg_peer_id m, fst (inbound_item req)) = k then unat (max (snd (inbound_item req)) 1) else 0
      | _ \<Rightarrow> 0)"
| "user_tokens k (NotifyHandler p t c) = 0"

definition all_tokens :: "'p \<times> Protocol \<Rightarrow> ('id, 'p, 'e) rpc_action list \<Rightarrow> nat" where
  "all_tokens k es = sum_list (map (user_tokens k) es)"

text \<open>
  What an operation gets through: the tokens of the events that it returns or leaves in the queue for
  the user, beyond those that were in the queue before.
\<close>

definition delivered :: "TextOps \<Rightarrow> 'p \<times> Protocol \<Rightarrow> ('id, 'p, 'e) RPC \<Rightarrow> instant \<times> ('id, 'p, 'e) rpc_op \<Rightarrow> nat" where
  "delivered X k s x =
     (let (out, s') = rpc_exec X s x in all_tokens k (out_list out @ rpc_events s') - all_tokens k (rpc_events s))"

lemma all_tokens_append [simp]: "all_tokens k (xs @ ys) = all_tokens k xs + all_tokens k ys"
  by (simp add: all_tokens_def)

lemma user_tokens_request [simp]: "ev_key e \<noteq> None \<Longrightarrow> user_tokens k e = 0"
  by (cases e) auto

lemma all_tokens_others: "all_tokens k (others es) = all_tokens k es"
  unfolding all_tokens_def others_def by (induction es) auto

lemma delivered_due:
  assumes "rpc_sound s"
  shows "delivered X k s x = all_tokens k (due X s x)"
proof -
  obtain out s' where x: "rpc_exec X s x = (out, s')" by fastforce
  from arg_cong [OF exec_others(2) [OF assms x], of "all_tokens k"]
  have "all_tokens k (out_list out @ rpc_events s') = all_tokens k (rpc_events s) + all_tokens k (due X s x)"
    by (simp only: all_tokens_append all_tokens_others)
  with x show ?thesis by (simp add: delivered_def)
qed

definition rpc_next :: "TextOps \<Rightarrow> ('id, 'p, 'e) RPC \<Rightarrow> instant \<times> ('id, 'p, 'e) rpc_op \<Rightarrow> ('id, 'p, 'e) RPC" where
  "rpc_next X s x = snd (rpc_exec X s x)"

lemma rpc_next_sound: "rpc_sound s \<Longrightarrow> rpc_sound (rpc_next X s x)"
  using exec_others(1) [of s X x] by (cases "rpc_exec X s x") (simp add: rpc_next_def)

text \<open>
  The clock runs: an operation happens within the range of the limiter's clock, and the pruning
  ticks of a poll lie between the start of the limiter and the poll.
\<close>

fun clock_ok :: "instant \<Rightarrow> instant \<times> ('id, 'p, 'e) rpc_op \<Rightarrow> bool" where
  "clock_ok start (now, PollRpc ticks expired clock self_ticks) \<longleftrightarrow>
     start \<le> now \<and> now - start < TIME_BOUND \<and> (\<forall>t \<in> set ticks. start \<le> t \<and> t \<le> now)"
| "clock_ok start (now, _) \<longleftrightarrow> start \<le> now \<and> now - start < TIME_BOUND"

lemma clock_okD: "clock_ok start x \<Longrightarrow> start \<le> fst x \<and> fst x - start < TIME_BOUND"
  by (cases "(start, x)" rule: clock_ok.cases) auto

definition rpc_level :: "'p \<times> Protocol \<Rightarrow> ('id, 'p, 'e) RPC \<Rightarrow> instant \<Rightarrow> nat" where
  "rpc_level k s now =
     (case rpc_limiter s of None \<Rightarrow> now | Some rl \<Rightarrow> init_time rl + rl_fill rl k now)"

definition rpc_metered :: "instant \<Rightarrow> Protocol \<Rightarrow> nat \<Rightarrow> nat \<Rightarrow> instant \<Rightarrow> ('id, 'p, 'e) RPC \<Rightarrow> bool" where
  "rpc_metered start p t' tau' now s \<longleftrightarrow> rpc_sound s \<and> start \<le> now \<and> t' * 10 < 2 ^ 64 \<and>
     (\<exists>rl. rpc_limiter s = Some rl \<and> init_time rl = start \<and> meter_inv t' tau' (now - start) (limiter_of p rl))"

lemma token_range: "t' * 10 < (2 :: nat) ^ 64 \<Longrightarrow> t' * unat (max (snd (inbound_item req)) 1) < 2 ^ 64"
proof -
  assume t: "t' * 10 < (2 :: nat) ^ 64"
  have "unat (max (snd (inbound_item req)) 1) \<le> 10"
    by (cases req) (simp_all add: inbound_item_def max_def)
  then have "t' * unat (max (snd (inbound_item req)) 1) \<le> t' * 10" by (rule mult_le_mono2)
  with t show ?thesis by linarith
qed

text \<open>A pruning tick changes no level at or after it.\<close>

lemma rl_prune_level:
  assumes "init_time rl \<le> t" "t \<le> now" "t - init_time rl < TIME_BOUND"
  shows "rl_fill (rl_prune rl t) k now = rl_fill rl k now"
proof -
  let ?l = "limiter_of (snd k) rl" and ?t = "t - init_time rl" and ?n = "now - init_time rl"
  have "?t \<le> ?n" using assms(2) by simp
  then have "fill (limiter_prune ?l ?t) (fst k) ?n = max ?n (fill (limiter_prune ?l ?t) (fst k) ?t)"
    and "fill ?l (fst k) ?n = max ?n (fill ?l (fst k) ?t)" by (simp_all add: fill_later)
  with limiter_prune_fill [OF assms(3), of ?l "fst k"] show ?thesis by (simp add: rl_fill_def limiter_of_prune)
qed

lemma rl_poll_level:
  assumes "\<forall>t \<in> set ticks. init_time rl \<le> t \<and> t \<le> now" "now - init_time rl < TIME_BOUND"
  shows "rl_fill (rl_poll rl ticks) k now = rl_fill rl k now \<and> init_time (rl_poll rl ticks) = init_time rl"
  using assms
proof (induction ticks arbitrary: rl)
  case (Cons t ticks)
  then have "t - init_time rl < TIME_BOUND" by (auto intro: le_less_trans [OF diff_le_mono])
  with Cons rl_prune_level [of rl t now k] show ?case by (simp add: rl_poll_def)
qed (simp add: rl_poll_def)

lemma rl_poll_metered:
  assumes "meter_inv t' tau' m (limiter_of p rl)" "m \<le> n"
  shows "meter_inv t' tau' n (limiter_of p (rl_poll rl ticks))"
  using assms
proof (induction ticks arbitrary: rl m)
  case Nil
  then show ?case by (auto simp: rl_poll_def meter_inv_def intro: limiter_inv_mono)
next
  case (Cons t ticks)
  then have "meter_inv t' tau' n (limiter_of p (rl_prune rl t))"
    using limiter_prune_inv [of m "limiter_of p rl" n] by (simp add: limiter_of_prune meter_inv_def)
  from Cons.IH [OF this order_refl] show ?case by (simp add: rl_poll_def)
qed

text \<open>A request at the limiter of its protocol, and at the limiters of the others.\<close>

lemma rl_allows_metered:
  assumes "meter_inv t' tau' (m - init_time rl) (limiter_of p rl)" "m \<le> now" "now - init_time rl < TIME_BOUND"
    and "t' * 10 < 2 ^ 64"
  shows "meter_inv t' tau' (now - init_time rl) (limiter_of p (snd (rl_allows rl now peer (inbound_item req)))) \<and>
    init_time (snd (rl_allows rl now peer (inbound_item req))) = init_time rl \<and>
    rl_fill (snd (rl_allows rl now peer (inbound_item req))) (j, p) now = rl_fill rl (j, p) now +
      (if j = peer \<and> p = fst (inbound_item req) \<and> is_ok (fst (rl_allows rl now peer (inbound_item req)))
       then t' * unat (max (snd (inbound_item req)) 1) else 0)"
proof -
  let ?l = "limiter_of p rl" and ?tok = "max (snd (inbound_item req)) 1" and ?n = "now - init_time rl"
  let ?rl = "snd (rl_allows rl now peer (inbound_item req))"
  have le: "m - init_time rl \<le> ?n" using assms(2) by simp
  have init: "init_time ?rl = init_time rl" by (simp add: rl_allows_def Let_def split_beta)
  show ?thesis
  proof (cases "p = fst (inbound_item req)")
    case True
    let ?x = "limiter_op.Request peer ?n ?tok"
    have ok: "op_in_range t' ?x" using assms(3) token_range [OF assms(4)] by simp
    have l: "limiter_of p ?rl = limiter_exec ?l ?x"
      and v: "is_ok (fst (rl_allows rl now peer (inbound_item req))) = is_ok (fst (limiter_allows ?l ?n peer ?tok))"
      using True by (simp_all add: rl_allows_def Let_def split_beta)
    have "meter_inv t' tau' ?n (limiter_exec ?l ?x)" using meter_exec_inv [OF assms(1) _ ok] le by simp
    moreover have "fill (limiter_exec ?l ?x) j ?n = fill ?l j ?n + t' * accepted_tokens j ?l ?x"
      using meter_exec_level [OF assms(1) _ ok, of j] le by simp
    ultimately show ?thesis using True l init v by (auto simp: rl_fill_def)
  next
    case False
    then have "limiter_of p ?rl = ?l" by (simp add: rl_allows_def Let_def split_beta)
    moreover have "meter_inv t' tau' ?n ?l" using assms(1) le by (auto simp: meter_inv_def intro: limiter_inv_mono)
    ultimately show ?thesis using False init by (simp add: rl_fill_def)
  qed
qed


lemma handler_event_limiter:
  assumes "rpc_limiter s = Some rl"
  shows "rpc_limiter (rpc_on_connection_handler_event X now peer conn event s) =
    Some (case event of Inr (RPCReceived.Request rid req) \<Rightarrow> snd (rl_allows rl now peer (inbound_item req)) | _ \<Rightarrow> rl)"
proof (cases "\<exists>rid req. event = Inr (RPCReceived.Request rid req)")
  case True
  then obtain rid req where e: "event = Inr (RPCReceived.Request rid req)" by blast
  obtain v rl' where "rl_allows rl now peer (inbound_item req) = (v, rl')" by fastforce
  with e assms show ?thesis
    by (auto simp: rpc_on_connection_handler_event_def rpc_send_response_def split: sum.splits RateLimitedErr.splits)
next
  case False
  with assms show ?thesis
    by (auto simp: rpc_on_connection_handler_event_def split: sum.splits RPCReceived.splits)
qed

lemma user_tokens_answer:
  "user_tokens k (answer X (Some rl) now peer conn event) =
    (case event of
       Inr (RPCReceived.Request rid req) \<Rightarrow>
         if (peer, fst (inbound_item req)) = k \<and> is_ok (fst (rl_allows rl now peer (inbound_item req)))
         then unat (max (snd (inbound_item req)) 1) else 0
     | _ \<Rightarrow> 0)"
  by (auto simp: answer_def generate_def split: sum.splits RPCReceived.splits RateLimitedErr.splits)

lemma send_request_limiter [simp]: "rpc_limiter (rpc_send_request now peer rid req s) = rpc_limiter s"
  by (auto simp: rpc_send_request_def split: option.splits sum.splits prod.splits)

lemma poll_limiter:
  "rpc_limiter (snd (rpc_poll ticks expired clock self_ticks s)) = map_option (\<lambda>rl. rl_poll rl ticks) (rpc_limiter s)"
  by (auto simp: rpc_poll_def Let_def split: option.splits sum.splits prod.splits list.splits)

text \<open>The limiter after an operation.\<close>

fun limiter_next :: "'p RPCRateLimiter \<Rightarrow> instant \<times> ('id, 'p, 'e) rpc_op \<Rightarrow> 'p RPCRateLimiter" where
  "limiter_next rl (now, HandlerSays peer conn (Inr (RPCReceived.Request rid req))) =
     snd (rl_allows rl now peer (inbound_item req))"
| "limiter_next rl (now, PollRpc ticks expired clock self_ticks) = rl_poll rl ticks"
| "limiter_next rl x = rl"

lemma rpc_next_limiter:
  assumes "rpc_limiter s = Some rl"
  shows "rpc_limiter (rpc_next X s x) = Some (limiter_next rl x)"
proof -
  obtain now op where x: "x = (now, op)" by fastforce
  show ?thesis
    by (cases op)
      (auto simp: x rpc_next_def assms rpc_send_response_def rpc_shutdown_def poll_limiter
        handler_event_limiter [OF assms] split: sum.splits RPCReceived.splits)
qed

lemma rpc_next_metered:
  assumes inv: "rpc_metered start p t' tau' m s" and "m \<le> fst x" and ok: "clock_ok start x"
  shows "rpc_metered start p t' tau' (fst x) (rpc_next X s x) \<and>
    rpc_level (j, p) (rpc_next X s x) (fst x) = rpc_level (j, p) s (fst x) + t' * delivered X (j, p) s x"
proof -
  from inv obtain rl where rl: "rpc_limiter s = Some rl" "init_time rl = start" "t' * 10 < 2 ^ 64"
    "meter_inv t' tau' (m - start) (limiter_of p rl)" and sound: "rpc_sound s" by (auto simp: rpc_metered_def)
  note sound' = rpc_next_sound [OF sound, of X x]
  note tokens = delivered_due [OF sound] all_tokens_def
  note next_rl = rpc_next_limiter [OF rl(1)]
  have range: "start \<le> fst x" "fst x - start < TIME_BOUND" using clock_okD [OF ok] by simp_all
  have later: "meter_inv t' tau' (fst x - start) (limiter_of p rl)"
    using rl(4) diff_le_mono [OF assms(2), of start] by (auto simp: meter_inv_def intro: limiter_inv_mono)
  obtain now op where x: "x = (now, op)" by fastforce
  have "init_time (limiter_next rl x) = start \<and> meter_inv t' tau' (fst x - start) (limiter_of p (limiter_next rl x)) \<and>
    rl_fill (limiter_next rl x) (j, p) (fst x) = rl_fill rl (j, p) (fst x) + t' * delivered X (j, p) s x"
  proof (cases "(rl, x)" rule: limiter_next.cases)
    case (1 rl1 now peer conn rid req)
    then have "rl1 = rl" by simp
    with 1 rl_allows_metered [of t' tau' m rl p now peer req j] rl range assms(2) show ?thesis
      by (auto simp: tokens user_tokens_answer)
  next
    case (2 rl1 now ticks expired clock self_ticks)
    then have "rl1 = rl" by simp
    with 2 rl_poll_level [of ticks rl now "(j, p)"] rl_poll_metered [OF later order_refl, of ticks] rl ok show ?thesis
      by (simp add: tokens)
  qed (use later rl in \<open>auto simp: tokens user_tokens_answer\<close>)
  then show ?thesis using range rl next_rl sound' by (simp add: rpc_metered_def rpc_level_def)
qed

lemma rpc_metered_later:
  assumes "rpc_metered start p t' tau' m s" "m \<le> n"
  shows "rpc_metered start p t' tau' n s"
proof -
  have "m - start \<le> n - start" using assms(2) by simp
  with assms show ?thesis by (auto simp: rpc_metered_def meter_inv_def intro: limiter_inv_mono)
qed

interpretation rpc_meter: leaky_meter "rpc_next X" fst "\<lambda>s x. t' * delivered X (j, p) s x" "rpc_level (j, p)"
  "rpc_metered start p t' tau'" "clock_ok start" tau' for X t' tau' j p start
proof (unfold_locales, goal_cases)
  case (1 now s)
  have "now - init_time rl \<le> fill (limiter_of p rl) j (now - init_time rl)" for rl
    by (rule fill_ge)
  then show ?case by (auto simp: rpc_level_def rl_fill_def le_diff_conv add.commute split: option.splits)
next
  case (2 m n s)
  then show ?case by (auto simp: rpc_level_def rl_fill_def intro: fill_mono split: option.splits)
next
  case (3 m s n)
  then obtain rl where "rpc_limiter s = Some rl" "init_time rl = start" "start \<le> m"
    "meter_inv t' tau' (m - start) (limiter_of p rl)" by (auto simp: rpc_metered_def)
  moreover have "m - start \<le> n - start" using 3(2) by simp
  ultimately show ?case
    using fill_le [of "m - start" "limiter_of p rl" "n - start" j] 3(2)
    by (simp add: rpc_level_def rl_fill_def meter_inv_def)
qed (simp_all add: rpc_next_metered)


lemma new_with_config_limiters:
  assumes "new_with_config config now = Inr rl"
  shows "from_quota (config_quota p config) = Inr (limiter_of p rl)" "init_time rl = now"
  using assms by (cases p; auto simp: new_with_config_def build_def bind_res_Inr_iff ok_or_Inr_iff builder_def)+

lemma rpc_new_limiter:
  assumes "rpc_new (Some (InboundRateLimiterConfig config)) oc params now now' = Some s"
  obtains rl where "rpc_limiter s = Some rl" "new_with_config config now = Inr rl"
  using assms by (auto simp: rpc_new_def expect_def bind_eq_Some_conv split: option.splits sum.splits)

lemma rpc_new_metered:
  assumes "rpc_new (Some (InboundRateLimiterConfig config)) oc params now now' = Some s"
    and "10 * replenish_all_every (config_quota p config) < TIME_BOUND"
  shows "rpc_metered now p (replenish_all_every (config_quota p config) div unat (max_tokens (config_quota p config)))
    (replenish_all_every (config_quota p config)) now s"
proof -
  let ?q = "config_quota p config"
  obtain rl where rl: "rpc_limiter s = Some rl" "new_with_config config now = Inr rl"
    by (rule rpc_new_limiter [OF assms(1)])
  note lims = new_with_config_limiters [OF rl(2)]
  have small: "replenish_all_every ?q < TIME_BOUND" using assms(2) by simp
  have "replenish_all_every ?q div unat (max_tokens ?q) * 10 \<le> 10 * replenish_all_every ?q" by simp
  also have "\<dots> < 2 ^ 64" using assms(2) by (simp add: TIME_BOUND_def)
  finally show ?thesis
    using rl lims from_quota_inv [OF lims(1) small, of 0] rpc_new_balanced [OF assms(1)]
    by (auto simp: rpc_metered_def rpc_sound_def)
qed

text \<open>
  C14. The quotas protect the application. Take a behaviour made with any quotas for the requests
  of peers, and any history of operations at non-decreasing times, within \<open>TIME_BOUND\<close> of the
  start like ten periods of the quota: events of any peers and connections, our own requests and
  responses, polls with their pruning. In every window \<open>[a, b]\<close> of
  that history the requests of one protocol that one peer gets through, that is, those the behaviour
  returns from its polls or queues for the user, cost, at the quota's time per token, no more than the
  length of the window plus one full bucket.
\<close>

theorem peer_requests_bounded:
  assumes "rpc_new (Some (InboundRateLimiterConfig config)) oc params start start' = Some s0"
    and "10 * replenish_all_every (config_quota p config) < TIME_BOUND"
    and "sorted (start # map fst before @ a # map fst window)"
    and "\<forall>x \<in> set (before @ window). clock_ok start x"
    and "\<forall>x \<in> set window. fst x \<le> b" "a \<le> b"
  shows "total_used (rpc_next X) (delivered X (peer, p)) (foldl (rpc_next X) s0 before) window *
      (replenish_all_every (config_quota p config) div unat (max_tokens (config_quota p config)))
    \<le> (b - a) + replenish_all_every (config_quota p config)"
proof -
  let ?q = "config_quota p config"
  let ?t = "replenish_all_every ?q div unat (max_tokens ?q)" and ?tau = "replenish_all_every ?q"
  define s where "s = foldl (rpc_next X) s0 before"
  have "rpc_metered start p ?t ?tau (last (start # map fst before)) s"
    unfolding s_def using rpc_meter.run_inv [OF rpc_new_metered [OF assms(1,2)], of before] assms(3,4)
    by (auto simp: sorted_append)
  moreover have "last (start # map fst before) \<le> a"
    using assms(3) by (cases before rule: rev_cases) (auto simp: sorted_append)
  ultimately have inv: "rpc_metered start p ?t ?tau a s" by (rule rpc_metered_later)
  have "sorted (a # map fst window)" using assms(3) by (simp add: sorted_append)
  from rpc_meter.window_total [OF inv this, of b X peer] assms(4,5,6) show ?thesis
    by (subst mult.commute) (simp add: total_used_scale s_def)
qed


section \<open>Examples\<close>

definition rpc_texts :: TextOps where
  "rpc_texts = \<lparr>vl_from = \<lambda>b. b, strip_control = map (\<lambda>b. char_of (unat b))\<rparr>"

definition sample_params :: NetworkParams where
  "sample_params = \<lparr>np_max_chunk_size = 100, np_ttfb_timeout = 5, np_resp_timeout = 10\<rparr>"

definition limited_rpc :: "(nat, nat, string) RPC" where
  "limited_rpc = the (rpc_new (Some (InboundRateLimiterConfig default_config))
     (Some (OutboundRateLimiterConfig default_config)) sample_params 0 0)"

lemma limited_rpc_new:
  "rpc_new (Some (InboundRateLimiterConfig default_config))
     (Some (OutboundRateLimiterConfig default_config)) sample_params 0 0 = Some limited_rpc"
proof -
  have "\<exists>rl :: nat RPCRateLimiter. new_with_config default_config 0 = Inr rl"
    by (simp add: new_with_config_def build_def default_config_def builder_def
        DEFAULT_PING_QUOTA_def DEFAULT_META_DATA_QUOTA_def DEFAULT_STATUS_QUOTA_def DEFAULT_GOODBYE_QUOTA_def
        DEFAULT_POOLED_USER_OP_HASHES_QUOTA_def DEFAULT_POOLED_USER_OPS_BY_HASH_QUOTA_def
        MAX_REQUEST_BLOCKS_def n_every_def one_every_def secs_def from_quota_def Let_def
        try_into_u64_def U64_MAX_def)
  then obtain rl :: "nat RPCRateLimiter" where "new_with_config default_config 0 = Inr rl" by blast
  then show ?thesis by (simp add: limited_rpc_def rpc_new_def expect_def)
qed

definition ping_from :: "nat \<Rightarrow> nat \<Rightarrow> (nat, nat, string) rpc_op" where
  "ping_from peer stream =
     HandlerSays peer 1 (Inr (RPCReceived.Request stream (InboundRequest.Ping \<lparr>ping_data = 7\<rparr>)))"

text \<open>Three pings of one peer, a response, one of our requests, and a poll.\<close>

theorem rpc_conserves_witness:
  "let (dues, outs, s) = rpc_run rpc_texts limited_rpc
         [(0, ping_from 5 0), (0, ping_from 5 1), (0, ping_from 5 2),
          (1, SendResponse 5 (1, 0) (Success (RPCResponse.Pong \<lparr>ping_data = 7\<rparr>))),
          (2, SendRequest 5 0 OutboundRequest.MetaData), (3, PollRpc [] None (\<lambda>_. 3) [])]
   in length dues = 5 \<and> others dues = others (outs @ rpc_events s) \<and>
      bag (5, Protocol.MetaData) dues =
        bag (5, Protocol.MetaData) outs + bag (5, Protocol.MetaData) (rpc_events s) + held s (5, Protocol.MetaData)"
proof -
  let ?xs = "[(0, ping_from 5 0), (0, ping_from 5 1), (0, ping_from 5 2),
          (1, SendResponse 5 (1, 0) (Success (RPCResponse.Pong \<lparr>ping_data = 7\<rparr>))),
          (2, SendRequest 5 0 OutboundRequest.MetaData), (3, PollRpc [] None (\<lambda>_. 3) [])]"
  obtain dues outs s where run: "rpc_run rpc_texts limited_rpc ?xs = (dues, outs, s)"
    by (cases "rpc_run rpc_texts limited_rpc ?xs")
  then have "length dues = 5" by (auto simp: ping_from_def split: prod.splits)
  with rpc_conserves [OF limited_rpc_new run] run show ?thesis by simp
qed

text \<open>The default quota of pings is two in ten seconds: of three at once the user sees two.\<close>

theorem peer_requests_bounded_witness:
  "total_used (rpc_next rpc_texts) (delivered rpc_texts (5, Protocol.Ping)) limited_rpc
     [(0, ping_from 5 0), (0, ping_from 5 1), (0, ping_from 5 2)] = 2 \<and>
   total_used (rpc_next rpc_texts) (delivered rpc_texts (5, Protocol.Ping)) limited_rpc
     [(0, ping_from 5 0), (0, ping_from 5 1), (0, ping_from 5 2)] * 5000000000 \<le> 0 + 10000000000"
proof -
  have sound: "rpc_sound limited_rpc" using rpc_new_balanced [OF limited_rpc_new] unfolding rpc_sound_def by blast
  have q: "ping_quota default_config = n_every 2 10"
    by (simp add: default_config_def DEFAULT_PING_QUOTA_def)
  obtain rl where rl: "rpc_limiter limited_rpc = Some rl" "new_with_config default_config 0 = Inr rl"
    by (rule rpc_new_limiter [OF limited_rpc_new])
  have ping: "ping_rl rl = \<lparr>lim_tau = 10000000000, lim_t = 5000000000, tat_per_key = Map.empty\<rparr>" "init_time rl = 0"
    using new_with_config_limiters(1) [OF rl(2), of Protocol.Ping] new_with_config_limiters(2) [OF rl(2)]
    by (auto simp: q n_every_def secs_def from_quota_def Let_def try_into_u64_def U64_MAX_def)
  have "total_used (rpc_next rpc_texts) (delivered rpc_texts (5, Protocol.Ping)) limited_rpc
     [(0, ping_from 5 0), (0, ping_from 5 1), (0, ping_from 5 2)] = 2"
    by (simp add: delivered_due sound rpc_next_sound)
      (simp add: all_tokens_def ping_from_def user_tokens_answer rpc_next_def handler_event_limiter rl
        inbound_item_def rl_allows_def ping limiter_allows_def as_u64_def sat_sub_def Let_def)
  then show ?thesis
    using peer_requests_bounded [OF limited_rpc_new, of Protocol.Ping "[]" 0
        "[(0, ping_from 5 0), (0, ping_from 5 1), (0, ping_from 5 2)]" 0 rpc_texts 5]
    by (simp add: q n_every_def secs_def TIME_BOUND_def ping_from_def)
qed

end
