(* ===== verification/F64.thy ===== *)
theory F64
  imports Complex_Main Prelude
begin

text \<open>
  Floating-point numbers. The peer scores are \<open>f64\<close> and the peer limits are computed in
  \<open>f32\<close>. A finite value is the real number it denotes; every operation rounds its exact
  result to the nearest representable number, ties to even, as IEEE 754 prescribes
  (\<open>rnd p emin\<close> for \<open>p\<close> significant bits and least exponent \<open>emin\<close>). Infinities and NaN
  are values of their own; the sign of a zero, which no operation of the sources observes,
  is not represented.
\<close>

section \<open>Rounding\<close>

text \<open>Nearest integer, ties to even.\<close>

definition rne :: "real \<Rightarrow> int" where
  "rne x = (let f = \<lfloor>x\<rfloor>; d = x - of_int f
            in if d < 1 / 2 then f else if d > 1 / 2 then f + 1 else if even f then f else f + 1)"

text \<open>The exponent of the last place, and rounding to that place.\<close>

definition place :: "int \<Rightarrow> int \<Rightarrow> real \<Rightarrow> int" where
  "place p emin x = max (\<lfloor>log 2 \<bar>x\<bar>\<rfloor> - (p - 1)) emin"

definition rnd :: "int \<Rightarrow> int \<Rightarrow> real \<Rightarrow> real" where
  "rnd p emin x =
     (if x = 0 then 0
      else of_int (rne (x / 2 powi place p emin x)) * 2 powi place p emin x)"

lemma rne_of_int [simp]: "rne (of_int n) = n"
  by (simp add: rne_def)

lemma rne_bounds: "\<lfloor>x\<rfloor> \<le> rne x \<and> rne x \<le> \<lfloor>x\<rfloor> + 1"
  by (simp add: rne_def Let_def)

lemma rne_mono:
  assumes "x \<le> y"
  shows "rne x \<le> rne y"
proof (cases "\<lfloor>x\<rfloor> = \<lfloor>y\<rfloor>")
  case True
  with assms show ?thesis by (simp add: rne_def Let_def)
next
  case False
  then have "\<lfloor>x\<rfloor> + 1 \<le> \<lfloor>y\<rfloor>" using floor_mono [OF assms] by simp
  then show ?thesis using rne_bounds [of x] rne_bounds [of y] by linarith
qed

lemma rne_le_int: "x \<le> of_int n \<Longrightarrow> rne x \<le> n"
  using rne_mono [of x "of_int n"] by simp

lemma rne_ge_int: "of_int n \<le> x \<Longrightarrow> n \<le> rne x"
  using rne_mono [of "of_int n" x] by simp

lemma rne_minus: "rne (- x) = - rne x"
proof (cases "x \<in> \<int>")
  case True
  then obtain n where "x = of_int n" by (auto elim: Ints_cases)
  then show ?thesis by (metis of_int_minus rne_of_int)
next
  case False
  then have c: "\<lceil>x\<rceil> = \<lfloor>x\<rfloor> + 1"
    by (simp add: ceiling_altdef) (metis Ints_of_int)
  have "\<lfloor>- x\<rfloor> = - (\<lfloor>x\<rfloor> + 1)" using c by (simp add: floor_minus)
  then show ?thesis
    by (simp add: rne_def Let_def)
qed

lemma place_minus [simp]: "place p emin (- x) = place p emin x"
  by (simp add: place_def)

lemma rnd_minus: "rnd p emin (- x) = - rnd p emin x"
  by (simp add: rnd_def rne_minus minus_divide_left [symmetric] del: minus_divide_left)

lemma rnd_0 [simp]: "rnd p emin 0 = 0"
  by (simp add: rnd_def)

text \<open>A number with at most \<open>p\<close> bits above the least exponent is not rounded.\<close>

lemma place_mono: "0 < x \<Longrightarrow> x \<le> y \<Longrightarrow> place p emin x \<le> place p emin y"
  unfolding place_def by (intro max.mono) (auto intro!: floor_mono)

lemma rnd_at:
  assumes "x \<noteq> 0" "x = of_int n * 2 powi place p emin x"
  shows "rnd p emin x = x"
proof -
  have "x / 2 powi place p emin x = of_int n"
    by (subst assms(2)) simp
  with assms show ?thesis by (simp add: rnd_def)
qed

lemma two_powi: "(2 :: real) powi e = 2 powr of_int e"
  by (simp add: powr_real_of_int')

lemma rnd_exact:
  assumes "emin \<le> e" "\<bar>n\<bar> < 2 ^ nat p" "0 < p"
  shows "rnd p emin (of_int n * 2 powi e) = of_int n * 2 powi e"
proof (cases "n = 0")
  case False
  let ?x = "of_int n * 2 powi e :: real"
  have pos: "0 < \<bar>of_int n :: real\<bar>" using False by simp
  have "log 2 \<bar>?x\<bar> = log 2 \<bar>of_int n\<bar> + of_int e"
    using pos by (simp add: abs_mult log_mult two_powi)
  moreover have "log 2 \<bar>of_int n\<bar> < of_int p"
  proof -
    have "\<bar>of_int n :: real\<bar> < 2 ^ nat p" using assms(2)
      by (metis of_int_abs of_int_less_iff of_int_numeral of_int_power)
    also have "\<dots> = 2 powr of_int p" using assms(3) by (simp add: powr_realpow [symmetric])
    finally show ?thesis using pos by (simp add: log_less_iff)
  qed
  ultimately have "log 2 \<bar>?x\<bar> < of_int (p + e)" by simp
  then have "\<lfloor>log 2 \<bar>?x\<bar>\<rfloor> < p + e" by (simp add: floor_less_iff)
  then have "place p emin ?x \<le> e" using assms(1) by (simp add: place_def)
  then obtain k where k: "e = place p emin ?x + int k" using zle_iff_zadd by blast
  have "?x = of_int (n * 2 ^ k) * 2 powi place p emin ?x"
    by (subst (1) k) (simp add: power_int_add)
  from rnd_at [OF _ this] False show ?thesis by simp
qed simp

text \<open>Rounding is monotone.\<close>

lemma rnd_pos_nonneg: "0 \<le> x \<Longrightarrow> 0 \<le> rnd p emin x"
  using rne_ge_int [of 0 "x / 2 powi place p emin x"] by (simp add: rnd_def)

lemma rnd_mono_same_place:
  assumes "0 < x" "x \<le> y" "place p emin x = place p emin y"
  shows "rnd p emin x \<le> rnd p emin y"
proof -
  have "x / 2 powi place p emin y \<le> y / 2 powi place p emin y"
    using assms(2) by (simp add: divide_right_mono)
  then show ?thesis using assms rne_mono by (simp add: rnd_def)
qed

lemma rnd_le_power:
  assumes "0 < x" "x \<le> 2 powi b" "place p emin x \<le> b"
  shows "rnd p emin x \<le> 2 powi b"
proof -
  let ?e = "place p emin x"
  obtain k where k: "b = ?e + int k" using assms(3) zle_iff_zadd by blast
  have "x / 2 powi ?e \<le> 2 powi b / 2 powi ?e" using assms(2) by (simp add: divide_right_mono)
  also have "\<dots> = of_int (2 ^ k)" by (subst k) (simp add: power_int_add)
  finally have "rne (x / 2 powi ?e) \<le> 2 ^ k" by (rule rne_le_int)
  then have "real_of_int (rne (x / 2 powi ?e)) \<le> of_int (2 ^ k)" by (rule of_int_le_iff [THEN iffD2])
  then have "real_of_int (rne (x / 2 powi ?e)) * 2 powi ?e \<le> 2 ^ k * 2 powi ?e"
    by (intro mult_right_mono) simp_all
  also have "\<dots> = 2 powi b" by (subst k) (simp add: power_int_add)
  finally show ?thesis using assms(1) by (simp add: rnd_def)
qed

lemma rnd_ge_power:
  assumes "2 powi b \<le> y" "place p emin y \<le> b"
  shows "2 powi b \<le> rnd p emin y"
proof -
  let ?e = "place p emin y"
  have y: "0 < y" using assms(1) by (smt (verit) zero_less_power_int)
  obtain k where k: "b = ?e + int k" using assms(2) zle_iff_zadd by blast
  have "real_of_int (2 ^ k) = 2 powi b / 2 powi ?e" by (subst k) (simp add: power_int_add)
  also have "\<dots> \<le> y / 2 powi ?e" using assms(1) by (simp add: divide_right_mono)
  finally have "2 ^ k \<le> rne (y / 2 powi ?e)" by (rule rne_ge_int)
  then have "real_of_int (2 ^ k) \<le> of_int (rne (y / 2 powi ?e))" by (rule of_int_le_iff [THEN iffD2])
  then have "2 ^ k * 2 powi ?e \<le> real_of_int (rne (y / 2 powi ?e)) * 2 powi ?e"
    by (intro mult_right_mono) simp_all
  moreover have "2 ^ k * 2 powi ?e = (2 powi b :: real)" by (subst k) (simp add: power_int_add)
  ultimately show ?thesis using y by (simp add: rnd_def)
qed

lemma rnd_mono_pos:
  assumes "0 < x" "x \<le> y" "0 < p"
  shows "rnd p emin x \<le> rnd p emin y"
proof (cases "place p emin x = place p emin y")
  case True
  with assms show ?thesis by (simp add: rnd_mono_same_place)
next
  case False
  define b where "b = \<lfloor>log 2 y\<rfloor>"
  have y: "0 < y" using assms by simp
  from False place_mono [OF assms(1,2), of p emin] have lt: "place p emin x < place p emin y" by simp
  then have py: "place p emin y = b - (p - 1)" using y by (auto simp: place_def b_def max_def split: if_splits)
  with lt have lx: "\<lfloor>log 2 x\<rfloor> < b" using assms(1) by (simp add: place_def)
  have "2 powr of_int b \<le> y" using y by (simp add: b_def powr_le_iff)
  then have yb: "2 powi b \<le> y" by (simp add: two_powi)
  have "log 2 x < of_int b" using lx by (simp add: floor_less_iff)
  then have "x < 2 powr of_int b" using assms(1) by (simp add: log_less_iff)
  then have xb: "x \<le> 2 powi b" by (simp add: two_powi)
  have "rnd p emin x \<le> 2 powi b" using rnd_le_power [OF assms(1) xb] lt py assms(3) by simp
  also have "\<dots> \<le> rnd p emin y" using rnd_ge_power [OF yb] py assms(3) by simp
  finally show ?thesis .
qed

lemma rnd_mono:
  assumes "x \<le> y" "0 < p"
  shows "rnd p emin x \<le> rnd p emin y"
proof -
  consider "0 < x" | "x \<le> 0" "0 \<le> y" | "y < 0" by linarith
  then show ?thesis
  proof cases
    case 1
    then show ?thesis using assms by (rule rnd_mono_pos)
  next
    case 2
    then have "0 \<le> - rnd p emin x" using rnd_pos_nonneg [of "- x" p emin] by (simp add: rnd_minus)
    with rnd_pos_nonneg [of y p emin] 2 show ?thesis by simp
  next
    case 3
    then have "rnd p emin (- y) \<le> rnd p emin (- x)" using assms by (intro rnd_mono_pos) simp_all
    then show ?thesis by (simp add: rnd_minus)
  qed
qed

text \<open>Rounding twice is rounding once.\<close>

lemma rnd_idem:
  assumes "0 < p"
  shows "rnd p emin (rnd p emin x) = rnd p emin x"
proof (cases "x = 0")
  case False
  define e where "e = place p emin x"
  define n where "n = rne (x / 2 powi e)"
  have r: "rnd p emin x = of_int n * 2 powi e" using False by (simp add: rnd_def n_def e_def)
  have e: "emin \<le> e" "\<lfloor>log 2 \<bar>x\<bar>\<rfloor> < e + p" by (auto simp: e_def place_def)
  have "log 2 \<bar>x\<bar> < of_int (e + p)" using e(2) by (simp only: floor_less_iff)
  from iffD1 [OF log_less_iff this] False have "\<bar>x\<bar> < 2 powr of_int (e + p)" by simp
  also have "\<dots> = 2 ^ nat p * 2 powi e"
    using assms by (simp add: two_powi powr_add powr_realpow [symmetric])
  finally have "\<bar>x / 2 powi e\<bar> \<le> of_int (2 ^ nat p)" by (simp add: abs_divide divide_le_eq)
  then have "x / 2 powi e \<le> of_int (2 ^ nat p)" "of_int (- (2 ^ nat p)) \<le> x / 2 powi e"
    unfolding abs_le_iff by simp_all
  then have "\<bar>n\<bar> \<le> 2 ^ nat p"
    using rne_le_int [of "x / 2 powi e" "2 ^ nat p"] rne_ge_int [of "- (2 ^ nat p)" "x / 2 powi e"]
    unfolding n_def abs_le_iff by linarith
  have "(2 :: real) powi p = 2 ^ nat p" using assms by (simp add: power_int_def)
  then have pw: "(2 :: real) powi (e + p) = 2 ^ nat p * 2 powi e" by (simp add: power_int_add)
  from \<open>\<bar>n\<bar> \<le> 2 ^ nat p\<close> consider "\<bar>n\<bar> < 2 ^ nat p" | "n = 2 ^ nat p" | "n = - (2 ^ nat p)" by linarith
  then show ?thesis
  proof cases
    case 1
    with r rnd_exact [OF e(1) 1 assms] show ?thesis by simp
  next
    case 2
    have "rnd p emin (of_int 1 * 2 powi (e + p)) = of_int 1 * 2 powi (e + p)"
      using e(1) assms by (intro rnd_exact) simp_all
    with r 2 show ?thesis by (simp add: pw)
  next
    case 3
    have "rnd p emin (of_int (- 1) * 2 powi (e + p)) = of_int (- 1) * 2 powi (e + p)"
      using e(1) assms by (intro rnd_exact) simp_all
    with r 3 show ?thesis by (simp add: pw)
  qed
qed simp

section \<open>Values and operations\<close>

datatype f64 = Fin real | PInf | NInf | NaN

definition rnd64 :: "real \<Rightarrow> real" where "rnd64 = rnd 53 (- 1074)"
definition rnd32 :: "real \<Rightarrow> real" where "rnd32 = rnd 24 (- 149)"

definition to_f64 :: "real \<Rightarrow> f64" where
  "to_f64 x = (let r = rnd64 x in if r \<ge> 2 ^ 1024 then PInf else if r \<le> - (2 ^ 1024) then NInf else Fin r)"

fun fneg :: "f64 \<Rightarrow> f64" where
  "fneg (Fin x) = Fin (- x)" | "fneg PInf = NInf" | "fneg NInf = PInf" | "fneg NaN = NaN"

fun fadd :: "f64 \<Rightarrow> f64 \<Rightarrow> f64" where
  "fadd (Fin x) (Fin y) = to_f64 (x + y)"
| "fadd NaN _ = NaN" | "fadd _ NaN = NaN"
| "fadd PInf NInf = NaN" | "fadd NInf PInf = NaN"
| "fadd PInf _ = PInf" | "fadd _ PInf = PInf"
| "fadd NInf _ = NInf" | "fadd _ NInf = NInf"

definition inf_of :: "real \<Rightarrow> f64" where
  "inf_of s = (if s > 0 then PInf else if s < 0 then NInf else NaN)"

fun fmul :: "f64 \<Rightarrow> f64 \<Rightarrow> f64" where
  "fmul (Fin x) (Fin y) = to_f64 (x * y)"
| "fmul NaN _ = NaN" | "fmul _ NaN = NaN"
| "fmul PInf (Fin y) = inf_of y" | "fmul NInf (Fin y) = inf_of (- y)"
| "fmul (Fin x) PInf = inf_of x" | "fmul (Fin x) NInf = inf_of (- x)"
| "fmul PInf PInf = PInf" | "fmul NInf NInf = PInf"
| "fmul PInf NInf = NInf" | "fmul NInf PInf = NInf"

text \<open>Division; the divisor of the sources is never zero (a zero is taken as positive).\<close>

fun fdiv :: "f64 \<Rightarrow> f64 \<Rightarrow> f64" where
  "fdiv (Fin x) (Fin y) = (if y = 0 then inf_of x else to_f64 (x / y))"
| "fdiv NaN _ = NaN" | "fdiv _ NaN = NaN"
| "fdiv PInf (Fin y) = (if y < 0 then NInf else PInf)"
| "fdiv NInf (Fin y) = (if y < 0 then PInf else NInf)"
| "fdiv (Fin x) _ = Fin 0"
| "fdiv _ _ = NaN"

text \<open>Comparisons are false whenever an operand is NaN.\<close>

fun fle :: "f64 \<Rightarrow> f64 \<Rightarrow> bool" where
  "fle NaN _ = False" | "fle _ NaN = False"
| "fle (Fin x) (Fin y) = (x \<le> y)"
| "fle NInf _ = True" | "fle _ PInf = True"
| "fle PInf _ = False" | "fle _ NInf = False"

fun flt :: "f64 \<Rightarrow> f64 \<Rightarrow> bool" where
  "flt NaN _ = False" | "flt _ NaN = False"
| "flt (Fin x) (Fin y) = (x < y)"
| "flt NInf NInf = False" | "flt PInf PInf = False"
| "flt NInf _ = True" | "flt _ PInf = True"
| "flt PInf _ = False" | "flt _ NInf = False"

text \<open>\<open>f64::clamp\<close>.\<close>

definition fclamp :: "f64 \<Rightarrow> f64 \<Rightarrow> f64 \<Rightarrow> f64" where
  "fclamp x lo hi = (let y = (if flt x lo then lo else x) in if flt hi y then hi else y)"

text \<open>Facts that the component theories use: bounds by exact numbers, exact integers.\<close>

lemma rnd64_mono: "x \<le> y \<Longrightarrow> rnd64 x \<le> rnd64 y"
  unfolding rnd64_def by (rule rnd_mono) simp_all

lemma rnd64_idem [simp]: "rnd64 (rnd64 x) = rnd64 x"
  unfolding rnd64_def by (rule rnd_idem) simp

lemma rnd64_0 [simp]: "rnd64 0 = 0"
  by (simp add: rnd64_def)

lemma rnd64_dyadic: "\<bar>n\<bar> < 2 ^ 53 \<Longrightarrow> - 1074 \<le> e \<Longrightarrow> rnd64 (of_int n * 2 powi e) = of_int n * 2 powi e"
  unfolding rnd64_def by (rule rnd_exact) simp_all

lemma rnd64_int: "\<bar>n\<bar> < 2 ^ 53 \<Longrightarrow> rnd64 (of_int n) = of_int n"
  using rnd64_dyadic [of n 0] by simp

lemma rnd64_numeral [simp]:
  "numeral k < (2 ^ 53 :: int) \<Longrightarrow> rnd64 (numeral k) = numeral k"
  "numeral k < (2 ^ 53 :: int) \<Longrightarrow> rnd64 (- numeral k) = - numeral k"
  "rnd64 1 = 1" "rnd64 (- 1) = - 1"
  using rnd64_int [of "numeral k"] rnd64_int [of "- numeral k"] rnd64_int [of 1] rnd64_int [of "- 1"] by simp_all

lemma rnd64_bounds:
  assumes "of_int a \<le> x" "x \<le> of_int b" "\<bar>a\<bar> < 2 ^ 53" "\<bar>b\<bar> < 2 ^ 53"
  shows "of_int a \<le> rnd64 x \<and> rnd64 x \<le> of_int b"
  using rnd64_mono [OF assms(1)] rnd64_mono [OF assms(2)] rnd64_int [OF assms(3)] rnd64_int [OF assms(4)] by simp

lemma to_f64_Fin: "\<bar>rnd64 x\<bar> < 2 ^ 1024 \<Longrightarrow> to_f64 x = Fin (rnd64 x)"
  by (simp add: to_f64_def Let_def abs_less_iff)

lemma to_f64_small:
  assumes "\<bar>x\<bar> \<le> of_int (2 ^ 52)"
  shows "to_f64 x = Fin (rnd64 x)"
proof -
  have "of_int (- (2 ^ 52)) \<le> rnd64 x \<and> rnd64 x \<le> of_int (2 ^ 52)"
    using assms by (intro rnd64_bounds) (simp_all add: abs_le_iff)
  then have "\<bar>rnd64 x\<bar> \<le> 2 ^ 52" by (simp add: abs_le_iff)
  also have "(2 :: real) ^ 52 < 2 ^ 1024" by (rule power_strict_increasing) simp_all
  finally show ?thesis by (rule to_f64_Fin)
qed

end
