(* ===== verification/Score.thy ===== *)
theory Score
  imports F64
begin

text \<open>
  Peer scores (\<open>p2p_network/src/peer_manager/peerdb/score.rs\<close>): the score kept for each
  peer, the actions that lower it, its decay, and the state of a peer that follows from it.
  The factor by which a score decays after a number of seconds is
  \<open>(HALFLIFE_DECAY * secs as f64).exp()\<close>; the standard library leaves the precision of
  \<open>exp\<close> and \<open>ln\<close> open, so the factor is an argument \<open>decay\<close> of the definitions, and what is
  assumed of it is that it lies between 0 and 1.
\<close>

section \<open>Definitions\<close>

definition DEFAULT_SCORE :: f64 where "DEFAULT_SCORE = Fin 0"
definition MIN_SCORE_BEFORE_DISCONNECT :: f64 where "MIN_SCORE_BEFORE_DISCONNECT = Fin (- 20)"
definition MIN_SCORE_BEFORE_BAN :: f64 where "MIN_SCORE_BEFORE_BAN = Fin (- 50)"
definition MIN_VOLTAIRE_SCORE_BEFORE_BAN :: f64 where "MIN_VOLTAIRE_SCORE_BEFORE_BAN = Fin (- 60)"
definition MAX_SCORE :: f64 where "MAX_SCORE = Fin 100"
definition MIN_SCORE :: f64 where "MIN_SCORE = Fin (- 100)"
definition BANNED_BEFORE_DECAY :: duration where "BANNED_BEFORE_DECAY = secs (12 * 3600)"
definition GREYLIST_THRESHOLD :: f64 where "GREYLIST_THRESHOLD = Fin (- 16000)"
definition GOSSIPSUB_NEGATIVE_SCORE_WEIGHT :: f64 where
  "GOSSIPSUB_NEGATIVE_SCORE_WEIGHT = fdiv (fadd MIN_SCORE_BEFORE_DISCONNECT (Fin 1)) GREYLIST_THRESHOLD"
definition GOSSIPSUB_POSITIVE_SCORE_WEIGHT :: f64 where
  "GOSSIPSUB_POSITIVE_SCORE_WEIGHT = GOSSIPSUB_NEGATIVE_SCORE_WEIGHT"

datatype PeerAction = Fatal | LowToleranceError | MidToleranceError | HighToleranceError

datatype ReportSource = Gossipsub | RPC | Processor | SyncService | PeerManager

fun report_source_str :: "ReportSource \<Rightarrow> string" where
  "report_source_str Gossipsub = ''gossipsub''"
| "report_source_str RPC = ''rpc_error''"
| "report_source_str Processor = ''processor''"
| "report_source_str SyncService = ''sync''"
| "report_source_str PeerManager = ''peer_manager''"

fun peer_action_display :: "PeerAction \<Rightarrow> string" where
  "peer_action_display Fatal = ''Fatal''"
| "peer_action_display LowToleranceError = ''Low Tolerance Error''"
| "peer_action_display MidToleranceError = ''Mid Tolerance Error''"
| "peer_action_display HighToleranceError = ''High Tolerance Error''"

datatype ScoreState = Healthy | Disconnected | Banned

fun score_state_display :: "ScoreState \<Rightarrow> string" where
  "score_state_display ScoreState.Healthy = ''Healthy''"
| "score_state_display ScoreState.Banned = ''Banned''"
| "score_state_display ScoreState.Disconnected = ''Disconnected''"

record RealScore =
  voltaire_score :: f64
  gossipsub_score :: f64
  ignore_negative_gossipsub_score :: bool
  rs_score :: f64
  last_updated :: instant

definition real_score_default :: "instant \<Rightarrow> RealScore" where
  "real_score_default now =
     \<lparr>voltaire_score = DEFAULT_SCORE, gossipsub_score = DEFAULT_SCORE,
      ignore_negative_gossipsub_score = False, rs_score = DEFAULT_SCORE, last_updated = now\<rparr>"

definition recompute_score :: "RealScore \<Rightarrow> RealScore" where
  "recompute_score self =
     (let self = self\<lparr>rs_score := voltaire_score self\<rparr>
      in if fle (voltaire_score self) MIN_VOLTAIRE_SCORE_BEFORE_BAN then self
         else if fle (Fin 0) (gossipsub_score self)
         then self\<lparr>rs_score := fadd (rs_score self) (fmul (gossipsub_score self) GOSSIPSUB_POSITIVE_SCORE_WEIGHT)\<rparr>
         else if \<not> ignore_negative_gossipsub_score self
         then self\<lparr>rs_score := fadd (rs_score self) (fmul (gossipsub_score self) GOSSIPSUB_NEGATIVE_SCORE_WEIGHT)\<rparr>
         else self)"

definition update_state :: "RealScore \<Rightarrow> RealScore" where
  "update_state self =
     (let was_not_banned = flt MIN_SCORE_BEFORE_BAN (rs_score self);
          self = recompute_score self
      in if was_not_banned \<and> fle (rs_score self) MIN_SCORE_BEFORE_BAN
         then self\<lparr>last_updated := last_updated self + BANNED_BEFORE_DECAY\<rparr> else self)"

definition set_voltaire_score :: "RealScore \<Rightarrow> f64 \<Rightarrow> RealScore" where
  "set_voltaire_score self new_score = update_state (self\<lparr>voltaire_score := new_score\<rparr>)"

definition rs_add :: "RealScore \<Rightarrow> f64 \<Rightarrow> RealScore" where
  "rs_add self sc =
     (let new_score = fclamp (fadd (voltaire_score self) sc) MIN_SCORE MAX_SCORE
      in set_voltaire_score self new_score)"

fun rs_apply_peer_action :: "RealScore \<Rightarrow> PeerAction \<Rightarrow> RealScore" where
  "rs_apply_peer_action self Fatal = set_voltaire_score self MIN_SCORE"
| "rs_apply_peer_action self LowToleranceError = rs_add self (Fin (- 10))"
| "rs_apply_peer_action self MidToleranceError = rs_add self (Fin (- 5))"
| "rs_apply_peer_action self HighToleranceError = rs_add self (Fin (- 1))"

text \<open>\<open>checked_duration_since\<close> is \<open>None\<close> when \<open>last_updated\<close> lies in the future.\<close>

definition update_at :: "(nat \<Rightarrow> f64) \<Rightarrow> RealScore \<Rightarrow> instant \<Rightarrow> RealScore" where
  "update_at decay self now =
     (if last_updated self \<le> now
      then let secs_since_update = as_secs (now - last_updated self);
               decay_factor = decay secs_since_update
           in update_state (self\<lparr>voltaire_score := fmul (voltaire_score self) decay_factor,
                last_updated := now\<rparr>)
      else self)"

definition rs_update_gossipsub_score :: "RealScore \<Rightarrow> f64 \<Rightarrow> bool \<Rightarrow> instant \<Rightarrow> RealScore" where
  "rs_update_gossipsub_score self new_score ignore now =
     (if last_updated self \<le> now
      then update_state (self\<lparr>gossipsub_score := new_score, ignore_negative_gossipsub_score := ignore\<rparr>)
      else self)"

definition rs_is_good_gossipsub_peer :: "RealScore \<Rightarrow> bool" where
  "rs_is_good_gossipsub_peer self = fle (Fin 0) (gossipsub_score self)"

datatype Score = Max | Real RealScore

definition score_default :: "instant \<Rightarrow> Score" where
  "score_default now = Real (real_score_default now)"

text \<open>The methods that the macro \<open>apply!\<close> lifts to \<open>Score\<close>: \<open>Max\<close> never changes.\<close>

fun score_lift :: "(RealScore \<Rightarrow> RealScore) \<Rightarrow> Score \<Rightarrow> Score" where
  "score_lift f Max = Max"
| "score_lift f (Real rs) = Real (f rs)"

definition apply_peer_action :: "Score \<Rightarrow> PeerAction \<Rightarrow> Score" where
  "apply_peer_action self act = score_lift (\<lambda>rs. rs_apply_peer_action rs act) self"

definition score_update :: "(nat \<Rightarrow> f64) \<Rightarrow> Score \<Rightarrow> instant \<Rightarrow> Score" where
  "score_update decay self now = score_lift (\<lambda>rs. update_at decay rs now) self"

definition update_gossipsub_score :: "Score \<Rightarrow> f64 \<Rightarrow> bool \<Rightarrow> instant \<Rightarrow> Score" where
  "update_gossipsub_score self new_score ignore now =
     score_lift (\<lambda>rs. rs_update_gossipsub_score rs new_score ignore now) self"

fun score_value :: "Score \<Rightarrow> f64" where
  "score_value Max = PInf"
| "score_value (Real rs) = rs_score rs"

definition max_score :: Score where "max_score = Max"

definition score_state :: "Score \<Rightarrow> ScoreState" where
  "score_state self =
     (let x = score_value self
      in if fle x MIN_SCORE_BEFORE_BAN then ScoreState.Banned
         else if fle x MIN_SCORE_BEFORE_DISCONNECT then ScoreState.Disconnected
         else ScoreState.Healthy)"

fun is_good_gossipsub_peer :: "Score \<Rightarrow> bool" where
  "is_good_gossipsub_peer Max = True"
| "is_good_gossipsub_peer (Real rs) = rs_is_good_gossipsub_peer rs"

datatype Ordering = Less | Equal | Greater

fun f64_partial_cmp :: "f64 \<Rightarrow> f64 \<Rightarrow> Ordering option" where
  "f64_partial_cmp NaN _ = None"
| "f64_partial_cmp _ NaN = None"
| "f64_partial_cmp x y = Some (if flt x y then Less else if flt y x then Greater else Equal)"

definition score_partial_cmp :: "Score \<Rightarrow> Score \<Rightarrow> Ordering option" where
  "score_partial_cmp self other = f64_partial_cmp (score_value self) (score_value other)"

definition score_cmp :: "Score \<Rightarrow> Score \<Rightarrow> Ordering" where
  "score_cmp self other = unwrap_or (score_partial_cmp self other) Equal"

section \<open>The score of behaviour stays in range\<close>

definition score_ok :: "RealScore \<Rightarrow> bool" where
  "score_ok rs \<longleftrightarrow> (\<exists>v. voltaire_score rs = Fin v \<and> - 100 \<le> v \<and> v \<le> 100)"

lemma recompute_voltaire [simp]: "voltaire_score (recompute_score rs) = voltaire_score rs"
  by (simp add: recompute_score_def Let_def)

lemma recompute_gossip [simp]:
  "gossipsub_score (recompute_score rs) = gossipsub_score rs"
  "ignore_negative_gossipsub_score (recompute_score rs) = ignore_negative_gossipsub_score rs"
  "last_updated (recompute_score rs) = last_updated rs"
  by (simp_all add: recompute_score_def Let_def)

lemma update_state_fields [simp]:
  "voltaire_score (update_state rs) = voltaire_score rs"
  "gossipsub_score (update_state rs) = gossipsub_score rs"
  "ignore_negative_gossipsub_score (update_state rs) = ignore_negative_gossipsub_score rs"
  "rs_score (update_state rs) = rs_score (recompute_score rs)"
  by (simp_all add: update_state_def Let_def)

lemma fadd_small:
  "\<bar>x + y\<bar> \<le> 1000 \<Longrightarrow> fadd (Fin x) (Fin y) = Fin (rnd64 (x + y))"
  by (simp add: to_f64_small)

lemma rs_add_ok:
  assumes "score_ok rs" "\<bar>d\<bar> \<le> 100"
  shows "score_ok (rs_add rs (Fin d))"
proof -
  from assms(1) obtain v where v: "voltaire_score rs = Fin v" "- 100 \<le> v" "v \<le> 100"
    by (auto simp: score_ok_def)
  then have "fadd (voltaire_score rs) (Fin d) = Fin (rnd64 (v + d))"
    using assms(2) by (simp add: fadd_small del: fadd.simps)
  then show ?thesis
    by (simp add: score_ok_def rs_add_def set_voltaire_score_def fclamp_def MIN_SCORE_def MAX_SCORE_def Let_def)
qed

lemma apply_peer_action_ok: "score_ok rs \<Longrightarrow> score_ok (rs_apply_peer_action rs act)"
proof (cases act)
  case Fatal
  then show ?thesis by (simp add: score_ok_def set_voltaire_score_def MIN_SCORE_def)
qed (simp_all add: rs_add_ok)

lemma scale_bounds:
  assumes "- 100 \<le> v" "v \<le> 100" "0 \<le> d" "d \<le> (1 :: real)"
  shows "- 100 \<le> rnd64 (v * d) \<and> rnd64 (v * d) \<le> 100"
proof -
  have "\<bar>v * d\<bar> \<le> 100 * 1" unfolding abs_mult by (rule mult_mono) (use assms in auto)
  then have "of_int (- 100) \<le> v * d" "v * d \<le> of_int 100" by simp_all
  from rnd64_bounds [OF this] show ?thesis by simp
qed

definition unit_factor :: "(nat \<Rightarrow> f64) \<Rightarrow> bool" where
  "unit_factor decay \<longleftrightarrow> (\<forall>s. \<exists>d. decay s = Fin d \<and> 0 \<le> d \<and> d \<le> 1)"

lemma update_at_ok:
  assumes "score_ok rs" "unit_factor decay"
  shows "score_ok (update_at decay rs now)"
proof -
  from assms(1) obtain v where v: "voltaire_score rs = Fin v" "- 100 \<le> v" "v \<le> 100"
    by (auto simp: score_ok_def)
  obtain d where d: "decay (as_secs (now - last_updated rs)) = Fin d" "0 \<le> d" "d \<le> 1"
    using assms(2) unfolding unit_factor_def by blast
  have "\<bar>v * d\<bar> \<le> 100 * 1" unfolding abs_mult by (rule mult_mono) (use v d in auto)
  then have "to_f64 (v * d) = Fin (rnd64 (v * d))" by (intro to_f64_small) simp
  with v d scale_bounds [OF v(2,3) d(2,3)] show ?thesis
    using assms(1) by (simp add: update_at_def Let_def score_ok_def)
qed

text \<open>The weight of gossipsub scores, \<open>19/16000\<close> rounded, between two exact numbers.\<close>

lemma weight_bounds:
  obtains w where "GOSSIPSUB_NEGATIVE_SCORE_WEIGHT = Fin w" "155 / 131072 \<le> w" "w \<le> 156 / 131072"
proof -
  have dy: "rnd64 (of_int n / 131072) = of_int n / 131072" if "\<bar>n\<bar> < 2 ^ 53" for n
    using rnd64_dyadic [OF that, of "- 17"] by (simp add: power_int_def field_simps)
  have lo: "155 / 131072 \<le> rnd64 (19 / 16000)" and hi: "rnd64 (19 / 16000) \<le> 156 / 131072"
    using rnd64_mono [of "of_int 155 / 131072" "19 / 16000"] dy [of 155]
      rnd64_mono [of "19 / 16000" "of_int 156 / 131072"] dy [of 156] by simp_all
  have "to_f64 (19 / 16000) = Fin (rnd64 (19 / 16000))" by (rule to_f64_small) simp
  then have "GOSSIPSUB_NEGATIVE_SCORE_WEIGHT = Fin (rnd64 (19 / 16000))"
    by (simp add: GOSSIPSUB_NEGATIVE_SCORE_WEIGHT_def MIN_SCORE_BEFORE_DISCONNECT_def GREYLIST_THRESHOLD_def
        to_f64_small)
  with lo hi that show thesis by blast
qed

lemma recompute_no_gossip:
  assumes "gossipsub_score rs = Fin 0" "voltaire_score rs = Fin (of_int v)" "\<bar>v\<bar> \<le> 100"
  shows "rs_score (recompute_score rs) = Fin (of_int v)"
proof -
  obtain w where w: "GOSSIPSUB_NEGATIVE_SCORE_WEIGHT = Fin w" by (rule weight_bounds)
  have "fadd (Fin (of_int v)) (fmul (Fin 0) (Fin w)) = Fin (of_int v)"
    using assms(3) rnd64_int [of v] by (simp add: to_f64_small)
  then show ?thesis
    using assms(1,2) w
    by (simp add: recompute_score_def Let_def GOSSIPSUB_POSITIVE_SCORE_WEIGHT_def del: fadd.simps fmul.simps)
qed

fun action_cost :: "PeerAction \<Rightarrow> int" where
  "action_cost Fatal = 100"
| "action_cost LowToleranceError = 10"
| "action_cost MidToleranceError = 5"
| "action_cost HighToleranceError = 1"

lemma apply_action_int:
  assumes "voltaire_score rs = Fin (of_int v)" "- 100 \<le> v" "v \<le> 0"
  shows "voltaire_score (rs_apply_peer_action rs act) =
    Fin (of_int (max (- 100) (if act = Fatal then - 100 else v - action_cost act)))"
proof (cases act)
  case Fatal
  then show ?thesis by (simp add: set_voltaire_score_def MIN_SCORE_def)
next
  case LowToleranceError
  have "fadd (Fin (of_int v)) (Fin (- 10)) = Fin (of_int (v - 10))"
    using assms rnd64_int [of "v - 10"] by (simp add: to_f64_small)
  with assms LowToleranceError show ?thesis
    by (simp add: rs_add_def set_voltaire_score_def fclamp_def MIN_SCORE_def MAX_SCORE_def Let_def del: fadd.simps)
next
  case MidToleranceError
  have "fadd (Fin (of_int v)) (Fin (- 5)) = Fin (of_int (v - 5))"
    using assms rnd64_int [of "v - 5"] by (simp add: to_f64_small)
  with assms MidToleranceError show ?thesis
    by (simp add: rs_add_def set_voltaire_score_def fclamp_def MIN_SCORE_def MAX_SCORE_def Let_def del: fadd.simps)
next
  case HighToleranceError
  have "fadd (Fin (of_int v)) (Fin (- 1)) = Fin (of_int (v - 1))"
    using assms rnd64_int [of "v - 1"] by (simp add: to_f64_small)
  with assms HighToleranceError show ?thesis
    by (simp add: rs_add_def set_voltaire_score_def fclamp_def MIN_SCORE_def MAX_SCORE_def Let_def del: fadd.simps)
qed

lemma apply_action_gossip [simp]: "gossipsub_score (rs_apply_peer_action rs act) = gossipsub_score rs"
  by (cases act) (simp_all add: rs_add_def set_voltaire_score_def Let_def)

lemma apply_action_score: "rs_score (rs_apply_peer_action rs act) = rs_score (recompute_score (rs_apply_peer_action rs act))"
  by (cases act) (simp_all add: rs_add_def set_voltaire_score_def Let_def recompute_score_def update_state_def)

lemma repeated_action:
  assumes "act \<noteq> Fatal"
  shows "let rs = ((\<lambda>rs. rs_apply_peer_action rs act) ^^ n) (real_score_default now) in
    gossipsub_score rs = Fin 0 \<and> voltaire_score rs = Fin (of_int (max (- 100) (- (action_cost act * int n)))) \<and>
    rs_score rs = Fin (of_int (max (- 100) (- (action_cost act * int n))))"
proof (induction n)
  case 0
  then show ?case by (simp add: real_score_default_def DEFAULT_SCORE_def)
next
  case (Suc n)
  define rs where "rs = ((\<lambda>rs. rs_apply_peer_action rs act) ^^ n) (real_score_default now)"
  have cost: "0 < action_cost act" using assms by (cases act) simp_all
  let ?v = "max (- 100) (- (action_cost act * int n))" and ?w = "max (- 100) (- (action_cost act * int (Suc n)))"
  have IH: "gossipsub_score rs = Fin 0" "voltaire_score rs = Fin (of_int ?v)"
    using Suc by (simp_all add: rs_def Let_def)
  have "max (- 100) (?v - action_cost act) = ?w" using cost by (simp add: algebra_simps max_def)
  then have v: "voltaire_score (rs_apply_peer_action rs act) = Fin (of_int ?w)"
    using apply_action_int [OF IH(2), of act] assms cost by simp
  have "\<bar>?w\<bar> \<le> 100" using cost by simp
  then have "rs_score (rs_apply_peer_action rs act) = Fin (of_int ?w)"
    using recompute_no_gossip [of "rs_apply_peer_action rs act" ?w] IH(1) v by (subst apply_action_score) simp
  with v IH show ?case by (simp add: rs_def Let_def)
qed

section \<open>Properties\<close>

datatype score_op = Act PeerAction | Decay instant | GossipScore f64 bool instant

fun score_exec :: "(nat \<Rightarrow> f64) \<Rightarrow> RealScore \<Rightarrow> score_op \<Rightarrow> RealScore" where
  "score_exec decay rs (Act a) = rs_apply_peer_action rs a"
| "score_exec decay rs (Decay now) = update_at decay rs now"
| "score_exec decay rs (GossipScore g ignore now) = rs_update_gossipsub_score rs g ignore now"

text \<open>
  C28. The behaviour score stays a number in \<open>[-100, 100]\<close>: never NaN and never infinite,
  whatever actions, decays and gossipsub scores (even infinite or NaN) a peer receives in
  whatever order, as long as the decay factor is between 0 and 1.
\<close>

theorem score_stays_in_range:
  assumes "unit_factor decay"
  shows "\<exists>v. voltaire_score (foldl (score_exec decay) (real_score_default now) ops) = Fin v \<and> - 100 \<le> v \<and> v \<le> 100"
proof -
  have step: "score_ok (score_exec decay rs x)" if "score_ok rs" for rs x
  proof (cases x)
    case (GossipScore g i n)
    with that show ?thesis by (simp add: rs_update_gossipsub_score_def score_ok_def)
  qed (simp_all add: that apply_peer_action_ok update_at_ok [OF that assms])
  have "score_ok (foldl (score_exec decay) rs ops)" if "score_ok rs" for rs
    using that by (induction ops arbitrary: rs) (simp_all add: step)
  moreover have "score_ok (real_score_default now)"
    by (simp add: score_ok_def real_score_default_def DEFAULT_SCORE_def)
  ultimately show ?thesis unfolding score_ok_def by blast
qed

theorem score_stays_in_range_witness:
  "\<exists>v. voltaire_score (foldl (score_exec (\<lambda>s. if s = 0 then Fin 1 else Fin (1 / 2))) (real_score_default 0)
     [Act LowToleranceError, GossipScore NaN False 3, Decay 7000000000, Act Fatal]) = Fin v \<and> - 100 \<le> v \<and> v \<le> 100"
proof (rule score_stays_in_range, unfold unit_factor_def, rule allI)
  fix s :: nat
  show "\<exists>d. (if s = 0 then Fin 1 else Fin (1 / 2)) = Fin d \<and> 0 \<le> d \<and> d \<le> 1"
    by (intro exI [of _ "if s = 0 then 1 else 1 / 2"]) simp
qed

lemma score_state_int:
  "rs_score rs = Fin (of_int k) \<Longrightarrow> score_state (Real rs) =
    (if k \<le> - 50 then ScoreState.Banned else if k \<le> - 20 then ScoreState.Disconnected else ScoreState.Healthy)"
  by (simp add: score_state_def MIN_SCORE_BEFORE_BAN_def MIN_SCORE_BEFORE_DISCONNECT_def)

text \<open>
  C29. The tolerances. Repeating one kind of error, a new peer is banned at exactly the
  5th low, 10th mid and 50th high tolerance error, as the comments of \<open>PeerAction\<close> say, and
  is to be disconnected from the 2nd, 4th and 20th on.
\<close>

theorem tolerance_counts:
  assumes "act \<noteq> Fatal"
  shows "score_state (((\<lambda>s. apply_peer_action s act) ^^ n) (score_default now)) =
    (if 50 \<le> action_cost act * int n then ScoreState.Banned
     else if 20 \<le> action_cost act * int n then ScoreState.Disconnected else ScoreState.Healthy)"
proof -
  have "((\<lambda>s. apply_peer_action s act) ^^ n) (score_default now) =
      Real (((\<lambda>rs. rs_apply_peer_action rs act) ^^ n) (real_score_default now))"
    by (induction n) (simp_all add: score_default_def apply_peer_action_def)
  moreover have "rs_score (((\<lambda>rs. rs_apply_peer_action rs act) ^^ n) (real_score_default now)) =
      Fin (of_int (max (- 100) (- (action_cost act * int n))))"
    using repeated_action [OF assms, of n now] by (simp add: Let_def)
  ultimately show ?thesis by (simp only: score_state_int) auto
qed

theorem tolerance_counts_witness:
  "score_state (((\<lambda>s. apply_peer_action s LowToleranceError) ^^ 5) (score_default 0)) = ScoreState.Banned \<and>
   score_state (((\<lambda>s. apply_peer_action s MidToleranceError) ^^ 9) (score_default 0)) = ScoreState.Disconnected \<and>
   score_state (((\<lambda>s. apply_peer_action s HighToleranceError) ^^ 19) (score_default 0)) = ScoreState.Healthy"
  using tolerance_counts [of LowToleranceError 5 0] tolerance_counts [of MidToleranceError 9 0]
    tolerance_counts [of HighToleranceError 19 0] by simp

text \<open>
  C30. A fatal action bans a peer, whatever its scores are. If the peer was not banned before, the time
  of the last update of its score moves twelve hours ahead; a peer that was banned already gets no
  extension. Up to that time neither a decay nor a gossipsub score changes the score, so the ban lasts
  until twelve hours after the update that preceded the action, not after the action itself.
\<close>

theorem fatal_action_bans:
  shows "let rs' = rs_apply_peer_action rs Fatal in
    score_state (Real rs') = ScoreState.Banned \<and>
    last_updated rs' = last_updated rs + (if flt MIN_SCORE_BEFORE_BAN (rs_score rs) then secs (12 * 3600) else 0) \<and>
    (\<forall>now < last_updated rs'. update_at decay rs' now = rs' \<and> rs_update_gossipsub_score rs' g ignore now = rs')"
proof -
  define rs' where "rs' = rs_apply_peer_action rs Fatal"
  have sc: "rs_score rs' = Fin (- 100)"
    by (simp add: rs'_def set_voltaire_score_def recompute_score_def MIN_SCORE_def
        MIN_VOLTAIRE_SCORE_BEFORE_BAN_def Let_def)
  then have banned: "score_state (Real rs') = ScoreState.Banned"
    by (simp add: score_state_def MIN_SCORE_BEFORE_BAN_def)
  have "last_updated rs' = last_updated rs + (if flt MIN_SCORE_BEFORE_BAN (rs_score rs) then secs (12 * 3600) else 0)"
    by (simp add: rs'_def set_voltaire_score_def update_state_def MIN_SCORE_BEFORE_BAN_def
        BANNED_BEFORE_DECAY_def Let_def recompute_score_def MIN_SCORE_def MIN_VOLTAIRE_SCORE_BEFORE_BAN_def)
  with banned show ?thesis
    unfolding rs'_def [symmetric] Let_def by (simp add: update_at_def rs_update_gossipsub_score_def)
qed

theorem fatal_action_bans_witness:
  "let rs' = rs_apply_peer_action (real_score_default 0) Fatal in
    score_state (Real rs') = ScoreState.Banned \<and> last_updated rs' = 43200000000000 \<and>
    update_at (\<lambda>_. Fin 0) rs' 43199000000000 = rs' \<and>
    rs_update_gossipsub_score rs' (Fin 50000) True 43199000000000 = rs'"
  using fatal_action_bans [of "real_score_default 0" "\<lambda>_. Fin 0" "Fin 50000" True]
  by (simp add: Let_def real_score_default_def DEFAULT_SCORE_def MIN_SCORE_BEFORE_BAN_def secs_def)

text \<open>
  C31. Gossipsub scores. For a peer with no behaviour penalty, a gossipsub score down to the
  greylist threshold never leads to a disconnect. Below about \<open>-17000\<close> it does, although
  the comment on the weight says that negative gossipsub scores never do so by themselves.
\<close>

theorem gossip_alone:
  assumes "voltaire_score rs = Fin 0" "g \<le> 0" "- 100000 \<le> g"
  shows "let s = Real (update_state (rs\<lparr>gossipsub_score := Fin g, ignore_negative_gossipsub_score := False\<rparr>)) in
    (- 16000 \<le> g \<longrightarrow> score_state s = ScoreState.Healthy) \<and>
    (g \<le> - 17000 \<longrightarrow> score_state s \<noteq> ScoreState.Healthy)"
proof -
  obtain w where w: "GOSSIPSUB_NEGATIVE_SCORE_WEIGHT = Fin w" "155 / 131072 \<le> w" "w \<le> 156 / 131072"
    by (rule weight_bounds)
  have gw: "g * (156 / 131072) \<le> g * w" "g * w \<le> g * (155 / 131072)"
    by (rule mult_left_mono_neg [OF w(3) assms(2)], rule mult_left_mono_neg [OF w(2) assms(2)])
  then have small: "\<bar>g * w\<bar> \<le> 200" using assms(2,3) by (simp add: abs_le_iff)
  have r: "\<bar>rnd64 (g * w)\<bar> \<le> 200"
    using rnd64_bounds [of "- 200" "g * w" 200] small by (simp add: abs_le_iff)
  define v where "v = rnd64 (0 + rnd64 (g * w))"
  define rs' where "rs' = rs\<lparr>gossipsub_score := Fin g, ignore_negative_gossipsub_score := False\<rparr>"
  have "fadd (Fin 0) (fmul (Fin g) (Fin w)) = Fin v"
    using small r by (simp add: to_f64_small v_def)
  then have sc: "score_value (Real (update_state rs')) = Fin v"
    using assms(1,2) w(1)
    by (auto simp: rs'_def recompute_score_def GOSSIPSUB_POSITIVE_SCORE_WEIGHT_def
        MIN_VOLTAIRE_SCORE_BEFORE_BAN_def Let_def simp del: fadd.simps fmul.simps)
  have "- 19 - 1 / 2 \<le> v" if "- 16000 \<le> g"
  proof -
    have ex: "rnd64 (- 39 / 2) = - 39 / 2" using rnd64_dyadic [of "- 39" "- 1"] by (simp add: power_int_def)
    have "- 39 / 2 \<le> g * (156 / 131072)" using that by simp
    with gw(1) have "- 39 / 2 \<le> g * w" by linarith
    from rnd64_mono [OF rnd64_mono [OF this]] ex show ?thesis by (simp add: v_def)
  qed
  moreover have "v \<le> - 20" if "g \<le> - 17000"
  proof -
    have "g * (155 / 131072) \<le> - 20" using that by simp
    with gw(2) have "g * w \<le> - 20" by linarith
    from rnd64_mono [OF rnd64_mono [OF this]] show ?thesis by (simp add: v_def)
  qed
  ultimately show ?thesis
    unfolding rs'_def [symmetric]
    by (simp only: score_state_def sc MIN_SCORE_BEFORE_BAN_def MIN_SCORE_BEFORE_DISCONNECT_def Let_def) auto
qed

theorem gossip_alone_witness:
  "score_state (Real (update_state ((real_score_default 0)\<lparr>gossipsub_score := Fin (- 16000), ignore_negative_gossipsub_score := False\<rparr>)))
     = ScoreState.Healthy \<and>
   score_state (Real (update_state ((real_score_default 0)\<lparr>gossipsub_score := Fin (- 17000), ignore_negative_gossipsub_score := False\<rparr>)))
     \<noteq> ScoreState.Healthy"
  using gossip_alone [of "real_score_default 0" "- 16000"] gossip_alone [of "real_score_default 0" "- 17000"]
  by (simp add: real_score_default_def DEFAULT_SCORE_def Let_def)

section \<open>Decay never worsens a score\<close>

definition score_inv :: "RealScore \<Rightarrow> bool" where
  "score_inv rs \<longleftrightarrow> (\<exists>v. voltaire_score rs = Fin v \<and> - 100 \<le> v \<and> v \<le> 0 \<and> rnd64 v = v) \<and>
     rs_score rs = rs_score (recompute_score rs)"

lemma update_state_recomputed: "rs_score (update_state rs) = rs_score (recompute_score (update_state rs))"
  by (simp add: recompute_score_def update_state_def Let_def)

lemma recompute_last_updated [simp]: "rs_score (recompute_score (rs\<lparr>last_updated := t\<rparr>)) = rs_score (recompute_score rs)"
  by (simp add: recompute_score_def Let_def)

lemma set_voltaire_inv:
  "- 100 \<le> v \<Longrightarrow> v \<le> 0 \<Longrightarrow> rnd64 v = v \<Longrightarrow> score_inv (set_voltaire_score rs (Fin v))"
  unfolding score_inv_def set_voltaire_score_def using update_state_recomputed by auto

lemma rs_add_inv:
  assumes "score_inv rs" "- 100 \<le> d" "d \<le> 0"
  shows "score_inv (rs_add rs (Fin d))"
proof -
  from assms(1) obtain v where v: "voltaire_score rs = Fin v" "- 100 \<le> v" "v \<le> 0"
    by (auto simp: score_inv_def)
  have neg: "rnd64 (v + d) \<le> 0" using rnd64_mono [of "v + d" 0] v assms by simp
  have "fadd (voltaire_score rs) (Fin d) = Fin (rnd64 (v + d))"
    using v assms by (simp add: fadd_small del: fadd.simps)
  then have "rs_add rs (Fin d) = set_voltaire_score rs (Fin (max (- 100) (rnd64 (v + d))))"
    using neg by (simp add: rs_add_def fclamp_def MIN_SCORE_def MAX_SCORE_def Let_def max_def del: fadd.simps)
  moreover have "rnd64 (max (- 100) (rnd64 (v + d))) = max (- 100) (rnd64 (v + d))"
    by (simp add: max_def)
  ultimately show ?thesis using neg by (simp add: set_voltaire_inv)
qed

lemma update_at_voltaire:
  assumes "voltaire_score rs = Fin v" "- 100 \<le> v" "v \<le> 0" "rnd64 v = v" "unit_factor decay" "last_updated rs \<le> now"
  obtains v' where "voltaire_score (update_at decay rs now) = Fin v'" "v \<le> v'" "v' \<le> 0" "rnd64 v' = v'"
    "update_at decay rs now = update_state (rs\<lparr>voltaire_score := Fin v', last_updated := now\<rparr>)"
proof -
  obtain d where d: "decay (as_secs (now - last_updated rs)) = Fin d" "0 \<le> d" "d \<le> 1"
    using assms(5) unfolding unit_factor_def by blast
  have vd: "v \<le> v * d" "v * d \<le> 0"
    using assms(3) d mult_left_mono_neg [of d 1 v] by (simp_all add: mult_nonpos_nonneg)
  then have "to_f64 (v * d) = Fin (rnd64 (v * d))" using assms(2) by (intro to_f64_small) simp
  moreover have "v \<le> rnd64 (v * d)" using rnd64_mono [OF vd(1)] assms(4) by simp
  moreover have "rnd64 (v * d) \<le> 0" using rnd64_mono [OF vd(2)] by simp
  ultimately show thesis
    using that [of "rnd64 (v * d)"] assms(1,6) d by (simp add: update_at_def Let_def)
qed

lemma score_exec_inv:
  assumes "score_inv rs" "unit_factor decay"
  shows "score_inv (score_exec decay rs x)"
proof (cases x)
  case (Act a)
  show ?thesis
  proof (cases a)
    case Fatal
    with Act set_voltaire_inv [of "- 100"] show ?thesis by (simp add: MIN_SCORE_def)
  qed (simp_all add: Act rs_add_inv assms)
next
  case (Decay now)
  obtain v where v: "voltaire_score rs = Fin v" "- 100 \<le> v" "v \<le> 0" "rnd64 v = v"
    using assms(1) by (auto simp: score_inv_def)
  show ?thesis
  proof (cases "last_updated rs \<le> now")
    case True
    from update_at_voltaire [OF v assms(2) True] obtain v' where
      "v \<le> v'" "v' \<le> 0" "rnd64 v' = v'"
      "update_at decay rs now = update_state (rs\<lparr>voltaire_score := Fin v', last_updated := now\<rparr>)" by blast
    with v update_state_recomputed show ?thesis by (auto simp: Decay score_inv_def)
  qed (simp add: Decay update_at_def assms)
next
  case (GossipScore g i n)
  with assms(1) update_state_recomputed show ?thesis
    by (auto simp: score_inv_def rs_update_gossipsub_score_def)
qed

lemma fadd_mono_threshold: "v \<le> v' \<Longrightarrow> fle (fadd (Fin v') x) (Fin c) \<Longrightarrow> fle (fadd (Fin v) x) (Fin c)"
proof (cases x)
  case (Fin y)
  assume "v \<le> v'" "fle (fadd (Fin v') x) (Fin c)"
  then show ?thesis
    using Fin rnd64_mono [of "v + y" "v' + y"] by (auto simp: to_f64_def Let_def split: if_splits)
qed auto

lemma recompute_mono_threshold:
  assumes "voltaire_score rs = Fin v" "voltaire_score rs' = Fin v'" "v \<le> v'" "- 60 \<le> c"
    and "gossipsub_score rs' = gossipsub_score rs"
    and "ignore_negative_gossipsub_score rs' = ignore_negative_gossipsub_score rs"
    and "fle (rs_score (recompute_score rs')) (Fin c)"
  shows "fle (rs_score (recompute_score rs)) (Fin c)"
  using assms(7) fadd_mono_threshold [OF assms(3)] assms(1-4)
  by (auto simp: recompute_score_def Let_def assms(5,6) MIN_VOLTAIRE_SCORE_BEFORE_BAN_def
      simp del: fadd.simps split: if_splits)

lemma score_inv_default: "score_inv (real_score_default t0)"
  using recompute_no_gossip [of "real_score_default t0" 0]
  by (simp add: score_inv_def real_score_default_def DEFAULT_SCORE_def)

text \<open>Decaying a score leaves a healthy peer healthy and does not ban a peer that was not banned.\<close>

lemma update_at_never_worsens:
  assumes "unit_factor decay" "score_inv rs"
  shows "score_state (Real rs) = ScoreState.Healthy \<Longrightarrow> score_state (Real (update_at decay rs now)) = ScoreState.Healthy"
    and "score_state (Real rs) \<noteq> ScoreState.Banned \<Longrightarrow> score_state (Real (update_at decay rs now)) \<noteq> ScoreState.Banned"
proof -
  obtain v where v: "voltaire_score rs = Fin v" "- 100 \<le> v" "v \<le> 0" "rnd64 v = v"
    and sc: "rs_score rs = rs_score (recompute_score rs)" using assms(2) by (auto simp: score_inv_def)
  have "fle (rs_score rs) (Fin c)" if "- 60 \<le> c" "fle (rs_score (update_at decay rs now)) (Fin c)" for c
  proof (cases "last_updated rs \<le> now")
    case True
    from update_at_voltaire [OF v assms(1) True] obtain v' where
      v': "v \<le> v'" "update_at decay rs now = update_state (rs\<lparr>voltaire_score := Fin v', last_updated := now\<rparr>)" by blast
    from recompute_mono_threshold [OF v(1) _ v'(1) that(1), of "rs\<lparr>voltaire_score := Fin v', last_updated := now\<rparr>"]
      that(2) v'(2) sc show ?thesis by simp
  next
    case False
    with that show ?thesis by (simp add: update_at_def)
  qed
  from this [of "- 50"] this [of "- 20"]
  show "score_state (Real rs) = ScoreState.Healthy \<Longrightarrow> score_state (Real (update_at decay rs now)) = ScoreState.Healthy"
    and "score_state (Real rs) \<noteq> ScoreState.Banned \<Longrightarrow> score_state (Real (update_at decay rs now)) \<noteq> ScoreState.Banned"
    by (auto simp: score_state_def MIN_SCORE_BEFORE_BAN_def MIN_SCORE_BEFORE_DISCONNECT_def Let_def split: if_splits)
qed

lemma fatal_is_banned: "score_state (apply_peer_action (Real rs) Fatal) = ScoreState.Banned"
  by (simp add: apply_peer_action_def set_voltaire_score_def score_state_def update_state_def recompute_score_def
      MIN_SCORE_def MIN_VOLTAIRE_SCORE_BEFORE_BAN_def MIN_SCORE_BEFORE_BAN_def Let_def)

end
