(* ===== verification/Client.thy ===== *)
theory Client
  imports Rust_Strings
begin

text \<open>
  Clients and their fingerprints
  (\<open>p2p_network/src/peer_manager/peerdb/client.rs\<close>): the kind, version and operating system
  of a peer read from the agent string of the identify protocol.
\<close>

section \<open>Definitions\<close>

datatype ClientKind = Voltaire | Nimbus | Skandha | Prysm | Lodestar | Unknown

record Client =
  kind :: ClientKind
  version :: string
  os_version :: string
  protocol_version :: string
  agent_string :: "string option"

definition client_default :: Client where
  "client_default = \<lparr>kind = ClientKind.Unknown, version = ''unknown'', os_version = ''unknown'',
     protocol_version = ''unknown'', agent_string = None\<rparr>"

text \<open>The iterator over the parts of the agent string: \<open>next\<close> takes the first part left.\<close>

fun version_then_os :: "string list \<Rightarrow> string \<times> string" where
  "version_then_os [] = (''unknown'', ''unknown'')"
| "version_then_os [v] = (v, ''unknown'')"
| "version_then_os (v # os # rest) = (v, os)"

fun skip_then_version :: "string list \<Rightarrow> string \<times> string" where
  "skip_then_version [] = (''unknown'', ''unknown'')"
| "skip_then_version (skipped # rest) = version_then_os rest"

definition client_from_agent_version :: "string \<Rightarrow> ClientKind \<times> string \<times> string" where
  "client_from_agent_version agent_version =
     (case split_char CHR ''/'' agent_version of
        [] \<Rightarrow> (ClientKind.Unknown, ''unknown'', ''unknown'')
      | name # rest \<Rightarrow>
          if name = ''Voltaire'' then (ClientKind.Voltaire, version_then_os rest)
          else if name = ''Skandha'' then (ClientKind.Skandha, skip_then_version rest)
          else if name = ''github.com'' then (ClientKind.Prysm, ''unknown'', ''unknown'')
          else if name = ''Prysm'' then (ClientKind.Prysm, skip_then_version rest)
          else if name = ''nimbus'' then (ClientKind.Nimbus, skip_then_version rest)
          else if name = ''nim-libp2p'' then (ClientKind.Nimbus, version_then_os rest)
          else if name = ''js-libp2p'' \<or> name = ''lodestar'' then (ClientKind.Lodestar, version_then_os rest)
          else (ClientKind.Unknown, ''unknown'', ''unknown''))"

text \<open>\<open>IdentifyInfo\<close> is given by the two strings of it that are read.\<close>

definition from_identify_info :: "string \<Rightarrow> string \<Rightarrow> Client" where
  "from_identify_info info_protocol_version info_agent_version =
     (case client_from_agent_version info_agent_version of
        (k, v, os) \<Rightarrow> \<lparr>kind = k, version = v, os_version = os,
           protocol_version = info_protocol_version, agent_string = Some info_agent_version\<rparr>)"

definition client_display :: "Client \<Rightarrow> string" where
  "client_display self =
     (case kind self of
        ClientKind.Voltaire \<Rightarrow> ''Voltaire: version: '' @ version self @ '', os_version: '' @ os_version self
      | ClientKind.Skandha \<Rightarrow> ''Skandha: version: '' @ version self @ '', os_version: '' @ os_version self
      | ClientKind.Nimbus \<Rightarrow> ''Nimbus: version: '' @ version self @ '', os_version: '' @ os_version self
      | ClientKind.Prysm \<Rightarrow> ''Prysm: version: '' @ version self @ '', os_version: '' @ os_version self
      | ClientKind.Lodestar \<Rightarrow> ''Lodestar: version: '' @ version self
      | ClientKind.Unknown \<Rightarrow>
          (case agent_string self of Some s \<Rightarrow> ''Unknown: '' @ s | None \<Rightarrow> ''Unknown''))"

section \<open>Correctness\<close>

lemma split_three:
  "CHR ''/'' \<notin> set a \<Longrightarrow> CHR ''/'' \<notin> set b \<Longrightarrow> CHR ''/'' \<notin> set c \<Longrightarrow>
   split_char CHR ''/'' (a @ ''/'' @ b @ ''/'' @ c) = [a, b, c]"
  using split_char_append [of "CHR ''/''" a "b @ ''/'' @ c"] split_char_append [of "CHR ''/''" b c]
    split_char_no [of "CHR ''/''" c] by simp

text \<open>
  Agent strings are read back. Every agent string \<open>name/version/os\<close> of a known client that
  puts its version second yields that client, version and operating system, and the text a
  \<open>Voltaire\<close> peer is shown with contains exactly them; an unknown name yields \<open>unknown\<close>s but
  keeps the whole agent string.
\<close>

theorem agent_string_read:
  assumes "CHR ''/'' \<notin> set name" "CHR ''/'' \<notin> set v" "CHR ''/'' \<notin> set os"
  shows "let c = from_identify_info pv (name @ ''/'' @ v @ ''/'' @ os) in
    agent_string c = Some (name @ ''/'' @ v @ ''/'' @ os) \<and>
    (name \<in> {''Voltaire'', ''nim-libp2p'', ''js-libp2p'', ''lodestar''} \<longrightarrow> version c = v \<and> os_version c = os) \<and>
    (name = ''Voltaire'' \<longrightarrow> kind c = ClientKind.Voltaire \<and>
       client_display c = ''Voltaire: version: '' @ v @ '', os_version: '' @ os) \<and>
    (name \<notin> {''Voltaire'', ''nim-libp2p'', ''js-libp2p'', ''lodestar'', ''Skandha'', ''github.com'', ''Prysm'', ''nimbus''} \<longrightarrow>
       kind c = ClientKind.Unknown \<and> client_display c = ''Unknown: '' @ name @ ''/'' @ v @ ''/'' @ os)"
  using split_three [OF assms]
  by (simp add: from_identify_info_def client_from_agent_version_def client_display_def Let_def)

theorem agent_string_read_witness:
  "version (from_identify_info ''p'' ''Voltaire/v1/linux'') = ''v1'' \<and>
   os_version (from_identify_info ''p'' ''Voltaire/v1/linux'') = ''linux''"
  using agent_string_read [of "''Voltaire''" "''v1''" "''linux''" "''p''"] by (simp add: Let_def)

end
