(* ===== verification/Peer_Info.thy ===== *)
theory Peer_Info
  imports Score Client Rpc_Methods
begin

text \<open>
  What is stored about a peer (\<open>p2p_network/src/peer_manager/peerdb/peer_info.rs\<close>). A
  \<open>Multiaddr\<close> of libp2p is the list of its components, of which only the IP addresses are
  told apart here; the set of seen addresses is a list without duplicates, in the order in
  which the hash set is iterated. The ENR is an opaque value of type \<open>'enr\<close>.
\<close>

section \<open>Definitions\<close>

datatype IpAddr = V4 u32 | V6 "128 word"

datatype MaProtocol = Ip4 u32 | Ip6 "128 word" | Tcp u16 | Udp u16 | QuicV1 | P2p "u8 list" | OtherProtocol string

type_synonym Multiaddr = "MaProtocol list"

datatype Subnet = Mempool string

record SubnetDiscovery =
  sd_subnet :: Subnet
  sd_min_ttl :: "instant option"

definition subnet_discovery_eq :: "SubnetDiscovery \<Rightarrow> SubnetDiscovery \<Rightarrow> bool" where
  "subnet_discovery_eq self other = (sd_subnet self = sd_subnet other)"

datatype ConnectionDirection = Incoming | Outgoing

datatype PeerConnectionStatus =
    Connected u8 u8
  | Disconnecting bool
  | Disconnected instant
  | Banned instant
  | Dialing instant
  | Unknown

record 'enr PeerInfo =
  pi_score :: Score
  pi_client :: Client
  connection_status :: PeerConnectionStatus
  listening_addresses :: "Multiaddr list"
  seen_multiaddrs :: "Multiaddr list"
  meta_data :: "MetaDataMessage option"
  pi_subnets :: "Subnet set"
  min_ttl :: "instant option"
  is_trusted :: bool
  connection_direction :: "ConnectionDirection option"
  pi_enr :: "'enr option"

definition peer_info_default :: "instant \<Rightarrow> 'enr PeerInfo" where
  "peer_info_default now =
     \<lparr>pi_score = score_default now, pi_client = client_default,
      connection_status = PeerConnectionStatus.Unknown, listening_addresses = [], seen_multiaddrs = [],
      meta_data = None, pi_subnets = {}, min_ttl = None, is_trusted = False,
      connection_direction = None, pi_enr = None\<rparr>"

definition trusted_peer_info :: "instant \<Rightarrow> 'enr PeerInfo" where
  "trusted_peer_info now = (peer_info_default now)\<lparr>pi_score := max_score, is_trusted := True\<rparr>"

fun ip_of_component :: "MaProtocol \<Rightarrow> IpAddr option" where
  "ip_of_component (Ip4 ip) = Some (V4 ip)"
| "ip_of_component (Ip6 ip) = Some (V6 ip)"
| "ip_of_component _ = None"

fun find_map :: "('a \<Rightarrow> 'b option) \<Rightarrow> 'a list \<Rightarrow> 'b option" where
  "find_map f [] = None"
| "find_map f (x # xs) = (case f x of Some y \<Rightarrow> Some y | None \<Rightarrow> find_map f xs)"

definition seen_ip_addresses :: "'enr PeerInfo \<Rightarrow> IpAddr list" where
  "seen_ip_addresses self = List.map_filter (find_map ip_of_component) (seen_multiaddrs self)"

definition pi_score_state :: "'enr PeerInfo \<Rightarrow> ScoreState" where
  "pi_score_state self = score_state (pi_score self)"

definition pi_is_good_gossipsub_peer :: "'enr PeerInfo \<Rightarrow> bool" where
  "pi_is_good_gossipsub_peer self = is_good_gossipsub_peer (pi_score self)"

definition is_connected :: "'enr PeerInfo \<Rightarrow> bool" where
  "is_connected self = (case connection_status self of Connected _ _ \<Rightarrow> True | _ \<Rightarrow> False)"

definition is_dialing :: "'enr PeerInfo \<Rightarrow> bool" where
  "is_dialing self = (case connection_status self of Dialing _ \<Rightarrow> True | _ \<Rightarrow> False)"

definition pi_is_connected_or_dialing :: "'enr PeerInfo \<Rightarrow> bool" where
  "pi_is_connected_or_dialing self \<longleftrightarrow> is_connected self \<or> is_dialing self"

definition is_banned :: "'enr PeerInfo \<Rightarrow> bool" where
  "is_banned self = (case connection_status self of PeerConnectionStatus.Banned _ \<Rightarrow> True | _ \<Rightarrow> False)"

definition score_is_banned :: "'enr PeerInfo \<Rightarrow> bool" where
  "score_is_banned self = (case score_state (pi_score self) of ScoreState.Banned \<Rightarrow> True | _ \<Rightarrow> False)"

definition is_disconnected :: "'enr PeerInfo \<Rightarrow> bool" where
  "is_disconnected self = (case connection_status self of PeerConnectionStatus.Disconnected _ \<Rightarrow> True | _ \<Rightarrow> False)"

definition is_outbound_only :: "'enr PeerInfo \<Rightarrow> bool" where
  "is_outbound_only self = (case connection_status self of Connected n_in n_out \<Rightarrow> n_in = 0 \<and> n_out > 0 | _ \<Rightarrow> False)"

definition connections :: "'enr PeerInfo \<Rightarrow> u8 \<times> u8" where
  "connections self = (case connection_status self of Connected n_in n_out \<Rightarrow> (n_in, n_out) | _ \<Rightarrow> (0, 0))"

definition set_client :: "'enr PeerInfo \<Rightarrow> Client \<Rightarrow> 'enr PeerInfo" where
  "set_client self c = self\<lparr>pi_client := c\<rparr>"

definition set_listening_addresses :: "'enr PeerInfo \<Rightarrow> Multiaddr list \<Rightarrow> Multiaddr list \<times> 'enr PeerInfo" where
  "set_listening_addresses self addrs = (listening_addresses self, self\<lparr>listening_addresses := addrs\<rparr>)"

definition set_meta_data :: "'enr PeerInfo \<Rightarrow> MetaDataMessage \<Rightarrow> 'enr PeerInfo" where
  "set_meta_data self md = self\<lparr>meta_data := Some md\<rparr>"

definition set_connection_status :: "'enr PeerInfo \<Rightarrow> PeerConnectionStatus \<Rightarrow> 'enr PeerInfo" where
  "set_connection_status self st = self\<lparr>connection_status := st\<rparr>"

definition set_enr :: "'enr PeerInfo \<Rightarrow> 'enr \<Rightarrow> 'enr PeerInfo" where
  "set_enr self e = self\<lparr>pi_enr := Some e\<rparr>"

definition set_min_ttl :: "'enr PeerInfo \<Rightarrow> instant \<Rightarrow> 'enr PeerInfo" where
  "set_min_ttl self t' = self\<lparr>min_ttl := Some t'\<rparr>"

definition clear_subnets :: "'enr PeerInfo \<Rightarrow> 'enr PeerInfo" where
  "clear_subnets self = self\<lparr>pi_subnets := {}\<rparr>"

definition peer_score_update :: "(nat \<Rightarrow> f64) \<Rightarrow> 'enr PeerInfo \<Rightarrow> instant \<Rightarrow> 'enr PeerInfo" where
  "peer_score_update decay self now =
     (if \<not> is_trusted self then self\<lparr>pi_score := score_update decay (pi_score self) now\<rparr> else self)"

definition apply_peer_action_to_score :: "'enr PeerInfo \<Rightarrow> PeerAction \<Rightarrow> 'enr PeerInfo" where
  "apply_peer_action_to_score self act =
     (if \<not> is_trusted self then self\<lparr>pi_score := apply_peer_action (pi_score self) act\<rparr> else self)"

definition pi_update_gossipsub_score :: "'enr PeerInfo \<Rightarrow> f64 \<Rightarrow> bool \<Rightarrow> instant \<Rightarrow> 'enr PeerInfo" where
  "pi_update_gossipsub_score self new_score ignore now =
     self\<lparr>pi_score := update_gossipsub_score (pi_score self) new_score ignore now\<rparr>"

definition set_dialing_peer :: "'enr PeerInfo \<Rightarrow> instant \<Rightarrow> (string + unit) \<times> 'enr PeerInfo" where
  "set_dialing_peer self now =
     (case connection_status self of
        Connected _ _ \<Rightarrow> (Inl ''Dialing connected peer'', self)
      | Dialing _ \<Rightarrow> (Inl ''Dialing an already dialing peer'', self)
      | Disconnecting _ \<Rightarrow> (Inl ''Dialing a disconnecting peer'', self)
      | _ \<Rightarrow> (Inr (), self\<lparr>connection_status := Dialing now\<rparr>))"

definition see_multiaddr :: "Multiaddr option \<Rightarrow> 'enr PeerInfo \<Rightarrow> 'enr PeerInfo" where
  "see_multiaddr seen self =
     (case seen of None \<Rightarrow> self | Some a \<Rightarrow> self\<lparr>seen_multiaddrs := List.insert a (seen_multiaddrs self)\<rparr>)"

text \<open>The counters of connections are \<open>u8\<close>; \<open>+= 1\<close> wraps.\<close>

definition connect_ingoing :: "'enr PeerInfo \<Rightarrow> Multiaddr option \<Rightarrow> 'enr PeerInfo" where
  "connect_ingoing self seen =
     see_multiaddr seen
       (case connection_status self of
          Connected n_in n_out \<Rightarrow> self\<lparr>connection_status := Connected (n_in + 1) n_out\<rparr>
        | _ \<Rightarrow> self\<lparr>connection_status := Connected 1 0, connection_direction := Some Incoming\<rparr>)"

definition connect_outgoing :: "'enr PeerInfo \<Rightarrow> Multiaddr option \<Rightarrow> 'enr PeerInfo" where
  "connect_outgoing self seen =
     see_multiaddr seen
       (case connection_status self of
          Connected n_in n_out \<Rightarrow> self\<lparr>connection_status := Connected n_in (n_out + 1)\<rparr>
        | _ \<Rightarrow> self\<lparr>connection_status := Connected 0 1, connection_direction := Some Outgoing\<rparr>)"

text \<open>The fields written for HTTP requests, in order; \<open>elapsed\<close> saturates at zero.\<close>

datatype SerValue = SStr string | SNum nat | SIps "IpAddr list"

definition serialize_status :: "PeerConnectionStatus \<Rightarrow> instant \<Rightarrow> (string \<times> SerValue) list" where
  "serialize_status self now =
     (case self of
        Connected n_in n_out \<Rightarrow>
          [(''status'', SStr ''connected''), (''connections_in'', SNum (unat n_in)),
           (''connections_out'', SNum (unat n_out)), (''last_seen'', SNum 0)]
      | Disconnecting _ \<Rightarrow>
          [(''status'', SStr ''disconnecting''), (''connections_in'', SNum 0),
           (''connections_out'', SNum 0), (''last_seen'', SNum 0)]
      | Disconnected since \<Rightarrow>
          [(''status'', SStr ''disconnected''), (''connections_in'', SNum 0),
           (''connections_out'', SNum 0), (''last_seen'', SNum (as_secs (now - since))), (''banned_ips'', SIps [])]
      | Banned since \<Rightarrow>
          [(''status'', SStr ''banned''), (''connections_in'', SNum 0),
           (''connections_out'', SNum 0), (''last_seen'', SNum (as_secs (now - since)))]
      | Dialing since \<Rightarrow>
          [(''status'', SStr ''dialing''), (''connections_in'', SNum 0),
           (''connections_out'', SNum 0), (''last_seen'', SNum (as_secs (now - since)))]
      | Unknown \<Rightarrow>
          [(''status'', SStr ''unknown''), (''connections_in'', SNum 0),
           (''connections_out'', SNum 0), (''last_seen'', SNum 0)])"

section \<open>What the operations keep\<close>

named_theorems peer_info_simps \<open>unfolding of the operations on a peer's information\<close>

lemmas [peer_info_simps] = is_connected_def is_dialing_def is_banned_def is_disconnected_def
  set_connection_status_def set_enr_def clear_subnets_def see_multiaddr_def

lemma connect_status:
  "\<exists>n m. connection_status (connect_ingoing self seen) = Connected n m"
  "\<exists>n m. connection_status (connect_outgoing self seen) = Connected n m"
  by (auto simp: connect_ingoing_def connect_outgoing_def see_multiaddr_def
      split: option.splits PeerConnectionStatus.splits)

lemma connect_trusted [simp]:
  "is_trusted (connect_ingoing self seen) = is_trusted self"
  "is_trusted (connect_outgoing self seen) = is_trusted self"
  by (auto simp: connect_ingoing_def connect_outgoing_def see_multiaddr_def
      split: option.splits PeerConnectionStatus.splits)

lemma apply_peer_action_to_score_fields [simp]:
  "connection_status (apply_peer_action_to_score self act) = connection_status self"
  "is_trusted (apply_peer_action_to_score self act) = is_trusted self"
  "seen_multiaddrs (apply_peer_action_to_score self act) = seen_multiaddrs self"
  by (simp_all add: apply_peer_action_to_score_def)

datatype info_op = ActionOp PeerAction | DecayOp instant | GossipOp f64 bool instant

fun info_exec :: "(nat \<Rightarrow> f64) \<Rightarrow> 'enr PeerInfo \<Rightarrow> info_op \<Rightarrow> 'enr PeerInfo" where
  "info_exec decay self (ActionOp act) = apply_peer_action_to_score self act"
| "info_exec decay self (DecayOp now) = peer_score_update decay self now"
| "info_exec decay self (GossipOp g ignore now) = pi_update_gossipsub_score self g ignore now"

lemma info_exec_trusted:
  "pi_score i = Max \<Longrightarrow> is_trusted i \<Longrightarrow>
   pi_score (foldl (info_exec decay) i ops) = Max \<and> is_trusted (foldl (info_exec decay) i ops)"
proof (induction ops arbitrary: i)
  case (Cons x ops)
  then have "pi_score (info_exec decay i x) = Max" "is_trusted (info_exec decay i x)"
    by (cases x; simp add: apply_peer_action_to_score_def peer_score_update_def
        pi_update_gossipsub_score_def update_gossipsub_score_def)+
  with Cons.IH show ?case by simp
qed simp

text \<open>
  A trusted peer is out of reach of the scoring: whatever actions are reported of it, however
  its score decays and whatever gossipsub scores it is given, it stays trusted and healthy.
\<close>

theorem trusted_peer_stays_healthy:
  "let i = foldl (info_exec decay) (trusted_peer_info now :: 'enr PeerInfo) ops
   in is_trusted i \<and> pi_score_state i = ScoreState.Healthy"
  using info_exec_trusted [of "trusted_peer_info now :: 'enr PeerInfo" decay ops]
  by (simp add: trusted_peer_info_def max_score_def pi_score_state_def score_state_def Let_def
      MIN_SCORE_BEFORE_BAN_def MIN_SCORE_BEFORE_DISCONNECT_def)

end
