(* ===== verification/Peer_Db.thy ===== *)
theory Peer_Db
  imports Peer_Info
begin

text \<open>
  The database of known peers (\<open>p2p_network/src/peer_manager/peerdb.rs\<close>): connection states,
  reputation, and the counters of disconnected and banned peers that keep its size in check.

  The map of peers is an association list with distinct keys, in iteration order. Log lines and
  metrics are not modelled. The readings of the clock during one change of state are one argument
  \<open>now\<close>; an operation that works on many peers takes a function from the peer to the reading.
  The random order of \<open>shuffle\<close> and the order in which \<open>sort_unstable_by\<close> leaves equal elements
  are permutations given as arguments.
\<close>

section \<open>The counts of banned peers\<close>

definition MAX_DC_PEERS :: usize where "MAX_DC_PEERS = 500"
definition MAX_BANNED_PEERS :: usize where "MAX_BANNED_PEERS = 1000"
definition BANNED_PEERS_PER_IP_THRESHOLD :: usize where "BANNED_PEERS_PER_IP_THRESHOLD = 5"
definition ALLOWED_NEGATIVE_GOSSIPSUB_FACTOR :: real where "ALLOWED_NEGATIVE_GOSSIPSUB_FACTOR = rnd32 (1 / 10)"
definition DIAL_TIMEOUT :: nat where "DIAL_TIMEOUT = 15"

record BannedPeersCount =
  n_banned_peers :: usize
  banned_peers_per_ip :: "(IpAddr \<times> usize) list"

definition banned_count_default :: BannedPeersCount where
  "banned_count_default = \<lparr>n_banned_peers = 0, banned_peers_per_ip = []\<rparr>"

definition release_ip :: "IpAddr \<Rightarrow> (IpAddr \<times> usize) list \<Rightarrow> (IpAddr \<times> usize) list" where
  "release_ip address m =
     (case map_of m address of Some n \<Rightarrow> AList.update address (n - 1) m | None \<Rightarrow> m)"

definition charge_ip :: "IpAddr \<Rightarrow> (IpAddr \<times> usize) list \<Rightarrow> (IpAddr \<times> usize) list" where
  "charge_ip address m = AList.update address (usize_add (unwrap_or (map_of m address) 0) 1) m"

definition remove_banned_peer :: "BannedPeersCount \<Rightarrow> IpAddr list \<Rightarrow> BannedPeersCount" where
  "remove_banned_peer self ip_addresses =
     \<lparr>n_banned_peers = n_banned_peers self - 1,
      banned_peers_per_ip = fold release_ip ip_addresses (banned_peers_per_ip self)\<rparr>"

definition add_banned_peer :: "BannedPeersCount \<Rightarrow> IpAddr list \<Rightarrow> BannedPeersCount" where
  "add_banned_peer self ip_addresses =
     \<lparr>n_banned_peers = usize_sat_add (n_banned_peers self) 1,
      banned_peers_per_ip = fold charge_ip ip_addresses (banned_peers_per_ip self)\<rparr>"

definition banned_ips :: "BannedPeersCount \<Rightarrow> IpAddr list" where
  "banned_ips self = map fst (filter (\<lambda>(ip, n). n > BANNED_PEERS_PER_IP_THRESHOLD) (banned_peers_per_ip self))"

definition count_ip_is_banned :: "BannedPeersCount \<Rightarrow> IpAddr \<Rightarrow> bool" where
  "count_ip_is_banned self ip =
     (case map_of (banned_peers_per_ip self) ip of Some n \<Rightarrow> n > BANNED_PEERS_PER_IP_THRESHOLD | None \<Rightarrow> False)"

section \<open>The database and its readers\<close>

record ('p, 'enr) PeerDB =
  peers :: "('p \<times> 'enr PeerInfo) list"
  disconnected_peers :: usize
  banned_peers_count :: BannedPeersCount
  disable_peer_scoring :: bool

datatype 'enr NewConnectionState =
    Connected "'enr option" Multiaddr ConnectionDirection
  | Disconnecting bool
  | Dialing "'enr option"
  | Disconnected
  | Banned
  | Unbanned

datatype ScoreTransitionResult = Disconnected | Banned | Unbanned | NoAction

datatype BanOperation = TemporaryBan | DisconnectThePeer | ReadyToBan "IpAddr list" | PeerDisconnecting

datatype ScoreUpdateResult = Ban BanOperation | Disconnect | Unbanned "IpAddr list" | NoAction

datatype BanResult = BadScore | BannedIp IpAddr | NotBanned

fun ban_operation_into :: "BanOperation option \<Rightarrow> ScoreUpdateResult" where
  "ban_operation_into None = ScoreUpdateResult.NoAction"
| "ban_operation_into (Some bo) = Ban bo"

definition peerdb_new :: "'p list \<Rightarrow> bool \<Rightarrow> ('p \<Rightarrow> instant) \<Rightarrow> ('p, 'enr) PeerDB" where
  "peerdb_new trusted_peers disable now =
     \<lparr>peers = fold (\<lambda>p m. AList.update p (trusted_peer_info (now p)) m) trusted_peers [],
      disconnected_peers = 0, banned_peers_count = banned_count_default, disable_peer_scoring = disable\<rparr>"

definition peer_info :: "('p, 'enr) PeerDB \<Rightarrow> 'p \<Rightarrow> 'enr PeerInfo option" where
  "peer_info self p = map_of (peers self) p"

definition db_score :: "('p, 'enr) PeerDB \<Rightarrow> 'p \<Rightarrow> instant \<Rightarrow> f64" where
  "db_score self p now =
     score_value (case map_of (peers self) p of Some i \<Rightarrow> pi_score i | None \<Rightarrow> score_default now)"

definition peer_ids :: "('p, 'enr) PeerDB \<Rightarrow> 'p list" where
  "peer_ids self = map fst (peers self)"

definition status :: "('p, 'enr) PeerDB \<Rightarrow> 'p \<Rightarrow> PeerConnectionStatus option" where
  "status self p = map_option connection_status (peer_info self p)"

definition db_is_connected :: "('p, 'enr) PeerDB \<Rightarrow> 'p \<Rightarrow> bool" where
  "db_is_connected self p =
     (case status self p of Some (PeerConnectionStatus.Connected _ _) \<Rightarrow> True | _ \<Rightarrow> False)"

definition is_connected_or_dialing :: "('p, 'enr) PeerDB \<Rightarrow> 'p \<Rightarrow> bool" where
  "is_connected_or_dialing self p =
     (case status self p of
        Some (PeerConnectionStatus.Connected _ _) \<Rightarrow> True
      | Some (PeerConnectionStatus.Dialing _) \<Rightarrow> True
      | _ \<Rightarrow> False)"

definition is_connected_or_disconnecting :: "('p, 'enr) PeerDB \<Rightarrow> 'p \<Rightarrow> bool" where
  "is_connected_or_disconnecting self p =
     (case status self p of
        Some (PeerConnectionStatus.Connected _ _) \<Rightarrow> True
      | Some (PeerConnectionStatus.Disconnecting _) \<Rightarrow> True
      | _ \<Rightarrow> False)"

definition ip_is_banned :: "('p, 'enr) PeerDB \<Rightarrow> 'enr PeerInfo \<Rightarrow> IpAddr option" where
  "ip_is_banned self peer = List.find (count_ip_is_banned (banned_peers_count self)) (seen_ip_addresses peer)"

definition is_ip_banned :: "('p, 'enr) PeerDB \<Rightarrow> IpAddr \<Rightarrow> bool" where
  "is_ip_banned self ip = count_ip_is_banned (banned_peers_count self) ip"

definition score_state_banned_or_disconnected :: "('p, 'enr) PeerDB \<Rightarrow> 'p \<Rightarrow> bool" where
  "score_state_banned_or_disconnected self p =
     (case map_of (peers self) p of
        Some peer \<Rightarrow>
          (case pi_score_state peer of
             ScoreState.Banned \<Rightarrow> True
           | ScoreState.Disconnected \<Rightarrow> True
           | _ \<Rightarrow> ip_is_banned self peer \<noteq> None)
      | None \<Rightarrow> False)"

definition should_dial :: "('p, 'enr) PeerDB \<Rightarrow> 'p \<Rightarrow> bool" where
  "should_dial self p \<longleftrightarrow>
     (case status self p of
        Some (PeerConnectionStatus.Disconnected _) \<Rightarrow> True
      | Some PeerConnectionStatus.Unknown \<Rightarrow> True
      | None \<Rightarrow> True
      | _ \<Rightarrow> False) \<and> \<not> score_state_banned_or_disconnected self p"

definition ban_status :: "('p, 'enr) PeerDB \<Rightarrow> 'p \<Rightarrow> BanResult" where
  "ban_status self p =
     (case map_of (peers self) p of
        Some peer \<Rightarrow>
          (case pi_score_state peer of
             ScoreState.Banned \<Rightarrow> BadScore
           | _ \<Rightarrow> (case ip_is_banned self peer of Some ip \<Rightarrow> BannedIp ip | None \<Rightarrow> NotBanned))
      | None \<Rightarrow> NotBanned)"

text \<open>The iterators are filters over the map.\<close>

definition ids_where :: "('enr PeerInfo \<Rightarrow> bool) \<Rightarrow> ('p, 'enr) PeerDB \<Rightarrow> 'p list" where
  "ids_where P self = map fst (filter (\<lambda>(p, i). P i) (peers self))"

definition connected_peers :: "('p, 'enr) PeerDB \<Rightarrow> ('p \<times> 'enr PeerInfo) list" where
  "connected_peers self = filter (\<lambda>(p, i). is_connected i) (peers self)"

definition connected_peer_ids :: "('p, 'enr) PeerDB \<Rightarrow> 'p list" where
  "connected_peer_ids self = ids_where is_connected self"

definition connected_or_dialing_peers :: "('p, 'enr) PeerDB \<Rightarrow> 'p list" where
  "connected_or_dialing_peers self = ids_where (\<lambda>i. is_connected i \<or> is_dialing i) self"

definition connected_outbound_only_peers :: "('p, 'enr) PeerDB \<Rightarrow> 'p list" where
  "connected_outbound_only_peers self = ids_where is_outbound_only self"

definition synced_peers :: "('p, 'enr) PeerDB \<Rightarrow> 'p list" where
  "synced_peers self = ids_where (\<lambda>_. False) self"

definition advanced_peers :: "('p, 'enr) PeerDB \<Rightarrow> 'p list" where
  "advanced_peers self = ids_where (\<lambda>_. False) self"

definition good_peers_on_subnet :: "('p, 'enr) PeerDB \<Rightarrow> 'p list" where
  "good_peers_on_subnet self = ids_where (\<lambda>i. is_connected i \<and> pi_is_good_gossipsub_peer i) self"

definition disconnected_peer_ids :: "('p, 'enr) PeerDB \<Rightarrow> 'p list" where
  "disconnected_peer_ids self = ids_where is_disconnected self"

definition banned_peers :: "('p, 'enr) PeerDB \<Rightarrow> 'p list" where
  "banned_peers self = ids_where is_banned self"

definition banned_peers_by_score :: "('p, 'enr) PeerDB \<Rightarrow> 'p list" where
  "banned_peers_by_score self = ids_where score_is_banned self"

text \<open>\<open>slice::sort_by\<close>: a stable sort by a comparison function.\<close>

fun insert_by :: "('a \<Rightarrow> 'a \<Rightarrow> Ordering) \<Rightarrow> 'a \<Rightarrow> 'a list \<Rightarrow> 'a list" where
  "insert_by cmp x [] = [x]"
| "insert_by cmp x (y # ys) = (if cmp x y = Greater then y # insert_by cmp x ys else x # y # ys)"

definition sort_by :: "('a \<Rightarrow> 'a \<Rightarrow> Ordering) \<Rightarrow> 'a list \<Rightarrow> 'a list" where
  "sort_by cmp xs = foldr (insert_by cmp) xs []"

text \<open>\<open>Iterator::max_by\<close> returns the last of the greatest elements.\<close>

fun max_by :: "('a \<Rightarrow> 'a \<Rightarrow> Ordering) \<Rightarrow> 'a list \<Rightarrow> 'a option" where
  "max_by cmp [] = None"
| "max_by cmp (x # xs) = Some (fold (\<lambda>y best. if cmp best y = Greater then best else y) xs x)"

definition cmp_info_score :: "'p \<times> 'enr PeerInfo \<Rightarrow> 'p \<times> 'enr PeerInfo \<Rightarrow> Ordering" where
  "cmp_info_score a b = score_cmp (pi_score (snd a)) (pi_score (snd b))"

definition worst_connected_peers ::
  "(('p \<times> 'enr PeerInfo) list \<Rightarrow> ('p \<times> 'enr PeerInfo) list) \<Rightarrow> ('p, 'enr) PeerDB \<Rightarrow> ('p \<times> 'enr PeerInfo) list" where
  "worst_connected_peers shuffle self =
     sort_by cmp_info_score (shuffle (filter (\<lambda>(p, i). is_connected i) (peers self)))"

definition best_peers_by_status ::
  "('enr PeerInfo \<Rightarrow> bool) \<Rightarrow> ('p, 'enr) PeerDB \<Rightarrow> ('p \<times> 'enr PeerInfo) list" where
  "best_peers_by_status is_status self =
     rev (sort_by cmp_info_score (filter (\<lambda>(p, i). is_status i) (peers self)))"

definition best_by_status :: "('enr PeerInfo \<Rightarrow> bool) \<Rightarrow> ('p, 'enr) PeerDB \<Rightarrow> 'p option" where
  "best_by_status is_status self =
     map_option fst (max_by cmp_info_score (filter (\<lambda>(p, i). is_status i) (peers self)))"

section \<open>Changes of the connection state\<close>

text \<open>
  \<open>update_connection_state\<close> reads the information of the peer (inserting it if the peer is new),
  and works on it together with the two counters; \<open>ConnChange\<close> is what it has of each at its end,
  with the value it returns. One definition per new state, in the order of the source.
\<close>

record 'enr ConnChange =
  ban_op :: "BanOperation option"
  new_info :: "'enr PeerInfo"
  new_disconnected :: usize
  new_banned :: BannedPeersCount

definition opt_set_enr :: "'enr option \<Rightarrow> 'enr PeerInfo \<Rightarrow> 'enr PeerInfo" where
  "opt_set_enr enr info = (case enr of Some e \<Rightarrow> set_enr info e | None \<Rightarrow> info)"

definition to_connected ::
  "'enr option \<Rightarrow> Multiaddr \<Rightarrow> ConnectionDirection \<Rightarrow> 'enr PeerInfo \<Rightarrow> usize \<Rightarrow> BannedPeersCount \<Rightarrow> 'enr ConnChange" where
  "to_connected enr seen_address direction info disc bc =
     (let current_state = connection_status info;
          info = opt_set_enr enr info;
          (disc, bc) =
            (case current_state of
               PeerConnectionStatus.Disconnected _ \<Rightarrow> (disc - 1, bc)
             | PeerConnectionStatus.Banned _ \<Rightarrow> (disc, remove_banned_peer bc (seen_ip_addresses info))
             | _ \<Rightarrow> (disc, bc));
          info = (case direction of
                    Incoming \<Rightarrow> connect_ingoing info (Some seen_address)
                  | Outgoing \<Rightarrow> connect_outgoing info (Some seen_address))
      in \<lparr>ban_op = None, new_info = info, new_disconnected = disc, new_banned = bc\<rparr>)"

definition to_dialing ::
  "'enr option \<Rightarrow> instant \<Rightarrow> 'enr PeerInfo \<Rightarrow> usize \<Rightarrow> BannedPeersCount \<Rightarrow> 'enr ConnChange" where
  "to_dialing enr now info disc bc =
     (let (disc, bc) =
            (case connection_status info of
               PeerConnectionStatus.Banned _ \<Rightarrow> (disc, remove_banned_peer bc (seen_ip_addresses info))
             | PeerConnectionStatus.Disconnected _ \<Rightarrow> (disc - 1, bc)
             | _ \<Rightarrow> (disc, bc));
          info = snd (set_dialing_peer (opt_set_enr enr info) now)
      in \<lparr>ban_op = None, new_info = info, new_disconnected = disc, new_banned = bc\<rparr>)"

definition known_banned_ips :: "BannedPeersCount \<Rightarrow> 'enr PeerInfo \<Rightarrow> IpAddr list" where
  "known_banned_ips bc info = filter (\<lambda>ip. ip \<in> set (banned_ips bc)) (seen_ip_addresses info)"

definition to_disconnected :: "instant \<Rightarrow> 'enr PeerInfo \<Rightarrow> usize \<Rightarrow> BannedPeersCount \<Rightarrow> 'enr ConnChange" where
  "to_disconnected now info disc bc =
     (let old_state = connection_status info;
          info = clear_subnets info
      in case old_state of
           PeerConnectionStatus.Banned _ \<Rightarrow>
             \<lparr>ban_op = None, new_info = info, new_disconnected = disc, new_banned = bc\<rparr>
         | PeerConnectionStatus.Disconnected _ \<Rightarrow>
             \<lparr>ban_op = None, new_info = info, new_disconnected = disc, new_banned = bc\<rparr>
         | PeerConnectionStatus.Disconnecting to_ban \<Rightarrow>
             if to_ban then
               let info = set_connection_status info (PeerConnectionStatus.Banned now);
                   bc = add_banned_peer bc (seen_ip_addresses info)
               in \<lparr>ban_op = Some (ReadyToBan (known_banned_ips bc info)), new_info = info,
                   new_disconnected = disc, new_banned = bc\<rparr>
             else
               \<lparr>ban_op = Some TemporaryBan,
                new_info = set_connection_status info (PeerConnectionStatus.Disconnected now),
                new_disconnected = usize_add disc 1, new_banned = bc\<rparr>
         | _ \<Rightarrow>
             \<lparr>ban_op = None,
              new_info = set_connection_status info (PeerConnectionStatus.Disconnected now),
              new_disconnected = usize_add disc 1, new_banned = bc\<rparr>)"

definition to_disconnecting :: "bool \<Rightarrow> 'enr PeerInfo \<Rightarrow> usize \<Rightarrow> BannedPeersCount \<Rightarrow> 'enr ConnChange" where
  "to_disconnecting to_ban info disc bc =
     (case connection_status info of
        PeerConnectionStatus.Banned _ \<Rightarrow>
          \<lparr>ban_op = None, new_info = set_connection_status info (PeerConnectionStatus.Disconnecting to_ban),
           new_disconnected = disc, new_banned = bc\<rparr>
      | PeerConnectionStatus.Disconnected _ \<Rightarrow>
          \<lparr>ban_op = None, new_info = set_connection_status info (PeerConnectionStatus.Disconnecting to_ban),
           new_disconnected = disc - 1, new_banned = bc\<rparr>
      | _ \<Rightarrow>
          \<lparr>ban_op = None, new_info = set_connection_status info (PeerConnectionStatus.Disconnecting to_ban),
           new_disconnected = disc, new_banned = bc\<rparr>)"

definition to_banned :: "instant \<Rightarrow> 'enr PeerInfo \<Rightarrow> usize \<Rightarrow> BannedPeersCount \<Rightarrow> 'enr ConnChange" where
  "to_banned now info disc bc =
     (case connection_status info of
        PeerConnectionStatus.Disconnected _ \<Rightarrow>
          let info = set_connection_status info (PeerConnectionStatus.Banned now);
              bc = add_banned_peer bc (seen_ip_addresses info)
          in \<lparr>ban_op = Some (ReadyToBan (known_banned_ips bc info)), new_info = info,
              new_disconnected = disc - 1, new_banned = bc\<rparr>
      | PeerConnectionStatus.Disconnecting _ \<Rightarrow>
          \<lparr>ban_op = Some PeerDisconnecting,
           new_info = set_connection_status info (PeerConnectionStatus.Disconnecting True),
           new_disconnected = disc, new_banned = bc\<rparr>
      | PeerConnectionStatus.Banned _ \<Rightarrow>
          \<lparr>ban_op = Some (ReadyToBan (known_banned_ips bc info)), new_info = info,
           new_disconnected = disc, new_banned = bc\<rparr>
      | PeerConnectionStatus.Unknown \<Rightarrow>
          let bc = add_banned_peer bc (seen_ip_addresses info);
              info = set_connection_status info (PeerConnectionStatus.Banned now)
          in \<lparr>ban_op = Some (ReadyToBan (known_banned_ips bc info)), new_info = info,
              new_disconnected = disc, new_banned = bc\<rparr>
      | _ \<Rightarrow>
          \<lparr>ban_op = Some DisconnectThePeer,
           new_info = set_connection_status info (PeerConnectionStatus.Disconnecting True),
           new_disconnected = disc, new_banned = bc\<rparr>)"

definition to_unbanned :: "'enr PeerInfo \<Rightarrow> usize \<Rightarrow> BannedPeersCount \<Rightarrow> 'enr ConnChange" where
  "to_unbanned info disc bc =
     (case connection_status info of
        PeerConnectionStatus.Banned since \<Rightarrow>
          let info = set_connection_status info (PeerConnectionStatus.Disconnected since)
          in \<lparr>ban_op = None, new_info = info, new_disconnected = usize_sat_add disc 1,
              new_banned = remove_banned_peer bc (seen_ip_addresses info)\<rparr>
      | _ \<Rightarrow> \<lparr>ban_op = None, new_info = info, new_disconnected = disc, new_banned = bc\<rparr>)"

definition conn_change ::
  "'enr NewConnectionState \<Rightarrow> instant \<Rightarrow> 'enr PeerInfo \<Rightarrow> usize \<Rightarrow> BannedPeersCount \<Rightarrow> 'enr ConnChange" where
  "conn_change new_state now info disc bc =
     (case new_state of
        NewConnectionState.Connected enr seen_address direction \<Rightarrow> to_connected enr seen_address direction info disc bc
      | NewConnectionState.Dialing enr \<Rightarrow> to_dialing enr now info disc bc
      | NewConnectionState.Disconnected \<Rightarrow> to_disconnected now info disc bc
      | NewConnectionState.Disconnecting to_ban \<Rightarrow> to_disconnecting to_ban info disc bc
      | NewConnectionState.Banned \<Rightarrow> to_banned now info disc bc
      | NewConnectionState.Unbanned \<Rightarrow> to_unbanned info disc bc)"

definition peer_entry :: "('p, 'enr) PeerDB \<Rightarrow> 'p \<Rightarrow> instant \<Rightarrow> 'enr PeerInfo" where
  "peer_entry self p now =
     (case map_of (peers self) p of
        Some i \<Rightarrow> i
      | None \<Rightarrow> if disable_peer_scoring self then trusted_peer_info now else peer_info_default now)"

definition ban_score_first :: "'enr NewConnectionState \<Rightarrow> 'enr PeerInfo \<Rightarrow> 'enr PeerInfo" where
  "ban_score_first new_state info =
     (case new_state of
        NewConnectionState.Banned \<Rightarrow>
          (case pi_score_state info of
             ScoreState.Banned \<Rightarrow> info
           | _ \<Rightarrow> apply_peer_action_to_score info Fatal)
      | _ \<Rightarrow> info)"

definition update_connection_state ::
  "('p, 'enr) PeerDB \<Rightarrow> 'p \<Rightarrow> 'enr NewConnectionState \<Rightarrow> instant \<Rightarrow> BanOperation option \<times> ('p, 'enr) PeerDB" where
  "update_connection_state self p new_state now =
     (let info = ban_score_first new_state (peer_entry self p now);
          c = conn_change new_state now info (disconnected_peers self) (banned_peers_count self)
      in (ban_op c,
          self\<lparr>peers := AList.update p (new_info c) (peers self),
               disconnected_peers := new_disconnected c, banned_peers_count := new_banned c\<rparr>))"

definition set_state :: "('p, 'enr) PeerDB \<Rightarrow> 'p \<Rightarrow> 'enr NewConnectionState \<Rightarrow> instant \<Rightarrow> ('p, 'enr) PeerDB" where
  "set_state self p new_state now = snd (update_connection_state self p new_state now)"

definition dialing_peer :: "('p, 'enr) PeerDB \<Rightarrow> 'p \<Rightarrow> 'enr option \<Rightarrow> instant \<Rightarrow> ('p, 'enr) PeerDB" where
  "dialing_peer self p enr now = set_state self p (NewConnectionState.Dialing enr) now"

definition db_connect_ingoing ::
  "('p, 'enr) PeerDB \<Rightarrow> 'p \<Rightarrow> Multiaddr \<Rightarrow> 'enr option \<Rightarrow> instant \<Rightarrow> ('p, 'enr) PeerDB" where
  "db_connect_ingoing self p seen_address enr now =
     set_state self p (NewConnectionState.Connected enr seen_address Incoming) now"

definition db_connect_outgoing ::
  "('p, 'enr) PeerDB \<Rightarrow> 'p \<Rightarrow> Multiaddr \<Rightarrow> 'enr option \<Rightarrow> instant \<Rightarrow> ('p, 'enr) PeerDB" where
  "db_connect_outgoing self p seen_address enr now =
     set_state self p (NewConnectionState.Connected enr seen_address Outgoing) now"

definition notify_disconnecting :: "('p, 'enr) PeerDB \<Rightarrow> 'p \<Rightarrow> bool \<Rightarrow> instant \<Rightarrow> ('p, 'enr) PeerDB" where
  "notify_disconnecting self p to_ban now = set_state self p (NewConnectionState.Disconnecting to_ban) now"

definition overdue_dial :: "('p \<Rightarrow> instant) \<Rightarrow> 'p \<times> 'enr PeerInfo \<Rightarrow> bool" where
  "overdue_dial now e =
     (case connection_status (snd e) of
        PeerConnectionStatus.Dialing since \<Rightarrow> since + secs DIAL_TIMEOUT < now (fst e)
      | _ \<Rightarrow> False)"

definition cleanup_dialing_peers ::
  "('p, 'enr) PeerDB \<Rightarrow> ('p \<Rightarrow> instant) \<Rightarrow> ('p \<Rightarrow> instant) \<Rightarrow> ('p, 'enr) PeerDB" where
  "cleanup_dialing_peers self now now' =
     (let peers_to_disconnect = map fst (filter (overdue_dial now) (peers self))
      in fold (\<lambda>p db. set_state db p NewConnectionState.Disconnected (now' p)) peers_to_disconnect self)"

section \<open>Shrinking\<close>

definition banned_since :: "'p \<times> 'enr PeerInfo \<Rightarrow> ('p \<times> 'enr PeerInfo \<times> instant) option" where
  "banned_since e =
     (case connection_status (snd e) of
        PeerConnectionStatus.Banned since \<Rightarrow> Some (fst e, snd e, since)
      | _ \<Rightarrow> None)"

definition disconnected_since :: "'p \<times> 'enr PeerInfo \<Rightarrow> ('p \<times> instant) option" where
  "disconnected_since e =
     (case connection_status (snd e) of
        PeerConnectionStatus.Disconnected since \<Rightarrow> Some (fst e, since)
      | _ \<Rightarrow> None)"

definition oldest_banned :: "('p, 'enr) PeerDB \<Rightarrow> ('p \<times> 'enr PeerInfo \<times> instant) option" where
  "oldest_banned self = min_by_key (snd \<circ> snd) (List.map_filter banned_since (peers self))"

definition oldest_disconnected :: "('p, 'enr) PeerDB \<Rightarrow> ('p \<times> instant) option" where
  "oldest_disconnected self =
     min_by_key snd (List.map_filter disconnected_since
       (filter (\<lambda>(p, i). is_disconnected i \<and> \<not> is_trusted i) (peers self)))"

text \<open>One round of the loop over the banned peers: the peer that is dropped, if any.\<close>

definition drop_banned :: "('p, 'enr) PeerDB \<Rightarrow> ('p \<times> IpAddr list) option \<times> ('p, 'enr) PeerDB" where
  "drop_banned self =
     (case oldest_banned self of
        Some (to_drop, info, _) \<Rightarrow>
          let self = self\<lparr>banned_peers_count := remove_banned_peer (banned_peers_count self) (seen_ip_addresses info)\<rparr>;
              unbanned_ips = filter (\<lambda>ip. \<not> is_ip_banned self ip) (seen_ip_addresses info)
          in (Some (to_drop, unbanned_ips), self\<lparr>peers := AList.delete to_drop (peers self)\<rparr>)
      | None \<Rightarrow> (None, self\<lparr>banned_peers_count := banned_count_default\<rparr>))"

definition drop_disconnected :: "('p, 'enr) PeerDB \<Rightarrow> ('p, 'enr) PeerDB" where
  "drop_disconnected self =
     (let self = (case oldest_disconnected self of
                    Some (to_drop, _) \<Rightarrow> self\<lparr>peers := AList.delete to_drop (peers self)\<rparr>
                  | None \<Rightarrow> self)
      in self\<lparr>disconnected_peers := disconnected_peers self - 1\<rparr>)"

lemma drop_banned_decreases:
  "MAX_BANNED_PEERS < n_banned_peers (banned_peers_count self) \<Longrightarrow>
   n_banned_peers (banned_peers_count (snd (drop_banned self))) < n_banned_peers (banned_peers_count self)"
  by (auto simp: drop_banned_def Let_def remove_banned_peer_def banned_count_default_def MAX_BANNED_PEERS_def
      split: option.split)

lemma drop_disconnected_decreases:
  "MAX_DC_PEERS < disconnected_peers self \<Longrightarrow> disconnected_peers (drop_disconnected self) < disconnected_peers self"
  by (auto simp: drop_disconnected_def Let_def MAX_DC_PEERS_def split: option.split)

function shrink_banned :: "('p, 'enr) PeerDB \<Rightarrow> ('p \<times> IpAddr list) list \<times> ('p, 'enr) PeerDB" where
  "shrink_banned self =
     (if n_banned_peers (banned_peers_count self) > MAX_BANNED_PEERS then
        let (dropped, self) = drop_banned self;
            (unbanned, self) = shrink_banned self
        in (case dropped of Some d \<Rightarrow> (d # unbanned, self) | None \<Rightarrow> (unbanned, self))
      else ([], self))"
  by auto
termination
  by (relation "measure (\<lambda>db. n_banned_peers (banned_peers_count db))")
    (auto dest!: drop_banned_decreases simp: prod_eq_iff)

function shrink_disconnected :: "('p, 'enr) PeerDB \<Rightarrow> ('p, 'enr) PeerDB" where
  "shrink_disconnected self =
     (if disconnected_peers self > MAX_DC_PEERS then shrink_disconnected (drop_disconnected self) else self)"
  by auto
termination
  by (relation "measure disconnected_peers") (auto intro: drop_disconnected_decreases)

declare shrink_banned.simps [simp del] shrink_disconnected.simps [simp del]

definition shrink_to_fit :: "('p, 'enr) PeerDB \<Rightarrow> ('p \<times> IpAddr list) list \<times> ('p, 'enr) PeerDB" where
  "shrink_to_fit self = (let (unbanned_peers, self) = shrink_banned self in (unbanned_peers, shrink_disconnected self))"

definition db_inject_disconnect ::
  "('p, 'enr) PeerDB \<Rightarrow> 'p \<Rightarrow> instant \<Rightarrow> (BanOperation option \<times> ('p \<times> IpAddr list) list) \<times> ('p, 'enr) PeerDB" where
  "db_inject_disconnect self p now =
     (let (maybe_ban_op, self) = update_connection_state self p NewConnectionState.Disconnected now;
          (purged_peers, self) = shrink_to_fit self
      in ((maybe_ban_op, purged_peers), self))"

section \<open>Changes of the score\<close>

definition handle_score_transition :: "ScoreState \<Rightarrow> 'enr PeerInfo \<Rightarrow> ScoreTransitionResult" where
  "handle_score_transition previous_state info =
     (case (pi_score_state info, previous_state) of
        (ScoreState.Banned, ScoreState.Banned) \<Rightarrow> ScoreTransitionResult.NoAction
      | (ScoreState.Banned, _) \<Rightarrow> ScoreTransitionResult.Banned
      | (ScoreState.Disconnected, ScoreState.Disconnected) \<Rightarrow> ScoreTransitionResult.NoAction
      | (ScoreState.Disconnected, _) \<Rightarrow>
          if pi_is_connected_or_dialing info then ScoreTransitionResult.Disconnected
          else if previous_state = ScoreState.Banned then ScoreTransitionResult.Unbanned
          else ScoreTransitionResult.NoAction
      | (ScoreState.Healthy, ScoreState.Disconnected) \<Rightarrow> ScoreTransitionResult.NoAction
      | (ScoreState.Healthy, ScoreState.Banned) \<Rightarrow> ScoreTransitionResult.Unbanned
      | (ScoreState.Healthy, ScoreState.Healthy) \<Rightarrow> ScoreTransitionResult.NoAction)"

text \<open>The addresses of a peer that are not banned, reported when it is unbanned.\<close>

definition free_ips :: "('p, 'enr) PeerDB \<Rightarrow> 'p \<Rightarrow> IpAddr list" where
  "free_ips self p =
     (case map_of (peers self) p of
        Some info \<Rightarrow> filter (\<lambda>ip. \<not> is_ip_banned self ip) (seen_ip_addresses info)
      | None \<Rightarrow> [])"

fun unban_all ::
  "('p \<Rightarrow> instant) \<Rightarrow> 'p list \<Rightarrow> ('p, 'enr) PeerDB \<Rightarrow> ('p \<times> ScoreUpdateResult) list \<times> ('p, 'enr) PeerDB" where
  "unban_all now [] self = ([], self)"
| "unban_all now (p # ps) self =
     (let self = set_state self p NewConnectionState.Unbanned (now p);
          r = (p, ScoreUpdateResult.Unbanned (free_ips self p));
          (rs, self) = unban_all now ps self
      in (r # rs, self))"

definition decay_all :: "(nat \<Rightarrow> f64) \<Rightarrow> ('p \<Rightarrow> instant) \<Rightarrow> ('p \<times> 'enr PeerInfo) list \<Rightarrow> ('p \<times> 'enr PeerInfo) list" where
  "decay_all decay now ps = map (\<lambda>(p, i). (p, peer_score_update decay i (now p))) ps"

definition decay_transition :: "(nat \<Rightarrow> f64) \<Rightarrow> ('p \<Rightarrow> instant) \<Rightarrow> 'p \<times> 'enr PeerInfo \<Rightarrow> ScoreTransitionResult" where
  "decay_transition decay now e =
     handle_score_transition (pi_score_state (snd e)) (peer_score_update decay (snd e) (now (fst e)))"

definition update_scores ::
  "(nat \<Rightarrow> f64) \<Rightarrow> ('p, 'enr) PeerDB \<Rightarrow> ('p \<Rightarrow> instant) \<Rightarrow> ('p \<times> ScoreUpdateResult) list \<times> ('p, 'enr) PeerDB" where
  "update_scores decay self now =
     (let peers_to_unban =
            map fst (filter (\<lambda>e. decay_transition decay now e = ScoreTransitionResult.Unbanned) (peers self));
          self = self\<lparr>peers := decay_all decay now (peers self)\<rparr>
      in unban_all now peers_to_unban self)"

text \<open>\<open>(n as f32 * factor).ceil() as usize\<close>.\<close>

definition scaled_ceil :: "usize \<Rightarrow> real \<Rightarrow> usize" where
  "scaled_ceil n factor = min USIZE_MAX (nat \<lceil>rnd32 (rnd32 (real n) * factor)\<rceil>)"

text \<open>The loop over the peers sorted by gossipsub score, best first.\<close>

fun apply_gossip_scores ::
  "('p \<Rightarrow> instant) \<Rightarrow> ('p \<times> 'enr PeerInfo \<times> f64) list \<Rightarrow> usize \<Rightarrow> ('p \<times> 'enr PeerInfo) list \<Rightarrow>
   ('p \<times> ScoreTransitionResult) list \<times> ('p \<times> 'enr PeerInfo) list" where
  "apply_gossip_scores now [] to_ignore m = ([], m)"
| "apply_gossip_scores now ((p, info, sc) # rest) to_ignore m =
     (let ignore = flt sc (Fin 0) \<and> to_ignore > 0;
          to_ignore = (if ignore then to_ignore - 1 else to_ignore);
          info' = pi_update_gossipsub_score info sc ignore (now p);
          act = handle_score_transition (pi_score_state info) info';
          (acts, m) = apply_gossip_scores now rest to_ignore (AList.update p info' m)
      in ((p, act) # acts, m))"

text \<open>What a transition of the score state does to the connection state.\<close>

definition apply_transition ::
  "('p, 'enr) PeerDB \<Rightarrow> 'p \<Rightarrow> ScoreTransitionResult \<Rightarrow> instant \<Rightarrow> ScoreUpdateResult \<times> ('p, 'enr) PeerDB" where
  "apply_transition self p act now =
     (case act of
        ScoreTransitionResult.Banned \<Rightarrow>
          let (op, self) = update_connection_state self p NewConnectionState.Banned now
          in (ban_operation_into op, self)
      | ScoreTransitionResult.Disconnected \<Rightarrow>
          (Disconnect, set_state self p (NewConnectionState.Disconnecting False) now)
      | ScoreTransitionResult.NoAction \<Rightarrow> (ScoreUpdateResult.NoAction, self)
      | ScoreTransitionResult.Unbanned \<Rightarrow>
          let self = set_state self p NewConnectionState.Unbanned now
          in (ScoreUpdateResult.Unbanned (free_ips self p), self))"

fun apply_transitions ::
  "('p \<Rightarrow> instant) \<Rightarrow> ('p \<times> ScoreTransitionResult) list \<Rightarrow> ('p, 'enr) PeerDB \<Rightarrow>
   ('p \<times> ScoreUpdateResult) list \<times> ('p, 'enr) PeerDB" where
  "apply_transitions now [] self = ([], self)"
| "apply_transitions now ((p, act) # rest) self =
     (let (result, self) = apply_transition self p act (now p);
          (results, self) = apply_transitions now rest self
      in (if result \<noteq> ScoreUpdateResult.NoAction then (p, result) # results else results, self))"

definition cmp_gossip_desc :: "'p \<times> 'enr PeerInfo \<times> f64 \<Rightarrow> 'p \<times> 'enr PeerInfo \<times> f64 \<Rightarrow> Ordering" where
  "cmp_gossip_desc a b = unwrap_or (f64_partial_cmp (snd (snd b)) (snd (snd a))) Equal"

definition gossip_scored ::
  "('p \<Rightarrow> f64 option) \<Rightarrow> ('p, 'enr) PeerDB \<Rightarrow> ('p \<times> 'enr PeerInfo \<times> f64) list" where
  "gossip_scored peer_score self =
     List.map_filter (\<lambda>(p, i). map_option (\<lambda>sc. (p, i, sc)) (peer_score p))
       (filter (\<lambda>(p, i). is_connected i) (peers self))"

definition update_gossipsub_scores ::
  "(('p \<times> 'enr PeerInfo \<times> f64) list \<Rightarrow> ('p \<times> 'enr PeerInfo \<times> f64) list) \<Rightarrow> ('p \<Rightarrow> f64 option) \<Rightarrow>
   ('p, 'enr) PeerDB \<Rightarrow> usize \<Rightarrow> ('p \<Rightarrow> instant) \<Rightarrow> ('p \<times> ScoreUpdateResult) list \<times> ('p, 'enr) PeerDB" where
  "update_gossipsub_scores ties peer_score self target_peers now =
     (let scored = sort_by cmp_gossip_desc (ties (gossip_scored peer_score self));
          to_ignore_negative_peers = scaled_ceil target_peers ALLOWED_NEGATIVE_GOSSIPSUB_FACTOR;
          (actions, m) = apply_gossip_scores now scored to_ignore_negative_peers (peers self)
      in apply_transitions now actions (self\<lparr>peers := m\<rparr>))"

definition report_peer ::
  "('p, 'enr) PeerDB \<Rightarrow> 'p \<Rightarrow> PeerAction \<Rightarrow> instant \<Rightarrow> ScoreUpdateResult \<times> ('p, 'enr) PeerDB" where
  "report_peer self p act now =
     (case map_of (peers self) p of
        Some info \<Rightarrow>
          let previous_state = pi_score_state info;
              info = apply_peer_action_to_score info act;
              self = self\<lparr>peers := AList.update p info (peers self)\<rparr>
          in (case handle_score_transition previous_state info of
                ScoreTransitionResult.Banned \<Rightarrow>
                  let (op, self) = update_connection_state self p NewConnectionState.Banned now
                  in (ban_operation_into op, self)
              | ScoreTransitionResult.Disconnected \<Rightarrow>
                  (Disconnect, set_state self p (NewConnectionState.Disconnecting False) now)
              | _ \<Rightarrow> (ScoreUpdateResult.NoAction, self))
      | None \<Rightarrow> (ScoreUpdateResult.NoAction, self))"

definition update_min_ttl :: "('p, 'enr) PeerDB \<Rightarrow> 'p \<Rightarrow> instant \<Rightarrow> instant \<Rightarrow> ('p, 'enr) PeerDB" where
  "update_min_ttl self p ttl now =
     (let info = (case map_of (peers self) p of Some i \<Rightarrow> i | None \<Rightarrow> peer_info_default now);
          info = (case min_ttl info of
                    None \<Rightarrow> set_min_ttl info ttl
                  | Some old \<Rightarrow> if old < ttl then set_min_ttl info ttl else info)
      in self\<lparr>peers := AList.update p info (peers self)\<rparr>)"

end
