(* ===== verification/Topics.thy ===== *)
theory Topics
  imports Peer_Info
begin

text \<open>
  Gossip: topic names (\<open>p2p_network/src/types/topics.rs\<close>), the messages and their compression
  (\<open>types/pubsub.rs\<close>), the cache of messages that could not be published
  (\<open>service/gossip_cache.rs\<close>) and the whitelist of topics (\<open>service/utils.rs\<close>).

  A result \<open>None\<close> is a panic (\<open>todo!()\<close>). Parameters stand for other crates: the hash of an
  \<open>IdentTopic\<close> (libp2p), the block format of the snappy codec (\<open>snap\<close>) and the derived SSZ
  encoding of user operations. A \<open>DelayQueue\<close> (tokio) is the list of its live keys.
\<close>

section \<open>Topics\<close>

definition TOPIC_PREFIX :: string where "TOPIC_PREFIX = ''account_abstraction''"
definition SSZ_SNAPPY_ENCODING_POSTFIX :: string where "SSZ_SNAPPY_ENCODING_POSTFIX = ''ssz_snappy''"
definition USER_OPS_WITH_ENTRY_POINT :: string where "USER_OPS_WITH_ENTRY_POINT = ''user_operations''"

datatype GossipKind = VerifiedUserOperation

datatype GossipEncoding = SSZSnappy

record GossipTopic =
  gt_encoding :: GossipEncoding
  mempool_id :: string
  gt_kind :: GossipKind

definition BASE_CORE_TOPICS :: "GossipKind list" where
  "BASE_CORE_TOPICS = [GossipKind.VerifiedUserOperation]"

definition gossip_encoding_default :: GossipEncoding where
  "gossip_encoding_default = GossipEncoding.SSZSnappy"

definition gossip_topic_new :: "GossipKind \<Rightarrow> GossipEncoding \<Rightarrow> string \<Rightarrow> GossipTopic" where
  "gossip_topic_new k enc mempool = \<lparr>gt_encoding = enc, mempool_id = mempool, gt_kind = k\<rparr>"

text \<open>
  \<open>Display\<close> of a kind: the pattern is a fresh variable, which is then formatted with \<open>{}\<close>, that
  is by this very function.
\<close>

partial_function (option) gossip_kind_display :: "GossipKind \<Rightarrow> string option" where
  "gossip_kind_display self =
     Option.bind (gossip_kind_display self) (\<lambda>s. Some (''user_operation_with_entrypoint'' @ s))"

definition topic_decode :: "string \<Rightarrow> (string + GossipTopic) option" where
  "topic_decode topic =
     (let topic_parts = split_char CHR ''/'' topic
      in if length topic_parts = 5 \<and> topic_parts ! 1 = TOPIC_PREFIX then
           let mempool = topic_parts ! 2
           in if topic_parts ! 4 = SSZ_SNAPPY_ENCODING_POSTFIX then
                (if topic_parts ! 3 = USER_OPS_WITH_ENTRY_POINT
                 then Some (Inr \<lparr>gt_encoding = GossipEncoding.SSZSnappy, mempool_id = mempool,
                                 gt_kind = GossipKind.VerifiedUserOperation\<rparr>)
                 else None)
              else Some (Inl (''Unknown encoding: '' @ topic))
         else Some (Inl (''Unknown topic: '' @ topic)))"

definition subnet_id :: "GossipTopic \<Rightarrow> Subnet option" where
  "subnet_id self =
     (case gt_kind self of GossipKind.VerifiedUserOperation \<Rightarrow> Some (Mempool (mempool_id self)))"

definition topic_display :: "GossipTopic \<Rightarrow> string" where
  "topic_display self =
     (let encoding = (case gt_encoding self of GossipEncoding.SSZSnappy \<Rightarrow> SSZ_SNAPPY_ENCODING_POSTFIX);
          kind = (case gt_kind self of GossipKind.VerifiedUserOperation \<Rightarrow> USER_OPS_WITH_ENTRY_POINT)
      in ''/'' @ TOPIC_PREFIX @ ''/'' @ mempool_id self @ ''/'' @ kind @ ''/'' @ encoding)"

fun kind_from_subnet :: "Subnet \<Rightarrow> GossipKind" where
  "kind_from_subnet (Mempool s) = GossipKind.VerifiedUserOperation"

definition subnet_from_topic_hash :: "string \<Rightarrow> Subnet option option" where
  "subnet_from_topic_hash topic_hash =
     map_option (\<lambda>r. case r of Inl _ \<Rightarrow> None | Inr topic \<Rightarrow> subnet_id topic) (topic_decode topic_hash)"

definition create_whitelist_filter :: "(string \<Rightarrow> string) \<Rightarrow> string list \<Rightarrow> string set" where
  "create_whitelist_filter ident_hash possible_mempools =
     set (map (\<lambda>m. ident_hash (topic_display (gossip_topic_new GossipKind.VerifiedUserOperation GossipEncoding.SSZSnappy m)))
            possible_mempools)"

section \<open>Messages and their compression\<close>

datatype PubsubMessage = VerifiedUserOperation VerifiedUserOperation

record 'io snappy =
  decompress_len :: "u8 list \<Rightarrow> 'io + usize"
  decompress_vec :: "u8 list \<Rightarrow> 'io + u8 list"
  compress_vec :: "u8 list \<Rightarrow> 'io + u8 list"

datatype 'io io_error = Snap 'io | TooLarge string

record ('src, 'seq, 'top) RawMessage =
  msg_source :: 'src
  msg_data :: "u8 list"
  msg_sequence_number :: 'seq
  msg_topic :: 'top

record SnappyTransform =
  max_size_per_message :: usize

definition snappy_transform_new :: "usize \<Rightarrow> SnappyTransform" where
  "snappy_transform_new n = \<lparr>max_size_per_message = n\<rparr>"

definition map_err :: "('e \<Rightarrow> 'f) \<Rightarrow> 'e + 'a \<Rightarrow> 'f + 'a" where
  "map_err f r = (case r of Inl e \<Rightarrow> Inl (f e) | Inr v \<Rightarrow> Inr v)"

definition inbound_transform ::
  "'io snappy \<Rightarrow> SnappyTransform \<Rightarrow> ('src, 'seq, 'top) RawMessage \<Rightarrow> 'io io_error + ('src, 'seq, 'top) RawMessage" where
  "inbound_transform S self raw_message =
     bind_res (map_err Snap (decompress_len S (msg_data raw_message))) (\<lambda>len.
       if len > max_size_per_message self then Inl (TooLarge ''ssz_snappy decoded data > GOSSIP_MAX_SIZE'')
       else bind_res (map_err Snap (decompress_vec S (msg_data raw_message))) (\<lambda>decompressed_data.
         Inr (raw_message\<lparr>msg_data := decompressed_data\<rparr>)))"

definition outbound_transform :: "'io snappy \<Rightarrow> SnappyTransform \<Rightarrow> u8 list \<Rightarrow> 'io io_error + u8 list" where
  "outbound_transform S self data =
     (if length data > max_size_per_message self then Inl (TooLarge ''ssz_snappy Encoded data > GOSSIP_MAX_SIZE'')
      else map_err Snap (compress_vec S data))"

record user_op_ssz =
  op_as_ssz_bytes :: "VerifiedUserOperation \<Rightarrow> u8 list"
  op_from_ssz_bytes :: "u8 list \<Rightarrow> string + VerifiedUserOperation"

definition message_kind :: "PubsubMessage \<Rightarrow> GossipKind" where
  "message_kind self = (case self of PubsubMessage.VerifiedUserOperation _ \<Rightarrow> GossipKind.VerifiedUserOperation)"

definition message_topics :: "PubsubMessage \<Rightarrow> GossipEncoding \<Rightarrow> string \<Rightarrow> GossipTopic list" where
  "message_topics self encoding mempool = [gossip_topic_new (message_kind self) encoding mempool]"

definition pubsub_decode :: "user_op_ssz \<Rightarrow> string \<Rightarrow> u8 list \<Rightarrow> (string + PubsubMessage) option" where
  "pubsub_decode ssz topic data =
     map_option
       (\<lambda>r. case r of
          Inl _ \<Rightarrow> Inl (''Unknown gossipsub topic: '' @ topic)
        | Inr gossip_topic \<Rightarrow>
            (case gt_kind gossip_topic of
               GossipKind.VerifiedUserOperation \<Rightarrow>
                 map_res PubsubMessage.VerifiedUserOperation (op_from_ssz_bytes ssz data)))
       (topic_decode topic)"

definition pubsub_encode :: "user_op_ssz \<Rightarrow> PubsubMessage \<Rightarrow> GossipEncoding \<Rightarrow> u8 list" where
  "pubsub_encode ssz self enc = (case self of PubsubMessage.VerifiedUserOperation data \<Rightarrow> op_as_ssz_bytes ssz data)"

definition pubsub_display :: "PubsubMessage \<Rightarrow> string" where
  "pubsub_display self = (case self of PubsubMessage.VerifiedUserOperation _ \<Rightarrow> ''UserOperations With EntryPoint'')"

section \<open>The cache of unpublished messages\<close>

type_synonym queue_key = nat

record GossipCache =
  expirations :: "(queue_key \<times> GossipTopic \<times> u8 list) list"
  topic_msgs :: "(GossipTopic \<times> (u8 list \<times> queue_key) list) list"

record GossipCacheBuilder =
  default_timeout :: "duration option"

definition builder :: GossipCacheBuilder where
  "builder = \<lparr>default_timeout = None\<rparr>"

definition with_default_timeout :: "GossipCacheBuilder \<Rightarrow> duration \<Rightarrow> GossipCacheBuilder" where
  "with_default_timeout self timeout = self\<lparr>default_timeout := Some timeout\<rparr>"

definition build :: "GossipCacheBuilder \<Rightarrow> GossipCache" where
  "build self = \<lparr>expirations = [], topic_msgs = []\<rparr>"

text \<open>The key that the queue returns for a new entry is the argument \<open>new_key\<close>; resetting an entry keeps its key.\<close>

definition gossip_cache_insert :: "GossipCache \<Rightarrow> GossipTopic \<Rightarrow> u8 list \<Rightarrow> queue_key \<Rightarrow> GossipCache" where
  "gossip_cache_insert self topic data new_key =
     (case (None :: duration option) of
        None \<Rightarrow> self
      | Some expire_timeout \<Rightarrow>
          let msgs = unwrap_or (map_of (topic_msgs self) topic) []
          in (case map_of msgs data of
                Some key \<Rightarrow> self\<lparr>topic_msgs := AList.update topic msgs (topic_msgs self)\<rparr>
              | None \<Rightarrow> self\<lparr>expirations := expirations self @ [(new_key, topic, data)],
                  topic_msgs := AList.update topic (AList.update data new_key msgs) (topic_msgs self)\<rparr>))"

definition gossip_cache_retrieve :: "GossipCache \<Rightarrow> GossipTopic \<Rightarrow> u8 list list option \<times> GossipCache" where
  "gossip_cache_retrieve self topic =
     (case map_of (topic_msgs self) topic of
        Some msgs \<Rightarrow>
          (Some (map fst msgs),
           self\<lparr>topic_msgs := AList.delete topic (topic_msgs self),
                expirations := filter (\<lambda>(key, _). key \<notin> snd ` set msgs) (expirations self)\<rparr>)
      | None \<Rightarrow> (None, self))"

text \<open>An entry that has expired, if the queue has one, is the argument.\<close>

definition gossip_cache_expired :: "GossipCache \<Rightarrow> queue_key \<times> GossipTopic \<times> u8 list \<Rightarrow> GossipTopic \<times> GossipCache" where
  "gossip_cache_expired self e =
     (case e of (expected_key, topic, data) \<Rightarrow>
        let self = self\<lparr>expirations := filter (\<lambda>(key, _). key \<noteq> expected_key) (expirations self)\<rparr>
        in (topic,
            case map_of (topic_msgs self) topic of
              Some msgs \<Rightarrow>
                let msgs = AList.delete data msgs
                in if msgs = [] then self\<lparr>topic_msgs := AList.delete topic (topic_msgs self)\<rparr>
                   else self\<lparr>topic_msgs := AList.update topic msgs (topic_msgs self)\<rparr>
            | None \<Rightarrow> self))"

section \<open>Correctness\<close>

lemma length_split_char: "length (split_char c s) = Suc (count_list s c)"
  by (induction s) (auto split: list.splits)

lemma count_list_notin: "c \<notin> set s \<Longrightarrow> count_list s c = 0"
  by (induction s) auto

lemma count_list_in: "c \<in> set s \<Longrightarrow> 0 < count_list s c"
  by (induction s) auto

lemmas topic_names = TOPIC_PREFIX_def SSZ_SNAPPY_ENCODING_POSTFIX_def USER_OPS_WITH_ENTRY_POINT_def

lemma topic_display_eq:
  "topic_display t = ''/account_abstraction/'' @ mempool_id t @ ''/user_operations/ssz_snappy''"
  by (cases "gt_encoding t"; cases "gt_kind t") (simp add: topic_display_def topic_names)

lemma topic_decode_display:
  "topic_decode (topic_display t) =
     Some (if CHR ''/'' \<in> set (mempool_id t) then Inl (''Unknown topic: '' @ topic_display t) else Inr t)"
proof (cases "CHR ''/'' \<in> set (mempool_id t)")
  case True
  then have "length (split_char CHR ''/'' (topic_display t)) \<noteq> 5"
    using count_list_in [OF True] by (simp add: length_split_char topic_display_eq)
  with True show ?thesis by (simp add: topic_decode_def Let_def)
next
  case False
  have "split_char CHR ''/'' (topic_display t) =
      [[], ''account_abstraction'', mempool_id t, ''user_operations'', ''ssz_snappy'']"
    using split_char_append [OF False, of "''user_operations/ssz_snappy''"] by (simp add: topic_display_eq)
  moreover have "t = \<lparr>gt_encoding = GossipEncoding.SSZSnappy, mempool_id = mempool_id t, gt_kind = GossipKind.VerifiedUserOperation\<rparr>"
    by (cases t; cases "gt_encoding t"; cases "gt_kind t") simp
  ultimately show ?thesis using False by (simp add: topic_decode_def Let_def topic_names)
qed

text \<open>
  Topics round trip. Decoding the text of a topic returns the topic, unless its mempool id
  contains a slash, and then it is refused; so no topic that passes the whitelist makes the decoder
  panic, and it is read back as the topic of one of the configured mempools.
\<close>

theorem whitelisted_topics_decode:
  assumes "\<forall>s. ident_hash s = s" "h \<in> create_whitelist_filter ident_hash mempools" "\<forall>m \<in> set mempools. CHR ''/'' \<notin> set m"
  shows "\<exists>t. topic_decode h = Some (Inr t) \<and> topic_display t = h \<and> mempool_id t \<in> set mempools \<and>
    subnet_from_topic_hash h = Some (Some (Mempool (mempool_id t)))"
proof -
  obtain m where m: "m \<in> set mempools"
    and h: "h = topic_display (gossip_topic_new GossipKind.VerifiedUserOperation GossipEncoding.SSZSnappy m)"
    using assms(1,2) by (auto simp: create_whitelist_filter_def)
  then show ?thesis
    using assms(3) by (auto simp: topic_decode_display subnet_from_topic_hash_def subnet_id_def gossip_topic_new_def)
qed

theorem whitelisted_topics_decode_witness:
  "\<exists>t. topic_decode ''/account_abstraction/abc/user_operations/ssz_snappy'' = Some (Inr t) \<and> mempool_id t \<in> {''abc''}"
  using whitelisted_topics_decode [of "\<lambda>s. s" "''/account_abstraction/abc/user_operations/ssz_snappy''" "[''abc'']"]
  by (auto simp: create_whitelist_filter_def topic_display_eq gossip_topic_new_def)

definition snappy_laws :: "'io snappy \<Rightarrow> bool" where
  "snappy_laws S \<longleftrightarrow>
     (\<forall>d w. compress_vec S d = Inr w \<longrightarrow> decompress_len S w = Inr (length d) \<and> decompress_vec S w = Inr d) \<and>
     (\<forall>w n d. decompress_len S w = Inr n \<longrightarrow> decompress_vec S w = Inr d \<longrightarrow> length d = n)"

lemma inbound_transform_Inr:
  "inbound_transform S T raw = Inr r' \<longleftrightarrow>
     (\<exists>n d. decompress_len S (msg_data raw) = Inr n \<and> n \<le> max_size_per_message T \<and>
        decompress_vec S (msg_data raw) = Inr d \<and> r' = raw\<lparr>msg_data := d\<rparr>)"
  by (cases "decompress_len S (msg_data raw)"; cases "decompress_vec S (msg_data raw)")
    (auto simp: inbound_transform_def map_err_def)

lemma outbound_transform_Inr:
  "outbound_transform S T data = Inr w \<longleftrightarrow> length data \<le> max_size_per_message T \<and> compress_vec S data = Inr w"
  by (cases "compress_vec S data") (auto simp: outbound_transform_def map_err_def)

text \<open>
  C32. Gossip round trip and size limit. A message that is encoded, compressed and sent on a topic
  is decompressed and decoded to the same message by a receiver with the same limit; and whatever
  bytes arrive, nothing larger than the limit is ever handed on, the announced length being checked
  before the data is decompressed.
\<close>

theorem gossip_roundtrip:
  fixes raw :: "('src, 'seq, 'top) RawMessage"
  assumes "snappy_laws S" "op_from_ssz_bytes ssz (op_as_ssz_bytes ssz x) = Inr x"
    and "CHR ''/'' \<notin> set (mempool_id topic)"
  shows "(outbound_transform S T (pubsub_encode ssz (PubsubMessage.VerifiedUserOperation x) enc) = Inr wire \<longrightarrow>
       (\<exists>r'. inbound_transform S T (raw\<lparr>msg_data := wire\<rparr>) = Inr r' \<and>
          pubsub_decode ssz (topic_display topic) (msg_data r') = Some (Inr (PubsubMessage.VerifiedUserOperation x)))) \<and>
    (inbound_transform S T raw = Inr r \<longrightarrow> length (msg_data r) \<le> max_size_per_message T)"
proof -
  have k: "gt_kind topic = GossipKind.VerifiedUserOperation" by (cases "gt_kind topic")
  have d: "pubsub_decode ssz (topic_display topic) (op_as_ssz_bytes ssz x) = Some (Inr (PubsubMessage.VerifiedUserOperation x))"
    using assms(2,3) by (simp add: pubsub_decode_def topic_decode_display k)
  show ?thesis
    using assms(1) d unfolding inbound_transform_Inr outbound_transform_Inr snappy_laws_def
    by (fastforce simp: pubsub_encode_def)
qed

definition sample_op :: VerifiedUserOperation where
  "sample_op = \<lparr>user_operation = \<lparr>sender = 1, nonce = 2, initCode = [], callData = [3], callGasLimit = 4,
     verificationGasLimit = 5, preVerificationGas = 6, maxFeePerGas = 7, maxPriorityFeePerGas = 8,
     paymasterAndData = [], signature = [9]\<rparr>, entry_point_contract = 10, verified_at_block_hash = 11\<rparr>"

theorem gossip_roundtrip_witness:
  defines "S \<equiv> \<lparr>decompress_len = (\<lambda>w. Inr (length w)), decompress_vec = Inr, compress_vec = Inr\<rparr> :: unit snappy"
    and "ssz \<equiv> \<lparr>op_as_ssz_bytes = (\<lambda>_. [7]), op_from_ssz_bytes = (\<lambda>_. Inr sample_op)\<rparr>"
  shows "\<exists>r'. inbound_transform S (snappy_transform_new 10)
      (\<lparr>msg_source = (), msg_data = [7], msg_sequence_number = (), msg_topic = ()\<rparr>) = Inr r' \<and>
    pubsub_decode ssz ''/account_abstraction/abc/user_operations/ssz_snappy'' (msg_data r') =
      Some (Inr (PubsubMessage.VerifiedUserOperation sample_op))"
proof -
  have "snappy_laws S" by (simp add: snappy_laws_def S_def)
  from gossip_roundtrip [OF this, of ssz sample_op "gossip_topic_new GossipKind.VerifiedUserOperation GossipEncoding.SSZSnappy ''abc''"
      "snappy_transform_new 10" GossipEncoding.SSZSnappy "[7]"
      "\<lparr>msg_source = (), msg_data = [], msg_sequence_number = (), msg_topic = ()\<rparr>"]
  show ?thesis
    by (simp add: ssz_def S_def gossip_topic_new_def topic_display_eq outbound_transform_Inr pubsub_encode_def snappy_transform_new_def)
qed

text \<open>
  Printing a gossip kind does not return: the call recurses on its own argument, so the
  result is undefined for every kind.
\<close>

theorem gossip_kind_display_diverges: "gossip_kind_display k = None"
proof -
  have False if "gossip_kind_display k = Some s" for s
    by (rule gossip_kind_display.raw_induct [OF _ that, of "\<lambda>_ _. False"]) (auto simp: bind_eq_Some_conv)
  then show ?thesis by (cases "gossip_kind_display k") auto
qed

text \<open>
  The cache of unpublished messages never holds a message, whatever default timeout its
  builder was given: every cache obtained by inserting and retrieving returns no message for any
  topic.
\<close>

theorem gossip_cache_ignores_messages:
  "gossip_cache_retrieve (foldl (\<lambda>c (t, d, k). snd (gossip_cache_retrieve (gossip_cache_insert c t d k) u)) (build b) xs) topic
     = (None, build b')"
proof -
  have "foldl (\<lambda>c (t, d, k). snd (gossip_cache_retrieve (gossip_cache_insert c t d k) u)) (build b) xs = build b"
    by (induction xs) (auto simp: gossip_cache_insert_def gossip_cache_retrieve_def build_def)
  then show ?thesis by (simp add: gossip_cache_retrieve_def build_def)
qed

end
