(* ===== verification/Enr_Ext.thy ===== *)
theory Enr_Ext
  imports Peer_Info
begin

text \<open>
  The addresses of a node record (\<open>p2p_network/src/discovery/enr_ext.rs\<close>). The record itself is a
  type of the \<open>enr\<close> crate: its getters, the peer id of its public key and the bytes of a peer id are
  the fields of \<open>EnrOps\<close>, an argument of every definition.
\<close>

record ('p, 'enr) EnrOps =
  enr_ip4 :: "'enr \<Rightarrow> u32 option"
  enr_ip6 :: "'enr \<Rightarrow> 128 word option"
  enr_udp4 :: "'enr \<Rightarrow> u16 option"
  enr_udp6 :: "'enr \<Rightarrow> u16 option"
  enr_tcp4 :: "'enr \<Rightarrow> u16 option"
  enr_tcp6 :: "'enr \<Rightarrow> u16 option"
  enr_get_decodable :: "'enr \<Rightarrow> string \<Rightarrow> (string + u16) option"
  enr_peer_id :: "'enr \<Rightarrow> 'p"
  peer_id_bytes :: "'p \<Rightarrow> u8 list"

definition QUIC_ENR_KEY :: string where "QUIC_ENR_KEY = ''quic''"
definition QUIC6_ENR_KEY :: string where "QUIC6_ENR_KEY = ''quic6''"

definition res_ok :: "'e + 'a \<Rightarrow> 'a option" where
  "res_ok r = (case r of Inr v \<Rightarrow> Some v | Inl _ \<Rightarrow> None)"

definition quic4 :: "('p, 'enr) EnrOps \<Rightarrow> 'enr \<Rightarrow> u16 option" where
  "quic4 E enr = Option.bind (enr_get_decodable E enr QUIC_ENR_KEY) res_ok"

definition quic6 :: "('p, 'enr) EnrOps \<Rightarrow> 'enr \<Rightarrow> u16 option" where
  "quic6 E enr = Option.bind (enr_get_decodable E enr QUIC6_ENR_KEY) res_ok"

text \<open>The list with the address that is pushed when the port is set.\<close>

definition push_port :: "u16 option \<Rightarrow> (u16 \<Rightarrow> Multiaddr) \<Rightarrow> Multiaddr list" where
  "push_port port addr = (case port of Some p \<Rightarrow> [addr p] | None \<Rightarrow> [])"

definition multiaddr :: "('p, 'enr) EnrOps \<Rightarrow> 'enr \<Rightarrow> Multiaddr list" where
  "multiaddr E enr =
     (case enr_ip4 E enr of
        Some ip \<Rightarrow>
          push_port (enr_udp4 E enr) (\<lambda>udp. [Ip4 ip, Udp udp]) @
          push_port (quic4 E enr) (\<lambda>quic. [Ip4 ip, Udp quic, QuicV1]) @
          push_port (enr_tcp4 E enr) (\<lambda>tcp. [Ip4 ip, Tcp tcp])
      | None \<Rightarrow> []) @
     (case enr_ip6 E enr of
        Some ip6 \<Rightarrow>
          push_port (enr_udp6 E enr) (\<lambda>udp6. [Ip6 ip6, Udp udp6]) @
          push_port (quic6 E enr) (\<lambda>quic6. [Ip6 ip6, Udp quic6, QuicV1]) @
          push_port (enr_tcp6 E enr) (\<lambda>tcp6. [Ip6 ip6, Tcp tcp6])
      | None \<Rightarrow> [])"

definition multiaddr_p2p :: "('p, 'enr) EnrOps \<Rightarrow> 'enr \<Rightarrow> Multiaddr list" where
  "multiaddr_p2p E enr =
     (let peer_id = peer_id_bytes E (enr_peer_id E enr) in
      (case enr_ip4 E enr of
         Some ip \<Rightarrow>
           push_port (enr_udp4 E enr) (\<lambda>udp. [Ip4 ip, Udp udp, P2p peer_id]) @
           push_port (enr_tcp4 E enr) (\<lambda>tcp. [Ip4 ip, Tcp tcp, P2p peer_id])
       | None \<Rightarrow> []) @
      (case enr_ip6 E enr of
         Some ip6 \<Rightarrow>
           push_port (enr_udp6 E enr) (\<lambda>udp6. [Ip6 ip6, Udp udp6, P2p peer_id]) @
           push_port (enr_tcp6 E enr) (\<lambda>tcp6. [Ip6 ip6, Tcp tcp6, P2p peer_id])
       | None \<Rightarrow> []))"

definition multiaddr_p2p_tcp :: "('p, 'enr) EnrOps \<Rightarrow> 'enr \<Rightarrow> Multiaddr list" where
  "multiaddr_p2p_tcp E enr =
     (let peer_id = peer_id_bytes E (enr_peer_id E enr) in
      (case enr_ip4 E enr of
         Some ip \<Rightarrow> push_port (enr_tcp4 E enr) (\<lambda>tcp. [Ip4 ip, Tcp tcp, P2p peer_id])
       | None \<Rightarrow> []) @
      (case enr_ip6 E enr of
         Some ip6 \<Rightarrow> push_port (enr_tcp6 E enr) (\<lambda>tcp6. [Ip6 ip6, Tcp tcp6, P2p peer_id])
       | None \<Rightarrow> []))"

definition multiaddr_p2p_udp :: "('p, 'enr) EnrOps \<Rightarrow> 'enr \<Rightarrow> Multiaddr list" where
  "multiaddr_p2p_udp E enr =
     (let peer_id = peer_id_bytes E (enr_peer_id E enr) in
      (case enr_ip4 E enr of
         Some ip \<Rightarrow> push_port (enr_udp4 E enr) (\<lambda>udp. [Ip4 ip, Udp udp, P2p peer_id])
       | None \<Rightarrow> []) @
      (case enr_ip6 E enr of
         Some ip6 \<Rightarrow> push_port (enr_udp6 E enr) (\<lambda>udp6. [Ip6 ip6, Udp udp6, P2p peer_id])
       | None \<Rightarrow> []))"

definition multiaddr_quic :: "('p, 'enr) EnrOps \<Rightarrow> 'enr \<Rightarrow> Multiaddr list" where
  "multiaddr_quic E enr =
     (case quic4 E enr of
        Some quic_port \<Rightarrow>
          (case enr_ip4 E enr of Some ip \<Rightarrow> [[Ip4 ip, Udp quic_port, QuicV1]] | None \<Rightarrow> [])
      | None \<Rightarrow> []) @
     (case quic6 E enr of
        Some quic6_port \<Rightarrow>
          (case enr_ip6 E enr of Some ip6 \<Rightarrow> [[Ip6 ip6, Udp quic6_port, QuicV1]] | None \<Rightarrow> [])
      | None \<Rightarrow> [])"

definition multiaddr_tcp :: "('p, 'enr) EnrOps \<Rightarrow> 'enr \<Rightarrow> Multiaddr list" where
  "multiaddr_tcp E enr =
     (case enr_ip4 E enr of
        Some ip \<Rightarrow> push_port (enr_tcp4 E enr) (\<lambda>tcp. [Ip4 ip, Tcp tcp])
      | None \<Rightarrow> []) @
     (case enr_ip6 E enr of
        Some ip6 \<Rightarrow> push_port (enr_tcp6 E enr) (\<lambda>tcp6. [Ip6 ip6, Tcp tcp6])
      | None \<Rightarrow> [])"

section \<open>The lists agree\<close>

fun is_quic_addr :: "Multiaddr \<Rightarrow> bool" where
  "is_quic_addr a = (QuicV1 \<in> set a)"

fun is_tcp_addr :: "Multiaddr \<Rightarrow> bool" where
  "is_tcp_addr a = (\<exists>c \<in> set a. case c of Tcp _ \<Rightarrow> True | _ \<Rightarrow> False)"

lemma filter_push_port:
  "(\<And>p. P (f p)) \<Longrightarrow> filter P (push_port port f) = push_port port f"
  "(\<And>p. \<not> P (f p)) \<Longrightarrow> filter P (push_port port f) = []"
  by (simp_all add: push_port_def split: option.split)

lemma map_push_port: "map g (push_port port f) = push_port port (g \<circ> f)"
  by (simp add: push_port_def split: option.split)

text \<open>
  The lists of addresses of a node record agree with each other. Of all its addresses the QUIC
  ones are exactly those the peer manager dials first and the TCP ones exactly those it dials
  next, each in the same order; the addresses with a peer id are the addresses over plain UDP and
  TCP with the id appended.
\<close>

theorem enr_addresses_agree:
  "multiaddr_quic E enr = filter is_quic_addr (multiaddr E enr) \<and>
   multiaddr_tcp E enr = filter is_tcp_addr (multiaddr E enr) \<and>
   multiaddr_p2p E enr = map (\<lambda>a. a @ [P2p (peer_id_bytes E (enr_peer_id E enr))])
     (filter (\<lambda>a. \<not> is_quic_addr a) (multiaddr E enr)) \<and>
   multiaddr_p2p_tcp E enr = filter is_tcp_addr (multiaddr_p2p E enr) \<and>
   multiaddr_p2p_udp E enr = filter (\<lambda>a. \<not> is_tcp_addr a) (multiaddr_p2p E enr)"
  by (cases "enr_ip4 E enr"; cases "enr_ip6 E enr")
    (simp_all add: multiaddr_quic_def multiaddr_def multiaddr_tcp_def multiaddr_p2p_def multiaddr_p2p_tcp_def
      multiaddr_p2p_udp_def Let_def filter_push_port map_push_port comp_def,
      simp_all add: push_port_def split: option.split)

end
