(* ===== verification/Globals.thy ===== *)
theory Globals
  imports Peer_Db Topics Enr_Ext
begin

text \<open>
  The state shared between the network thread and the rest of the client
  (\<open>p2p_network/src/types/globals.rs\<close>). The locks are not modelled: every operation of the model is
  one access under its lock.
\<close>

record ('p, 'enr) NetworkGlobals =
  g_local_enr :: 'enr
  g_peer_id :: 'p
  g_listen_multiaddrs :: "Multiaddr list"
  g_peers :: "('p, 'enr) PeerDB"
  g_local_metadata :: MetaDataMessage
  gossipsub_subscriptions :: "GossipTopic set"

definition globals_new ::
  "('p, 'enr) EnrOps \<Rightarrow> 'enr \<Rightarrow> MetaDataMessage \<Rightarrow> 'p list \<Rightarrow> bool \<Rightarrow> ('p \<Rightarrow> instant) \<Rightarrow> ('p, 'enr) NetworkGlobals" where
  "globals_new E enr local_metadata trusted_peers disable now =
     \<lparr>g_local_enr = enr, g_peer_id = enr_peer_id E enr, g_listen_multiaddrs = [],
      g_peers = peerdb_new trusted_peers disable now, g_local_metadata = local_metadata,
      gossipsub_subscriptions = {}\<rparr>"

definition g_connected_peers :: "('p, 'enr) NetworkGlobals \<Rightarrow> usize" where
  "g_connected_peers self = length (connected_peer_ids (g_peers self))"

definition g_connected_outbound_only_peers :: "('p, 'enr) NetworkGlobals \<Rightarrow> usize" where
  "g_connected_outbound_only_peers self = length (connected_outbound_only_peers (g_peers self))"

definition g_connected_or_dialing_peers :: "('p, 'enr) NetworkGlobals \<Rightarrow> usize" where
  "g_connected_or_dialing_peers self = length (connected_or_dialing_peers (g_peers self))"

definition g_client :: "('p, 'enr) NetworkGlobals \<Rightarrow> 'p \<Rightarrow> Client" where
  "g_client self p = unwrap_or (map_option pi_client (peer_info (g_peers self) p)) client_default"

end
