(* ===== verification/Peer_Manager.thy ===== *)
theory Peer_Manager
  imports Globals Lru_Time_Cache Rpc_Protocol "HOL-Library.Monad_Syntax"
begin

text \<open>
  The peer manager (\<open>p2p_network/src/peer_manager/mod.rs\<close>, \<open>config.rs\<close> and
  \<open>network_behaviour.rs\<close>): it decides on connections, reports and pruning, changes the peer
  database accordingly and queues events for the swarm.

  Operations that use the cache of temporary bans return an option, \<open>None\<close> being a failed
  \<open>expect\<close> in the cache. \<open>HashSetDelay\<close> is a type of another crate; its operations are the fields
  of \<open>DelayOps\<close>, and the peers a poll of it returns are arguments. Log lines and metrics are left
  out, as are the fields they need.
\<close>

section \<open>Configuration\<close>

definition DEFAULT_STATUS_INTERVAL :: nat where "DEFAULT_STATUS_INTERVAL = 300"
definition DEFAULT_PING_INTERVAL_OUTBOUND :: nat where "DEFAULT_PING_INTERVAL_OUTBOUND = 15"
definition DEFAULT_PING_INTERVAL_INBOUND :: nat where "DEFAULT_PING_INTERVAL_INBOUND = 20"
definition DEFAULT_TARGET_PEERS :: usize where "DEFAULT_TARGET_PEERS = 50"

record PmConfig =
  cfg_discovery_enabled :: bool
  cfg_metrics_enabled :: bool
  cfg_target_peer_count :: usize
  cfg_status_interval :: nat
  cfg_ping_interval_inbound :: nat
  cfg_ping_interval_outbound :: nat

definition pm_config_default :: PmConfig where
  "pm_config_default =
     \<lparr>cfg_discovery_enabled = True, cfg_metrics_enabled = False,
      cfg_target_peer_count = DEFAULT_TARGET_PEERS, cfg_status_interval = DEFAULT_STATUS_INTERVAL,
      cfg_ping_interval_inbound = DEFAULT_PING_INTERVAL_INBOUND,
      cfg_ping_interval_outbound = DEFAULT_PING_INTERVAL_OUTBOUND\<rparr>"

definition HEARTBEAT_INTERVAL :: nat where "HEARTBEAT_INTERVAL = 30"
definition PEER_RECONNECTION_TIMEOUT :: duration where "PEER_RECONNECTION_TIMEOUT = secs 600"
definition MIN_SYNC_COMMITTEE_PEERS :: u64 where "MIN_SYNC_COMMITTEE_PEERS = 2"
definition PEER_EXCESS_FACTOR :: real where "PEER_EXCESS_FACTOR = rnd32 (1 / 10)"
definition TARGET_OUTBOUND_ONLY_FACTOR :: real where "TARGET_OUTBOUND_ONLY_FACTOR = rnd32 (3 / 10)"
definition MIN_OUTBOUND_ONLY_FACTOR :: real where "MIN_OUTBOUND_ONLY_FACTOR = rnd32 (2 / 10)"
definition PRIORITY_PEER_EXCESS :: real where "PRIORITY_PEER_EXCESS = rnd32 (2 / 10)"

section \<open>State and events\<close>

datatype 'p PeerManagerEvent =
    PeerConnectedIncoming 'p
  | PeerConnectedOutgoing 'p
  | PeerDisconnected 'p
  | Status 'p
  | Ping 'p
  | MetaData 'p
  | DisconnectPeer 'p GoodbyeReason
  | Banned 'p "IpAddr list"
  | UnBanned 'p "IpAddr list"
  | DiscoverPeers usize
  | DiscoverSubnetPeers "SubnetDiscovery list"

record ('p, 'hd) DelayOps =
  hd_new :: "duration \<Rightarrow> 'hd"
  hd_insert :: "'hd \<Rightarrow> 'p \<Rightarrow> instant \<Rightarrow> 'hd"
  hd_remove :: "'hd \<Rightarrow> 'p \<Rightarrow> 'hd"
  hd_expire :: "'hd \<Rightarrow> 'p \<Rightarrow> 'hd"

type_synonym SyncSubnetId = u64

record ('p, 'enr, 'hd) PeerManager =
  network_globals :: "('p, 'enr) NetworkGlobals"
  pm_events :: "'p PeerManagerEvent list"
  inbound_ping_peers :: 'hd
  outbound_ping_peers :: 'hd
  status_peers :: 'hd
  pm_target_peers :: usize
  peers_to_dial :: "'enr list"
  temporary_banned_peers :: "'p lru_time_cache"
  sync_committee_subnets :: "(SyncSubnetId \<times> instant) list"
  discovery_enabled :: bool
  metrics_enabled :: bool

abbreviation pm_db :: "('p, 'enr, 'hd) PeerManager \<Rightarrow> ('p, 'enr) PeerDB" where
  "pm_db pm \<equiv> g_peers (network_globals pm)"

definition with_db :: "('p, 'enr) PeerDB \<Rightarrow> ('p, 'enr, 'hd) PeerManager \<Rightarrow> ('p, 'enr, 'hd) PeerManager" where
  "with_db db pm = pm\<lparr>network_globals := (network_globals pm)\<lparr>g_peers := db\<rparr>\<rparr>"

definition push_event :: "'p PeerManagerEvent \<Rightarrow> ('p, 'enr, 'hd) PeerManager \<Rightarrow> ('p, 'enr, 'hd) PeerManager" where
  "push_event e pm = pm\<lparr>pm_events := pm_events pm @ [e]\<rparr>"

definition pm_new ::
  "('p, 'hd) DelayOps \<Rightarrow> PmConfig \<Rightarrow> ('p, 'enr) NetworkGlobals \<Rightarrow> ('p, 'enr, 'hd) PeerManager" where
  "pm_new D cfg globals =
     \<lparr>network_globals = globals, pm_events = [],
      inbound_ping_peers = hd_new D (secs (cfg_ping_interval_inbound cfg)),
      outbound_ping_peers = hd_new D (secs (cfg_ping_interval_outbound cfg)),
      status_peers = hd_new D (secs (cfg_status_interval cfg)),
      pm_target_peers = cfg_target_peer_count cfg, peers_to_dial = [],
      temporary_banned_peers = cache_new PEER_RECONNECTION_TIMEOUT, sync_committee_subnets = [],
      discovery_enabled = cfg_discovery_enabled cfg, metrics_enabled = cfg_metrics_enabled cfg\<rparr>"

section \<open>Limits\<close>

definition max_peers :: "('p, 'enr, 'hd) PeerManager \<Rightarrow> usize" where
  "max_peers self = scaled_ceil (pm_target_peers self) (rnd32 (1 + PEER_EXCESS_FACTOR))"

definition max_priority_peers :: "('p, 'enr, 'hd) PeerManager \<Rightarrow> usize" where
  "max_priority_peers self =
     scaled_ceil (pm_target_peers self) (rnd32 (rnd32 (1 + PEER_EXCESS_FACTOR) + PRIORITY_PEER_EXCESS))"

definition min_outbound_only_peers :: "('p, 'enr, 'hd) PeerManager \<Rightarrow> usize" where
  "min_outbound_only_peers self = scaled_ceil (pm_target_peers self) MIN_OUTBOUND_ONLY_FACTOR"

definition target_outbound_peers :: "('p, 'enr, 'hd) PeerManager \<Rightarrow> usize" where
  "target_outbound_peers self = scaled_ceil (pm_target_peers self) TARGET_OUTBOUND_ONLY_FACTOR"

definition max_outbound_dialing_peers :: "('p, 'enr, 'hd) PeerManager \<Rightarrow> usize" where
  "max_outbound_dialing_peers self =
     scaled_ceil (pm_target_peers self)
       (rnd32 (rnd32 (1 + PEER_EXCESS_FACTOR) + rnd32 (PRIORITY_PEER_EXCESS / 2)))"

definition peer_limit_reached :: "('p, 'enr, 'hd) PeerManager \<Rightarrow> bool \<Rightarrow> bool" where
  "peer_limit_reached self count_dialing =
     (if count_dialing then g_connected_or_dialing_peers (network_globals self) \<ge> max_peers self
      else g_connected_peers (network_globals self) \<ge> max_outbound_dialing_peers self)"

section \<open>Reports and bans\<close>

definition not_unban_of :: "'p \<Rightarrow> 'p PeerManagerEvent \<Rightarrow> bool" where
  "not_unban_of p ev = (case ev of UnBanned q _ \<Rightarrow> q \<noteq> p | _ \<Rightarrow> True)"

definition handle_ban_operation ::
  "('p, 'enr, 'hd) PeerManager \<Rightarrow> 'p \<Rightarrow> BanOperation \<Rightarrow> GoodbyeReason option \<Rightarrow> instant \<Rightarrow>
   ('p, 'enr, 'hd) PeerManager option" where
  "handle_ban_operation self p ban_operation reason now =
     (case ban_operation of
        TemporaryBan \<Rightarrow>
          if g_connected_peers (network_globals self) \<ge> pm_target_peers self then
            do {
              (_, tb) \<leftarrow> raw_insert (temporary_banned_peers self) p now;
              Some (push_event (PeerManagerEvent.Banned p []) (self\<lparr>temporary_banned_peers := tb\<rparr>))
            }
          else Some self
      | DisconnectThePeer \<Rightarrow> Some (push_event (DisconnectPeer p (unwrap_or reason GoodbyeReason.BadScore)) self)
      | PeerDisconnecting \<Rightarrow> Some self
      | ReadyToBan ips \<Rightarrow>
          do {
            (removed, tb) \<leftarrow> raw_remove (temporary_banned_peers self) p;
            let self = self\<lparr>temporary_banned_peers := tb\<rparr>;
            Some (if \<not> removed then
                    let self = push_event (PeerManagerEvent.Banned p ips) self
                    in self\<lparr>pm_events := filter (not_unban_of p) (pm_events self)\<rparr>
                  else self)
          })"

definition handle_score_action ::
  "('p, 'hd) DelayOps \<Rightarrow> ('p, 'enr, 'hd) PeerManager \<Rightarrow> 'p \<Rightarrow> ScoreUpdateResult \<Rightarrow> GoodbyeReason option \<Rightarrow> instant \<Rightarrow>
   ('p, 'enr, 'hd) PeerManager option" where
  "handle_score_action D self p action reason now =
     (case action of
        Ban ban_operation \<Rightarrow> handle_ban_operation self p ban_operation reason now
      | Disconnect \<Rightarrow>
          Some (push_event (DisconnectPeer p GoodbyeReason.BadScore)
            (self\<lparr>inbound_ping_peers := hd_remove D (inbound_ping_peers self) p,
                  outbound_ping_peers := hd_remove D (outbound_ping_peers self) p\<rparr>))
      | ScoreUpdateResult.NoAction \<Rightarrow> Some self
      | ScoreUpdateResult.Unbanned unbanned_ips \<Rightarrow> Some (push_event (UnBanned p unbanned_ips) self))"

definition pm_report_peer ::
  "('p, 'hd) DelayOps \<Rightarrow> ('p, 'enr, 'hd) PeerManager \<Rightarrow> 'p \<Rightarrow> PeerAction \<Rightarrow> ReportSource \<Rightarrow> GoodbyeReason option \<Rightarrow>
   instant \<Rightarrow> ('p, 'enr, 'hd) PeerManager option" where
  "pm_report_peer D self p act src reason now =
     (let (action, db) = report_peer (pm_db self) p act now
      in handle_score_action D (with_db db self) p action reason now)"

definition goodbye_peer ::
  "('p, 'hd) DelayOps \<Rightarrow> ('p, 'enr, 'hd) PeerManager \<Rightarrow> 'p \<Rightarrow> GoodbyeReason \<Rightarrow> ReportSource \<Rightarrow> instant \<Rightarrow>
   ('p, 'enr, 'hd) PeerManager option" where
  "goodbye_peer D self p reason src now = pm_report_peer D self p Fatal src (Some reason) now"

section \<open>Dialling\<close>

definition dial_peer :: "('p, 'enr) EnrOps \<Rightarrow> ('p, 'enr, 'hd) PeerManager \<Rightarrow> 'enr \<Rightarrow> ('p, 'enr, 'hd) PeerManager" where
  "dial_peer E self enr =
     (if should_dial (pm_db self) (enr_peer_id E enr)
      then self\<lparr>peers_to_dial := peers_to_dial self @ [enr]\<rparr> else self)"

fun discovered_loop ::
  "('p, 'enr) EnrOps \<Rightarrow> usize \<Rightarrow> instant \<Rightarrow> ('enr \<times> instant option) list \<Rightarrow> usize \<Rightarrow>
   ('p, 'enr, 'hd) PeerManager \<Rightarrow> ('p, 'enr, 'hd) PeerManager" where
  "discovered_loop E connected_or_dialing now [] to_dial_peers self = self"
| "discovered_loop E connected_or_dialing now ((enr, mttl) # results) to_dial_peers self =
     (if mttl \<noteq> None \<and> usize_add connected_or_dialing to_dial_peers < max_priority_peers self \<or>
         usize_add connected_or_dialing to_dial_peers < max_peers self then
        let self = (case mttl of
                      Some t' \<Rightarrow> with_db (update_min_ttl (pm_db self) (enr_peer_id E enr) t' now) self
                    | None \<Rightarrow> self)
        in discovered_loop E connected_or_dialing now results (usize_add to_dial_peers 1) (dial_peer E self enr)
      else discovered_loop E connected_or_dialing now results to_dial_peers self)"

definition peers_discovered ::
  "('p, 'enr) EnrOps \<Rightarrow> ('p, 'enr, 'hd) PeerManager \<Rightarrow> ('enr \<times> instant option) list \<Rightarrow> instant \<Rightarrow>
   ('p, 'enr, 'hd) PeerManager" where
  "peers_discovered E self results now =
     discovered_loop E (g_connected_or_dialing_peers (network_globals self)) now results 0 self"

definition peer_statusd :: "('p, 'hd) DelayOps \<Rightarrow> ('p, 'enr, 'hd) PeerManager \<Rightarrow> 'p \<Rightarrow> instant \<Rightarrow> ('p, 'enr, 'hd) PeerManager" where
  "peer_statusd D self p now = self\<lparr>status_peers := hd_insert D (status_peers self) p now\<rparr>"

definition add_sync_subnet :: "('p, 'enr, 'hd) PeerManager \<Rightarrow> SyncSubnetId \<Rightarrow> instant \<Rightarrow> ('p, 'enr, 'hd) PeerManager" where
  "add_sync_subnet self s t' =
     (case map_of (sync_committee_subnets self) s of
        None \<Rightarrow> self\<lparr>sync_committee_subnets := AList.update s t' (sync_committee_subnets self)\<rparr>
      | Some old \<Rightarrow>
          if old < t' then self\<lparr>sync_committee_subnets := AList.update s t' (sync_committee_subnets self)\<rparr> else self)"

section \<open>Messages of peers\<close>

definition identify ::
  "('p, 'enr, 'hd) PeerManager \<Rightarrow> 'p \<Rightarrow> Multiaddr list \<Rightarrow> string \<Rightarrow> string \<Rightarrow> ('p, 'enr, 'hd) PeerManager" where
  "identify self p listen_addrs protocol agent =
     (case peer_info (pm_db self) p of
        Some info \<Rightarrow>
          let info = snd (set_listening_addresses info listen_addrs);
              info = set_client info (from_identify_info protocol agent)
          in with_db ((pm_db self)\<lparr>peers := AList.update p info (peers (pm_db self))\<rparr>) self
      | None \<Rightarrow> self)"

definition rate_limited_action :: "Protocol \<Rightarrow> PeerAction" where
  "rate_limited_action protocol =
     (case protocol of
        Protocol.Ping \<Rightarrow> MidToleranceError
      | Protocol.PooledUserOpHashes \<Rightarrow> MidToleranceError
      | Protocol.PooledUserOpsByHash \<Rightarrow> MidToleranceError
      | Protocol.Goodbye \<Rightarrow> LowToleranceError
      | Protocol.MetaData \<Rightarrow> LowToleranceError
      | Protocol.Status \<Rightarrow> LowToleranceError)"

definition unsupported_action :: "Protocol \<Rightarrow> PeerAction option" where
  "unsupported_action protocol =
     (case protocol of
        Protocol.Ping \<Rightarrow> Some Fatal
      | Protocol.PooledUserOpHashes \<Rightarrow> None
      | Protocol.PooledUserOpsByHash \<Rightarrow> None
      | Protocol.Goodbye \<Rightarrow> None
      | Protocol.MetaData \<Rightarrow> Some Fatal
      | Protocol.Status \<Rightarrow> Some Fatal)"

definition timeout_action :: "Protocol \<Rightarrow> PeerAction option" where
  "timeout_action protocol =
     (case protocol of
        Protocol.Ping \<Rightarrow> Some LowToleranceError
      | Protocol.PooledUserOpHashes \<Rightarrow> Some MidToleranceError
      | Protocol.PooledUserOpsByHash \<Rightarrow> Some MidToleranceError
      | Protocol.Goodbye \<Rightarrow> None
      | Protocol.MetaData \<Rightarrow> None
      | Protocol.Status \<Rightarrow> None)"

text \<open>The action an error leads to; \<open>None\<close> where the function returns.\<close>

definition rpc_error_action :: "Protocol \<Rightarrow> 'e RPCError \<Rightarrow> ConnectionDirection \<Rightarrow> PeerAction option" where
  "rpc_error_action protocol err direction =
     (case err of
        IncompleteStream \<Rightarrow> Some MidToleranceError
      | InternalError _ \<Rightarrow> None
      | HandlerRejected \<Rightarrow> Some Fatal
      | InvalidData _ \<Rightarrow> Some Fatal
      | IoError _ \<Rightarrow> Some HighToleranceError
      | ErrorResponse code _ \<Rightarrow>
          (case code of
             RPCResponseErrorCode.Unknown \<Rightarrow> Some HighToleranceError
           | ResourceUnavailable \<Rightarrow> (case direction of Outgoing \<Rightarrow> Some Fatal | Incoming \<Rightarrow> None)
           | ServerError \<Rightarrow> Some MidToleranceError
           | InvalidRequest \<Rightarrow> Some LowToleranceError
           | RateLimited \<Rightarrow> Some (rate_limited_action protocol))
      | SSZDecodeError _ \<Rightarrow> Some Fatal
      | UnsupportedProtocol \<Rightarrow> unsupported_action protocol
      | StreamTimeout \<Rightarrow> (case direction of Incoming \<Rightarrow> None | Outgoing \<Rightarrow> timeout_action protocol)
      | NegotiationTimeout \<Rightarrow> Some LowToleranceError
      | RPCError.Disconnected \<Rightarrow> None)"

definition handle_rpc_error ::
  "('p, 'hd) DelayOps \<Rightarrow> ('p, 'enr, 'hd) PeerManager \<Rightarrow> 'p \<Rightarrow> Protocol \<Rightarrow> 'e RPCError \<Rightarrow> ConnectionDirection \<Rightarrow> instant \<Rightarrow>
   ('p, 'enr, 'hd) PeerManager option" where
  "handle_rpc_error D self p protocol err direction now =
     (case rpc_error_action protocol err direction of
        Some peer_action \<Rightarrow> pm_report_peer D self p peer_action RPC None now
      | None \<Rightarrow> Some self)"

definition request_metadata :: "('p, 'enr, 'hd) PeerManager \<Rightarrow> 'p \<Rightarrow> 'enr PeerInfo \<Rightarrow> u64 \<Rightarrow> ('p, 'enr, 'hd) PeerManager" where
  "request_metadata self p info seq =
     (case meta_data info of
        Some md \<Rightarrow> if seq_number md < seq then push_event (PeerManagerEvent.MetaData p) self else self
      | None \<Rightarrow> push_event (PeerManagerEvent.MetaData p) self)"

definition ping_request ::
  "('p, 'hd) DelayOps \<Rightarrow> ('p, 'enr, 'hd) PeerManager \<Rightarrow> 'p \<Rightarrow> u64 \<Rightarrow> instant \<Rightarrow> ('p, 'enr, 'hd) PeerManager" where
  "ping_request D self p seq now =
     (case peer_info (pm_db self) p of
        Some info \<Rightarrow>
          let self = (case connection_direction info of
                        Some Incoming \<Rightarrow> self\<lparr>inbound_ping_peers := hd_insert D (inbound_ping_peers self) p now\<rparr>
                      | Some Outgoing \<Rightarrow> self\<lparr>outbound_ping_peers := hd_insert D (outbound_ping_peers self) p now\<rparr>
                      | None \<Rightarrow> self)
          in request_metadata self p info seq
      | None \<Rightarrow> self)"

definition pong_response :: "('p, 'enr, 'hd) PeerManager \<Rightarrow> 'p \<Rightarrow> u64 \<Rightarrow> ('p, 'enr, 'hd) PeerManager" where
  "pong_response self p seq =
     (case peer_info (pm_db self) p of
        Some info \<Rightarrow> request_metadata self p info seq
      | None \<Rightarrow> self)"

definition meta_data_response :: "('p, 'enr, 'hd) PeerManager \<Rightarrow> 'p \<Rightarrow> MetaDataMessage \<Rightarrow> ('p, 'enr, 'hd) PeerManager" where
  "meta_data_response self p md =
     (case peer_info (pm_db self) p of
        Some info \<Rightarrow> with_db ((pm_db self)\<lparr>peers := AList.update p (set_meta_data info md) (peers (pm_db self))\<rparr>) self
      | None \<Rightarrow> self)"

text \<open>The results of a score update are handled one after the other.\<close>

definition handle_score_actions ::
  "('p, 'hd) DelayOps \<Rightarrow> ('p \<Rightarrow> instant) \<Rightarrow> ('p, 'enr, 'hd) PeerManager \<Rightarrow> ('p \<times> ScoreUpdateResult) list \<Rightarrow>
   ('p, 'enr, 'hd) PeerManager option" where
  "handle_score_actions D nows = run_steps (\<lambda>self (p, action). handle_score_action D self p action None (nows p))"

definition pm_update_gossipsub_scores ::
  "('p, 'hd) DelayOps \<Rightarrow> (('p \<times> 'enr PeerInfo \<times> f64) list \<Rightarrow> ('p \<times> 'enr PeerInfo \<times> f64) list) \<Rightarrow>
   ('p \<Rightarrow> f64 option) \<Rightarrow> ('p, 'enr, 'hd) PeerManager \<Rightarrow> ('p \<Rightarrow> instant) \<Rightarrow> ('p, 'enr, 'hd) PeerManager option" where
  "pm_update_gossipsub_scores D ties peer_score self nows =
     (let (actions, db) = update_gossipsub_scores ties peer_score (pm_db self) (pm_target_peers self) nows
      in handle_score_actions D nows (with_db db self) actions)"

section \<open>Connections\<close>

datatype ConnectingType = Dialing | IngoingConnected Multiaddr | OutgoingConnected Multiaddr

definition inject_peer_connection ::
  "('p, 'hd) DelayOps \<Rightarrow> ('p, 'enr, 'hd) PeerManager \<Rightarrow> 'p \<Rightarrow> ConnectingType \<Rightarrow> 'enr option \<Rightarrow> instant \<Rightarrow>
   bool \<times> ('p, 'enr, 'hd) PeerManager" where
  "inject_peer_connection D self p connection enr now =
     (case connection of
        ConnectingType.Dialing \<Rightarrow> (True, with_db (dialing_peer (pm_db self) p enr now) self)
      | IngoingConnected addr \<Rightarrow>
          let self = with_db (db_connect_ingoing (pm_db self) p addr enr now) self;
              self = self\<lparr>inbound_ping_peers := hd_insert D (inbound_ping_peers self) p now\<rparr>
          in (True, self\<lparr>status_peers := hd_insert D (status_peers self) p now\<rparr>)
      | OutgoingConnected addr \<Rightarrow>
          let self = with_db (db_connect_outgoing (pm_db self) p addr enr now) self;
              self = self\<lparr>outbound_ping_peers := hd_insert D (outbound_ping_peers self) p now\<rparr>
          in (True, self\<lparr>status_peers := hd_insert D (status_peers self) p now\<rparr>))"

definition inject_connect_ingoing ::
  "('p, 'hd) DelayOps \<Rightarrow> ('p, 'enr, 'hd) PeerManager \<Rightarrow> 'p \<Rightarrow> Multiaddr \<Rightarrow> 'enr option \<Rightarrow> instant \<Rightarrow>
   bool \<times> ('p, 'enr, 'hd) PeerManager" where
  "inject_connect_ingoing D self p addr enr now = inject_peer_connection D self p (IngoingConnected addr) enr now"

definition inject_connect_outgoing ::
  "('p, 'hd) DelayOps \<Rightarrow> ('p, 'enr, 'hd) PeerManager \<Rightarrow> 'p \<Rightarrow> Multiaddr \<Rightarrow> 'enr option \<Rightarrow> instant \<Rightarrow>
   bool \<times> ('p, 'enr, 'hd) PeerManager" where
  "inject_connect_outgoing D self p addr enr now = inject_peer_connection D self p (OutgoingConnected addr) enr now"

definition inject_disconnect ::
  "('p, 'hd) DelayOps \<Rightarrow> ('p, 'enr, 'hd) PeerManager \<Rightarrow> 'p \<Rightarrow> instant \<Rightarrow> ('p, 'enr, 'hd) PeerManager option" where
  "inject_disconnect D self p now =
     do {
       let ((ban_operation, purged_peers), db) = db_inject_disconnect (pm_db self) p now;
       self \<leftarrow> (case ban_operation of
                  Some op \<Rightarrow> handle_ban_operation (with_db db self) p op None now
                | None \<Rightarrow> Some (with_db db self));
       Some (self\<lparr>inbound_ping_peers := hd_remove D (inbound_ping_peers self) p,
                  outbound_ping_peers := hd_remove D (outbound_ping_peers self) p,
                  status_peers := hd_remove D (status_peers self) p,
                  pm_events := pm_events self @ map (\<lambda>(q, ips). UnBanned q ips) purged_peers\<rparr>)
     }"

definition disconnect_peer ::
  "('p, 'enr, 'hd) PeerManager \<Rightarrow> 'p \<Rightarrow> GoodbyeReason \<Rightarrow> instant \<Rightarrow> ('p, 'enr, 'hd) PeerManager" where
  "disconnect_peer self p reason now =
     (let self = push_event (DisconnectPeer p reason) self
      in with_db (notify_disconnecting (pm_db self) p False now) self)"

section \<open>Maintenance\<close>

text \<open>Wrapping subtraction of \<open>usize\<close>.\<close>

definition usize_sub :: "usize \<Rightarrow> usize \<Rightarrow> usize" where
  "usize_sub a b = (if b \<le> a then a - b else a + (USIZE_MAX + 1) - b)"

definition wanted_peers :: "('p, 'enr, 'hd) PeerManager \<Rightarrow> usize \<Rightarrow> usize" where
  "wanted_peers self dialing_peers =
     (let peer_count = g_connected_or_dialing_peers (network_globals self);
          outbound_only_peer_count = g_connected_outbound_only_peers (network_globals self)
      in if peer_count < pm_target_peers self - dialing_peers then
           usize_sub (pm_target_peers self - dialing_peers) peer_count
         else if outbound_only_peer_count < min_outbound_only_peers self \<and>
                 peer_count < max_outbound_dialing_peers self then
           usize_sub (max_outbound_dialing_peers self - dialing_peers) peer_count
         else 0)"

definition maintain_peer_count :: "('p, 'enr, 'hd) PeerManager \<Rightarrow> usize \<Rightarrow> ('p, 'enr, 'hd) PeerManager" where
  "maintain_peer_count self dialing_peers =
     (if discovery_enabled self \<and> wanted_peers self dialing_peers \<noteq> 0
      then push_event (DiscoverPeers (wanted_peers self dialing_peers)) self else self)"

text \<open>
  The macro \<open>prune_peers!\<close>: one pass over candidates, with the peers chosen so far (a set, here
  the list of its elements in the order of insertion) and the number of outbound peers among them.
\<close>

fun prune_pass ::
  "usize \<Rightarrow> usize \<Rightarrow> usize \<Rightarrow> ('p \<times> 'enr PeerInfo) list \<Rightarrow> 'p list \<Rightarrow> usize \<Rightarrow> 'p list \<times> usize" where
  "prune_pass excess target_outbound connected_outbound [] peers_to_prune outbound_pruned =
     (peers_to_prune, outbound_pruned)"
| "prune_pass excess target_outbound connected_outbound ((p, info) # candidates) peers_to_prune outbound_pruned =
     (if length peers_to_prune \<ge> excess then (peers_to_prune, outbound_pruned)
      else if p \<in> set peers_to_prune then
        prune_pass excess target_outbound connected_outbound candidates peers_to_prune outbound_pruned
      else if is_outbound_only info then
        (if usize_add target_outbound outbound_pruned < connected_outbound then
           prune_pass excess target_outbound connected_outbound candidates (peers_to_prune @ [p])
             (usize_add outbound_pruned 1)
         else prune_pass excess target_outbound connected_outbound candidates peers_to_prune outbound_pruned)
      else prune_pass excess target_outbound connected_outbound candidates (peers_to_prune @ [p]) outbound_pruned)"

definition prune_candidates ::
  "(('p \<times> 'enr PeerInfo) list \<Rightarrow> ('p \<times> 'enr PeerInfo) list) \<Rightarrow> ('enr PeerInfo \<Rightarrow> bool) \<Rightarrow> ('p, 'enr) PeerDB \<Rightarrow>
   ('p \<times> 'enr PeerInfo) list" where
  "prune_candidates shuffle P db =
     filter (\<lambda>(p, info). \<not> is_trusted info \<and> P info) (worst_connected_peers shuffle db)"

text \<open>
  The loop over the subnets. Its state is the map from subnets to their peers (a list of entries),
  the counts of sync committees, and what the passes before it have. A shuffle is applied when it
  is a permutation of the list. The position of the last longest entry is what \<open>max_by_key\<close> finds.
\<close>

definition shuffled :: "('a list \<Rightarrow> 'a list) \<Rightarrow> 'a list \<Rightarrow> 'a list" where
  "shuffled f xs = (if mset (f xs) = mset xs then f xs else xs)"

fun last_longest :: "'a list list \<Rightarrow> nat option" where
  "last_longest [] = None"
| "last_longest (x # xs) =
     (case last_longest xs of
        Some k \<Rightarrow> if length x > length (xs ! k) then Some 0 else Some (Suc k)
      | None \<Rightarrow> Some 0)"

definition protected_committee ::
  "('p \<times> SyncSubnetId list) list \<Rightarrow> (SyncSubnetId \<times> u64) list \<Rightarrow> 'p \<Rightarrow> bool" where
  "protected_committee committees counts p =
     (case map_of committees p of
        Some subnets \<Rightarrow>
          (case min_by_key id (List.map_filter (map_of counts) subnets) of
             Some min_subnet_count \<Rightarrow> min_subnet_count \<le> MIN_SYNC_COMMITTEE_PEERS
           | None \<Rightarrow> False)
      | None \<Rightarrow> False)"

fun find_candidate ::
  "usize \<Rightarrow> usize \<Rightarrow> ('p \<Rightarrow> bool) \<Rightarrow> usize \<Rightarrow> ('p \<times> 'enr PeerInfo) list \<Rightarrow> nat option \<times> usize" where
  "find_candidate target_outbound connected_outbound protected outbound_pruned [] = (None, outbound_pruned)"
| "find_candidate target_outbound connected_outbound protected outbound_pruned ((p, info) # rest) =
     (if is_outbound_only info \<and> target_outbound \<ge> connected_outbound - outbound_pruned \<or> protected p then
        (case find_candidate target_outbound connected_outbound protected outbound_pruned rest of
           (k, n) \<Rightarrow> (map_option Suc k, n))
      else (Some 0, if is_outbound_only info then usize_add outbound_pruned 1 else outbound_pruned))"

definition lower_counts :: "SyncSubnetId list \<Rightarrow> (SyncSubnetId \<times> u64) list \<Rightarrow> (SyncSubnetId \<times> u64) list" where
  "lower_counts subnets counts =
     fold (\<lambda>s m. case map_of m s of Some n \<Rightarrow> AList.update s (sat_sub n 1) m | None \<Rightarrow> m) subnets counts"

lemma last_longest_bound: "last_longest xs = Some k \<Longrightarrow> k < length xs"
  by (induction xs arbitrary: k) (auto split: option.splits if_splits)

lemma find_candidate_bound: "find_candidate t c prot n xs = (Some k, n') \<Longrightarrow> k < length xs"
  by (induction xs arbitrary: k n') (auto split: prod.splits if_splits)

lemma length_shuffled [simp]: "length (shuffled f xs) = length xs"
  using mset_eq_length by (auto simp: shuffled_def)

lemma total_update_less:
  assumes "k < length xs" "length y < length (xs ! k)"
  shows "sum_list (map length (xs[k := y])) < sum_list (map length xs)"
  using assms
proof (induction xs arbitrary: k)
  case (Cons x xs)
  then show ?case by (cases k) auto
qed simp

lemma total_filter_le: "sum_list (map length (map (filter P) xs)) \<le> sum_list (map length xs)"
  by (induction xs) (auto intro: add_mono length_filter_le)

lemma total_removed_less:
  assumes "k < length xs" "i < length (xs ! k)" "length ys = length (xs ! k)"
  shows "sum_list (map length (map (filter P) (xs[k := take i ys @ drop (Suc i) ys]))) < sum_list (map length xs)"
proof -
  have "length (take i ys @ drop (Suc i) ys) < length (xs ! k)" using assms by simp
  from total_update_less [OF assms(1) this] total_filter_le [of P "xs[k := take i ys @ drop (Suc i) ys]"]
  show ?thesis by linarith
qed

function subnet_loop ::
  "(nat \<Rightarrow> ('p \<times> 'enr PeerInfo) list \<Rightarrow> ('p \<times> 'enr PeerInfo) list) \<Rightarrow> usize \<Rightarrow> usize \<Rightarrow> usize \<Rightarrow>
   ('p \<times> SyncSubnetId list) list \<Rightarrow> nat \<Rightarrow> ('p \<times> 'enr PeerInfo) list list \<Rightarrow> (SyncSubnetId \<times> u64) list \<Rightarrow>
   'p list \<Rightarrow> usize \<Rightarrow> 'p list" where
  "subnet_loop shuf excess target_outbound connected_outbound committees n subnets counts peers_to_prune outbound_pruned =
     (if length peers_to_prune < excess then
        (case last_longest subnets of
           Some k \<Rightarrow>
             if subnets ! k \<noteq> [] then
               let peers_on_subnet = shuffled (shuf n) (subnets ! k)
               in (case find_candidate target_outbound connected_outbound (protected_committee committees counts)
                          outbound_pruned peers_on_subnet of
                     (Some i, outbound_pruned) \<Rightarrow>
                       let candidate = fst (peers_on_subnet ! i);
                           subnets = subnets[k := take i peers_on_subnet @ drop (Suc i) peers_on_subnet];
                           subnets = map (filter (\<lambda>(q, _). q \<noteq> candidate)) subnets;
                           counts = lower_counts (unwrap_or (map_of committees candidate) []) counts
                       in subnet_loop shuf excess target_outbound connected_outbound committees (Suc n) subnets counts
                            (if candidate \<in> set peers_to_prune then peers_to_prune else peers_to_prune @ [candidate])
                            outbound_pruned
                   | (None, outbound_pruned) \<Rightarrow>
                       subnet_loop shuf excess target_outbound connected_outbound committees (Suc n)
                         (subnets[k := []]) counts peers_to_prune outbound_pruned)
             else peers_to_prune
         | None \<Rightarrow> peers_to_prune)
      else peers_to_prune)"
  by pat_completeness auto
termination
proof (relation "measure (\<lambda>(shuf, e, t, c, cs, n, subnets, counts, ps, o'). sum_list (map length subnets))", goal_cases)
  case 2
  then show ?case by (auto dest!: last_longest_bound intro!: total_update_less)
next
  case 3
  then show ?case
    by (auto dest!: last_longest_bound find_candidate_bound [OF sym] simp del: map_map intro!: total_removed_less)
qed simp

declare subnet_loop.simps [simp del]

text \<open>
  What one heartbeat takes from outside: the clock readings of its parts, the shuffles and the
  order in which the set of pruned peers is iterated.
\<close>

record ('p, 'enr) Beat =
  bt_now :: instant
  bt_scan :: "'p \<Rightarrow> instant"
  bt_clean :: "'p \<Rightarrow> instant"
  bt_decay :: "'p \<Rightarrow> instant"
  bt_prune :: "'p \<Rightarrow> instant"
  bt_shuffle :: "('p \<times> 'enr PeerInfo) list \<Rightarrow> ('p \<times> 'enr PeerInfo) list"
  bt_subnet_shuffle :: "nat \<Rightarrow> ('p \<times> 'enr PeerInfo) list \<Rightarrow> ('p \<times> 'enr PeerInfo) list"
  bt_order :: "'p list \<Rightarrow> 'p list"

text \<open>
  The map from subnets to peers that the loop above works on. The statements that would fill it
  and the committees are commented out, so the pass over the connected peers leaves them empty.
\<close>

definition subnet_to_peer :: "'p list \<Rightarrow> ('p, 'enr) PeerDB \<Rightarrow> ('p \<times> 'enr PeerInfo) list list" where
  "subnet_to_peer peers_to_prune db =
     fold (\<lambda>(p, info) m. if is_trusted info \<or> p \<in> set peers_to_prune then m else m) (connected_peers db) []"

definition negative_score :: "'enr PeerInfo \<Rightarrow> bool" where
  "negative_score info = flt (score_value (pi_score info)) (Fin 0)"

definition peers_to_prune :: "('p, 'enr) Beat \<Rightarrow> ('p, 'enr, 'hd) PeerManager \<Rightarrow> 'p list" where
  "peers_to_prune b self =
     (let db = pm_db self;
          excess = g_connected_peers (network_globals self) - pm_target_peers self;
          connected_outbound = g_connected_outbound_only_peers (network_globals self);
          (to_prune, outbound_pruned) =
            prune_pass excess (target_outbound_peers self) connected_outbound
              (prune_candidates (bt_shuffle b) negative_score db) [] 0
      in if length to_prune < excess then
           subnet_loop (bt_subnet_shuffle b) excess (target_outbound_peers self) connected_outbound [] 0
             (subnet_to_peer to_prune db) [] to_prune outbound_pruned
         else to_prune)"

definition prune_excess_peers :: "('p, 'enr) Beat \<Rightarrow> ('p, 'enr, 'hd) PeerManager \<Rightarrow> ('p, 'enr, 'hd) PeerManager" where
  "prune_excess_peers b self =
     (if g_connected_peers (network_globals self) \<le> pm_target_peers self then self
      else fold (\<lambda>p pm. disconnect_peer pm p TooManyPeers (bt_prune b p)) (bt_order b (peers_to_prune b self)) self)"

definition unban_temporary_banned_peers ::
  "('p, 'enr, 'hd) PeerManager \<Rightarrow> instant \<Rightarrow> ('p, 'enr, 'hd) PeerManager" where
  "unban_temporary_banned_peers self now =
     (let (expired, tb) = remove_expired (temporary_banned_peers self) now
      in self\<lparr>temporary_banned_peers := tb, pm_events := pm_events self @ map (\<lambda>p. UnBanned p []) expired\<rparr>)"

definition heartbeat ::
  "(nat \<Rightarrow> f64) \<Rightarrow> ('p, 'hd) DelayOps \<Rightarrow> ('p, 'enr) Beat \<Rightarrow> ('p, 'enr, 'hd) PeerManager \<Rightarrow>
   ('p, 'enr, 'hd) PeerManager option" where
  "heartbeat decay D b self =
     do {
       let self = maintain_peer_count self 0;
       let self = with_db (cleanup_dialing_peers (pm_db self) (bt_scan b) (bt_clean b)) self;
       let (actions, db) = update_scores decay (pm_db self) (bt_decay b);
       self \<leftarrow> handle_score_actions D (bt_decay b) (with_db db self) actions;
       let self = prune_excess_peers b self;
       Some (unban_temporary_banned_peers self (bt_now b))
     }"

section \<open>The swarm's view\<close>

datatype ConnectedPoint = Dialer Multiaddr | Listener Multiaddr

definition is_listener :: "ConnectedPoint \<Rightarrow> bool" where
  "is_listener endpoint = (case endpoint of Listener _ \<Rightarrow> True | Dialer _ \<Rightarrow> False)"

definition accept_connection ::
  "('p, 'hd) DelayOps \<Rightarrow> ('p, 'enr, 'hd) PeerManager \<Rightarrow> 'p \<Rightarrow> ConnectedPoint \<Rightarrow> instant \<Rightarrow> ('p, 'enr, 'hd) PeerManager" where
  "accept_connection D self p endpoint now =
     (if peer_limit_reached self (is_listener endpoint) then disconnect_peer self p TooManyPeers now
      else (case endpoint of
              Listener send_back_addr \<Rightarrow>
                push_event (PeerConnectedIncoming p) (snd (inject_connect_ingoing D self p send_back_addr None now))
            | Dialer address \<Rightarrow>
                push_event (PeerConnectedOutgoing p) (snd (inject_connect_outgoing D self p address None now))))"

definition on_connection_established ::
  "('p, 'hd) DelayOps \<Rightarrow> ('p, 'enr, 'hd) PeerManager \<Rightarrow> 'p \<Rightarrow> ConnectedPoint \<Rightarrow> usize \<Rightarrow> instant \<Rightarrow>
   ('p, 'enr, 'hd) PeerManager option" where
  "on_connection_established D self p endpoint other_established now =
     (let self = (if other_established = 0 then push_event (PeerManagerEvent.MetaData p) self else self)
      in case ban_status (pm_db self) p of
           BanResult.BadScore \<Rightarrow>
             map_option (push_event (PeerManagerEvent.Banned p []))
               (goodbye_peer D self p GoodbyeReason.Banned ReportSource.PeerManager now)
         | BannedIp _ \<Rightarrow> goodbye_peer D self p GoodbyeReason.BannedIP ReportSource.PeerManager now
         | NotBanned \<Rightarrow> Some (accept_connection D self p endpoint now))"

definition on_connection_closed ::
  "('p, 'hd) DelayOps \<Rightarrow> ('p, 'enr, 'hd) PeerManager \<Rightarrow> 'p \<Rightarrow> usize \<Rightarrow> instant \<Rightarrow> ('p, 'enr, 'hd) PeerManager option" where
  "on_connection_closed D self p remaining_established now =
     (if remaining_established > 0 then Some self
      else
        let self = (if is_connected_or_disconnecting (pm_db self) p then push_event (PeerDisconnected p) self else self)
        in inject_disconnect D self p now)"

definition on_dial_failure ::
  "('p, 'hd) DelayOps \<Rightarrow> ('p, 'enr, 'hd) PeerManager \<Rightarrow> 'p option \<Rightarrow> instant \<Rightarrow> ('p, 'enr, 'hd) PeerManager option" where
  "on_dial_failure D self peer now =
     (case peer of
        Some p \<Rightarrow> if \<not> db_is_connected (pm_db self) p then inject_disconnect D self p now else Some self
      | None \<Rightarrow> Some self)"

datatype 'p FromSwarm =
    ConnectionEstablished 'p ConnectedPoint usize
  | ConnectionClosed 'p ConnectedPoint usize
  | DialFailure "'p option"
  | ExternalAddrConfirmed
  | OtherSwarmEvent

definition on_swarm_event ::
  "('p, 'hd) DelayOps \<Rightarrow> ('p, 'enr, 'hd) PeerManager \<Rightarrow> 'p FromSwarm \<Rightarrow> instant \<Rightarrow> ('p, 'enr, 'hd) PeerManager option" where
  "on_swarm_event D self event now =
     (case event of
        ConnectionEstablished p endpoint other_established \<Rightarrow>
          on_connection_established D self p endpoint other_established now
      | ConnectionClosed p endpoint remaining_established \<Rightarrow> on_connection_closed D self p remaining_established now
      | DialFailure p \<Rightarrow> on_dial_failure D self p now
      | ExternalAddrConfirmed \<Rightarrow> Some self
      | OtherSwarmEvent \<Rightarrow> Some self)"

datatype 'p PollResult = GenerateEvent "'p PeerManagerEvent" | Dial 'p "Multiaddr list" | Pending

definition ping_inbound :: "('p, 'hd) DelayOps \<Rightarrow> instant \<Rightarrow> 'p \<Rightarrow> ('p, 'enr, 'hd) PeerManager \<Rightarrow> ('p, 'enr, 'hd) PeerManager" where
  "ping_inbound D now p self =
     push_event (PeerManagerEvent.Ping p)
       (self\<lparr>inbound_ping_peers := hd_insert D (hd_expire D (inbound_ping_peers self) p) p now\<rparr>)"

definition ping_outbound :: "('p, 'hd) DelayOps \<Rightarrow> instant \<Rightarrow> 'p \<Rightarrow> ('p, 'enr, 'hd) PeerManager \<Rightarrow> ('p, 'enr, 'hd) PeerManager" where
  "ping_outbound D now p self =
     push_event (PeerManagerEvent.Ping p)
       (self\<lparr>outbound_ping_peers := hd_insert D (hd_expire D (outbound_ping_peers self) p) p now\<rparr>)"

text \<open>The end of a poll: the first event, else the last peer to dial.\<close>

definition poll_output ::
  "('p, 'enr) EnrOps \<Rightarrow> ('p, 'hd) DelayOps \<Rightarrow> instant \<Rightarrow> ('p, 'enr, 'hd) PeerManager \<Rightarrow>
   'p PollResult \<times> ('p, 'enr, 'hd) PeerManager" where
  "poll_output E D now self =
     (case pm_events self of
        ev # evs \<Rightarrow> (GenerateEvent ev, self\<lparr>pm_events := evs\<rparr>)
      | [] \<Rightarrow>
          if peers_to_dial self \<noteq> [] then
            let enr = last (peers_to_dial self);
                self = self\<lparr>peers_to_dial := butlast (peers_to_dial self)\<rparr>;
                p = enr_peer_id E enr
            in (Dial p (multiaddr_quic E enr @ multiaddr_tcp E enr),
                snd (inject_peer_connection D self p ConnectingType.Dialing (Some enr) now))
          else (Pending, self))"

text \<open>
  One poll: the heartbeats that are due, the peers whose ping timers fire (inbound, then outbound)
  and the output.
\<close>

definition pm_poll ::
  "(nat \<Rightarrow> f64) \<Rightarrow> ('p, 'enr) EnrOps \<Rightarrow> ('p, 'hd) DelayOps \<Rightarrow> ('p, 'enr) Beat list \<Rightarrow> 'p list \<Rightarrow> 'p list \<Rightarrow> instant \<Rightarrow>
   ('p, 'enr, 'hd) PeerManager \<Rightarrow> ('p PollResult \<times> ('p, 'enr, 'hd) PeerManager) option" where
  "pm_poll decay E D beats inbound_due outbound_due now self =
     do {
       self \<leftarrow> run_steps (\<lambda>self b. heartbeat decay D b self) self beats;
       let self = fold (ping_inbound D now) inbound_due self;
       let self = fold (ping_outbound D now) outbound_due self;
       Some (poll_output E D now self)
     }"

end
