(* ===== verification/Peer_Db_Counts.thy ===== *)
theory Peer_Db_Counts
  imports Peer_Db
begin

text \<open>
  The counters of the database against its contents: the number of disconnected peers, the number
  of banned peers and, per address, the number of addresses of banned peers. The weights below are
  summed over the map of peers; every operation is shown to change counter and sum alike.
\<close>

section \<open>Weights\<close>

definition dw :: "'enr PeerInfo \<Rightarrow> nat" where "dw i = of_bool (is_disconnected i)"
definition bw :: "'enr PeerInfo \<Rightarrow> nat" where "bw i = of_bool (is_banned i)"
definition tw :: "'enr PeerInfo \<Rightarrow> nat" where "tw i = of_bool (is_trusted i)"

definition iw :: "IpAddr \<Rightarrow> 'enr PeerInfo \<Rightarrow> nat" where
  "iw ip i = (if is_banned i then count_list (seen_ip_addresses i) ip else 0)"

abbreviation n_disconnected :: "('p, 'enr) PeerDB \<Rightarrow> nat" where
  "n_disconnected db \<equiv> alist_sum dw (peers db)"

abbreviation n_banned :: "('p, 'enr) PeerDB \<Rightarrow> nat" where
  "n_banned db \<equiv> alist_sum bw (peers db)"

abbreviation n_trusted :: "('p, 'enr) PeerDB \<Rightarrow> nat" where
  "n_trusted db \<equiv> alist_sum tw (peers db)"

lemma n_disconnected_length: "n_disconnected db = length (disconnected_peer_ids db)"
  by (simp add: dw_def [abs_def] alist_sum_of_bool disconnected_peer_ids_def ids_where_def)

lemma n_banned_length: "n_banned db = length (banned_peers db)"
  by (simp add: bw_def [abs_def] alist_sum_of_bool banned_peers_def ids_where_def)

lemma alist_sum_le_length: "(\<And>v. f v \<le> 1) \<Longrightarrow> alist_sum f m \<le> length m"
proof (induction m)
  case (Cons e m)
  obtain k v where e: "e = (k, v)" by (cases e)
  have "f v \<le> 1" "alist_sum f m \<le> length m" using Cons by auto
  with e show ?case by simp
qed simp

lemma weight_le_1 [simp]: "dw i \<le> 1" "bw i \<le> 1" "tw i \<le> 1"
  by (simp_all add: dw_def bw_def tw_def)

lemma seen_ip_addresses_cong: "seen_multiaddrs i = seen_multiaddrs j \<Longrightarrow> seen_ip_addresses i = seen_ip_addresses j"
  by (simp add: seen_ip_addresses_def)

lemma seen_ip_keep [simp]:
  "seen_ip_addresses (set_connection_status i st) = seen_ip_addresses i"
  "seen_ip_addresses (clear_subnets i) = seen_ip_addresses i"
  "seen_ip_addresses (set_enr i e) = seen_ip_addresses i"
  "seen_ip_addresses (opt_set_enr oe i) = seen_ip_addresses i"
  by (simp_all add: seen_ip_addresses_def set_connection_status_def clear_subnets_def set_enr_def
      opt_set_enr_def split: option.split)

lemma seen_ip_update [simp]:
  "seen_ip_addresses (connection_status_update f i) = seen_ip_addresses i"
  "seen_ip_addresses (pi_subnets_update g i) = seen_ip_addresses i"
  "seen_ip_addresses (pi_score_update h i) = seen_ip_addresses i"
  by (simp_all add: seen_ip_addresses_def)

lemma opt_set_enr_fields [simp]:
  "connection_status (opt_set_enr oe i) = connection_status i"
  "is_trusted (opt_set_enr oe i) = is_trusted i"
  by (simp_all add: opt_set_enr_def set_enr_def split: option.split)

section \<open>The counts per address\<close>

definition ip_count :: "BannedPeersCount \<Rightarrow> IpAddr \<Rightarrow> nat" where
  "ip_count bc ip = unwrap_or (map_of (banned_peers_per_ip bc) ip) 0"

lemma release_ip_count:
  "unwrap_or (map_of (release_ip a m) ip) 0 = unwrap_or (map_of m ip) 0 - of_bool (ip = a)"
  by (auto simp: release_ip_def unwrap_or_def split: option.split)

lemma charge_ip_count:
  "unwrap_or (map_of m a) 0 < USIZE_MAX \<Longrightarrow>
   unwrap_or (map_of (charge_ip a m) ip) 0 = unwrap_or (map_of m ip) 0 + of_bool (ip = a)"
  by (auto simp: charge_ip_def rust_simps)

lemma fold_release_count:
  "unwrap_or (map_of (fold release_ip as m) ip) 0 = unwrap_or (map_of m ip) 0 - count_list as ip"
  by (induction as arbitrary: m) (simp_all add: release_ip_count)

lemma fold_charge_count:
  "(\<forall>a. unwrap_or (map_of m a) 0 + count_list as a \<le> USIZE_MAX) \<Longrightarrow>
   unwrap_or (map_of (fold charge_ip as m) ip) 0 = unwrap_or (map_of m ip) 0 + count_list as ip"
proof (induction as arbitrary: m)
  case (Cons a as)
  from Cons.prems [rule_format, of a] have *: "unwrap_or (map_of m a) 0 < USIZE_MAX" by simp
  have "unwrap_or (map_of (charge_ip a m) b) 0 + count_list as b \<le> USIZE_MAX" for b
    using Cons.prems [rule_format, of b] charge_ip_count [OF *, of b] by (simp split: if_splits)
  with Cons.IH [of "charge_ip a m"] charge_ip_count [OF *, of ip] show ?case by simp
qed simp

lemma ip_count_remove [simp]: "ip_count (remove_banned_peer bc as) ip = ip_count bc ip - count_list as ip"
  by (simp add: ip_count_def remove_banned_peer_def fold_release_count)

lemma ip_count_add:
  "(\<forall>a. ip_count bc a + count_list as a \<le> USIZE_MAX) \<Longrightarrow>
   ip_count (add_banned_peer bc as) ip = ip_count bc ip + count_list as ip"
  by (simp add: ip_count_def add_banned_peer_def fold_charge_count)

lemma ip_count_default [simp]: "ip_count banned_count_default ip = 0"
  by (simp add: ip_count_def banned_count_default_def)

lemma n_banned_peers_simps [simp]:
  "n_banned_peers (remove_banned_peer bc as) = n_banned_peers bc - 1"
  "n_banned_peers (add_banned_peer bc as) = usize_sat_add (n_banned_peers bc) 1"
  "n_banned_peers banned_count_default = 0"
  by (simp_all add: remove_banned_peer_def add_banned_peer_def banned_count_default_def)

lemma count_ip_is_banned_iff: "count_ip_is_banned bc ip \<longleftrightarrow> BANNED_PEERS_PER_IP_THRESHOLD < ip_count bc ip"
  by (simp add: count_ip_is_banned_def ip_count_def split: option.split)

lemma banned_ips_iff:
  "distinct (map fst (banned_peers_per_ip bc)) \<Longrightarrow>
   ip \<in> set (banned_ips bc) \<longleftrightarrow> BANNED_PEERS_PER_IP_THRESHOLD < ip_count bc ip"
proof -
  assume *: "distinct (map fst (banned_peers_per_ip bc))"
  have "ip \<in> set (banned_ips bc) \<longleftrightarrow>
    (\<exists>n. (ip, n) \<in> set (banned_peers_per_ip bc) \<and> BANNED_PEERS_PER_IP_THRESHOLD < n)"
    by (auto simp: banned_ips_def image_iff split: prod.splits)
  also have "\<dots> \<longleftrightarrow> (\<exists>n. map_of (banned_peers_per_ip bc) ip = Some n \<and> BANNED_PEERS_PER_IP_THRESHOLD < n)"
    using * by (simp add: map_of_eq_Some_iff)
  also have "\<dots> \<longleftrightarrow> BANNED_PEERS_PER_IP_THRESHOLD < ip_count bc ip"
    by (cases "map_of (banned_peers_per_ip bc) ip") (simp_all add: ip_count_def)
  finally show ?thesis .
qed

section \<open>One change of state\<close>

lemmas conn_change_defs = conn_change_def to_connected_def to_dialing_def to_disconnected_def
  to_disconnecting_def to_banned_def to_unbanned_def

lemma connect_fields [simp]:
  "is_disconnected (connect_ingoing i a) = False" "is_disconnected (connect_outgoing i a) = False"
  "is_banned (connect_ingoing i a) = False" "is_banned (connect_outgoing i a) = False"
  using connect_status [of i a] by (auto simp: is_disconnected_def is_banned_def)

lemma set_dialing_cases:
  "set_dialing_peer i now =
     (if is_disconnected i \<or> is_banned i \<or> connection_status i = PeerConnectionStatus.Unknown
      then (Inr (), i\<lparr>connection_status := PeerConnectionStatus.Dialing now\<rparr>)
      else (fst (set_dialing_peer i now), i))"
  by (auto simp: set_dialing_peer_def is_disconnected_def is_banned_def split: PeerConnectionStatus.split)

lemma set_connection_status_fields [simp]:
  "is_disconnected (set_connection_status i (PeerConnectionStatus.Disconnected t'))"
  "\<not> is_disconnected (set_connection_status i (PeerConnectionStatus.Banned t'))"
  "\<not> is_disconnected (set_connection_status i (PeerConnectionStatus.Disconnecting b))"
  "\<not> is_banned (set_connection_status i (PeerConnectionStatus.Disconnected t'))"
  "is_banned (set_connection_status i (PeerConnectionStatus.Banned t'))"
  "\<not> is_banned (set_connection_status i (PeerConnectionStatus.Disconnecting b))"
  "is_trusted (set_connection_status i st) = is_trusted i"
  "connection_status (set_connection_status i st) = st"
  by (simp_all add: peer_info_simps)

lemma clear_subnets_fields [simp]:
  "is_disconnected (clear_subnets i) = is_disconnected i" "is_banned (clear_subnets i) = is_banned i"
  "is_trusted (clear_subnets i) = is_trusted i" "connection_status (clear_subnets i) = connection_status i"
  by (simp_all add: peer_info_simps)

lemma set_dialing_new:
  "new_info (to_dialing enr now i d bc) =
     (case connection_status i of
        PeerConnectionStatus.Connected _ _ \<Rightarrow> opt_set_enr enr i
      | PeerConnectionStatus.Dialing _ \<Rightarrow> opt_set_enr enr i
      | PeerConnectionStatus.Disconnecting _ \<Rightarrow> opt_set_enr enr i
      | _ \<Rightarrow> (opt_set_enr enr i)\<lparr>connection_status := PeerConnectionStatus.Dialing now\<rparr>)"
  by (simp add: to_dialing_def set_dialing_peer_def split: PeerConnectionStatus.split)

lemma usize_add_1_le: "usize_add d 1 \<le> d + 1"
  by (simp add: usize_add_def)

lemma conn_change_disc_le:
  "new_disconnected (conn_change ns now i d bc) \<le> d - dw i + dw (new_info (conn_change ns now i d bc))"
  by (cases ns; cases "connection_status i")
    (simp_all add: conn_change_defs Let_def dw_def is_disconnected_def set_dialing_peer_def usize_sat_add_def
      usize_add_1_le [simplified] set_connection_status_def clear_subnets_def
      split: ConnectionDirection.split)

lemmas weight_simps = dw_def bw_def tw_def iw_def is_disconnected_def is_banned_def

lemma connect_status_eq [simp]:
  "connection_status (connect_ingoing i a) =
     (case connection_status i of PeerConnectionStatus.Connected n m \<Rightarrow> PeerConnectionStatus.Connected (n + 1) m
      | _ \<Rightarrow> PeerConnectionStatus.Connected 1 0)"
  "connection_status (connect_outgoing i a) =
     (case connection_status i of PeerConnectionStatus.Connected n m \<Rightarrow> PeerConnectionStatus.Connected n (m + 1)
      | _ \<Rightarrow> PeerConnectionStatus.Connected 0 1)"
  by (simp_all add: connect_ingoing_def connect_outgoing_def see_multiaddr_def
      split: option.split PeerConnectionStatus.split)

lemmas conn_change_simps = conn_change_defs Let_def set_dialing_peer_def
  set_connection_status_def clear_subnets_def

lemma conn_change_disc_eq:
  "dw i \<le> d \<Longrightarrow> d < USIZE_MAX \<Longrightarrow>
   new_disconnected (conn_change ns now i d bc) = d - dw i + dw (new_info (conn_change ns now i d bc))"
  by (cases ns; cases "connection_status i")
    (auto simp: conn_change_simps weight_simps usize_sat_add_small usize_add_small
      split: ConnectionDirection.split)

lemma conn_change_banned_ge:
  "bw i \<le> n_banned_peers bc \<Longrightarrow>
   min USIZE_MAX (n_banned_peers bc - bw i + bw (new_info (conn_change ns now i d bc)))
   \<le> n_banned_peers (new_banned (conn_change ns now i d bc))"
  by (cases ns; cases "connection_status i")
    (auto simp: conn_change_simps weight_simps usize_sat_add_def split: ConnectionDirection.split)

lemma conn_change_trusted: "is_trusted (new_info (conn_change ns now i d bc)) = is_trusted i"
  by (cases ns; cases "connection_status i")
    (simp_all add: conn_change_simps split: ConnectionDirection.split)

lemma conn_change_ip_eq:
  assumes "iw ip i \<le> ip_count bc ip" "\<forall>a. ip_count bc a + count_list (seen_ip_addresses i) a \<le> USIZE_MAX"
    "\<not> (is_banned i \<and> (\<exists>b. ns = NewConnectionState.Disconnecting b))"
  shows "ip_count (new_banned (conn_change ns now i d bc)) ip
     = ip_count bc ip - iw ip i + iw ip (new_info (conn_change ns now i d bc))"
  using assms
  by (cases ns; cases "connection_status i")
    (auto simp: conn_change_simps weight_simps ip_count_add split: ConnectionDirection.split)

section \<open>The invariants of the counters\<close>

definition counts_ok :: "('p, 'enr) PeerDB \<Rightarrow> bool" where
  "counts_ok db \<longleftrightarrow> distinct (map fst (peers db)) \<and> disconnected_peers db \<le> n_disconnected db \<and>
     n_banned db \<le> n_banned_peers (banned_peers_count db)"

text \<open>With the scoring enabled and few enough trusted peers the first counter is exact.\<close>

definition counts_exact :: "('p, 'enr) PeerDB \<Rightarrow> bool" where
  "counts_exact db \<longleftrightarrow> counts_ok db \<and> \<not> disable_peer_scoring db \<and> n_trusted db \<le> MAX_DC_PEERS \<and>
     disconnected_peers db = n_disconnected db"

definition entry_info :: "('p, 'enr) PeerDB \<Rightarrow> 'p \<Rightarrow> 'enr NewConnectionState \<Rightarrow> instant \<Rightarrow> 'enr PeerInfo" where
  "entry_info db p ns now = ban_score_first ns (peer_entry db p now)"

definition entry_change :: "('p, 'enr) PeerDB \<Rightarrow> 'p \<Rightarrow> 'enr NewConnectionState \<Rightarrow> instant \<Rightarrow> 'enr ConnChange" where
  "entry_change db p ns now =
     conn_change ns now (entry_info db p ns now) (disconnected_peers db) (banned_peers_count db)"

lemma set_state_fields [simp]:
  "peers (set_state db p ns now) = AList.update p (new_info (entry_change db p ns now)) (peers db)"
  "disconnected_peers (set_state db p ns now) = new_disconnected (entry_change db p ns now)"
  "banned_peers_count (set_state db p ns now) = new_banned (entry_change db p ns now)"
  "disable_peer_scoring (set_state db p ns now) = disable_peer_scoring db"
  by (simp_all add: set_state_def update_connection_state_def entry_change_def entry_info_def Let_def)

lemma ban_score_first_fields [simp]:
  "connection_status (ban_score_first ns i) = connection_status i"
  "is_trusted (ban_score_first ns i) = is_trusted i"
  "seen_multiaddrs (ban_score_first ns i) = seen_multiaddrs i"
  by (simp_all add: ban_score_first_def split: NewConnectionState.split ScoreState.split)

text \<open>A weight that depends on the connection and vanishes on a new peer.\<close>

definition conn_weight :: "('enr PeerInfo \<Rightarrow> nat) \<Rightarrow> bool" where
  "conn_weight f \<longleftrightarrow>
     (\<forall>i j. connection_status i = connection_status j \<and> is_trusted i = is_trusted j \<and>
        seen_multiaddrs i = seen_multiaddrs j \<longrightarrow> f i = f j) \<and>
     (\<forall>now. f (peer_info_default now) = 0)"

lemma conn_weightD:
  "conn_weight f \<Longrightarrow> connection_status i = connection_status j \<Longrightarrow> is_trusted i = is_trusted j \<Longrightarrow>
   seen_multiaddrs i = seen_multiaddrs j \<Longrightarrow> f i = f j"
  unfolding conn_weight_def by blast

lemma conn_weights: "conn_weight dw" "conn_weight bw" "conn_weight tw" "conn_weight (iw ip)"
  by (auto simp: conn_weight_def weight_simps peer_info_default_def seen_ip_addresses_def)

lemma trusted_weights [simp]:
  "dw (trusted_peer_info now) = 0" "bw (trusted_peer_info now) = 0" "iw ip (trusted_peer_info now) = 0"
  by (simp_all add: weight_simps trusted_peer_info_def peer_info_default_def)

lemma entry_weight:
  assumes "conn_weight f" "\<not> disable_peer_scoring db \<or> (\<forall>now. f (trusted_peer_info now) = 0)"
  shows "f (entry_info db p ns now) = opt_weight f (map_of (peers db) p)"
proof -
  have "f (entry_info db p ns now) = f (peer_entry db p now)"
    unfolding entry_info_def by (rule conn_weightD [OF assms(1)]) simp_all
  moreover have "f (peer_info_default now) = 0" using assms(1) by (simp add: conn_weight_def)
  ultimately show ?thesis using assms(2)
    by (cases "map_of (peers db) p") (auto simp: peer_entry_def)
qed

lemma set_state_sum:
  assumes "conn_weight f" "\<not> disable_peer_scoring db \<or> (\<forall>now. f (trusted_peer_info now) = 0)"
  shows "alist_sum f (peers (set_state db p ns now)) =
     alist_sum f (peers db) - f (entry_info db p ns now) + f (new_info (entry_change db p ns now))"
    and "f (entry_info db p ns now) \<le> alist_sum f (peers db)"
proof -
  show *: "f (entry_info db p ns now) \<le> alist_sum f (peers db)"
    using alist_sum_ge [of "peers db" p _ f] by (simp add: entry_weight [OF assms] opt_weight_def split: option.split)
  show "alist_sum f (peers (set_state db p ns now)) =
     alist_sum f (peers db) - f (entry_info db p ns now) + f (new_info (entry_change db p ns now))"
    using alist_sum_update [of f p "new_info (entry_change db p ns now)" "peers db"] *
    by (simp add: entry_weight [OF assms])
qed

lemma set_state_counts_ok:
  assumes "counts_ok db" "length (peers (set_state db p ns now)) \<le> USIZE_MAX"
  shows "counts_ok (set_state db p ns now)"
proof -
  let ?i = "entry_info db p ns now" and ?c = "entry_change db p ns now" and ?db = "set_state db p ns now"
  note d = set_state_sum [where f = dw and db = db and p = p and ns = ns and now = now, OF conn_weights(1)]
  note b = set_state_sum [where f = bw and db = db and p = p and ns = ns and now = now, OF conn_weights(2)]
  have "new_disconnected ?c \<le> disconnected_peers db - dw ?i + dw (new_info ?c)"
    unfolding entry_change_def by (rule conn_change_disc_le)
  moreover have "disconnected_peers db \<le> n_disconnected db" using assms(1) by (simp add: counts_ok_def)
  ultimately have "disconnected_peers ?db \<le> n_disconnected ?db" using d by simp
  moreover have "n_banned ?db \<le> n_banned_peers (banned_peers_count ?db)"
  proof -
    have B: "n_banned db \<le> n_banned_peers (banned_peers_count db)" using assms(1) by (simp add: counts_ok_def)
    then have "min USIZE_MAX (n_banned_peers (banned_peers_count db) - bw ?i + bw (new_info ?c))
        \<le> n_banned_peers (new_banned ?c)"
      using b(2) unfolding entry_change_def by (intro conn_change_banned_ge) simp
    moreover have "n_banned ?db \<le> USIZE_MAX"
      using assms(2) alist_sum_le_length [of bw "peers ?db", OF weight_le_1(2)] by linarith
    ultimately show ?thesis using b B by simp
  qed
  ultimately show ?thesis using assms(1) by (simp add: counts_ok_def)
qed

lemma set_state_trusted:
  assumes "\<not> disable_peer_scoring db"
  shows "n_trusted (set_state db p ns now) = n_trusted db"
proof -
  have "tw (new_info (entry_change db p ns now)) = tw (entry_info db p ns now)"
    by (simp add: tw_def entry_change_def conn_change_trusted)
  with set_state_sum [where f = tw and db = db and p = p and ns = ns and now = now, OF conn_weights(3)] assms
  show ?thesis by simp
qed

lemma set_state_exact:
  assumes "counts_exact db" "length (peers (set_state db p ns now)) \<le> USIZE_MAX" "length (peers db) < USIZE_MAX"
  shows "counts_exact (set_state db p ns now)"
proof -
  note d = set_state_sum [where f = dw and db = db and p = p and ns = ns and now = now, OF conn_weights(1)]
  have eq: "disconnected_peers db = n_disconnected db" using assms(1) by (simp add: counts_exact_def)
  moreover have "n_disconnected db < USIZE_MAX"
    using alist_sum_le_length [of dw "peers db", OF weight_le_1(1)] assms(3) by linarith
  ultimately have "new_disconnected (entry_change db p ns now) =
      disconnected_peers db - dw (entry_info db p ns now) + dw (new_info (entry_change db p ns now))"
    using d(2) unfolding entry_change_def by (intro conn_change_disc_eq) simp_all
  with d eq have "disconnected_peers (set_state db p ns now) = n_disconnected (set_state db p ns now)" by simp
  with assms set_state_counts_ok [of db p ns now] set_state_trusted [of db p ns now]
  show ?thesis by (simp add: counts_exact_def)
qed

section \<open>Shrinking keeps the invariants and reaches the limits\<close>

lemma in_map_filter: "x \<in> set (List.map_filter f xs) \<longleftrightarrow> (\<exists>y \<in> set xs. f y = Some x)"
  by (induction xs) (auto simp: List.map_filter_def)

lemma map_filter_Nil: "List.map_filter f xs = [] \<longleftrightarrow> (\<forall>y \<in> set xs. f y = None)"
  by (induction xs) (auto simp: List.map_filter_def split: option.splits)

lemma banned_since_Some: "banned_since e = Some (p, i, t') \<Longrightarrow> e = (p, i) \<and> is_banned i"
  by (cases e) (auto simp: banned_since_def is_banned_def split: PeerConnectionStatus.splits)

lemma disconnected_since_Some: "disconnected_since e = Some (p, t') \<Longrightarrow> fst e = p"
  by (cases e) (auto simp: disconnected_since_def split: PeerConnectionStatus.splits)

lemma oldest_banned_Some:
  assumes "oldest_banned db = Some (p, i, t')" "distinct (map fst (peers db))"
  shows "map_of (peers db) p = Some i" "is_banned i"
proof -
  have "(p, i, t') \<in> set (List.map_filter banned_since (peers db))"
    using min_by_key_in [OF assms(1) [unfolded oldest_banned_def]] .
  then obtain e where "e \<in> set (peers db)" "banned_since e = Some (p, i, t')" by (auto simp: in_map_filter)
  with banned_since_Some [of e p i t'] assms(2) show "map_of (peers db) p = Some i" "is_banned i" by auto
qed

lemma oldest_banned_None: "oldest_banned db = None \<Longrightarrow> n_banned db = 0"
proof -
  assume "oldest_banned db = None"
  then have "\<forall>e \<in> set (peers db). banned_since e = None"
    by (simp add: oldest_banned_def map_filter_Nil)
  then have "\<forall>(p, i) \<in> set (peers db). bw i = 0"
    by (auto simp: banned_since_def weight_simps split: PeerConnectionStatus.splits)
  then show ?thesis by (induction "peers db") (auto simp: alist_sum_def)
qed

lemma oldest_disconnected_Some:
  assumes "oldest_disconnected db = Some (p, t')" "distinct (map fst (peers db))"
  shows "\<exists>i. map_of (peers db) p = Some i \<and> is_disconnected i \<and> \<not> is_trusted i"
proof -
  have "(p, t') \<in> set (List.map_filter disconnected_since
      (filter (\<lambda>(p, i). is_disconnected i \<and> \<not> is_trusted i) (peers db)))"
    using min_by_key_in [OF assms(1) [unfolded oldest_disconnected_def]] .
  then obtain e where "e \<in> set (peers db)" "is_disconnected (snd e)" "\<not> is_trusted (snd e)"
    "disconnected_since e = Some (p, t')" by (auto simp: in_map_filter)
  with disconnected_since_Some [of e p t'] assms(2) show ?thesis by (cases e) auto
qed

lemma sum_mono_list: "\<forall>(p, i) \<in> set m. f i \<le> g i \<Longrightarrow> alist_sum f m \<le> alist_sum g m"
  by (induction m) (auto intro: add_mono)

lemma oldest_disconnected_None: "oldest_disconnected db = None \<Longrightarrow> n_disconnected db \<le> n_trusted db"
proof -
  assume "oldest_disconnected db = None"
  then have "\<forall>(p, i) \<in> set (peers db). is_disconnected i \<and> \<not> is_trusted i \<longrightarrow> disconnected_since (p, i) = None"
    by (auto simp: oldest_disconnected_def map_filter_Nil)
  then have "\<forall>(p, i) \<in> set (peers db). dw i \<le> tw i"
    by (fastforce simp: disconnected_since_def dw_def tw_def is_disconnected_def split: PeerConnectionStatus.splits)
  then show ?thesis by (rule sum_mono_list)
qed

lemma delete_sum:
  "distinct (map fst m) \<Longrightarrow> map_of m p = Some i \<Longrightarrow>
   alist_sum f (AList.delete p m) = alist_sum f m - f i"
  using alist_sum_delete [of m f p] by simp

lemma drop_banned_ok: "counts_ok db \<Longrightarrow> counts_ok (snd (drop_banned db))"
proof (cases "oldest_banned db")
  case None
  assume "counts_ok db"
  with oldest_banned_None [OF None] None show ?thesis by (simp add: counts_ok_def drop_banned_def)
next
  case (Some a)
  assume ok: "counts_ok db"
  obtain p i t' where a: "a = (p, i, t')" by (cases a)
  have i: "map_of (peers db) p = Some i" "is_banned i"
    using oldest_banned_Some [of db p i t'] Some a ok by (simp_all add: counts_ok_def)
  then have "dw i = 0" "bw i = 1" by (auto simp: weight_simps split: PeerConnectionStatus.splits)
  with ok i Some a show ?thesis
    by (simp add: counts_ok_def drop_banned_def Let_def delete_sum diff_le_mono)
qed

lemma drop_banned_exact: "counts_exact db \<Longrightarrow> counts_exact (snd (drop_banned db))"
proof (cases "oldest_banned db")
  case None
  assume "counts_exact db"
  with None show ?thesis using drop_banned_ok [of db] by (simp add: counts_exact_def drop_banned_def)
next
  case (Some a)
  assume ex: "counts_exact db"
  obtain p i t' where a: "a = (p, i, t')" by (cases a)
  have i: "map_of (peers db) p = Some i" "is_banned i" and d: "distinct (map fst (peers db))"
    using oldest_banned_Some [of db p i t'] Some a ex by (simp_all add: counts_exact_def counts_ok_def)
  then have "dw i = 0" by (auto simp: weight_simps split: PeerConnectionStatus.splits)
  with ex i d Some a show ?thesis using drop_banned_ok [of db]
    by (simp add: counts_exact_def drop_banned_def Let_def delete_sum le_diff_conv trans_le_add1)
qed

lemma drop_disconnected_ok: "counts_ok db \<Longrightarrow> counts_ok (drop_disconnected db)"
proof (cases "oldest_disconnected db")
  case None
  assume "counts_ok db"
  with None show ?thesis by (simp add: counts_ok_def drop_disconnected_def le_diff_conv trans_le_add1)
next
  case (Some a)
  assume ok: "counts_ok db"
  obtain p t' where a: "a = (p, t')" by (cases a)
  obtain i where i: "map_of (peers db) p = Some i" "is_disconnected i"
    using oldest_disconnected_Some [of db p t'] Some a ok by (auto simp: counts_ok_def)
  then have "dw i = 1" "bw i = 0" by (auto simp: weight_simps split: PeerConnectionStatus.splits)
  with ok i Some a show ?thesis by (simp add: counts_ok_def drop_disconnected_def delete_sum diff_le_mono)
qed

lemma drop_disconnected_exact:
  assumes ex: "counts_exact db" and many: "MAX_DC_PEERS < disconnected_peers db"
  shows "counts_exact (drop_disconnected db)"
proof (cases "oldest_disconnected db")
  case None
  with oldest_disconnected_None [OF None] assms show ?thesis by (simp add: counts_exact_def)
next
  case (Some a)
  obtain p t' where a: "a = (p, t')" by (cases a)
  have d: "distinct (map fst (peers db))" using ex by (simp add: counts_exact_def counts_ok_def)
  obtain i where i: "map_of (peers db) p = Some i" "is_disconnected i"
    using oldest_disconnected_Some [of db p t'] Some a d by auto
  then have "dw i = 1" by (simp add: dw_def)
  with ex i d Some a show ?thesis using drop_disconnected_ok [of db]
    by (simp add: counts_exact_def drop_disconnected_def delete_sum le_diff_conv trans_le_add1)
qed

lemma shrink_banned_keeps:
  assumes "P db" "\<And>db. P db \<Longrightarrow> MAX_BANNED_PEERS < n_banned_peers (banned_peers_count db) \<Longrightarrow> P (snd (drop_banned db))"
  shows "P (snd (shrink_banned db)) \<and> n_banned_peers (banned_peers_count (snd (shrink_banned db))) \<le> MAX_BANNED_PEERS"
  using assms(1)
proof (induction db rule: shrink_banned.induct)
  case (1 db)
  show ?case
  proof (cases "MAX_BANNED_PEERS < n_banned_peers (banned_peers_count db)")
    case True
    obtain d db' where db': "drop_banned db = (d, db')" by (cases "drop_banned db")
    obtain u db'' where db'': "shrink_banned db' = (u, db'')" by (cases "shrink_banned db'")
    have "P db'" using assms(2) [OF 1(2) True] db' by simp
    from 1(1) [OF True db' [symmetric] refl this] db' db'' True show ?thesis
      by (subst (1 2) shrink_banned.simps) (simp split: option.split)
  next
    case False
    with 1(2) show ?thesis by (subst (1 2) shrink_banned.simps) simp
  qed
qed

lemma shrink_disconnected_keeps:
  assumes "P db" "\<And>db. P db \<Longrightarrow> MAX_DC_PEERS < disconnected_peers db \<Longrightarrow> P (drop_disconnected db)"
  shows "P (shrink_disconnected db) \<and> disconnected_peers (shrink_disconnected db) \<le> MAX_DC_PEERS"
  using assms(1)
proof (induction db rule: shrink_disconnected.induct)
  case (1 db)
  then show ?case using assms(2) [of db] by (subst (1 2) shrink_disconnected.simps) auto
qed

section \<open>Runs of the database\<close>

text \<open>
  One call of an operation that the peer manager makes on the database. The clock readings and the
  arguments are arbitrary; the order in which equal gossipsub scores are left is any permutation.
  The last rule stands for the fields that the peer manager sets through \<open>peer_info_mut\<close>.
\<close>

definition is_perm :: "('a list \<Rightarrow> 'a list) \<Rightarrow> bool" where
  "is_perm f \<longleftrightarrow> (\<forall>xs. mset (f xs) = mset xs)"

inductive db_step :: "(nat \<Rightarrow> f64) \<Rightarrow> ('p, 'enr) PeerDB \<Rightarrow> ('p, 'enr) PeerDB \<Rightarrow> bool" for decay where
  dial: "db_step decay db (dialing_peer db p enr now)"
| ingoing: "db_step decay db (db_connect_ingoing db p addr enr now)"
| outgoing: "db_step decay db (db_connect_outgoing db p addr enr now)"
| disconnecting: "db_step decay db (notify_disconnecting db p to_ban now)"
| disconnect: "db_step decay db (snd (db_inject_disconnect db p now))"
| report: "db_step decay db (snd (report_peer db p act now))"
| scores: "db_step decay db (snd (update_scores decay db nows))"
| gossip: "is_perm ties \<Longrightarrow> db_step decay db (snd (update_gossipsub_scores ties peer_score db target nows))"
| cleanup: "db_step decay db (cleanup_dialing_peers db nows nows')"
| ttl: "db_step decay db (update_min_ttl db p ttl now)"
| info: "peer_info db p = Some i \<Longrightarrow> i' \<in> {set_client i c, snd (set_listening_addresses i addrs), set_meta_data i md} \<Longrightarrow>
    db_step decay db (db\<lparr>peers := AList.update p i' (peers db)\<rparr>)"

text \<open>A step needs room for one more entry in the map.\<close>

inductive db_reach :: "(nat \<Rightarrow> f64) \<Rightarrow> 'p list \<Rightarrow> bool \<Rightarrow> ('p, 'enr) PeerDB \<Rightarrow> bool" for decay trusted disable where
  start: "db_reach decay trusted disable (peerdb_new trusted disable nows)"
| step: "db_reach decay trusted disable db \<Longrightarrow> length (peers db) < USIZE_MAX \<Longrightarrow> db_step decay db db' \<Longrightarrow>
    db_reach decay trusted disable db'"

text \<open>Changes of a peer's information that leave its connection alone.\<close>

definition same_conn :: "'enr PeerInfo \<Rightarrow> 'enr PeerInfo \<Rightarrow> bool" where
  "same_conn i j \<longleftrightarrow> connection_status j = connection_status i \<and> is_trusted j = is_trusted i \<and>
     seen_multiaddrs j = seen_multiaddrs i"

inductive quiet :: "(nat \<Rightarrow> f64) \<Rightarrow> 'enr PeerInfo \<Rightarrow> 'enr PeerInfo \<Rightarrow> bool" for decay where
  scored: "quiet decay i (info_exec decay i x)"
| unscored: "same_conn i j \<Longrightarrow> pi_score j = pi_score i \<Longrightarrow> quiet decay i j"

lemma info_exec_same_conn: "same_conn i (info_exec decay i x)"
  by (cases x) (simp_all add: same_conn_def peer_score_update_def pi_update_gossipsub_score_def)

lemma quiet_same_conn: "quiet decay i j \<Longrightarrow> same_conn i j"
  by (induction rule: quiet.induct) (simp_all add: info_exec_same_conn)

lemma quiet_refl [simp, intro]: "quiet decay i i"
  by (rule unscored) (simp_all add: same_conn_def)

lemma update_as_map:
  assumes "distinct (map fst m)" "map_of m p = Some i"
  shows "AList.update p i' m = map (\<lambda>(q, j). (q, if q = p then i' else j)) m"
  using assms
proof (induction m)
  case (Cons e m)
  obtain q j where e: "e = (q, j)" by (cases e)
  show ?case
  proof (cases "q = p")
    case True
    with Cons.prems(1) e have "\<forall>(r, k) \<in> set m. r \<noteq> p" by force
    then have "map (\<lambda>(r, k). (r, if r = p then i' else k)) m = m" by (auto intro!: map_idI)
    with True e show ?thesis by simp
  next
    case False
    with Cons e show ?thesis by simp
  qed
qed simp

lemma quiet_sum:
  assumes "conn_weight f" "\<forall>(p, i) \<in> set m. same_conn i (g p i)"
  shows "alist_sum f (map (\<lambda>(p, i). (p, g p i)) m) = alist_sum f m"
  using assms(2)
proof (induction m)
  case (Cons e m)
  obtain p i where e: "e = (p, i)" by (cases e)
  have "f (g p i) = f i"
    using Cons.prems e by (intro conn_weightD [OF assms(1)]) (simp_all add: same_conn_def)
  with Cons e show ?case by simp
qed simp

section \<open>Invariants of the database\<close>

lemma mset_insert_by: "mset (insert_by cmp x ys) = add_mset x (mset ys)"
  by (induction ys) auto

lemma mset_sort_by [simp]: "mset (sort_by cmp xs) = mset xs"
  by (induction xs) (simp_all add: sort_by_def mset_insert_by)

lemma map_filter_keys:
  assumes "\<And>e y. f e = Some y \<Longrightarrow> fst y = fst e" "distinct (map fst m)"
  shows "distinct (map fst (List.map_filter f m))"
  using assms(2)
proof (induction m)
  case (Cons e m)
  have "fst ` set (List.map_filter f m) \<subseteq> fst ` set m"
    by (auto simp: in_map_filter) (metis assms(1) image_eqI fst_conv)
  with Cons assms(1) [of e] show ?case by (auto simp: List.map_filter_simps split: option.splits)
qed (simp add: List.map_filter_simps)

lemma gossip_scored_entries:
  assumes "distinct (map fst (peers db))"
  shows "distinct (map fst (gossip_scored peer_score db))"
    "\<forall>(p, i, sc) \<in> set (gossip_scored peer_score db). map_of (peers db) p = Some i"
proof -
  have "distinct (map fst (filter (\<lambda>(p, i). is_connected i) (peers db)))"
    using assms by (simp add: distinct_map_filter)
  then show "distinct (map fst (gossip_scored peer_score db))"
    unfolding gossip_scored_def by (rule map_filter_keys [rotated]) auto
  show "\<forall>(p, i, sc) \<in> set (gossip_scored peer_score db). map_of (peers db) p = Some i"
    using assms by (auto simp: gossip_scored_def in_map_filter)
qed

text \<open>
  The contract of an invariant of the database: it holds through every change of the connection
  state of a peer to something other than connected, every quiet change of informations, the
  insertion of a new peer and the rounds of the two shrinking loops. Then it holds through every
  operation but the registration of a connection.
\<close>

fun connecting :: "'enr NewConnectionState \<Rightarrow> bool" where
  "connecting (NewConnectionState.Connected _ _ _) = True"
| "connecting _ = False"

locale db_safe =
  fixes I :: "('p, 'enr) PeerDB \<Rightarrow> bool" and decay :: "nat \<Rightarrow> f64"
  assumes keys: "I db \<Longrightarrow> distinct (map fst (peers db))"
    and state: "I db \<Longrightarrow> \<not> connecting ns \<Longrightarrow> length (peers db) < USIZE_MAX \<Longrightarrow> I (set_state db p ns now)"
    and quietly: "I db \<Longrightarrow> (\<forall>(p, i) \<in> set (peers db). quiet decay i (g p i)) \<Longrightarrow>
      I (db\<lparr>peers := map (\<lambda>(p, i). (p, g p i)) (peers db)\<rparr>)"
    and fresh: "I db \<Longrightarrow> map_of (peers db) p = None \<Longrightarrow> length (peers db) < USIZE_MAX \<Longrightarrow>
      I (db\<lparr>peers := AList.update p (peer_info_default now) (peers db)\<rparr>)"
    and dropped_banned: "I db \<Longrightarrow> I (snd (drop_banned db))"
    and dropped_disconnected: "I db \<Longrightarrow> MAX_DC_PEERS < disconnected_peers db \<Longrightarrow> I (drop_disconnected db)"
begin

definition roomy :: "('p, 'enr) PeerDB \<Rightarrow> bool" where
  "roomy db \<longleftrightarrow> I db \<and> length (peers db) < USIZE_MAX"

lemma quiet_update:
  assumes "I db" "map_of (peers db) p = Some i" "quiet decay i i'"
  shows "I (db\<lparr>peers := AList.update p i' (peers db)\<rparr>)"
proof -
  note d = keys [OF assms(1)]
  have "\<forall>(q, j) \<in> set (peers db). quiet decay j (if q = p then i' else j)"
    using assms(2,3) d by (auto simp: map_of_eq_Some_iff) (metis eq_key_imp_eq_value)
  from quietly [OF assms(1) this] show ?thesis by (simp add: update_as_map [OF d assms(2)])
qed

lemma state_known:
  assumes "roomy db" "p \<in> fst ` set (peers db)" "\<not> connecting ns"
  shows "roomy (set_state db p ns now) \<and> fst ` set (peers (set_state db p ns now)) = fst ` set (peers db)"
proof -
  have "length (AList.update p i m) = length m" if "p \<in> fst ` set m" for i and m :: "('p \<times> 'enr PeerInfo) list"
    using that by (induction m) auto
  moreover have "fst ` set (AList.update p i m) = insert p (fst ` set m)" for i and m :: "('p \<times> 'enr PeerInfo) list"
    by (simp add: AList.dom_update)
  ultimately show ?thesis using assms state [of db ns p now] by (auto simp: roomy_def)
qed

lemma shrink_keeps: "I db \<Longrightarrow> I (snd (shrink_to_fit db))"
  using shrink_banned_keeps [of I db] shrink_disconnected_keeps [of I "snd (shrink_banned db)"]
    dropped_banned dropped_disconnected
  by (auto simp: shrink_to_fit_def split: prod.split)

lemma unban_keeps:
  "roomy db \<Longrightarrow> set ps \<subseteq> fst ` set (peers db) \<Longrightarrow> roomy (snd (unban_all now ps db))"
proof (induction ps arbitrary: db)
  case (Cons p ps)
  from Cons.prems have p: "p \<in> fst ` set (peers db)" by simp
  have "\<not> connecting (NewConnectionState.Unbanned :: 'enr NewConnectionState)" by simp
  from state_known [OF Cons.prems(1) p this, of "now p"] Cons
  show ?case by (simp add: Let_def split_beta del: set_state_fields)
qed simp

lemma transition_keeps:
  "roomy db \<Longrightarrow> p \<in> fst ` set (peers db) \<Longrightarrow>
   roomy (snd (apply_transition db p act now)) \<and> fst ` set (peers (snd (apply_transition db p act now))) = fst ` set (peers db)"
  using state_known [of db p _ now]
  by (simp add: apply_transition_def Let_def split_beta del: set_state_fields flip: set_state_def
      split: ScoreTransitionResult.split)

lemma transitions_keep:
  "roomy db \<Longrightarrow> fst ` set acts \<subseteq> fst ` set (peers db) \<Longrightarrow> roomy (snd (apply_transitions now acts db))"
proof (induction acts arbitrary: db)
  case (Cons a acts)
  obtain p act where a: "a = (p, act)" by (cases a)
  from Cons.prems a have p: "p \<in> fst ` set (peers db)" by simp
  from transition_keeps [OF Cons.prems(1) p, of act "now p"] Cons a
  show ?case by (simp add: Let_def split_beta)
qed simp

end

context db_safe
begin

lemma gossip_loop_keeps:
  "roomy (db\<lparr>peers := m\<rparr>) \<Longrightarrow> distinct (map fst xs) \<Longrightarrow> \<forall>(p, i, sc) \<in> set xs. map_of m p = Some i \<Longrightarrow>
   roomy (db\<lparr>peers := snd (apply_gossip_scores now xs k m)\<rparr>) \<and>
   fst ` set (snd (apply_gossip_scores now xs k m)) = fst ` set m \<and>
   fst ` set (fst (apply_gossip_scores now xs k m)) = fst ` set xs"
proof (induction xs arbitrary: k m)
  case (Cons x xs)
  obtain p i sc where x: "x = (p, i, sc)" by (cases x)
  define ign where "ign = (flt sc (Fin 0) \<and> k > 0)"
  define i' where "i' = pi_update_gossipsub_score i sc ign (now p)"
  define m' where "m' = AList.update p i' m"
  have i: "map_of m p = Some i" using Cons.prems(3) x by simp
  have q: "quiet decay i i'" using scored [of decay i "GossipOp sc ign (now p)"] by (simp add: i'_def)
  have d: "distinct (map fst m)" using Cons.prems(1) keys [of "db\<lparr>peers := m\<rparr>"] by (simp add: roomy_def)
  have len: "length m' = length m" "fst ` set m' = fst ` set m"
    using update_as_map [OF d i, of i'] by (force simp: m'_def image_iff)+
  have "I (db\<lparr>peers := m'\<rparr>)"
    using quiet_update [of "db\<lparr>peers := m\<rparr>" p i i'] Cons.prems(1) i q by (simp add: roomy_def m'_def)
  then have r: "roomy (db\<lparr>peers := m'\<rparr>)" using Cons.prems(1) len by (simp add: roomy_def)
  have "\<forall>(q, j, s) \<in> set xs. map_of m' q = Some j"
  proof clarify
    fix q j s assume e: "(q, j, s) \<in> set xs"
    with Cons.prems(2) x have "q \<noteq> p" by force
    with e Cons.prems(3) show "map_of m' q = Some j" by (auto simp: m'_def)
  qed
  from Cons.IH [OF r _ this, of "if ign then k - 1 else k"] Cons.prems(2) len x show ?case
    by (auto simp: Let_def split_beta ign_def i'_def m'_def)
qed simp

lemma cleanup_keeps:
  "roomy db \<Longrightarrow> \<not> connecting ns \<Longrightarrow> set ps \<subseteq> fst ` set (peers db) \<Longrightarrow>
   roomy (fold (\<lambda>p db. set_state db p ns (now p)) ps db)"
proof (induction ps arbitrary: db)
  case (Cons p ps)
  from Cons.prems have "p \<in> fst ` set (peers db)" by simp
  from state_known [OF Cons.prems(1) this Cons.prems(2), of "now p"] Cons show ?case by (simp del: set_state_fields)
qed simp

lemma report_keeps:
  assumes "roomy db" shows "I (snd (report_peer db p act now))"
proof (cases "map_of (peers db) p")
  case None
  with assms show ?thesis by (simp add: report_peer_def roomy_def)
next
  case (Some i)
  let ?i = "apply_peer_action_to_score i act"
  let ?db = "db\<lparr>peers := AList.update p ?i (peers db)\<rparr>"
  have "quiet decay i ?i" using scored [of decay i "ActionOp act"] by simp
  then have I: "I ?db" using quiet_update [of db p i] Some assms by (simp add: roomy_def)
  have "distinct (map fst (peers db))" using assms keys by (simp add: roomy_def)
  from update_as_map [OF this Some, of ?i] assms I have "roomy ?db" by (simp add: roomy_def)
  moreover from map_of_SomeD [OF Some] have "p \<in> fst ` set (peers ?db)" by (force simp: AList.dom_update)
  ultimately have "I (set_state ?db p ns now)" if "\<not> connecting ns" for ns using that state_known [of ?db p ns now] by (simp add: roomy_def)
  with I Some show ?thesis
    by (simp add: report_peer_def Let_def split_beta flip: set_state_def split: ScoreTransitionResult.split)
qed

lemma scores_roomy:
  assumes "roomy db" shows "roomy (snd (update_scores decay db nows))"
proof -
  let ?db = "db\<lparr>peers := decay_all decay nows (peers db)\<rparr>"
  have "\<forall>(p, i) \<in> set (peers db). quiet decay i (peer_score_update decay i (nows p))"
    using scored [of decay _ "DecayOp _"] by (auto simp del: info_exec.simps simp flip: info_exec.simps(2))
  from quietly [OF _ this] assms have "roomy ?db" by (simp add: roomy_def decay_all_def)
  moreover have "fst ` set (peers ?db) = fst ` set (peers db)" by (force simp: decay_all_def image_iff)
  ultimately show ?thesis
    using unban_keeps [of ?db "map fst (filter (\<lambda>e. decay_transition decay nows e = ScoreTransitionResult.Unbanned) (peers db))" nows]
    by (auto simp: update_scores_def)
qed

lemma scores_keep: "roomy db \<Longrightarrow> I (snd (update_scores decay db nows))"
  using scores_roomy [of db nows] by (simp add: roomy_def)

lemma cleanup_roomy: "roomy db \<Longrightarrow> roomy (cleanup_dialing_peers db nows nows')"
  using cleanup_keeps [of db NewConnectionState.Disconnected "map fst (filter (overdue_dial nows) (peers db))" nows']
  by (auto simp: cleanup_dialing_peers_def)

lemma disconnect_keeps: "roomy db \<Longrightarrow> I (snd (db_inject_disconnect db p now))"
  using shrink_keeps [of "set_state db p NewConnectionState.Disconnected now"] state [of db _ p now]
  by (simp add: db_inject_disconnect_def Let_def split_beta roomy_def flip: set_state_def)

lemma gossip_keeps:
  assumes "roomy db" "is_perm ties"
  shows "I (snd (update_gossipsub_scores ties peer_score db target nows))"
proof -
  let ?xs = "sort_by cmp_gossip_desc (ties (gossip_scored peer_score db))"
  let ?r = "apply_gossip_scores nows ?xs (scaled_ceil target ALLOWED_NEGATIVE_GOSSIPSUB_FACTOR) (peers db)"
  have m: "mset ?xs = mset (gossip_scored peer_score db)" using assms(2) by (simp add: is_perm_def)
  have "distinct (map fst (peers db))" using assms(1) keys by (simp add: roomy_def)
  note e = gossip_scored_entries [OF this, of peer_score]
  have "distinct (map fst ?xs)"
    using e(1) m by (metis mset_eq_imp_distinct_iff mset_map)
  moreover have "\<forall>(p, i, sc) \<in> set ?xs. map_of (peers db) p = Some i" using e(2) m by (metis set_mset_mset)
  moreover have "fst ` set ?xs \<subseteq> fst ` set (peers db)"
    using calculation(2) by (force dest: map_of_SomeD)
  ultimately have "roomy (snd (apply_transitions nows (fst ?r) (db\<lparr>peers := snd ?r\<rparr>)))"
    using gossip_loop_keeps [where db = db and m = "peers db" and xs = ?xs and now = nows] assms(1) by (intro transitions_keep) simp_all
  then show ?thesis by (simp add: update_gossipsub_scores_def Let_def split_beta roomy_def)
qed

lemma ttl_keeps:
  assumes "roomy db" shows "I (update_min_ttl db p ttl now)"
proof (cases "map_of (peers db) p")
  case (Some i)
  have "quiet decay i (set_min_ttl i ttl)" by (rule unscored) (simp_all add: same_conn_def set_min_ttl_def)
  with quiet_update [of db p i] Some assms show ?thesis
    by (auto simp: update_min_ttl_def Let_def roomy_def split: option.split)
next
  case None
  let ?i = "peer_info_default now :: 'enr PeerInfo"
  let ?db = "db\<lparr>peers := AList.update p ?i (peers db)\<rparr>"
  have "I ?db" using fresh [of db p] None assms by (simp add: roomy_def)
  moreover have "quiet decay ?i (set_min_ttl ?i ttl)" by (rule unscored) (simp_all add: same_conn_def set_min_ttl_def)
  ultimately have "I (?db\<lparr>peers := AList.update p (set_min_ttl ?i ttl) (peers ?db)\<rparr>)"
    by (intro quiet_update [of ?db p ?i]) simp_all
  with None show ?thesis by (simp add: update_min_ttl_def Let_def peer_info_default_def)
qed

theorem safe_step_keeps:
  assumes "db_step decay db db'" "roomy db"
  shows "I db' \<or> (\<exists>p addr enr now. db' = db_connect_ingoing db p addr enr now \<or> db' = db_connect_outgoing db p addr enr now)"
  using assms
proof (induction rule: db_step.induct)
  case (cleanup db nows nows')
  then show ?case using cleanup_roomy [of db nows nows'] by (simp add: roomy_def)
next
  case (info db p i i' c addrs md)
  then have "quiet decay i i'"
    by (intro unscored) (auto simp: same_conn_def set_client_def set_listening_addresses_def set_meta_data_def)
  with info show ?case using quiet_update [of db p i i'] by (simp add: peer_info_def roomy_def)
next
  case (ingoing db p addr enr now)
  then show ?case by blast
next
  case (outgoing db p addr enr now)
  then show ?case by blast
qed (simp_all add: dialing_peer_def notify_disconnecting_def
    report_keeps scores_keep gossip_keeps ttl_keeps disconnect_keeps, simp_all add: roomy_def state)

end

text \<open>An invariant that also holds when a connection is registered holds on every run.\<close>

locale db_invariant = db_safe +
  assumes connected: "I db \<Longrightarrow> connecting ns \<Longrightarrow> length (peers db) < USIZE_MAX \<Longrightarrow> I (set_state db p ns now)"
begin

lemma any_state: "I db \<Longrightarrow> length (peers db) < USIZE_MAX \<Longrightarrow> I (set_state db p ns now)"
  by (cases "connecting ns") (simp_all add: state connected)

theorem reach_keeps:
  assumes "db_reach decay trusted disable db" "\<And>nows. I (peerdb_new trusted disable nows)"
  shows "I db"
  using assms(1)
proof (induction rule: db_reach.induct)
  case (start nows)
  then show ?case by (rule assms(2))
next
  case (step db db')
  then show ?case using safe_step_keeps [of db db'] any_state
    by (auto simp: roomy_def db_connect_ingoing_def db_connect_outgoing_def)
qed

end

lemma new_sum:
  "(\<And>now. f (trusted_peer_info now) = 0) \<Longrightarrow>
   alist_sum f (fold (\<lambda>p m. AList.update p (trusted_peer_info (nows p)) m) ts m) \<le> alist_sum f m"
proof (induction ts arbitrary: m)
  case (Cons t' ts)
  have "alist_sum f (AList.update t' (trusted_peer_info (nows t')) m) \<le> alist_sum f m"
    using alist_sum_update [of f t' "trusted_peer_info (nows t')" m] Cons.prems by simp
  with Cons show ?case using le_trans by fastforce
qed simp

lemma new_distinct:
  "distinct (map fst m) \<Longrightarrow> distinct (map fst (fold (\<lambda>p m. AList.update p (f p) m) ts m))"
  by (induction ts arbitrary: m) simp_all

lemma new_length: "length (fold (\<lambda>p m. AList.update p (f p) m) ts m) \<le> length ts + length m"
proof (induction ts arbitrary: m)
  case (Cons t' ts)
  have "length (AList.update t' (f t') m) \<le> Suc (length m)" by (induction m) auto
  with Cons [of "AList.update t' (f t') m"] show ?case by simp
qed simp

lemma update_length: "length (AList.update p i m) \<le> Suc (length m)"
  by (induction m) auto

lemma counts_ok_new: "counts_ok (peerdb_new trusted disable nows)"
  using new_sum [of bw nows trusted "[]"]
  by (simp add: counts_ok_def peerdb_new_def new_distinct)

lemma counts_exact_new:
  assumes "length trusted \<le> MAX_DC_PEERS"
  shows "counts_exact (peerdb_new trusted False nows)"
proof -
  have "length (peers (peerdb_new trusted False nows :: ('a, 'b) PeerDB)) \<le> length trusted"
    using new_length [of "\<lambda>p. trusted_peer_info (nows p) :: 'b PeerInfo" trusted "[]"] by (simp add: peerdb_new_def)
  then have "n_trusted (peerdb_new trusted False nows :: ('a, 'b) PeerDB) \<le> length trusted"
    using alist_sum_le_length [of tw "peers (peerdb_new trusted False nows :: ('a, 'b) PeerDB)", OF weight_le_1(3)]
    by linarith
  with assms counts_ok_new [of trusted False nows] new_sum [of dw nows trusted "[]"]
  show ?thesis by (simp add: counts_exact_def) (simp add: peerdb_new_def)
qed

lemma set_state_length: "length (peers db) < USIZE_MAX \<Longrightarrow> length (peers (set_state db p ns now)) \<le> USIZE_MAX"
  using update_length [of p _ "peers db"] by (metis Suc_leI le_trans set_state_fields(1))

interpretation sound: db_invariant counts_ok decay for decay
proof unfold_locales
  fix db :: "('a, 'b) PeerDB" and g
  assume *: "counts_ok db" "\<forall>(p, i) \<in> set (peers db). quiet decay i (g p i)"
  then have s: "\<forall>(p, i) \<in> set (peers db). same_conn i (g p i)" by (auto dest: quiet_same_conn)
  from * quiet_sum [OF conn_weights(1) s] quiet_sum [OF conn_weights(2) s]
  show "counts_ok (db\<lparr>peers := map (\<lambda>(p, i). (p, g p i)) (peers db)\<rparr>)"
    by (simp add: counts_ok_def del: map_map)
next
  fix db :: "('a, 'b) PeerDB" and p now
  assume "counts_ok db" "map_of (peers db) p = None"
  moreover have "dw (peer_info_default now :: 'b PeerInfo) = 0" "bw (peer_info_default now :: 'b PeerInfo) = 0"
    by (simp_all add: weight_simps peer_info_default_def)
  ultimately show "counts_ok (db\<lparr>peers := AList.update p (peer_info_default now) (peers db)\<rparr>)"
    using alist_sum_update [of dw p "peer_info_default now" "peers db"]
      alist_sum_update [of bw p "peer_info_default now" "peers db"]
    by (simp add: counts_ok_def)
qed (simp_all add: drop_banned_ok drop_disconnected_ok set_state_counts_ok set_state_length del: set_state_fields,
    simp add: counts_ok_def)

interpretation exact: db_invariant counts_exact decay for decay
proof unfold_locales
  fix db :: "('a, 'b) PeerDB" and g
  assume *: "counts_exact db" "\<forall>(p, i) \<in> set (peers db). quiet decay i (g p i)"
  then have s: "\<forall>(p, i) \<in> set (peers db). same_conn i (g p i)" by (auto dest: quiet_same_conn)
  from * quiet_sum [OF conn_weights(1) s] quiet_sum [OF conn_weights(3) s] sound.quietly [of db decay g]
  show "counts_exact (db\<lparr>peers := map (\<lambda>(p, i). (p, g p i)) (peers db)\<rparr>)"
    by (simp add: counts_exact_def)
next
  fix db :: "('a, 'b) PeerDB" and p now
  assume *: "counts_exact db" "map_of (peers db) p = None" "length (peers db) < USIZE_MAX"
  moreover have "dw (peer_info_default now :: 'b PeerInfo) = 0" "tw (peer_info_default now :: 'b PeerInfo) = 0"
    by (simp_all add: weight_simps peer_info_default_def)
  ultimately show "counts_exact (db\<lparr>peers := AList.update p (peer_info_default now) (peers db)\<rparr>)"
    using alist_sum_update [of dw p "peer_info_default now" "peers db"]
      alist_sum_update [of tw p "peer_info_default now" "peers db"] sound.fresh [of db p now]
    by (simp add: counts_exact_def)
qed (simp_all add: drop_banned_exact drop_disconnected_exact set_state_exact set_state_length del: set_state_fields,
    simp add: counts_exact_def counts_ok_def)

end
