(* ===== verification/Peer_Db_Props.thy ===== *)
theory Peer_Db_Props
  imports Peer_Db_Counts
begin

text \<open>
  The properties of the peer database: its counters bound its size on every run, scores of stored
  peers are well formed on every run, a fatal report leads to a ban, and how the addresses of
  banned peers are counted.
\<close>

section \<open>Scores of the stored peers\<close>

definition info_ok :: "'enr PeerInfo \<Rightarrow> bool" where
  "info_ok i \<longleftrightarrow> (case pi_score i of Max \<Rightarrow> is_trusted i | Real rs \<Rightarrow> \<not> is_trusted i \<and> score_inv rs)"

definition all_infos :: "('enr PeerInfo \<Rightarrow> bool) \<Rightarrow> ('p \<times> 'enr PeerInfo) list \<Rightarrow> bool" where
  "all_infos P m \<longleftrightarrow> (\<forall>(p, i) \<in> set m. P i)"

definition scores_ok :: "(nat \<Rightarrow> f64) \<Rightarrow> ('p, 'enr) PeerDB \<Rightarrow> bool" where
  "scores_ok decay db \<longleftrightarrow> distinct (map fst (peers db)) \<and>
     (unit_factor decay \<longrightarrow> all_infos info_ok (peers db))"

lemma score_lift_ok:
  "info_ok i \<Longrightarrow> (\<And>rs. score_inv rs \<Longrightarrow> score_inv (f rs)) \<Longrightarrow> info_ok (i\<lparr>pi_score := score_lift f (pi_score i)\<rparr>)"
  by (cases "pi_score i") (simp_all add: info_ok_def)

lemma info_exec_ok:
  assumes "info_ok i" "unit_factor decay" shows "info_ok (info_exec decay i x)"
  using assms score_exec_inv [OF _ assms(2), of _ "Act _"] score_exec_inv [OF _ assms(2), of _ "Decay _"]
    score_exec_inv [OF _ assms(2), of _ "GossipScore _ _ _"]
  by (cases x) (auto simp: apply_peer_action_to_score_def apply_peer_action_def peer_score_update_def score_update_def
      pi_update_gossipsub_score_def update_gossipsub_score_def intro!: score_lift_ok)

lemma conn_change_score: "pi_score (new_info (conn_change ns now i d bc)) = pi_score i"
  by (cases ns; cases "connection_status i")
    (simp_all add: conn_change_simps opt_set_enr_def set_enr_def connect_ingoing_def connect_outgoing_def
      see_multiaddr_def split: ConnectionDirection.split option.split)

lemma info_ok_cong: "pi_score j = pi_score i \<Longrightarrow> is_trusted j = is_trusted i \<Longrightarrow> info_ok j = info_ok i"
  by (cases "pi_score i") (simp_all add: info_ok_def)

lemma info_ok_new: "info_ok (trusted_peer_info now)" "info_ok (peer_info_default now)"
  by (simp_all add: info_ok_def trusted_peer_info_def peer_info_default_def max_score_def score_default_def
      score_inv_default)

lemma entry_change_ok:
  assumes "all_infos info_ok (peers db)" "unit_factor decay"
  shows "info_ok (new_info (entry_change db p ns now))"
proof -
  have e: "info_ok (peer_entry db p now)"
    using assms(1) info_ok_new by (auto simp: peer_entry_def all_infos_def split: option.split dest: map_of_SomeD)
  have "info_ok (entry_info db p ns now)"
    using e info_exec_ok [OF e assms(2), of "ActionOp Fatal"]
    by (simp add: entry_info_def ban_score_first_def split: NewConnectionState.split ScoreState.split)
  then show ?thesis
    by (simp add: entry_change_def info_ok_cong [OF conn_change_score conn_change_trusted])
qed

lemma update_all [intro]: "all_infos P m \<Longrightarrow> P j \<Longrightarrow> all_infos P (AList.update q j m)"
  unfolding all_infos_def by (induction m) auto

lemma delete_all [intro]: "all_infos P m \<Longrightarrow> all_infos P (AList.delete q m)"
  unfolding all_infos_def by (auto simp: AList.delete_eq)

lemma set_state_scores: "scores_ok decay db \<Longrightarrow> scores_ok decay (set_state db p ns now)"
  using entry_change_ok [of db decay p ns now] by (auto simp: scores_ok_def)

interpretation scored: db_invariant "scores_ok decay" decay for decay
proof unfold_locales
  fix db :: "('a, 'b) PeerDB" and g
  assume *: "scores_ok decay db" "\<forall>(p, i) \<in> set (peers db). quiet decay i (g p i)"
  have "info_ok (g p i)" if "unit_factor decay" "(p, i) \<in> set (peers db)" for p i
  proof -
    have "quiet decay i (g p i)" "info_ok i" using * that by (auto simp: scores_ok_def all_infos_def)
    then show ?thesis using info_exec_ok [OF _ that(1)] info_ok_cong
      by (cases rule: quiet.cases) (auto simp: same_conn_def)
  qed
  with * show "scores_ok decay (db\<lparr>peers := map (\<lambda>(p, i). (p, g p i)) (peers db)\<rparr>)"
    by (auto simp: scores_ok_def all_infos_def simp del: map_map)
next
  fix db :: "('a, 'b) PeerDB" and p now
  assume "scores_ok decay db"
  then show "scores_ok decay (db\<lparr>peers := AList.update p (peer_info_default now) (peers db)\<rparr>)"
    using info_ok_new by (auto simp: scores_ok_def)
next
  fix db :: "('a, 'b) PeerDB"
  assume "scores_ok decay db"
  then show "scores_ok decay (snd (drop_banned db))" "scores_ok decay (drop_disconnected db)"
    by (auto simp: scores_ok_def drop_banned_def drop_disconnected_def Let_def split: option.split)
qed (simp_all add: set_state_scores del: set_state_fields, simp_all add: scores_ok_def)

lemma scores_ok_new: "scores_ok decay (peerdb_new trusted disable nows)"
proof -
  have "all_infos info_ok (fold (\<lambda>p m. AList.update p (trusted_peer_info (nows p)) m) ts m)"
    if "all_infos info_ok m" for ts and m :: "('a \<times> 'b PeerInfo) list"
    using that by (induction ts arbitrary: m) (simp_all add: update_all info_ok_new)
  from this [of "[]" trusted] show ?thesis by (simp add: scores_ok_def peerdb_new_def new_distinct all_infos_def)
qed

lemma reach_scores:
  "db_reach decay trusted disable db \<Longrightarrow> unit_factor decay \<Longrightarrow> map_of (peers db) p = Some i \<Longrightarrow> info_ok i"
  using scored.reach_keeps [of decay trusted disable db, OF _ scores_ok_new]
  by (auto simp: scores_ok_def all_infos_def dest: map_of_SomeD)

section \<open>The size of the database\<close>

lemma inject_disconnect_snd:
  "snd (db_inject_disconnect db p now) = snd (shrink_to_fit (set_state db p NewConnectionState.Disconnected now))"
  by (simp add: db_inject_disconnect_def set_state_def Let_def split_beta)

lemma shrink_reaches_limits:
  assumes "P db" "\<And>db. P db \<Longrightarrow> P (snd (drop_banned db))"
    "\<And>db. P db \<Longrightarrow> MAX_DC_PEERS < disconnected_peers db \<Longrightarrow> P (drop_disconnected db)"
  shows "P (snd (shrink_to_fit db))" "disconnected_peers (snd (shrink_to_fit db)) \<le> MAX_DC_PEERS"
    "n_banned_peers (banned_peers_count (snd (shrink_to_fit db))) \<le> MAX_BANNED_PEERS"
proof -
  let ?Q = "\<lambda>db. P db \<and> n_banned_peers (banned_peers_count db) \<le> MAX_BANNED_PEERS"
  have "?Q (snd (shrink_banned db))" using shrink_banned_keeps [of P db] assms by blast
  moreover have "banned_peers_count (drop_disconnected db) = banned_peers_count db" for db :: "('a, 'b) PeerDB"
    by (simp add: drop_disconnected_def Let_def split: option.split)
  ultimately have "?Q (shrink_disconnected (snd (shrink_banned db))) \<and>
      disconnected_peers (shrink_disconnected (snd (shrink_banned db))) \<le> MAX_DC_PEERS"
    using assms(3) by (intro shrink_disconnected_keeps) simp_all
  then show "P (snd (shrink_to_fit db))" "disconnected_peers (snd (shrink_to_fit db)) \<le> MAX_DC_PEERS"
    "n_banned_peers (banned_peers_count (snd (shrink_to_fit db))) \<le> MAX_BANNED_PEERS"
    by (simp_all add: shrink_to_fit_def split_beta)
qed

text \<open>
  C22. The counters never promise too much. In every database reachable from a new one by the
  operations of the peer manager, the counter of disconnected peers is at most the number of peers
  whose status is disconnected, and the number of peers whose status is banned is at most the
  counter of banned peers, so a limit on the second counter is a limit on what is stored.
\<close>

theorem counters_sound:
  fixes db :: "('p, 'enr) PeerDB"
  assumes "db_reach decay trusted disable db"
  shows "disconnected_peers db \<le> length (disconnected_peer_ids db) \<and>
    length (banned_peers db) \<le> n_banned_peers (banned_peers_count db)"
  using sound.reach_keeps [OF assms counts_ok_new]
  by (simp add: counts_ok_def n_disconnected_length n_banned_length)

theorem counters_sound_witness:
  "let db = snd (report_peer (peerdb_new [1] False (\<lambda>_. 0)) (1 :: nat) Fatal 5) :: (nat, unit) PeerDB in
   disconnected_peers db \<le> length (disconnected_peer_ids db) \<and>
   length (banned_peers db) \<le> n_banned_peers (banned_peers_count db)"
proof -
  have "db_reach (\<lambda>_. Fin 1) [1] False (snd (report_peer (peerdb_new [1] False (\<lambda>_. 0)) (1 :: nat) Fatal 5) :: (nat, unit) PeerDB)"
    by (rule step [OF start _ report]) (simp add: peerdb_new_def USIZE_MAX_def)
  then show ?thesis unfolding Let_def by (rule counters_sound)
qed

text \<open>
  C21. The database stays small. With scoring enabled and at most 500 trusted peers, after any
  disconnection in any run the counter of disconnected peers is exact, and at most 500 disconnected
  and at most 1000 banned peers are stored.
\<close>

theorem db_size_bounded:
  fixes db :: "('p, 'enr) PeerDB"
  assumes "db_reach decay trusted False db" "length trusted \<le> MAX_DC_PEERS" "length (peers db) < USIZE_MAX"
  shows "let db' = snd (db_inject_disconnect db p now) in
    disconnected_peers db' = length (disconnected_peer_ids db') \<and>
    length (disconnected_peer_ids db') \<le> 500 \<and> length (banned_peers db') \<le> 1000"
proof -
  let ?db = "set_state db p NewConnectionState.Disconnected now"
  have "counts_exact db" using exact.reach_keeps [OF assms(1) counts_exact_new [OF assms(2)]] .
  then have "counts_exact ?db" by (rule exact.any_state [OF _ assms(3)])
  note s = shrink_reaches_limits [of counts_exact, OF this exact.dropped_banned exact.dropped_disconnected]
  then show ?thesis
    unfolding inject_disconnect_snd Let_def
    by (simp add: counts_exact_def counts_ok_def n_disconnected_length n_banned_length MAX_DC_PEERS_def MAX_BANNED_PEERS_def)
qed

theorem db_size_bounded_witness:
  "length (disconnected_peer_ids (snd (db_inject_disconnect (peerdb_new [1, 2] False (\<lambda>_. 0) :: (nat, unit) PeerDB) 7 5))) \<le> 500"
  using db_size_bounded [OF start, of "[1, 2 :: nat]" "\<lambda>_. 0" 7 5, where 'enr = unit]
  by (simp add: Let_def MAX_DC_PEERS_def USIZE_MAX_def peerdb_new_def)

section \<open>Which peers are forgotten\<close>

fun since :: "PeerConnectionStatus \<Rightarrow> instant" where
  "since (PeerConnectionStatus.Disconnected t') = t'"
| "since (PeerConnectionStatus.Banned t') = t'"
| "since (PeerConnectionStatus.Dialing t') = t'"
| "since st = 0"

definition forgettable :: "'enr PeerInfo \<Rightarrow> bool" where
  "forgettable i \<longleftrightarrow> is_disconnected i \<and> \<not> is_trusted i"

lemma oldest_disconnected_least:
  assumes "oldest_disconnected db = Some (p, t')" "map_of (peers db) p = Some i"
    "distinct (map fst (peers db))" "map_of (peers db) q = Some j" "forgettable j"
  shows "forgettable i \<and> since (connection_status i) \<le> since (connection_status j)"
proof -
  let ?xs = "List.map_filter disconnected_since (filter (\<lambda>(p, i). is_disconnected i \<and> \<not> is_trusted i) (peers db))"
  have in_xs: "(r, since (connection_status k)) \<in> set ?xs" if "map_of (peers db) r = Some k" "forgettable k" for r k
    using map_of_SomeD [OF that(1)] that(2)
    by (force simp: in_map_filter forgettable_def is_disconnected_def disconnected_since_def split: PeerConnectionStatus.splits)
  have "forgettable i" using oldest_disconnected_Some [OF assms(1,3)] assms(2) by (auto simp: forgettable_def)
  moreover have "t' = since (connection_status i)"
  proof -
    have "(p, t') \<in> set ?xs" using min_by_key_in [OF assms(1) [unfolded oldest_disconnected_def]] .
    then obtain k where "(p, k) \<in> set (peers db)" "disconnected_since (p, k) = Some (p, t')"
      using disconnected_since_Some by (force simp: in_map_filter)
    moreover from this have "k = i" using assms(2,3) by (simp add: map_of_is_SomeI)
    ultimately show ?thesis by (simp add: disconnected_since_def split: PeerConnectionStatus.splits)
  qed
  moreover have "t' \<le> since (connection_status j)"
    using min_by_key_le [OF assms(1) [unfolded oldest_disconnected_def] in_xs [OF assms(4,5)]] by simp
  ultimately show ?thesis by simp
qed

lemma drop_disconnected_peers:
  "peers (drop_disconnected db) =
     (case oldest_disconnected db of Some (r, _) \<Rightarrow> AList.delete r (peers db) | None \<Rightarrow> peers db)"
  by (simp add: drop_disconnected_def split: option.split)

lemma drop_disconnected_sub:
  "map_of (peers (drop_disconnected db)) q = Some j \<Longrightarrow> map_of (peers db) q = Some j"
  by (auto simp: drop_disconnected_peers split: option.splits if_splits)

lemma shrink_disconnected_sub:
  "map_of (peers (shrink_disconnected db)) q = Some j \<Longrightarrow> map_of (peers db) q = Some j"
proof (induction db rule: shrink_disconnected.induct)
  case (1 db)
  show ?case
  proof (cases "MAX_DC_PEERS < disconnected_peers db")
    case True
    then have "shrink_disconnected db = shrink_disconnected (drop_disconnected db)"
      by (subst shrink_disconnected.simps) simp
    with 1 True show ?thesis using drop_disconnected_sub by fastforce
  next
    case False
    with 1(2) show ?thesis by (subst (asm) shrink_disconnected.simps) simp
  qed
qed

text \<open>
  C26. What the loop over disconnected peers drops. Every peer of the database either stays with
  its information unchanged, or was an untrusted disconnected peer that had been so at least as
  long as every untrusted disconnected peer that stays.
\<close>

theorem shrink_drops_oldest:
  assumes "distinct (map fst (peers db))" "map_of (peers db) p = Some i"
  shows "map_of (peers (shrink_disconnected db)) p = Some i \<or>
    forgettable i \<and> (\<forall>q j. map_of (peers (shrink_disconnected db)) q = Some j \<longrightarrow> forgettable j \<longrightarrow>
      since (connection_status i) \<le> since (connection_status j))"
  using assms
proof (induction db rule: shrink_disconnected.induct)
  case (1 db)
  show ?case
  proof (cases "MAX_DC_PEERS < disconnected_peers db")
    case False
    with 1(3) show ?thesis by (subst shrink_disconnected.simps) simp
  next
    case True
    let ?db = "drop_disconnected db"
    have eq: "shrink_disconnected db = shrink_disconnected ?db"
      using True by (subst shrink_disconnected.simps) simp
    have d: "distinct (map fst (peers ?db))" using 1(2) by (simp add: drop_disconnected_peers split: option.split)
    show ?thesis
    proof (cases "map_of (peers ?db) p = Some i")
      case True
      from 1(1) [OF \<open>MAX_DC_PEERS < disconnected_peers db\<close> d True] show ?thesis unfolding eq .
    next
      case False
      with 1(3) obtain t' where o: "oldest_disconnected db = Some (p, t')"
        by (auto simp: drop_disconnected_peers split: option.splits if_splits)
      have "forgettable i" using oldest_disconnected_Some [OF o 1(2)] 1(3) by (auto simp: forgettable_def)
      moreover have "since (connection_status i) \<le> since (connection_status j)"
        if "map_of (peers (shrink_disconnected ?db)) q = Some j" "forgettable j" for q j
        using oldest_disconnected_least [OF o 1(3) 1(2) drop_disconnected_sub [OF shrink_disconnected_sub [OF that(1)]] that(2)] by simp
      ultimately show ?thesis unfolding eq by blast
    qed
  qed
qed

theorem shrink_drops_oldest_witness:
  "map_of (peers (shrink_disconnected (peerdb_new [3] False (\<lambda>_. 0) :: (nat, unit) PeerDB))) 3 = Some (trusted_peer_info 0)"
  using shrink_drops_oldest [of "peerdb_new [3] False (\<lambda>_. 0) :: (nat, unit) PeerDB" 3 "trusted_peer_info 0"]
  by (simp add: peerdb_new_def forgettable_def trusted_peer_info_def)

section \<open>Banning\<close>

lemma set_state_status:
  "status (set_state db p ns now) p = Some (connection_status (new_info (entry_change db p ns now)))"
  by (simp add: status_def peer_info_def)

lemma peer_entry_known: "map_of (peers db) p = Some i \<Longrightarrow> peer_entry db p now = i"
  by (simp add: peer_entry_def)

lemma report_fatal_connected:
  assumes "map_of (peers db) p = Some i" "connection_status i = PeerConnectionStatus.Connected n m"
    "\<not> is_trusted i" "pi_score i = Real rs" "pi_score_state i \<noteq> ScoreState.Banned"
  shows "report_peer db p Fatal now =
    (Ban DisconnectThePeer, db\<lparr>peers := AList.update p
       (set_connection_status (apply_peer_action_to_score i Fatal) (PeerConnectionStatus.Disconnecting True)) (peers db)\<rparr>)"
proof -
  let ?i = "apply_peer_action_to_score i Fatal"
  let ?db = "db\<lparr>peers := AList.update p ?i (peers db)\<rparr>"
  have b: "pi_score_state ?i = ScoreState.Banned"
    using assms(3,4) fatal_is_banned [of rs] by (simp add: pi_score_state_def apply_peer_action_to_score_def)
  have "handle_score_transition (pi_score_state i) ?i = ScoreTransitionResult.Banned"
    using b assms(5) by (cases "pi_score_state i") (simp_all add: handle_score_transition_def)
  moreover have "update_connection_state ?db p NewConnectionState.Banned now =
      (Some DisconnectThePeer, ?db\<lparr>peers := AList.update p (set_connection_status ?i (PeerConnectionStatus.Disconnecting True)) (peers ?db)\<rparr>)"
    using assms(2) b peer_entry_known [of ?db p ?i now]
    by (simp add: update_connection_state_def Let_def ban_score_first_def conn_change_def to_banned_def)
  ultimately show ?thesis using assms(1) by (simp add: report_peer_def Let_def)
qed

text \<open>
  C23. A fatal report leads to a ban. A connected, untrusted peer that is not yet banned and is
  reported with \<open>Fatal\<close> is set to be disconnected and banned; when the connection is gone its
  status is banned, the addresses reported to the swarm are those of its seen addresses that are
  banned, connections from it are refused, and it will not be dialled.
\<close>

theorem fatal_report_bans:
  assumes "map_of (peers db) p = Some i" "connection_status i = PeerConnectionStatus.Connected n m"
    "\<not> is_trusted i" "pi_score i = Real rs" "pi_score_state i \<noteq> ScoreState.Banned"
    "distinct (map fst (banned_peers_per_ip (banned_peers_count db)))"
  shows "let (r, db1) = report_peer db p Fatal now;
      (op, db2) = update_connection_state db1 p NewConnectionState.Disconnected now'
    in r = Ban DisconnectThePeer \<and> status db1 p = Some (PeerConnectionStatus.Disconnecting True) \<and>
       op = Some (ReadyToBan (filter (is_ip_banned db2) (seen_ip_addresses i))) \<and>
       status db2 p = Some (PeerConnectionStatus.Banned now') \<and>
       ban_status db2 p = BadScore \<and> \<not> should_dial db2 p"
proof -
  let ?i = "apply_peer_action_to_score i Fatal"
  let ?i1 = "set_connection_status ?i (PeerConnectionStatus.Disconnecting True)"
  let ?db1 = "db\<lparr>peers := AList.update p ?i1 (peers db)\<rparr>"
  let ?i2 = "set_connection_status (clear_subnets ?i1) (PeerConnectionStatus.Banned now')"
  let ?bc = "add_banned_peer (banned_peers_count db) (seen_ip_addresses i)"
  have seen: "seen_ip_addresses ?i = seen_ip_addresses i" by (rule seen_ip_addresses_cong) simp
  have "distinct (map fst (fold charge_ip as m))" if "distinct (map fst m)" for as m
    using that by (induction as arbitrary: m) (simp_all add: charge_ip_def)
  then have "distinct (map fst (banned_peers_per_ip ?bc))" using assms(6) by (simp add: add_banned_peer_def)
  then have ips: "known_banned_ips ?bc ?i2 = filter (count_ip_is_banned ?bc) (seen_ip_addresses i)"
    by (auto simp: known_banned_ips_def banned_ips_iff count_ip_is_banned_iff seen intro!: filter_cong)
  have u: "update_connection_state ?db1 p NewConnectionState.Disconnected now' =
      (Some (ReadyToBan (known_banned_ips ?bc ?i2)),
       ?db1\<lparr>peers := AList.update p ?i2 (peers ?db1), banned_peers_count := ?bc\<rparr>)"
    using peer_entry_known [of ?db1 p ?i1 now']
    by (simp add: update_connection_state_def Let_def ban_score_first_def conn_change_def to_disconnected_def seen)
  have b: "pi_score_state ?i2 = ScoreState.Banned"
    using assms(3,4) fatal_is_banned [of rs]
    by (simp add: pi_score_state_def apply_peer_action_to_score_def set_connection_status_def clear_subnets_def)
  show ?thesis
    unfolding report_fatal_connected [OF assms(1-5)] Let_def split_conv u
    using b by (simp add: ips status_def peer_info_def is_ip_banned_def [abs_def] ban_status_def should_dial_def)
qed

theorem fatal_report_bans_witness:
  "let db = db_connect_ingoing (peerdb_new [] False (\<lambda>_. 0)) 7 [Ip4 1] None 0 :: (nat, unit) PeerDB;
     (r, db1) = report_peer db 7 Fatal 1; (op, db2) = update_connection_state db1 7 NewConnectionState.Disconnected 2
   in ban_status db2 7 = BadScore"
proof -
  let ?i = "connect_ingoing (peer_info_default 0) (Some [Ip4 1]) :: unit PeerInfo"
  let ?db = "db_connect_ingoing (peerdb_new [] False (\<lambda>_. 0)) 7 [Ip4 1] None 0 :: (nat, unit) PeerDB"
  have sc: "pi_score ?i = Real (real_score_default 0)" "\<not> is_trusted ?i"
    "connection_status ?i = PeerConnectionStatus.Connected 1 0"
    by (simp_all add: connect_ingoing_def see_multiaddr_def peer_info_default_def score_default_def)
  have p: "map_of (peers ?db) 7 = Some ?i" "banned_peers_count ?db = banned_count_default"
    by (simp_all add: db_connect_ingoing_def entry_change_def entry_info_def peer_entry_def peerdb_new_def
        ban_score_first_def conn_change_def to_connected_def Let_def opt_set_enr_def peer_info_default_def)
  have "pi_score_state ?i \<noteq> ScoreState.Banned"
    using sc by (simp add: pi_score_state_def score_state_def real_score_default_def DEFAULT_SCORE_def
        MIN_SCORE_BEFORE_BAN_def MIN_SCORE_BEFORE_DISCONNECT_def)
  from fatal_report_bans [OF p(1) sc(3,2,1) this, of 1 2] p(2) show ?thesis
    by (simp add: Let_def split_beta banned_count_default_def)
qed

section \<open>Score updates\<close>

text \<open>
  C25. A score update never bans. In every reachable database, decaying the score of a stored peer
  never moves it to the banned state, and moves it to the disconnected state only from the banned
  one: the branch of \<open>update_scores\<close> that logs a ban as an error cannot be taken, and the one for
  a disconnection is taken only for a peer whose ban has decayed while it was still connected.
\<close>

theorem score_update_never_bans:
  assumes "db_reach decay trusted disable db" "unit_factor decay" "map_of (peers db) p = Some i"
  shows "decay_transition decay nows (p, i) \<noteq> ScoreTransitionResult.Banned \<and>
    (decay_transition decay nows (p, i) = ScoreTransitionResult.Disconnected \<longrightarrow>
       pi_score_state i = ScoreState.Banned \<and> pi_is_connected_or_dialing i)"
proof -
  let ?i = "peer_score_update decay i (nows p)"
  have ok: "info_ok i" using reach_scores [OF assms] .
  have "(pi_score_state i = ScoreState.Healthy \<longrightarrow> pi_score_state ?i = ScoreState.Healthy) \<and>
      (pi_score_state i \<noteq> ScoreState.Banned \<longrightarrow> pi_score_state ?i \<noteq> ScoreState.Banned)"
  proof (cases "pi_score i")
    case (Real rs)
    with ok have "\<not> is_trusted i" "score_inv rs" by (simp_all add: info_ok_def)
    with Real update_at_never_worsens [OF assms(2), of rs "nows p"] show ?thesis
      by (simp add: pi_score_state_def peer_score_update_def score_update_def)
  qed (use ok in \<open>simp add: info_ok_def peer_score_update_def\<close>)
  moreover have "pi_is_connected_or_dialing ?i = pi_is_connected_or_dialing i"
    by (simp add: pi_is_connected_or_dialing_def is_connected_def is_dialing_def peer_score_update_def)
  ultimately show ?thesis
    by (cases "pi_score_state i"; cases "pi_score_state ?i")
      (auto simp: decay_transition_def handle_score_transition_def)
qed

theorem score_update_never_bans_witness:
  "decay_transition (\<lambda>_. Fin 1) (\<lambda>_. 9) (7 :: nat, trusted_peer_info 0 :: unit PeerInfo) \<noteq> ScoreTransitionResult.Banned"
  using score_update_never_bans [OF start, of "\<lambda>_. Fin 1" "[7 :: nat]" False "\<lambda>_. 0" 7 "trusted_peer_info 0 :: unit PeerInfo" "\<lambda>_. 9"]
  by (simp add: peerdb_new_def unit_factor_def)

section \<open>Addresses of banned peers\<close>

text \<open>
  How often an address is the address of a banned peer: once for each of the multiaddresses under
  which such a peer was seen.
\<close>

definition banned_addresses :: "('p, 'enr) PeerDB \<Rightarrow> IpAddr \<Rightarrow> nat" where
  "banned_addresses db ip = alist_sum (iw ip) (peers db)"

text \<open>
  The histories of the connection states: changes of the state of a peer, and shrinking. A history is
  clean if no banned peer is asked to disconnect, which the source logs as an error. No count may reach
  the width of \<open>usize\<close>.
\<close>

definition stale_change :: "('p, 'enr) PeerDB \<Rightarrow> 'p \<Rightarrow> 'enr NewConnectionState \<Rightarrow> instant \<Rightarrow> bool" where
  "stale_change db p ns now \<longleftrightarrow> is_banned (peer_entry db p now) \<and> (\<exists>b. ns = NewConnectionState.Disconnecting b)"

definition address_room :: "('p, 'enr) PeerDB \<Rightarrow> 'p \<Rightarrow> instant \<Rightarrow> bool" where
  "address_room db p now \<longleftrightarrow>
     (\<forall>a. ip_count (banned_peers_count db) a + count_list (seen_ip_addresses (peer_entry db p now)) a \<le> USIZE_MAX)"

inductive conn_history :: "'p list \<Rightarrow> bool \<Rightarrow> bool \<Rightarrow> ('p, 'enr) PeerDB \<Rightarrow> bool" for trusted disable where
  conn_start: "conn_history trusted disable True (peerdb_new trusted disable nows)"
| conn_changed: "conn_history trusted disable clean db \<Longrightarrow> address_room db p now \<Longrightarrow>
    conn_history trusted disable (clean \<and> \<not> stale_change db p ns now) (set_state db p ns now)"
| conn_shrunk: "conn_history trusted disable clean db \<Longrightarrow> conn_history trusted disable clean (snd (shrink_to_fit db))"

definition ips_ok :: "bool \<Rightarrow> ('p, 'enr) PeerDB \<Rightarrow> bool" where
  "ips_ok clean db \<longleftrightarrow> distinct (map fst (peers db)) \<and>
     (\<forall>ip. banned_addresses db ip \<le> ip_count (banned_peers_count db) ip \<and>
        (clean \<longrightarrow> banned_addresses db ip = ip_count (banned_peers_count db) ip))"

lemma set_state_ips:
  fixes db :: "('p, 'b) PeerDB"
  assumes "ips_ok clean db" "address_room db p now"
  shows "ips_ok (clean \<and> \<not> stale_change db p ns now) (set_state db p ns now)"
proof -
  let ?i = "entry_info db p ns now" and ?c = "entry_change db p ns now"
  have e: "seen_ip_addresses ?i = seen_ip_addresses (peer_entry db p now)" "is_banned ?i = is_banned (peer_entry db p now)"
    by (simp_all add: entry_info_def is_banned_def seen_ip_addresses_def)
  have "banned_addresses (set_state db p ns now) a \<le> ip_count (new_banned ?c) a \<and>
      (clean \<and> \<not> stale_change db p ns now \<longrightarrow> banned_addresses (set_state db p ns now) a = ip_count (new_banned ?c) a)" for a
  proof -
    have "\<not> disable_peer_scoring db \<or> (\<forall>now. iw a (trusted_peer_info now :: 'b PeerInfo) = 0)" by simp
    note s = set_state_sum [where p = p and ns = ns and now = now, OF conn_weights(4) this]
    have le: "iw a ?i \<le> ip_count (banned_peers_count db) a" "banned_addresses db a \<le> ip_count (banned_peers_count db) a"
      using s(2) assms(1) by (auto simp: ips_ok_def banned_addresses_def intro: le_trans)
    show ?thesis
    proof (cases "stale_change db p ns now")
      case True
      then have "new_banned ?c = banned_peers_count db" "iw a (new_info ?c) = 0"
        using e(2) by (auto simp: stale_change_def entry_change_def conn_change_def to_disconnecting_def is_banned_def
            iw_def set_connection_status_def split: PeerConnectionStatus.splits)
      with True s(1) le(2) show ?thesis by (simp add: banned_addresses_def)
    next
      case False
      then have "ip_count (new_banned ?c) a = ip_count (banned_peers_count db) a - iw a ?i + iw a (new_info ?c)"
        unfolding entry_change_def using le(1) assms(2) e
        by (intro conn_change_ip_eq) (simp_all add: stale_change_def address_room_def)
      moreover have "clean \<longrightarrow> alist_sum (iw a) (peers db) = ip_count (banned_peers_count db) a"
        using assms(1) by (simp add: ips_ok_def banned_addresses_def)
      ultimately show ?thesis using s le(2) unfolding banned_addresses_def by linarith
    qed
  qed
  with assms(1) show ?thesis by (simp add: ips_ok_def distinct_update)
qed

lemma drop_banned_ips:
  assumes "ips_ok clean db"
  shows "ips_ok clean (snd (drop_banned db))"
proof (cases "oldest_banned db")
  case None
  then have "\<forall>e \<in> set (peers db). banned_since e = None" by (simp add: oldest_banned_def map_filter_Nil)
  then have "\<forall>(p, i) \<in> set (peers db). iw ip i = 0" for ip
    by (auto simp: banned_since_def iw_def is_banned_def split: PeerConnectionStatus.splits)
  then have "banned_addresses db ip = 0" for ip
    unfolding banned_addresses_def using sum_mono_list [of "peers db" "iw ip" "\<lambda>_. 0"] by (fastforce simp: alist_sum_def)
  with None assms show ?thesis by (simp add: ips_ok_def drop_banned_def banned_addresses_def)
next
  case (Some a)
  obtain p i t' where a: "a = (p, i, t')" by (cases a)
  have d: "distinct (map fst (peers db))" using assms by (simp add: ips_ok_def)
  have i: "map_of (peers db) p = Some i" "is_banned i" using oldest_banned_Some [of db p i t'] Some a d by simp_all
  then have "iw ip i = count_list (seen_ip_addresses i) ip" for ip by (simp add: iw_def)
  with assms d i Some a show ?thesis
    by (simp add: ips_ok_def drop_banned_def Let_def banned_addresses_def delete_sum diff_le_mono)
qed

lemma drop_disconnected_ips:
  assumes "ips_ok clean db"
  shows "ips_ok clean (drop_disconnected db)"
proof (cases "oldest_disconnected db")
  case (Some a)
  obtain p t' where a: "a = (p, t')" by (cases a)
  have d: "distinct (map fst (peers db))" using assms by (simp add: ips_ok_def)
  obtain i where i: "map_of (peers db) p = Some i" "is_disconnected i"
    using oldest_disconnected_Some [of db p t'] Some a d by auto
  then have "iw ip i = 0" for ip by (auto simp: iw_def is_banned_def is_disconnected_def split: PeerConnectionStatus.splits)
  with assms d i Some a show ?thesis by (simp add: ips_ok_def drop_disconnected_def Let_def banned_addresses_def delete_sum)
qed (use assms in \<open>simp add: ips_ok_def drop_disconnected_def banned_addresses_def\<close>)

lemma new_ips: "ips_ok True (peerdb_new trusted disable nows :: ('p, 'enr) PeerDB)"
proof -
  have "alist_sum (iw ip) (fold (\<lambda>p m. AList.update p (trusted_peer_info (nows p) :: 'enr PeerInfo) m) trusted []) = 0" for ip
    using new_sum [of "iw ip" nows trusted "[]"] by simp
  then show ?thesis by (simp add: ips_ok_def peerdb_new_def new_distinct banned_addresses_def)
qed

lemma history_ips: "conn_history trusted disable clean db \<Longrightarrow> ips_ok clean db"
proof (induction rule: conn_history.induct)
  case (conn_shrunk clean db)
  have "ips_ok clean (snd (shrink_banned db))"
    using shrink_banned_keeps [of "ips_ok clean" db] conn_shrunk.IH drop_banned_ips by blast
  then have "ips_ok clean (shrink_disconnected (snd (shrink_banned db)))"
    using shrink_disconnected_keeps [of "ips_ok clean" "snd (shrink_banned db)"] drop_disconnected_ips by blast
  then show ?case by (simp add: shrink_to_fit_def split_beta)
qed (simp_all add: new_ips set_state_ips del: set_state_fields)

text \<open>
  C24. Addresses of banned peers. After every history of changes of connection states and of shrinking
  in which no count reaches the width of \<open>usize\<close>, the count of an address is at least the number of multiaddresses of banned peers with that address,
  and exactly that number unless a banned peer was asked to disconnect, which leaves the count too
  high; and an address is banned just when its count is above 5. So the addresses of one peer seen under
  six ports are banned with it, and no address that should be banned is missed.
\<close>

theorem ip_accounting:
  assumes "conn_history trusted disable clean db"
  shows "banned_addresses db ip \<le> ip_count (banned_peers_count db) ip \<and>
    (clean \<longrightarrow> banned_addresses db ip = ip_count (banned_peers_count db) ip) \<and>
    (is_ip_banned db ip \<longleftrightarrow> 5 < ip_count (banned_peers_count db) ip)"
  using history_ips [OF assms]
  by (simp add: ips_ok_def is_ip_banned_def count_ip_is_banned_iff BANNED_PEERS_PER_IP_THRESHOLD_def)

text \<open>A peer seen under one address is banned.\<close>

definition sample_ban :: "(nat, unit) PeerDB" where
  "sample_ban = set_state (set_state (set_state (peerdb_new [] False (\<lambda>_. 0)) 7
     (NewConnectionState.Connected None [Ip4 0, Tcp 9000] Incoming) 1) 7 (NewConnectionState.Disconnecting True) 2) 7
     NewConnectionState.Disconnected 3"

lemmas sample_ban_simps = sample_ban_def set_state_def update_connection_state_def peerdb_new_def peer_entry_def
  peer_info_default_def ban_score_first_def conn_change_def to_connected_def to_disconnecting_def to_disconnected_def
  connect_ingoing_def opt_set_enr_def set_connection_status_def clear_subnets_def seen_ip_addresses_def
  see_multiaddr_def add_banned_peer_def charge_ip_def ip_count_def banned_count_default_def List.map_filter_simps

lemma sample_ban_history: "conn_history [] False True sample_ban"
proof -
  let ?db0 = "peerdb_new [] False (\<lambda>_. 0) :: (nat, unit) PeerDB"
  let ?db1 = "set_state ?db0 7 (NewConnectionState.Connected None [Ip4 0, Tcp 9000] Incoming) 1"
  let ?db2 = "set_state ?db1 7 (NewConnectionState.Disconnecting True) 2"
  have "conn_history [] False True ?db1"
    using conn_changed [OF conn_start, of "[]" False "\<lambda>_. 0" 7 1 "NewConnectionState.Connected None [Ip4 0, Tcp 9000] Incoming"]
    by (simp add: address_room_def stale_change_def sample_ban_simps Let_def USIZE_MAX_def del: set_state_fields)
  then have "conn_history [] False True ?db2"
    using conn_changed [of "[]" False True ?db1 7 2 "NewConnectionState.Disconnecting True"]
    by (simp add: address_room_def stale_change_def sample_ban_simps Let_def USIZE_MAX_def is_banned_def del: set_state_fields)
  then show ?thesis unfolding sample_ban_def
    using conn_changed [of "[]" False True ?db2 7 3 NewConnectionState.Disconnected]
    by (simp add: address_room_def stale_change_def sample_ban_simps Let_def USIZE_MAX_def del: set_state_fields)
qed

theorem ip_accounting_witness:
  "banned_addresses sample_ban (V4 0) = ip_count (banned_peers_count sample_ban) (V4 0) \<and>
   ip_count (banned_peers_count sample_ban) (V4 0) = 1 \<and> \<not> is_ip_banned sample_ban (V4 0)"
proof -
  have "ip_count (banned_peers_count sample_ban) (V4 0) = 1"
    by (simp add: sample_ban_simps Let_def usize_add_def USIZE_MAX_def del: set_state_fields)
  with ip_accounting [OF sample_ban_history, of "V4 0"] show ?thesis by simp
qed

section \<open>The limit without scoring\<close>

lemma shrink_disconnected_trusted:
  "all_infos is_trusted (peers db) \<Longrightarrow> peers (shrink_disconnected db) = peers db"
proof (induction db rule: shrink_disconnected.induct)
  case (1 db)
  show ?case
  proof (cases "MAX_DC_PEERS < disconnected_peers db")
    case True
    have "filter (\<lambda>(p, i). is_disconnected i \<and> \<not> is_trusted i) (peers db) = []"
      using 1(2) by (auto simp: all_infos_def filter_empty_conv)
    then have "oldest_disconnected db = None" unfolding oldest_disconnected_def by (simp only: List.map_filter_simps) simp
    then have "peers (drop_disconnected db) = peers db" by (simp add: drop_disconnected_peers)
    with 1 True show ?thesis by (subst shrink_disconnected.simps) simp
  next
    case False
    then show ?thesis by (subst shrink_disconnected.simps) simp
  qed
qed

lemma disconnect_unknown:
  assumes "disable_peer_scoring db" "map_of (peers db) p = None" "all_infos (\<lambda>i. is_trusted i \<and> is_disconnected i) (peers db)"
    "n_banned_peers (banned_peers_count db) = 0"
  shows "let db' = snd (db_inject_disconnect db p now) in disable_peer_scoring db' \<and>
    map fst (peers db') = map fst (peers db) @ [p] \<and> all_infos (\<lambda>i. is_trusted i \<and> is_disconnected i) (peers db') \<and>
    n_banned_peers (banned_peers_count db') = 0"
proof -
  let ?i = "set_connection_status (clear_subnets (trusted_peer_info now)) (PeerConnectionStatus.Disconnected now) :: 'b PeerInfo"
  define db1 where "db1 = set_state db p NewConnectionState.Disconnected now"
  have "peer_entry db p now = trusted_peer_info now" using assms(1,2) by (simp add: peer_entry_def)
  moreover have "connection_status (trusted_peer_info now :: 'b PeerInfo) = PeerConnectionStatus.Unknown"
    by (simp add: trusted_peer_info_def peer_info_default_def)
  ultimately have c: "new_info (entry_change db p NewConnectionState.Disconnected now) = ?i"
    "new_banned (entry_change db p NewConnectionState.Disconnected now) = banned_peers_count db"
    by (simp_all add: entry_change_def entry_info_def ban_score_first_def conn_change_def to_disconnected_def Let_def)
  have t: "is_trusted ?i" "is_disconnected ?i" by (simp_all add: trusted_peer_info_def)
  have "AList.update p v m = m @ [(p, v)]" if "map_of m p = None" for m and v :: "'b PeerInfo"
    using that by (induction m) (auto split: if_splits)
  from this [OF assms(2)] have p1: "peers db1 = peers db @ [(p, ?i)]" by (simp add: db1_def c)
  then have all: "all_infos (\<lambda>i. is_trusted i \<and> is_disconnected i) (peers db1)"
    using assms(3) t by (auto simp: all_infos_def)
  have "shrink_banned db1 = ([], db1)" using assms(4) by (subst shrink_banned.simps) (simp add: db1_def c)
  then have s: "snd (shrink_to_fit db1) = shrink_disconnected db1" by (simp add: shrink_to_fit_def)
  have keep: "banned_peers_count (shrink_disconnected db1) = banned_peers_count db1 \<and>
      disable_peer_scoring (shrink_disconnected db1) = disable_peer_scoring db1"
    using shrink_disconnected_keeps [of "\<lambda>d. banned_peers_count d = banned_peers_count db1 \<and> disable_peer_scoring d = disable_peer_scoring db1" db1]
    by (simp add: drop_disconnected_def split: option.split)
  have "peers (shrink_disconnected db1) = peers db1"
    using all by (intro shrink_disconnected_trusted) (auto simp: all_infos_def)
  then show ?thesis
    using keep all p1 assms(1,4) unfolding inject_disconnect_snd db1_def [symmetric] s Let_def
    by (simp add: db1_def c)
qed

text \<open>
  C27. Without scoring the limit on disconnected peers has no effect. When peer scoring is disabled
  every new peer is stored as trusted and trusted peers are never dropped, although the counter is
  lowered: for every \<open>n\<close> some run leads to a database with \<open>n\<close> disconnected peers.
\<close>

theorem disabled_scoring_unbounded:
  assumes "n < USIZE_MAX"
  shows "\<exists>db :: (nat, 'enr) PeerDB. db_reach decay [] True db \<and> length (disconnected_peer_ids db) = n"
proof -
  have "\<exists>db :: (nat, 'enr) PeerDB. db_reach decay [] True db \<and> disable_peer_scoring db \<and> map fst (peers db) = [0..<n] \<and>
      all_infos (\<lambda>i. is_trusted i \<and> is_disconnected i) (peers db) \<and> n_banned_peers (banned_peers_count db) = 0"
    using assms
  proof (induction n)
    case 0
    have "db_reach decay [] True (peerdb_new [] True (\<lambda>_. 0) :: (nat, 'enr) PeerDB)" by (rule start)
    then show ?case by (intro exI [of _ "peerdb_new [] True (\<lambda>_. 0)"]) (simp add: peerdb_new_def all_infos_def)
  next
    case (Suc n)
    then obtain db :: "(nat, 'enr) PeerDB" where db: "db_reach decay [] True db" "disable_peer_scoring db"
      "map fst (peers db) = [0..<n]" "all_infos (\<lambda>i. is_trusted i \<and> is_disconnected i) (peers db)"
      "n_banned_peers (banned_peers_count db) = 0" by auto
    have "length (peers db) = n" using arg_cong [OF db(3), of length] by simp
    then have "db_reach decay [] True (snd (db_inject_disconnect db n 0))"
      using Suc.prems by (intro step [OF db(1) _ disconnect]) simp
    moreover have "map_of (peers db) n = None" using db(3) by (metis atLeastLessThan_iff list.set_map map_of_eq_None_iff order_less_irrefl set_upt)
    ultimately show ?case using disconnect_unknown [OF db(2) _ db(4,5), of n 0] db(3) by (auto simp: Let_def)
  qed
  then obtain db :: "(nat, 'enr) PeerDB" where "db_reach decay [] True db" "map fst (peers db) = [0..<n]"
    "all_infos (\<lambda>i. is_trusted i \<and> is_disconnected i) (peers db)" by blast
  moreover from this have "filter (\<lambda>(p, i). is_disconnected i) (peers db) = peers db"
    by (auto simp: all_infos_def intro!: filter_True)
  ultimately show ?thesis by (metis disconnected_peer_ids_def ids_where_def length_map length_upt minus_nat.diff_0)
qed

theorem disabled_scoring_unbounded_witness:
  "\<exists>db :: (nat, unit) PeerDB. db_reach (\<lambda>_. Fin 1) [] True db \<and> length (disconnected_peer_ids db) = 501"
  by (rule disabled_scoring_unbounded) (simp add: USIZE_MAX_def)

end
