(* ===== verification/Peer_Manager_Runs.thy ===== *)
theory Peer_Manager_Runs
  imports Peer_Manager Peer_Db_Props
begin

text \<open>
  Runs of the peer manager. An operation is a value of \<open>pm_op\<close>, a run a sequence of operations from
  a new manager. Every invariant of the database (locale \<open>db_safe\<close>) carries over to the runs of the
  manager, and no operation fails.
\<close>

section \<open>Operations and runs\<close>

datatype ('p, 'enr, 'e) pm_op =
    GoodbyePeer 'p GoodbyeReason ReportSource instant
  | ReportPeer 'p PeerAction ReportSource "GoodbyeReason option" instant
  | PeersDiscovered "('enr \<times> instant option) list" instant
  | PeerStatusd 'p instant
  | AddSyncSubnet SyncSubnetId instant
  | DialPeer 'enr
  | Identify 'p "Multiaddr list" string string
  | HandleRpcError 'p Protocol "'e RPCError" ConnectionDirection instant
  | PingRequest 'p u64 instant
  | PongResponse 'p u64
  | MetaDataResponse 'p MetaDataMessage
  | UpdateGossipsubScores "('p \<times> 'enr PeerInfo \<times> f64) list \<Rightarrow> ('p \<times> 'enr PeerInfo \<times> f64) list" "'p \<Rightarrow> f64 option" "'p \<Rightarrow> instant"
  | OnSwarmEvent "'p FromSwarm" instant
  | Poll "('p, 'enr) Beat list" "'p list" "'p list" instant

definition pm_exec ::
  "(nat \<Rightarrow> f64) \<Rightarrow> ('p, 'enr) EnrOps \<Rightarrow> ('p, 'hd) DelayOps \<Rightarrow> ('p, 'enr, 'hd) PeerManager \<Rightarrow> ('p, 'enr, 'e) pm_op \<Rightarrow>
   ('p, 'enr, 'hd) PeerManager option" where
  "pm_exec decay E D pm op =
     (case op of
        GoodbyePeer p reason src now \<Rightarrow> goodbye_peer D pm p reason src now
      | ReportPeer p act src reason now \<Rightarrow> pm_report_peer D pm p act src reason now
      | PeersDiscovered results now \<Rightarrow> Some (peers_discovered E pm results now)
      | PeerStatusd p now \<Rightarrow> Some (peer_statusd D pm p now)
      | AddSyncSubnet s now \<Rightarrow> Some (add_sync_subnet pm s now)
      | DialPeer enr \<Rightarrow> Some (dial_peer E pm enr)
      | Identify p addrs protocol agent \<Rightarrow> Some (identify pm p addrs protocol agent)
      | HandleRpcError p protocol err dir now \<Rightarrow> handle_rpc_error D pm p protocol err dir now
      | PingRequest p seq now \<Rightarrow> Some (ping_request D pm p seq now)
      | PongResponse p seq \<Rightarrow> Some (pong_response pm p seq)
      | MetaDataResponse p md \<Rightarrow> Some (meta_data_response pm p md)
      | UpdateGossipsubScores ties peer_score nows \<Rightarrow> pm_update_gossipsub_scores D ties peer_score pm nows
      | OnSwarmEvent ev now \<Rightarrow> on_swarm_event D pm ev now
      | Poll beats inb outb now \<Rightarrow> map_option snd (pm_poll decay E D beats inb outb now pm))"

text \<open>What the arguments stand for: permutations, and room in the map for the new entries.\<close>

definition beat_ok :: "('p, 'enr) Beat \<Rightarrow> bool" where
  "beat_ok b \<longleftrightarrow> is_perm (bt_shuffle b) \<and> is_perm (bt_order b)"

fun op_ok :: "('p, 'enr, 'e) pm_op \<Rightarrow> bool" where
  "op_ok (UpdateGossipsubScores ties _ _) = is_perm ties"
| "op_ok (Poll beats _ _ _) = list_all beat_ok beats"
| "op_ok _ = True"

fun op_growth :: "('p, 'enr, 'e) pm_op \<Rightarrow> nat" where
  "op_growth (PeersDiscovered results _) = length results"
| "op_growth _ = 0"

definition fits :: "('p, 'enr, 'hd) PeerManager \<Rightarrow> ('p, 'enr, 'e) pm_op \<Rightarrow> bool" where
  "fits pm op \<longleftrightarrow> op_ok op \<and> length (peers (pm_db pm)) + op_growth op < USIZE_MAX"

inductive pm_reach ::
  "(nat \<Rightarrow> f64) \<Rightarrow> ('p, 'enr) EnrOps \<Rightarrow> ('p, 'hd) DelayOps \<Rightarrow> PmConfig \<Rightarrow> 'p list \<Rightarrow> bool \<Rightarrow> 'e itself \<Rightarrow>
   ('p, 'enr, 'hd) PeerManager \<Rightarrow> bool"
  for decay E D cfg trusted disable e where
  pm_start: "pm_reach decay E D cfg trusted disable e (pm_new D cfg (globals_new E enr md trusted disable nows))"
| pm_step: "pm_reach decay E D cfg trusted disable e pm \<Longrightarrow> fits pm (op :: ('p, 'enr, 'e) pm_op) \<Longrightarrow>
    pm_exec decay E D pm op = Some pm' \<Longrightarrow> pm_reach decay E D cfg trusted disable e pm'"

section \<open>Bans and events leave the database alone\<close>

lemma with_db_fields [simp]:
  "pm_db (with_db db pm) = db" "pm_events (with_db db pm) = pm_events pm"
  "pm_target_peers (with_db db pm) = pm_target_peers pm"
  "temporary_banned_peers (with_db db pm) = temporary_banned_peers pm"
  by (simp_all add: with_db_def)

lemma push_event_fields [simp]:
  "network_globals (push_event ev pm) = network_globals pm" "pm_events (push_event ev pm) = pm_events pm @ [ev]"
  "pm_target_peers (push_event ev pm) = pm_target_peers pm"
  "temporary_banned_peers (push_event ev pm) = temporary_banned_peers pm"
  by (simp_all add: push_event_def)

definition frame :: "('p, 'enr, 'hd) PeerManager \<Rightarrow> ('p, 'enr, 'hd) PeerManager \<Rightarrow> bool" where
  "frame pm pm' \<longleftrightarrow> network_globals pm' = network_globals pm \<and> pm_target_peers pm' = pm_target_peers pm \<and>
     keys_ok (temporary_banned_peers pm')"

lemma handle_ban_total:
  assumes "keys_ok (temporary_banned_peers pm)"
  shows "\<exists>pm'. handle_ban_operation pm p op reason now = Some pm' \<and> frame pm pm'"
proof -
  obtain b1 c1 where "raw_insert (temporary_banned_peers pm) p now = Some (b1, c1)" "keys_ok c1"
    using raw_insert_keys_ok [OF assms] .
  moreover obtain b2 c2 where "raw_remove (temporary_banned_peers pm) p = Some (b2, c2)" "keys_ok c2"
    using raw_remove_keys_ok [OF assms] .
  ultimately show ?thesis using assms
    by (cases op) (simp_all add: handle_ban_operation_def frame_def Let_def)
qed

lemma handle_score_total:
  "keys_ok (temporary_banned_peers pm) \<Longrightarrow>
   \<exists>pm'. handle_score_action D pm p action reason now = Some pm' \<and> frame pm pm'"
  using handle_ban_total [of pm]
  by (cases action) (simp_all add: handle_score_action_def frame_def)

lemma handle_scores_total:
  "keys_ok (temporary_banned_peers pm) \<Longrightarrow>
   \<exists>pm'. handle_score_actions D nows pm actions = Some pm' \<and> frame pm pm'"
proof (induction actions arbitrary: pm)
  case Nil
  then show ?case by (simp add: handle_score_actions_def frame_def)
next
  case (Cons a actions)
  obtain p action where a: "a = (p, action)" by (cases a)
  obtain pm1 where pm1: "handle_score_action D pm p action None (nows p) = Some pm1" "frame pm pm1"
    using handle_score_total [OF Cons.prems] by blast
  with Cons.IH [of pm1] a show ?case
    by (auto simp: handle_score_actions_def frame_def)
qed

lemma report_total:
  "keys_ok (temporary_banned_peers pm) \<Longrightarrow>
   \<exists>pm'. pm_report_peer D pm p act src reason now = Some pm' \<and>
     frame (with_db (snd (report_peer (pm_db pm) p act now)) pm) pm'"
  using handle_score_total [of "with_db (snd (report_peer (pm_db pm) p act now)) pm"]
  by (simp add: pm_report_peer_def split_beta)

lemma inject_disconnect_total:
  assumes "keys_ok (temporary_banned_peers pm)"
  shows "\<exists>pm'. inject_disconnect D pm p now = Some pm' \<and>
    frame (with_db (snd (db_inject_disconnect (pm_db pm) p now)) pm) pm'"
proof -
  obtain op purged db where r: "db_inject_disconnect (pm_db pm) p now = ((op, purged), db)"
    by (metis surj_pair)
  have "keys_ok (temporary_banned_peers (with_db db pm))" using assms by simp
  then obtain pm1 where "(case op of Some bo \<Rightarrow> handle_ban_operation (with_db db pm) p bo None now
      | None \<Rightarrow> Some (with_db db pm)) = Some pm1" "frame (with_db db pm) pm1"
    using handle_ban_total [of "with_db db pm" p _ None now] by (cases op) (auto simp: frame_def)
  with r show ?thesis by (simp add: inject_disconnect_def frame_def)
qed

section \<open>Pruning\<close>

lemma prune_pass_subset: "set (fst (prune_pass e t c cs ps n)) \<subseteq> set ps \<union> fst ` set cs"
  by (induction e t c cs ps n rule: prune_pass.induct) (auto split: if_splits)

lemma subnet_to_peer_empty [simp]: "subnet_to_peer ps db = []"
proof -
  have "fold (\<lambda>(p, info) m. if is_trusted info \<or> p \<in> set ps then m else m) xs m = m"
    for xs :: "('a \<times> 'b PeerInfo) list" and m :: "('a \<times> 'b PeerInfo) list list"
    by (induction xs) auto
  then show ?thesis by (simp add: subnet_to_peer_def)
qed

lemma subnet_loop_empty [simp]: "subnet_loop shuf e t c cs n [] counts ps o' = ps"
  by (subst subnet_loop.simps) simp

lemma peers_to_prune_eq:
  "peers_to_prune b pm = fst (prune_pass (g_connected_peers (network_globals pm) - pm_target_peers pm)
     (target_outbound_peers pm) (g_connected_outbound_only_peers (network_globals pm))
     (prune_candidates (bt_shuffle b) negative_score (pm_db pm)) [] 0)"
  by (simp add: peers_to_prune_def Let_def split_beta)

lemma worst_connected_set:
  "is_perm shuffle \<Longrightarrow> set (worst_connected_peers shuffle db) = set (connected_peers db)"
proof -
  assume "is_perm shuffle"
  then have "mset (worst_connected_peers shuffle db) = mset (connected_peers db)"
    by (simp add: worst_connected_peers_def connected_peers_def is_perm_def)
  then show ?thesis by (metis set_mset_mset)
qed

lemma prune_candidates_set:
  "is_perm shuffle \<Longrightarrow> set (prune_candidates shuffle P db) =
     {(p, i) \<in> set (peers db). is_connected i \<and> \<not> is_trusted i \<and> P i}"
  by (auto simp: prune_candidates_def worst_connected_set connected_peers_def)

lemma peers_to_prune_known:
  "is_perm (bt_shuffle b) \<Longrightarrow> set (peers_to_prune b pm) \<subseteq> fst ` set (peers (pm_db pm))"
proof -
  assume *: "is_perm (bt_shuffle b)"
  have "fst ` set (prune_candidates (bt_shuffle b) negative_score (pm_db pm)) \<subseteq> fst ` set (peers (pm_db pm))"
    unfolding prune_candidates_set [OF *] by auto
  with prune_pass_subset [of _ _ _ "prune_candidates (bt_shuffle b) negative_score (pm_db pm)" "[]" 0] show ?thesis
    unfolding peers_to_prune_eq by fastforce
qed

lemma disconnect_peer_fields [simp]:
  "pm_db (disconnect_peer pm p reason now) = set_state (pm_db pm) p (NewConnectionState.Disconnecting False) now"
  "pm_events (disconnect_peer pm p reason now) = pm_events pm @ [DisconnectPeer p reason]"
  "pm_target_peers (disconnect_peer pm p reason now) = pm_target_peers pm"
  "temporary_banned_peers (disconnect_peer pm p reason now) = temporary_banned_peers pm"
  by (simp_all add: disconnect_peer_def notify_disconnecting_def)

lemma disconnect_fold:
  "pm_db (fold (\<lambda>p pm. disconnect_peer pm p r (now p)) ps pm) =
     fold (\<lambda>p db. set_state db p (NewConnectionState.Disconnecting False) (now p)) ps (pm_db pm) \<and>
   pm_events (fold (\<lambda>p pm. disconnect_peer pm p r (now p)) ps pm) = pm_events pm @ map (\<lambda>p. DisconnectPeer p r) ps \<and>
   pm_target_peers (fold (\<lambda>p pm. disconnect_peer pm p r (now p)) ps pm) = pm_target_peers pm \<and>
   temporary_banned_peers (fold (\<lambda>p pm. disconnect_peer pm p r (now p)) ps pm) = temporary_banned_peers pm"
  by (induction ps arbitrary: pm) simp_all

section \<open>Invariants of the database hold on the runs of the manager\<close>

lemma maintain_fields [simp]:
  "network_globals (maintain_peer_count pm n) = network_globals pm"
  "pm_target_peers (maintain_peer_count pm n) = pm_target_peers pm"
  "temporary_banned_peers (maintain_peer_count pm n) = temporary_banned_peers pm"
  by (simp_all add: maintain_peer_count_def)

lemma unban_fields [simp]:
  "network_globals (unban_temporary_banned_peers pm now) = network_globals pm"
  "pm_target_peers (unban_temporary_banned_peers pm now) = pm_target_peers pm"
  "keys_ok (temporary_banned_peers pm) \<Longrightarrow> keys_ok (temporary_banned_peers (unban_temporary_banned_peers pm now))"
  using remove_expired_keys_ok [of "temporary_banned_peers pm" now]
  by (simp_all add: unban_temporary_banned_peers_def split_beta)

lemma prune_excess_fields [simp]:
  "pm_target_peers (prune_excess_peers b pm) = pm_target_peers pm"
  "temporary_banned_peers (prune_excess_peers b pm) = temporary_banned_peers pm"
  by (simp_all add: prune_excess_peers_def disconnect_fold)

lemma ping_fold_fields [simp]:
  "network_globals (fold (ping_inbound D now) ps pm) = network_globals pm"
  "pm_target_peers (fold (ping_inbound D now) ps pm) = pm_target_peers pm"
  "temporary_banned_peers (fold (ping_inbound D now) ps pm) = temporary_banned_peers pm"
  "network_globals (fold (ping_outbound D now) ps pm) = network_globals pm"
  "pm_target_peers (fold (ping_outbound D now) ps pm) = pm_target_peers pm"
  "temporary_banned_peers (fold (ping_outbound D now) ps pm) = temporary_banned_peers pm"
  by (induction ps arbitrary: pm) (simp_all add: ping_inbound_def ping_outbound_def)

lemma dial_peer_fields [simp]:
  "network_globals (dial_peer E pm enr) = network_globals pm"
  "pm_target_peers (dial_peer E pm enr) = pm_target_peers pm"
  "temporary_banned_peers (dial_peer E pm enr) = temporary_banned_peers pm"
  by (simp_all add: dial_peer_def)

lemma inject_peer_connection_fields [simp]:
  "pm_target_peers (snd (inject_peer_connection D pm p c enr now)) = pm_target_peers pm"
  "temporary_banned_peers (snd (inject_peer_connection D pm p c enr now)) = temporary_banned_peers pm"
  "pm_db (snd (inject_peer_connection D pm p c enr now)) =
     (case c of
        ConnectingType.Dialing \<Rightarrow> dialing_peer (pm_db pm) p enr now
      | IngoingConnected addr \<Rightarrow> db_connect_ingoing (pm_db pm) p addr enr now
      | OutgoingConnected addr \<Rightarrow> db_connect_outgoing (pm_db pm) p addr enr now)"
  by (simp_all add: inject_peer_connection_def Let_def split: ConnectingType.split)

lemma request_metadata_fields [simp]:
  "network_globals (request_metadata pm p i seq) = network_globals pm"
  "pm_target_peers (request_metadata pm p i seq) = pm_target_peers pm"
  "temporary_banned_peers (request_metadata pm p i seq) = temporary_banned_peers pm"
  by (simp_all add: request_metadata_def split: option.split)

context db_safe
begin

lemma prune_keeps:
  assumes "roomy (pm_db pm)" "beat_ok b"
  shows "roomy (pm_db (prune_excess_peers b pm))"
proof -
  have "set (bt_order b (peers_to_prune b pm)) = set (peers_to_prune b pm)"
    using assms(2) unfolding beat_ok_def is_perm_def by (metis set_mset_mset)
  then have "set (bt_order b (peers_to_prune b pm)) \<subseteq> fst ` set (peers (pm_db pm))"
    using peers_to_prune_known [of b pm] assms(2) by (simp add: beat_ok_def)
  from cleanup_keeps [OF assms(1) _ this, of "NewConnectionState.Disconnecting False" "bt_prune b"] assms(1)
  show ?thesis by (simp add: prune_excess_peers_def disconnect_fold)
qed

lemma beat_keeps:
  assumes "roomy (pm_db pm)" "keys_ok (temporary_banned_peers pm)" "beat_ok b"
  shows "\<exists>pm'. heartbeat decay D b pm = Some pm' \<and> roomy (pm_db pm') \<and>
    keys_ok (temporary_banned_peers pm') \<and> pm_target_peers pm' = pm_target_peers pm"
proof -
  let ?pm1 = "with_db (cleanup_dialing_peers (pm_db pm) (bt_scan b) (bt_clean b)) (maintain_peer_count pm 0)"
  let ?r = "update_scores decay (pm_db ?pm1) (bt_decay b)"
  have r: "roomy (snd ?r)" using scores_roomy [OF cleanup_roomy [OF assms(1)]] by simp
  obtain pm2 where pm2: "handle_score_actions D (bt_decay b) (with_db (snd ?r) ?pm1) (fst ?r) = Some pm2"
    "frame (with_db (snd ?r) ?pm1) pm2"
    using handle_scores_total [of "with_db (snd ?r) ?pm1" D "bt_decay b" "fst ?r"] assms(2) by auto
  then have "pm_db pm2 = snd ?r" "keys_ok (temporary_banned_peers pm2)" "pm_target_peers pm2 = pm_target_peers pm"
    by (simp_all add: frame_def)
  with r prune_keeps [of pm2 b] assms(3) pm2(1) show ?thesis
    by (auto simp: heartbeat_def Let_def split_beta)
qed

lemma beats_keep:
  "roomy (pm_db pm) \<Longrightarrow> keys_ok (temporary_banned_peers pm) \<Longrightarrow> list_all beat_ok beats \<Longrightarrow>
   \<exists>pm'. run_steps (\<lambda>pm b. heartbeat decay D b pm) pm beats = Some pm' \<and> roomy (pm_db pm') \<and>
    keys_ok (temporary_banned_peers pm') \<and> pm_target_peers pm' = pm_target_peers pm"
proof (induction beats arbitrary: pm)
  case (Cons b beats)
  obtain pm1 where "heartbeat decay D b pm = Some pm1" "roomy (pm_db pm1)"
    "keys_ok (temporary_banned_peers pm1)" "pm_target_peers pm1 = pm_target_peers pm"
    using beat_keeps [of pm b D] Cons.prems by auto
  with Cons.IH [of pm1] Cons.prems(3) show ?case by auto
qed simp

lemma poll_keeps:
  assumes "roomy (pm_db pm)" "keys_ok (temporary_banned_peers pm)" "list_all beat_ok beats"
  shows "\<exists>r pm'. pm_poll decay E D beats inb outb now pm = Some (r, pm') \<and> I (pm_db pm') \<and>
    keys_ok (temporary_banned_peers pm') \<and> pm_target_peers pm' = pm_target_peers pm"
proof -
  obtain pm1 where 1: "run_steps (\<lambda>pm b. heartbeat decay D b pm) pm beats = Some pm1" "roomy (pm_db pm1)"
    "keys_ok (temporary_banned_peers pm1)" "pm_target_peers pm1 = pm_target_peers pm"
    using beats_keep [OF assms] by blast
  have "I (dialing_peer (pm_db pm1) q enr now)" for q enr
    using 1(2) state [of "pm_db pm1" "NewConnectionState.Dialing enr"] by (simp add: roomy_def dialing_peer_def)
  with 1 show ?thesis
    by (auto simp: pm_poll_def poll_output_def Let_def roomy_def split: list.split)
qed

lemma discovered_keeps:
  "I (pm_db pm) \<Longrightarrow> length (peers (pm_db pm)) + length results < USIZE_MAX \<Longrightarrow>
   I (pm_db (discovered_loop E cod now results n pm)) \<and>
   pm_target_peers (discovered_loop E cod now results n pm) = pm_target_peers pm \<and>
   temporary_banned_peers (discovered_loop E cod now results n pm) = temporary_banned_peers pm"
proof (induction results arbitrary: n pm)
  case (Cons r results)
  obtain enr t' where r: "r = (enr, t')" by (cases r)
  have len: "length (peers (update_min_ttl db p u now)) \<le> Suc (length (peers db))" for db :: "('p, 'enr) PeerDB" and p u
  proof -
    have "length (AList.update p i m) \<le> Suc (length m)" for i and m :: "('p \<times> 'enr PeerInfo) list"
      by (induction m) auto
    then show ?thesis by (simp add: update_min_ttl_def Let_def)
  qed
  let ?pm = "\<lambda>u. with_db (update_min_ttl (pm_db pm) (enr_peer_id E enr) u now) pm"
  have "I (pm_db (?pm u))" for u
    using Cons.prems ttl_keeps [of "pm_db pm"] by (simp add: roomy_def)
  moreover have "length (peers (pm_db (?pm u))) + length results < USIZE_MAX" for u
    using len [of "pm_db pm" "enr_peer_id E enr" u] Cons.prems(2) by simp
  ultimately have "I (pm_db (discovered_loop E cod now results n (dial_peer E (?pm u) enr))) \<and>
     pm_target_peers (discovered_loop E cod now results n (dial_peer E (?pm u) enr)) = pm_target_peers pm \<and>
     temporary_banned_peers (discovered_loop E cod now results n (dial_peer E (?pm u) enr)) = temporary_banned_peers pm"
    for n u using Cons.IH [of "dial_peer E (?pm u) enr" n] by simp
  moreover have "I (pm_db pm)" "length (peers (pm_db pm)) + length results < USIZE_MAX" using Cons.prems by simp_all
  ultimately show ?case using Cons.IH [of "dial_peer E pm enr"] Cons.IH [of pm] r
    by (cases t') (simp_all add: Let_def)
qed simp

end

lemma limits_push [simp]:
  "peer_limit_reached (push_event ev pm) l = peer_limit_reached pm l"
  by (simp add: peer_limit_reached_def max_peers_def max_outbound_dialing_peers_def)

text \<open>
  The contract used by the runs: an invariant of the database that the admission of a connection
  below the limits keeps.
\<close>

definition kept :: "(('p, 'enr) PeerDB \<Rightarrow> bool) \<Rightarrow> ('p, 'enr, 'hd) PeerManager \<Rightarrow> ('p, 'enr, 'hd) PeerManager option \<Rightarrow> bool" where
  "kept I pm r \<longleftrightarrow> (\<exists>pm'. r = Some pm' \<and> I (pm_db pm') \<and> keys_ok (temporary_banned_peers pm') \<and>
     pm_target_peers pm' = pm_target_peers pm)"

lemma kept_Some [simp]:
  "kept I pm (Some pm') \<longleftrightarrow> I (pm_db pm') \<and> keys_ok (temporary_banned_peers pm') \<and> pm_target_peers pm' = pm_target_peers pm"
  by (simp add: kept_def)

lemma kept_push [simp]: "kept I (push_event ev pm) r \<longleftrightarrow> kept I pm r"
  by (simp add: kept_def)

lemma kept_frame:
  "\<exists>pm'. r = Some pm' \<and> frame (with_db db pm) pm' \<Longrightarrow> I db \<Longrightarrow> kept I pm r"
  by (auto simp: kept_def frame_def)

context db_safe
begin

lemma kept_report:
  "roomy (pm_db pm) \<Longrightarrow> keys_ok (temporary_banned_peers pm) \<Longrightarrow> kept I pm (pm_report_peer D pm p act src reason now)"
  by (rule kept_frame [OF report_total]) (simp_all add: report_keeps)

lemma kept_disconnect:
  "roomy (pm_db pm) \<Longrightarrow> keys_ok (temporary_banned_peers pm) \<Longrightarrow> kept I pm (inject_disconnect D pm p now)"
  by (rule kept_frame [OF inject_disconnect_total]) (simp_all add: disconnect_keeps)

lemma kept_accept:
  assumes "roomy (pm_db pm)" "keys_ok (temporary_banned_peers pm)"
    and "\<And>ns l. connecting ns \<Longrightarrow> \<not> peer_limit_reached pm l \<Longrightarrow> I (set_state (pm_db pm) p ns now)"
  shows "kept I pm (Some (accept_connection D pm p endpoint now))"
proof -
  have "I (set_state (pm_db pm) p (NewConnectionState.Disconnecting False) now)"
    using assms(1) state [of "pm_db pm" "NewConnectionState.Disconnecting False"] by (simp add: roomy_def)
  then show ?thesis using assms(2,3)
    by (simp add: accept_connection_def inject_connect_ingoing_def inject_connect_outgoing_def
        db_connect_ingoing_def db_connect_outgoing_def del: set_state_fields split: ConnectedPoint.split)
qed

lemma kept_established:
  assumes "roomy (pm_db pm)" "keys_ok (temporary_banned_peers pm)"
    and "\<And>ns l. connecting ns \<Longrightarrow> \<not> peer_limit_reached pm l \<Longrightarrow> I (set_state (pm_db pm) p ns now)"
  shows "kept I pm (on_connection_established D pm p endpoint other now)"
proof -
  define pm0 where "pm0 = (if other = 0 then push_event (PeerManagerEvent.MetaData p) pm else pm)"
  have same: "network_globals pm0 = network_globals pm" "pm_target_peers pm0 = pm_target_peers pm"
    "temporary_banned_peers pm0 = temporary_banned_peers pm" "peer_limit_reached pm0 l = peer_limit_reached pm l" for l
    by (simp_all add: pm0_def)
  have report: "kept I pm (pm_report_peer D pm0 p act src reason now)" for act src reason
    using kept_report [of pm0 D p act src reason now] assms same by (simp add: kept_def)
  have accept: "kept I pm (Some (accept_connection D pm0 p endpoint now))"
    using kept_accept [of pm0 p now D endpoint] assms same by (simp add: kept_def)
  have push: "kept I pm (map_option (push_event ev) r)" if "kept I pm r" for ev r
    using that by (auto simp: kept_def)
  show ?thesis
    unfolding on_connection_established_def pm0_def [symmetric] Let_def goodbye_peer_def
    by (cases "ban_status (pm_db pm0) p") (simp_all add: report accept push del: kept_Some)
qed

lemma kept_closed:
  assumes "roomy (pm_db pm)" "keys_ok (temporary_banned_peers pm)"
  shows "kept I pm (on_connection_closed D pm p n now)"
  using assms kept_disconnect [of pm D p now] kept_disconnect [of "push_event (PeerDisconnected p) pm" D p now]
  by (auto simp: on_connection_closed_def roomy_def)

lemma kept_swarm:
  assumes "roomy (pm_db pm)" "keys_ok (temporary_banned_peers pm)"
    and "\<And>p ns l. connecting ns \<Longrightarrow> \<not> peer_limit_reached pm l \<Longrightarrow> I (set_state (pm_db pm) p ns now)"
  shows "kept I pm (on_swarm_event D pm ev now)"
  using assms kept_established [OF assms(1,2)] kept_closed [OF assms(1,2)] kept_disconnect [OF assms(1,2)]
  by (auto simp: on_swarm_event_def on_dial_failure_def roomy_def split: FromSwarm.split option.split)

lemma info_keeps:
  "I db \<Longrightarrow> map_of (peers db) p = Some i \<Longrightarrow> same_conn i j \<Longrightarrow> pi_score j = pi_score i \<Longrightarrow>
   I (db\<lparr>peers := AList.update p j (peers db)\<rparr>)"
  by (intro quiet_update [of db p i j] unscored)

lemma exec_kept:
  fixes op :: "('p, 'enr, 'e) pm_op"
  assumes "fits pm op" "I (pm_db pm)" "keys_ok (temporary_banned_peers pm)"
    and "\<And>p ns l now. connecting ns \<Longrightarrow> \<not> peer_limit_reached pm l \<Longrightarrow> I (set_state (pm_db pm) p ns now)"
  shows "kept I pm (pm_exec decay E D pm op)"
proof -
  have r: "roomy (pm_db pm)" using assms by (simp add: roomy_def fits_def)
  note report = kept_report [OF r assms(3)]
  show ?thesis
  proof (cases op)
    case (PeersDiscovered results now)
    then show ?thesis using assms discovered_keeps [of pm results E _ now 0]
      by (simp add: pm_exec_def peers_discovered_def fits_def)
  next
    case (Identify p addrs protocol agent)
    then show ?thesis using assms info_keeps [of "pm_db pm" p]
      by (auto simp: pm_exec_def identify_def peer_info_def Let_def same_conn_def set_client_def
          set_listening_addresses_def split: option.split)
  next
    case (MetaDataResponse p md)
    then show ?thesis using assms info_keeps [of "pm_db pm" p]
      by (auto simp: pm_exec_def meta_data_response_def peer_info_def same_conn_def set_meta_data_def split: option.split)
  next
    case (UpdateGossipsubScores ties peer_score nows)
    let ?r = "update_gossipsub_scores ties peer_score (pm_db pm) (pm_target_peers pm) nows"
    have "I (snd ?r)" using gossip_keeps [OF r] assms(1) UpdateGossipsubScores by (simp add: fits_def)
    then have "kept I pm (handle_score_actions D nows (with_db (snd ?r) pm) (fst ?r))"
      using assms(3) by (intro kept_frame [OF handle_scores_total]) simp_all
    then show ?thesis using UpdateGossipsubScores by (simp add: pm_exec_def pm_update_gossipsub_scores_def split_beta)
  next
    case (Poll beats inb outb now)
    then show ?thesis using poll_keeps [OF r assms(3), of beats E D inb outb now] assms(1)
      by (auto simp: pm_exec_def fits_def kept_def)
  next
    case (OnSwarmEvent ev now)
    then show ?thesis using kept_swarm [OF r assms(3) assms(4)] by (simp add: pm_exec_def)
  qed (use assms report in \<open>auto simp: pm_exec_def goodbye_peer_def handle_rpc_error_def peer_statusd_def
    add_sync_subnet_def ping_request_def pong_response_def Let_def split: option.split ConnectionDirection.split\<close>)
qed

end

context db_safe
begin

theorem runs_keep:
  fixes e :: "'e itself" and pm :: "('p, 'enr, 'hd) PeerManager"
  assumes "pm_reach decay E D cfg trusted disable e pm" and "\<And>nows. I (peerdb_new trusted disable nows)"
    and admits: "\<And>(pm :: ('p, 'enr, 'hd) PeerManager) p ns l now. I (pm_db pm) \<Longrightarrow> length (peers (pm_db pm)) < USIZE_MAX \<Longrightarrow>
      pm_target_peers pm = cfg_target_peer_count cfg \<Longrightarrow> connecting ns \<Longrightarrow> \<not> peer_limit_reached pm l \<Longrightarrow>
      I (set_state (pm_db pm) p ns now)"
  shows "I (pm_db pm) \<and> keys_ok (temporary_banned_peers pm) \<and> pm_target_peers pm = cfg_target_peer_count cfg \<and>
    (\<forall>op :: ('p, 'enr, 'e) pm_op. fits pm op \<longrightarrow> pm_exec decay E D pm op \<noteq> None)"
proof -
  have kept: "kept I pm (pm_exec decay E D pm op)"
    if "I (pm_db pm)" "keys_ok (temporary_banned_peers pm)" "pm_target_peers pm = cfg_target_peer_count cfg" "fits pm op"
    for pm :: "('p, 'enr, 'hd) PeerManager" and op :: "('p, 'enr, 'e) pm_op"
    using that admits [of pm] by (intro exec_kept) (auto simp: fits_def)
  from assms(1) have "I (pm_db pm) \<and> keys_ok (temporary_banned_peers pm) \<and> pm_target_peers pm = cfg_target_peer_count cfg"
  proof (induction rule: pm_reach.induct)
    case (pm_start enr md nows)
    then show ?case using assms(2) by (simp add: pm_new_def globals_new_def keys_ok_def cache_new_def)
  next
    case (pm_step pm op pm')
    then show ?case using kept [of pm op] by simp
  qed
  with kept [of pm] show ?thesis by (auto simp: kept_def)
qed

end

end
