(* ===== verification/Peer_Manager_Props.thy ===== *)
theory Peer_Manager_Props
  imports Peer_Manager_Runs
begin

text \<open>
  The properties of the peer manager: the limits on connections and the values they take, the
  number of connections on every run, pruning, the counters of the database on every run, and
  temporary bans.
\<close>

section \<open>The limits\<close>

lemma rnd32_mono: "x \<le> y \<Longrightarrow> rnd32 x \<le> rnd32 y"
  unfolding rnd32_def by (rule rnd_mono) simp_all

lemma rnd32_idem [simp]: "rnd32 (rnd32 x) = rnd32 x"
  unfolding rnd32_def by (rule rnd_idem) simp

lemma rnd32_nonneg [simp]: "0 \<le> x \<Longrightarrow> 0 \<le> rnd32 x"
  unfolding rnd32_def by (rule rnd_pos_nonneg)

lemma rnd32_nat: "n < 2 ^ 24 \<Longrightarrow> rnd32 (real n) = real n"
  unfolding rnd32_def using rnd_exact [of "- 149" 0 "int n" 24] by (simp add: nat_less_iff)

lemma scaled_ceil_mono: "f \<le> g \<Longrightarrow> scaled_ceil n f \<le> scaled_ceil n g"
  unfolding scaled_ceil_def
  by (intro min.mono nat_mono ceiling_mono rnd32_mono mult_left_mono rnd32_nonneg) simp_all

text \<open>Rounding of a number that is close enough to a multiple of the last place.\<close>

lemma rne_near:
  assumes "\<bar>y - of_int n\<bar> < 1 / 2" shows "rne y = n"
proof -
  from assms have "\<lfloor>y\<rfloor> = n \<and> y - of_int n < 1 / 2 \<or> \<lfloor>y\<rfloor> = n - 1 \<and> 1 / 2 < y - of_int (n - 1)" by linarith
  then show ?thesis by (auto simp: rne_def Let_def)
qed

lemma rnd_eval:
  assumes "2 powi (e + p - 1) \<le> x" "x < 2 powi (e + p)" "emin \<le> e" "\<bar>x / 2 powi e - of_int n\<bar> < 1 / 2"
  shows "rnd p emin x = of_int n * 2 powi e"
proof -
  have pos: "0 < x" using assms(1) zero_less_power_int [of "2 :: real" "e + p - 1"] by linarith
  have "of_int (e + p - 1) \<le> log 2 x" "log 2 x < of_int (e + p)"
    using assms(1,2) [unfolded two_powi] pos by (simp_all add: le_log_iff log_less_iff)
  then have "\<lfloor>log 2 x\<rfloor> = e + p - 1" by linarith
  then have "place p emin x = e" using assms(3) pos by (simp add: place_def)
  moreover have "rne (x / 2 powi e) = n"
    using assms(4) by (rule rne_near)
  ultimately show ?thesis using pos by (simp add: rnd_def)
qed

lemma rnd32_eval:
  assumes "2 ^ 23 \<le> x * 2 ^ k" "x * 2 ^ k < 2 ^ 24" "k \<le> 149" "\<bar>x * 2 ^ k - of_int n\<bar> < 1 / 2"
  shows "rnd32 x = of_int n / 2 ^ k"
proof -
  have p: "(2 :: real) powi (m - int k) = 2 powi m / 2 ^ k" for m by (simp add: power_int_diff)
  have "2 powi (- int k + 24 - 1) \<le> x" "x < 2 powi (- int k + 24)"
    using assms(1,2) p [of 23] p [of 24] by (simp_all add: pos_divide_le_eq pos_less_divide_eq)
  moreover have "x / 2 powi (- int k) = x * 2 ^ k" by (simp add: power_int_minus divide_inverse)
  ultimately have "rnd 24 (- 149) x = of_int n * 2 powi (- int k)"
    using assms(3,4) by (intro rnd_eval) simp_all
  then show ?thesis by (simp add: rnd32_def power_int_minus divide_inverse)
qed

lemma f32_factors:
  "PEER_EXCESS_FACTOR = 13421773 / 2 ^ 27" "PRIORITY_PEER_EXCESS = 13421773 / 2 ^ 26"
  "MIN_OUTBOUND_ONLY_FACTOR = 13421773 / 2 ^ 26" "TARGET_OUTBOUND_ONLY_FACTOR = 10066330 / 2 ^ 25"
  using rnd32_eval [of "1 / 10" 27 13421773] rnd32_eval [of "2 / 10" 26 13421773] rnd32_eval [of "3 / 10" 25 10066330]
  by (simp_all add: PEER_EXCESS_FACTOR_def PRIORITY_PEER_EXCESS_def MIN_OUTBOUND_ONLY_FACTOR_def
      TARGET_OUTBOUND_ONLY_FACTOR_def)

lemma f32_half: "rnd32 (PRIORITY_PEER_EXCESS / 2) = 13421773 / 2 ^ 27"
  using rnd32_eval [of "13421773 / 2 ^ 27" 27 13421773] by (simp add: f32_factors)

lemma f32_sums:
  "rnd32 (1 + PEER_EXCESS_FACTOR) = 9227469 / 2 ^ 23"
  "rnd32 (9227469 / 2 ^ 23 + PRIORITY_PEER_EXCESS) = 10905191 / 2 ^ 23"
  "rnd32 (9227469 / 2 ^ 23 + rnd32 (PRIORITY_PEER_EXCESS / 2)) = 10066330 / 2 ^ 23"
  unfolding f32_half
  using rnd32_eval [of "1 + 13421773 / 2 ^ 27" 23 9227469] rnd32_eval [of "9227469 / 2 ^ 23 + 13421773 / 2 ^ 26" 23 10905191]
    rnd32_eval [of "9227469 / 2 ^ 23 + 13421773 / 2 ^ 27" 23 10066330]
  by (simp_all add: f32_factors)

lemma limit_eqs:
  "max_peers pm = scaled_ceil (pm_target_peers pm) (9227469 / 2 ^ 23)"
  "max_outbound_dialing_peers pm = scaled_ceil (pm_target_peers pm) (10066330 / 2 ^ 23)"
  "max_priority_peers pm = scaled_ceil (pm_target_peers pm) (10905191 / 2 ^ 23)"
  "min_outbound_only_peers pm = scaled_ceil (pm_target_peers pm) (13421773 / 2 ^ 26)"
  "target_outbound_peers pm = scaled_ceil (pm_target_peers pm) (10066330 / 2 ^ 25)"
  by (simp_all only: max_peers_def max_outbound_dialing_peers_def max_priority_peers_def
      min_outbound_only_peers_def target_outbound_peers_def f32_sums, simp_all only: f32_factors)

lemma limits_ordered:
  "max_peers pm \<le> max_outbound_dialing_peers pm" "max_outbound_dialing_peers pm \<le> max_priority_peers pm"
  "min_outbound_only_peers pm \<le> target_outbound_peers pm" "target_outbound_peers pm \<le> max_peers pm"
  unfolding limit_eqs by (intro scaled_ceil_mono; simp)+

lemma scaled_ceil_ge: "n < 2 ^ 24 \<Longrightarrow> 1 \<le> f \<Longrightarrow> n \<le> scaled_ceil n f"
proof -
  assume *: "n < 2 ^ 24" "1 \<le> f"
  then have "rnd32 (real n) \<le> rnd32 (rnd32 (real n) * f)"
    using mult_left_mono [OF *(2), of "real n"] by (intro rnd32_mono) (simp add: rnd32_nat)
  then have "real n \<le> rnd32 (rnd32 (real n) * f)" using * by (simp add: rnd32_nat)
  then have "int n \<le> \<lceil>rnd32 (rnd32 (real n) * f)\<rceil>" by linarith
  with * show ?thesis by (simp add: scaled_ceil_def USIZE_MAX_def)
qed

lemma scaled_ceil_eval:
  assumes "n < 2 ^ 24" "2 ^ 23 \<le> real n * f * 2 ^ k" "real n * f * 2 ^ k < 2 ^ 24" "k \<le> 149"
    "\<bar>real n * f * 2 ^ k - of_int a\<bar> < 1 / 2" "of_int a \<le> real m * 2 ^ k" "(real m - 1) * 2 ^ k < of_int a" "m \<le> USIZE_MAX"
  shows "scaled_ceil n f = m"
proof -
  have "rnd32 (rnd32 (real n) * f) = of_int a / 2 ^ k"
    using rnd32_eval [OF assms(2-5)] assms(1) by (simp add: rnd32_nat)
  moreover have "\<lceil>of_int a / 2 ^ k :: real\<rceil> = int m"
    using assms(6,7) by (intro ceiling_unique) (simp_all add: pos_less_divide_eq pos_divide_le_eq)
  ultimately show ?thesis using assms(8) by (simp add: scaled_ceil_def)
qed

text \<open>
  C40. The limits on connections are in the order their comments assume, whatever rounding the
  single-precision products suffer: no more outbound peers are wanted than peers are allowed, the
  limit for incoming connections is at most the one for outgoing ones, that at most the one for
  priority peers, and for targets below \<open>2 ^ 24\<close> none is below the target. For the default target
  of 50 they are 10 and 16 outbound peers, and 55, 61 and 65 connections: the rounding makes two of
  them one more than 30 and 120 per cent of the target. For a target of 10 the limit for priority
  peers is 14 instead of 13.
\<close>

theorem connection_limits:
  fixes pm :: "('p, 'enr, 'hd) PeerManager"
  shows "min_outbound_only_peers pm \<le> target_outbound_peers pm \<and> target_outbound_peers pm \<le> max_peers pm \<and>
    max_peers pm \<le> max_outbound_dialing_peers pm \<and> max_outbound_dialing_peers pm \<le> max_priority_peers pm \<and>
    (pm_target_peers pm < 2 ^ 24 \<longrightarrow> pm_target_peers pm \<le> max_peers pm) \<and>
    (pm_target_peers pm = DEFAULT_TARGET_PEERS \<longrightarrow>
       min_outbound_only_peers pm = 10 \<and> target_outbound_peers pm = 16 \<and> max_peers pm = 55 \<and>
       max_outbound_dialing_peers pm = 61 \<and> max_priority_peers pm = 65) \<and>
    (pm_target_peers pm = 10 \<longrightarrow> max_priority_peers pm = 14)"
proof -
  have "scaled_ceil 50 (9227469 / 2 ^ 23) = 55" "scaled_ceil 50 (10066330 / 2 ^ 23) = 61"
    "scaled_ceil 50 (10905191 / 2 ^ 23) = 65" "scaled_ceil 50 (13421773 / 2 ^ 26) = 10"
    "scaled_ceil 50 (10066330 / 2 ^ 25) = 16" "scaled_ceil 10 (10905191 / 2 ^ 23) = 14"
    using scaled_ceil_eval [of 50 "9227469 / 2 ^ 23" 18 14417920 55] scaled_ceil_eval [of 50 "10066330 / 2 ^ 23" 18 15728641 61]
      scaled_ceil_eval [of 50 "10905191 / 2 ^ 23" 17 8519680 65] scaled_ceil_eval [of 50 "13421773 / 2 ^ 26" 20 10485760 10]
      scaled_ceil_eval [of 50 "10066330 / 2 ^ 25" 20 15728641 16] scaled_ceil_eval [of 10 "10905191 / 2 ^ 23" 20 13631489 14]
    by (simp_all add: USIZE_MAX_def)
  with limits_ordered [of pm] scaled_ceil_ge [of "pm_target_peers pm" "9227469 / 2 ^ 23"] show ?thesis
    by (simp add: limit_eqs DEFAULT_TARGET_PEERS_def)
qed

text \<open>A manager over peers that are numbers, for the concrete instances.\<close>

definition sample_enr_ops :: "(nat, nat) EnrOps" where
  "sample_enr_ops = \<lparr>enr_ip4 = (\<lambda>e. Some 1), enr_ip6 = (\<lambda>e. None), enr_udp4 = (\<lambda>e. None), enr_udp6 = (\<lambda>e. None),
     enr_tcp4 = (\<lambda>e. Some 9000), enr_tcp6 = (\<lambda>e. None), enr_get_decodable = (\<lambda>e k. None), enr_peer_id = (\<lambda>e. e),
     peer_id_bytes = (\<lambda>p. [])\<rparr>"

definition sample_delays :: "(nat, unit) DelayOps" where
  "sample_delays = \<lparr>hd_new = (\<lambda>d. ()), hd_insert = (\<lambda>h p t'. ()), hd_remove = (\<lambda>h p. ()), hd_expire = (\<lambda>h p. ())\<rparr>"

definition sample_globals :: "(nat, nat) NetworkGlobals" where
  "sample_globals = globals_new sample_enr_ops 0 \<lparr>seq_number = 0, supported_mempools = []\<rparr> [] False (\<lambda>_. 0)"

definition sample_pm :: "(nat, nat, unit) PeerManager" where
  "sample_pm = pm_new sample_delays pm_config_default sample_globals"

lemmas sample_defs = sample_enr_ops_def sample_delays_def sample_globals_def globals_new_def sample_pm_def pm_new_def
  pm_config_default_def

theorem connection_limits_witness:
  "max_peers sample_pm = 55 \<and> max_outbound_dialing_peers sample_pm = 61 \<and> pm_target_peers sample_pm \<le> max_peers sample_pm"
  using connection_limits [of sample_pm] by (simp add: sample_pm_def pm_new_def pm_config_default_def DEFAULT_TARGET_PEERS_def)

section \<open>Connections on every run\<close>

definition cw :: "'enr PeerInfo \<Rightarrow> nat" where "cw i = of_bool (is_connected i)"

abbreviation n_connected :: "('p, 'enr) PeerDB \<Rightarrow> nat" where
  "n_connected db \<equiv> alist_sum cw (peers db)"

lemma n_connected_length: "n_connected db = length (connected_peer_ids db)"
  by (simp add: cw_def [abs_def] alist_sum_of_bool connected_peer_ids_def ids_where_def)

lemma cw_new [simp]: "cw (trusted_peer_info now) = 0" "cw (peer_info_default now) = 0"
  by (simp_all add: cw_def is_connected_def peer_info_default_def trusted_peer_info_def)

lemma conn_weight_cw: "conn_weight cw"
  unfolding conn_weight_def by (simp add: cw_new(2)) (auto simp: cw_def is_connected_def)

lemma conn_change_cw:
  "\<not> connecting ns \<Longrightarrow> cw (new_info (conn_change ns now i d bc)) \<le> cw i"
  by (cases ns; cases "connection_status i") (simp_all add: conn_change_simps cw_def is_connected_def)

lemma set_state_connected:
  "n_connected (set_state db p ns now) \<le> n_connected db + of_bool (connecting ns)"
proof -
  have s: "n_connected (set_state db p ns now) =
      n_connected db - cw (entry_info db p ns now) + cw (new_info (entry_change db p ns now))"
    "cw (entry_info db p ns now) \<le> n_connected db"
    by (intro set_state_sum disjI2 allI conn_weight_cw cw_new)+
  have "cw (new_info (entry_change db p ns now)) \<le> cw (entry_info db p ns now) + of_bool (connecting ns)"
  proof (cases "connecting ns")
    case True
    then show ?thesis by (simp add: cw_def)
  next
    case False
    then show ?thesis using conn_change_cw [OF False] by (simp add: entry_change_def)
  qed
  with s show ?thesis by linarith
qed

definition at_most_connected :: "nat \<Rightarrow> ('p, 'enr) PeerDB \<Rightarrow> bool" where
  "at_most_connected L db \<longleftrightarrow> distinct (map fst (peers db)) \<and> n_connected db \<le> L"

interpretation limited: db_safe "at_most_connected L" decay for L decay
proof unfold_locales
  fix db :: "('a, 'b) PeerDB" and ns :: "'b NewConnectionState" and p now
  assume "at_most_connected L db" "\<not> connecting ns"
  then show "at_most_connected L (set_state db p ns now)"
    using set_state_connected [of db p ns now] by (auto simp: at_most_connected_def)
next
  fix db :: "('a, 'b) PeerDB" and g
  assume *: "at_most_connected L db" "\<forall>(p, i) \<in> set (peers db). quiet decay i (g p i)"
  then have s: "\<forall>(p, i) \<in> set (peers db). same_conn i (g p i)" using quiet_same_conn by fast
  from *(1) show "at_most_connected L (db\<lparr>peers := map (\<lambda>(p, i). (p, g p i)) (peers db)\<rparr>)"
    by (simp add: at_most_connected_def quiet_sum [OF conn_weight_cw s] del: map_map)
next
  fix db :: "('a, 'b) PeerDB" and p now
  assume "at_most_connected L db" "map_of (peers db) p = None"
  then show "at_most_connected L (db\<lparr>peers := AList.update p (peer_info_default now) (peers db)\<rparr>)"
    using alist_sum_update [of cw p "peer_info_default now" "peers db"]
    by (auto simp: at_most_connected_def)
next
  fix db :: "('a, 'b) PeerDB"
  assume *: "at_most_connected L db"
  then have "n_connected (db\<lparr>peers := AList.delete p (peers db)\<rparr>) \<le> L" for p
    using alist_sum_delete [of "peers db" cw p] by (simp add: at_most_connected_def)
  with * show "at_most_connected L (snd (drop_banned db))" "at_most_connected L (drop_disconnected db)"
    by (auto simp: at_most_connected_def drop_banned_def drop_disconnected_def Let_def split: option.split)
qed (simp add: at_most_connected_def)

lemma connected_new: "at_most_connected L (peerdb_new trusted disable nows :: ('p, 'enr) PeerDB)"
  using new_sum [of "cw :: 'enr PeerInfo \<Rightarrow> nat" nows trusted "[]"]
  by (simp add: at_most_connected_def peerdb_new_def new_distinct)

lemma filter_le_length: "(\<And>x. P x \<Longrightarrow> Q x) \<Longrightarrow> length (filter P xs) \<le> length (filter Q xs)"
  by (induction xs) (auto intro: le_SucI)

lemma connected_le_dialing: "g_connected_peers g \<le> g_connected_or_dialing_peers g"
  unfolding g_connected_peers_def g_connected_or_dialing_peers_def connected_peer_ids_def connected_or_dialing_peers_def
    ids_where_def length_map by (rule filter_le_length) auto

lemma limit_admits:
  assumes "at_most_connected L (pm_db pm)" "\<not> peer_limit_reached pm l"
    and "L = scaled_ceil (pm_target_peers pm) (10066330 / 2 ^ 23)"
  shows "at_most_connected L (set_state (pm_db pm) p ns now)"
proof -
  have "g_connected_peers (network_globals pm) < max_outbound_dialing_peers pm"
    using assms(2) connected_le_dialing [of "network_globals pm"] limits_ordered(1) [of pm]
    by (auto simp: peer_limit_reached_def split: if_splits)
  then have "n_connected (pm_db pm) < L" using assms(3) by (simp add: g_connected_peers_def n_connected_length limit_eqs)
  with assms(1) set_state_connected [of "pm_db pm" p ns now] show ?thesis
    by (auto simp: at_most_connected_def of_bool_def split: if_splits)
qed

text \<open>
  C37. The manager keeps its limit and never fails. In every state it can reach, whatever the
  swarm, the peers and discovery do, at most \<open>max_outbound_dialing_peers\<close> peers are connected, and
  every further operation with room for its new entries returns: no \<open>expect\<close> in the cache of
  temporary bans fails.
\<close>

theorem connections_bounded:
  fixes pm :: "('p, 'enr, 'hd) PeerManager" and e :: "'e itself"
  assumes "pm_reach decay E D cfg trusted disable e pm"
  shows "length (connected_peer_ids (pm_db pm)) \<le> max_outbound_dialing_peers pm \<and>
    (\<forall>op :: ('p, 'enr, 'e) pm_op. fits pm op \<longrightarrow> pm_exec decay E D pm op \<noteq> None)"
proof -
  let ?L = "scaled_ceil (cfg_target_peer_count cfg) (10066330 / 2 ^ 23)"
  have "at_most_connected ?L (pm_db pm) \<and> keys_ok (temporary_banned_peers pm) \<and>
      pm_target_peers pm = cfg_target_peer_count cfg \<and>
      (\<forall>op :: ('p, 'enr, 'e) pm_op. fits pm op \<longrightarrow> pm_exec decay E D pm op \<noteq> None)"
    by (rule limited.runs_keep [OF assms connected_new]) (auto intro: limit_admits)
  then show ?thesis by (simp add: at_most_connected_def n_connected_length limit_eqs)
qed

lemma sample_reach:
  "pm_reach decay sample_enr_ops sample_delays pm_config_default [] False TYPE(unit) sample_pm"
  unfolding sample_pm_def sample_globals_def by (rule pm_start)

definition sample_dial :: "(nat, nat, unit) pm_op" where
  "sample_dial = OnSwarmEvent (ConnectionEstablished 7 (Dialer [Ip4 1, Tcp 9000]) 0) 5"

lemma sample_fits: "fits sample_pm sample_dial"
  by (simp add: fits_def sample_dial_def sample_defs peerdb_new_def USIZE_MAX_def)

theorem connections_bounded_witness:
  "\<exists>pm. pm_exec (\<lambda>_. Fin 1) sample_enr_ops sample_delays sample_pm sample_dial = Some pm \<and>
     length (connected_peer_ids (pm_db pm)) \<le> max_outbound_dialing_peers pm"
proof -
  from connections_bounded [OF sample_reach] sample_fits obtain pm where
    pm: "pm_exec (\<lambda>_. Fin 1) sample_enr_ops sample_delays sample_pm sample_dial = Some pm" by blast
  from pm_step [OF sample_reach sample_fits pm] connections_bounded pm show ?thesis by blast
qed

text \<open>
  The counters of the database are right on every run of the manager. With peer scoring
  enabled and at most 500 trusted peers, the counter of disconnected peers equals their number and
  the counter of banned peers is at least their number, after any sequence of operations of the
  manager. Without these conditions both remain bounds.
\<close>

theorem manager_counters:
  fixes pm :: "('p, 'enr, 'hd) PeerManager" and e :: "'e itself"
  assumes "pm_reach decay E D cfg trusted disable e pm"
  shows "disconnected_peers (pm_db pm) \<le> length (disconnected_peer_ids (pm_db pm)) \<and>
    length (banned_peers (pm_db pm)) \<le> n_banned_peers (banned_peers_count (pm_db pm)) \<and>
    (\<not> disable \<and> length trusted \<le> MAX_DC_PEERS \<longrightarrow>
      disconnected_peers (pm_db pm) = length (disconnected_peer_ids (pm_db pm)))"
proof -
  have "counts_ok (pm_db pm)"
    by (rule conjunct1, rule sound.runs_keep [OF assms counts_ok_new]) (rule sound.any_state)
  moreover have "counts_exact (pm_db pm)" if "\<not> disable" "length trusted \<le> MAX_DC_PEERS"
    using that by (intro conjunct1 [OF exact.runs_keep [OF assms]]) (simp_all add: counts_exact_new exact.any_state)
  ultimately show ?thesis
    by (simp add: counts_ok_def counts_exact_def n_disconnected_length n_banned_length)
qed

theorem manager_counters_witness:
  "disconnected_peers (pm_db sample_pm) = length (disconnected_peer_ids (pm_db sample_pm))"
  using manager_counters [OF sample_reach] by (simp add: MAX_DC_PEERS_def)

section \<open>Pruning\<close>

text \<open>What a pass chooses from its candidates, with \<open>k\<close> peers and \<open>n\<close> outbound ones chosen before.\<close>

definition chosen ::
  "nat \<Rightarrow> nat \<Rightarrow> nat \<Rightarrow> ('p \<times> 'enr PeerInfo) list \<Rightarrow> nat \<Rightarrow> nat \<Rightarrow> ('p \<times> 'enr PeerInfo) list \<Rightarrow> nat \<Rightarrow> bool" where
  "chosen e t' c cs k n xs n' \<longleftrightarrow> set xs \<subseteq> set cs \<and> distinct (map fst xs) \<and> k + length xs \<le> max e k \<and>
     n' = n + length (filter (is_outbound_only \<circ> snd) xs) \<and> (n' = n \<or> t' + n' \<le> c) \<and>
     (k + length xs < e \<longrightarrow> (\<forall>x \<in> set cs. x \<in> set xs \<or> is_outbound_only (snd x) \<and> c \<le> t' + n')) \<and>
     (\<forall>R. sorted_wrt R cs \<longrightarrow> (\<forall>x \<in> set xs. \<forall>y \<in> set cs - set xs. \<not> is_outbound_only (snd y) \<longrightarrow> R x y))"

lemma chosen_skip:
  assumes "chosen e t' c cs k n xs n'" "is_outbound_only (snd x)" "c \<le> t' + n"
  shows "chosen e t' c (x # cs) k n xs n'"
  using assms unfolding chosen_def by auto

lemma chosen_take:
  assumes "chosen e t' c cs (Suc k) (n + of_bool (is_outbound_only (snd x))) xs n'" "k < e"
    "is_outbound_only (snd x) \<longrightarrow> t' + n < c" "fst x \<notin> fst ` set cs"
  shows "chosen e t' c (x # cs) k n (x # xs) n'"
  using assms unfolding chosen_def by (auto simp: max_def split: if_splits)

lemma prune_pass_spec:
  assumes "prune_pass e t' c cs ps n = (r, n')" "distinct (map fst cs)" "fst ` set cs \<inter> set ps = {}"
    "t' + n + length cs \<le> USIZE_MAX"
  shows "\<exists>xs. r = ps @ map fst xs \<and> chosen e t' c cs (length ps) n xs n'"
  using assms
proof (induction cs arbitrary: ps n)
  case Nil
  then show ?case by (simp add: chosen_def)
next
  case (Cons x cs)
  obtain p i where x: "x = (p, i)" by (cases x)
  have p: "p \<notin> set ps" "p \<notin> fst ` set cs" using Cons.prems(2,3) x by auto
  have small: "usize_add t' n = t' + n" "usize_add n 1 = n + 1" using Cons.prems(4) by (simp_all add: rust_simps)
  consider (stop) "e \<le> length ps" | (skip) "length ps < e" "is_outbound_only i" "c \<le> t' + n"
    | (take) "length ps < e" "is_outbound_only i \<longrightarrow> t' + n < c" by linarith
  then show ?case
  proof cases
    case stop
    with Cons.prems(1) x show ?thesis by (intro exI [of _ "[]"]) (auto simp: chosen_def)
  next
    case skip
    then have "prune_pass e t' c cs ps n = (r, n')" using Cons.prems(1) x p(1) small by simp
    with Cons.IH [of ps n] Cons.prems(2-4) obtain xs where
      "r = ps @ map fst xs" "chosen e t' c cs (length ps) n xs n'" by auto
    with chosen_skip [of e t' c cs "length ps" n xs n' x] skip x show ?thesis by auto
  next
    case take
    let ?n = "n + of_bool (is_outbound_only i)"
    have "prune_pass e t' c cs (ps @ [p]) ?n = (r, n')" using take Cons.prems(1) x p(1) small by auto
    moreover have "fst ` set cs \<inter> set (ps @ [p]) = {}" using Cons.prems(3) p x by auto
    moreover have "t' + ?n + length cs \<le> USIZE_MAX" using Cons.prems(4) by auto
    ultimately obtain xs where xs: "r = (ps @ [p]) @ map fst xs" "chosen e t' c cs (Suc (length ps)) ?n xs n'"
      using Cons.IH [of "ps @ [p]" ?n] Cons.prems(2) by auto
    then have "chosen e t' c (x # cs) (length ps) n (x # xs) n'"
      using take x p(2) by (intro chosen_take) simp_all
    with xs(1) x show ?thesis by (intro exI [of _ "x # xs"]) simp
  qed
qed

lemma fle_total: "x \<noteq> NaN \<Longrightarrow> y \<noteq> NaN \<Longrightarrow> flt x y \<or> fle y x"
  by (cases x; cases y) auto

lemma fle_trans: "fle x y \<Longrightarrow> fle y z \<Longrightarrow> fle x z"
  by (cases x; cases y; cases z) auto

lemma flt_fle: "flt x y \<Longrightarrow> fle x y"
  by (cases x; cases y) auto

definition by_score :: "'p \<times> 'enr PeerInfo \<Rightarrow> 'p \<times> 'enr PeerInfo \<Rightarrow> bool" where
  "by_score a b = fle (score_value (pi_score (snd a))) (score_value (pi_score (snd b)))"

definition has_score :: "'p \<times> 'enr PeerInfo \<Rightarrow> bool" where
  "has_score a \<longleftrightarrow> score_value (pi_score (snd a)) \<noteq> NaN"

lemma cmp_info_score_Greater:
  "has_score a \<Longrightarrow> has_score b \<Longrightarrow> cmp_info_score a b = Greater \<longleftrightarrow> \<not> by_score a b"
  unfolding cmp_info_score_def score_cmp_def score_partial_cmp_def has_score_def by_score_def
  by (cases "score_value (pi_score (snd a))"; cases "score_value (pi_score (snd b))") auto

lemma insert_by_sorted:
  "has_score x \<Longrightarrow> list_all has_score ys \<Longrightarrow> sorted_wrt by_score ys \<Longrightarrow>
   sorted_wrt by_score (insert_by cmp_info_score x ys) \<and> list_all has_score (insert_by cmp_info_score x ys)"
proof (induction ys)
  case (Cons y ys)
  have set: "set (insert_by cmp_info_score x ys) = insert x (set ys)"
    using mset_insert_by [of cmp_info_score x ys] by (metis set_mset_add_mset_insert set_mset_mset)
  have "by_score y x" if "\<not> by_score x y"
    using that fle_total flt_fle Cons.prems(1,2) by (auto simp: by_score_def has_score_def)
  moreover have "\<forall>z \<in> set ys. by_score x z" if "by_score x y"
    using that Cons.prems(3) fle_trans by (auto simp: by_score_def)
  ultimately show ?case using Cons set by (auto simp: cmp_info_score_Greater)
qed simp

lemma sort_by_sorted: "list_all has_score xs \<Longrightarrow> sorted_wrt by_score (sort_by cmp_info_score xs)"
proof -
  assume "list_all has_score xs"
  then have "sorted_wrt by_score (foldr (insert_by cmp_info_score) xs []) \<and>
      list_all has_score (foldr (insert_by cmp_info_score) xs [])"
    by (induction xs) (simp_all add: insert_by_sorted)
  then show ?thesis by (simp add: sort_by_def)
qed

definition outbound_in :: "'p list \<Rightarrow> ('p, 'enr) PeerDB \<Rightarrow> nat" where
  "outbound_in ps db = length (filter (\<lambda>(p, i). p \<in> set ps \<and> is_outbound_only i) (peers db))"

text \<open>A peer that pruning may disconnect.\<close>

definition prunable :: "'enr PeerInfo \<Rightarrow> bool" where
  "prunable i \<longleftrightarrow> is_connected i \<and> \<not> is_trusted i \<and> negative_score i"

lemma outbound_in_chosen:
  assumes "distinct (map fst (peers db))" "set xs \<subseteq> set (peers db)" "distinct (map fst xs)"
  shows "outbound_in (map fst xs) db = length (filter (is_outbound_only \<circ> snd) xs)"
proof -
  have "set (filter (\<lambda>(p, i). p \<in> set (map fst xs) \<and> is_outbound_only i) (peers db)) =
      set (filter (is_outbound_only \<circ> snd) xs)"
    using assms(1,2) by (auto intro: image_eqI [where f = fst]) (metis eq_key_imp_eq_value subsetD, force)
  moreover have "distinct (peers db)" "distinct xs" using assms(1,3) by (simp_all add: distinct_map)
  ultimately show ?thesis unfolding outbound_in_def
    by (metis distinct_card distinct_filter)
qed

lemma prunable_candidates:
  fixes db :: "('p, 'enr) PeerDB"
  assumes "distinct (map fst (peers db))" "is_perm shuffle"
  defines "cs \<equiv> prune_candidates shuffle negative_score db"
  shows "set cs = {(p, i) \<in> set (peers db). prunable i}" "distinct (map fst cs)" "length cs \<le> length (peers db)"
    "\<forall>x \<in> set (connected_peers db). has_score x \<Longrightarrow> sorted_wrt by_score cs"
proof -
  let ?w = "worst_connected_peers shuffle db"
  show "set cs = {(p, i) \<in> set (peers db). prunable i}"
    unfolding cs_def prune_candidates_set [OF assms(2)] by (auto simp: prunable_def)
  have m: "mset ?w = mset (connected_peers db)"
    using assms(2) by (simp add: worst_connected_peers_def connected_peers_def is_perm_def)
  have "distinct (map fst (connected_peers db))" using assms(1) by (simp add: connected_peers_def distinct_map_filter)
  then have "distinct (map fst ?w)" using m by (metis mset_eq_imp_distinct_iff mset_map)
  then show "distinct (map fst cs)" by (simp add: cs_def prune_candidates_def distinct_map_filter)
  have "length cs \<le> length ?w" by (simp add: cs_def prune_candidates_def)
  also have "\<dots> = length (connected_peers db)" using m by (rule mset_eq_length)
  also have "\<dots> \<le> length (peers db)" by (simp add: connected_peers_def)
  finally show "length cs \<le> length (peers db)" .
  assume "\<forall>x \<in> set (connected_peers db). has_score x"
  moreover have "mset (shuffle (connected_peers db)) = mset (connected_peers db)"
    using assms(2) by (simp add: is_perm_def)
  ultimately have "list_all has_score (shuffle (connected_peers db))"
    by (metis list_all_iff set_mset_mset)
  then show "sorted_wrt by_score cs"
    by (simp add: cs_def prune_candidates_def worst_connected_peers_def sort_by_sorted sorted_wrt_filter
        connected_peers_def)
qed

lemma peers_to_prune_chosen:
  fixes pm :: "('p, 'enr, 'hd) PeerManager"
  assumes "distinct (map fst (peers (pm_db pm)))" "is_perm (bt_shuffle b)"
    "target_outbound_peers pm + length (peers (pm_db pm)) \<le> USIZE_MAX"
  shows "\<exists>xs n'. peers_to_prune b pm = map fst xs \<and>
    chosen (length (connected_peer_ids (pm_db pm)) - pm_target_peers pm) (target_outbound_peers pm)
      (length (connected_outbound_only_peers (pm_db pm))) (prune_candidates (bt_shuffle b) negative_score (pm_db pm)) 0 0 xs n'"
proof -
  let ?e = "length (connected_peer_ids (pm_db pm)) - pm_target_peers pm"
  let ?c = "length (connected_outbound_only_peers (pm_db pm))"
  let ?cs = "prune_candidates (bt_shuffle b) negative_score (pm_db pm)"
  obtain r n' where r: "prune_pass ?e (target_outbound_peers pm) ?c ?cs [] 0 = (r, n')" by (meson surj_pair)
  note cs = prunable_candidates [OF assms(1,2)]
  have "\<exists>xs. r = map fst xs \<and> chosen ?e (target_outbound_peers pm) ?c ?cs 0 0 xs n'"
    using prune_pass_spec [OF r cs(2)] cs(3) assms(3) by simp
  moreover have "peers_to_prune b pm = r"
    using r by (simp add: peers_to_prune_eq g_connected_peers_def g_connected_outbound_only_peers_def)
  ultimately show ?thesis by auto
qed

text \<open>
  C38. Whom pruning disconnects. When more peers are connected than the target, pruning chooses
  distinct connected peers, never a trusted one and never one whose score is not negative, and at
  most as many as there are too many. It leaves as many outbound-only peers as their target asks
  for. It stops short of the excess only when every remaining candidate is outbound-only and their
  target is reached; in particular peers in good standing are kept although the target is exceeded.
  If no score is NaN the worst scored candidates go first. Each chosen peer gets one disconnection
  event.
\<close>

theorem pruning_policy:
  fixes pm :: "('p, 'enr, 'hd) PeerManager" and b :: "('p, 'enr) Beat"
  assumes "distinct (map fst (peers (pm_db pm)))" "beat_ok b"
    "target_outbound_peers pm + length (peers (pm_db pm)) \<le> USIZE_MAX"
  shows "let db = pm_db pm; ps = peers_to_prune b pm; wanted = target_outbound_peers pm;
      excess = length (connected_peer_ids db) - pm_target_peers pm; outbound = length (connected_outbound_only_peers db)
    in distinct ps \<and> length ps \<le> excess \<and> (\<forall>p \<in> set ps. \<exists>i. map_of (peers db) p = Some i \<and> prunable i) \<and>
      (outbound_in ps db = 0 \<or> wanted + outbound_in ps db \<le> outbound) \<and>
      (length ps < excess \<longrightarrow> (\<forall>(p, i) \<in> set (peers db). prunable i \<and> p \<notin> set ps \<longrightarrow>
         is_outbound_only i \<and> outbound \<le> wanted + outbound_in ps db)) \<and>
      ((\<forall>x \<in> set (connected_peers db). has_score x) \<longrightarrow>
         (\<forall>(p, i) \<in> set (peers db). \<forall>(q, j) \<in> set (peers db).
            p \<in> set ps \<and> prunable j \<and> q \<notin> set ps \<and> \<not> is_outbound_only j \<longrightarrow> by_score (p, i) (q, j))) \<and>
      (0 < excess \<longrightarrow> pm_events (prune_excess_peers b pm) =
         pm_events pm @ map (\<lambda>p. DisconnectPeer p TooManyPeers) (bt_order b ps))"
proof -
  let ?db = "pm_db pm" and ?ps = "peers_to_prune b pm" and ?cs = "prune_candidates (bt_shuffle b) negative_score (pm_db pm)"
  have perm: "is_perm (bt_shuffle b)" using assms(2) by (simp add: beat_ok_def)
  note cs = prunable_candidates [OF assms(1) perm]
  obtain xs n' where ps: "?ps = map fst xs" and
    c: "chosen (length (connected_peer_ids ?db) - pm_target_peers pm) (target_outbound_peers pm)
      (length (connected_outbound_only_peers ?db)) ?cs 0 0 xs n'"
    using peers_to_prune_chosen [OF assms(1) perm assms(3)] by blast
  have sub: "set xs \<subseteq> set ?cs" "distinct (map fst xs)" "set xs \<subseteq> set (peers ?db)" using c cs(1) by (auto simp: chosen_def)
  have out: "outbound_in ?ps ?db = n'"
    using outbound_in_chosen [OF assms(1) sub(3,2)] c ps by (simp add: chosen_def)
  have mem: "(p, i) \<in> set xs \<longleftrightarrow> p \<in> set ?ps" if "(p, i) \<in> set (peers ?db)" for p i
    using that sub(3) assms(1) ps by (auto simp: image_iff) (metis eq_key_imp_eq_value fst_conv subsetD surj_pair)+
  have known: "\<forall>p \<in> set ?ps. \<exists>i. map_of (peers ?db) p = Some i \<and> prunable i"
    using sub(1) cs(1) assms(1) ps by fastforce
  have rest: "\<forall>(p, i) \<in> set (peers ?db). prunable i \<and> p \<notin> set ?ps \<longrightarrow>
      is_outbound_only i \<and> length (connected_outbound_only_peers ?db) \<le> target_outbound_peers pm + outbound_in ?ps ?db"
    if "length ?ps < length (connected_peer_ids ?db) - pm_target_peers pm"
    using that c cs(1) mem out ps by (fastforce simp: chosen_def)
  have order: "\<forall>(p, i) \<in> set (peers ?db). \<forall>(q, j) \<in> set (peers ?db).
      p \<in> set ?ps \<and> prunable j \<and> q \<notin> set ?ps \<and> \<not> is_outbound_only j \<longrightarrow> by_score (p, i) (q, j)"
    if "\<forall>x \<in> set (connected_peers ?db). has_score x"
  proof clarify
    fix p i q j assume *: "(p, i) \<in> set (peers ?db)" "(q, j) \<in> set (peers ?db)" "p \<in> set ?ps" "prunable j" "q \<notin> set ?ps"
      "\<not> is_outbound_only j"
    have "\<forall>x \<in> set xs. \<forall>y \<in> set ?cs - set xs. \<not> is_outbound_only (snd y) \<longrightarrow> by_score x y"
      using c cs(4) [OF that] unfolding chosen_def by blast
    moreover have "(p, i) \<in> set xs" "(q, j) \<in> set ?cs - set xs" using * mem [of p i] mem [of q j] cs(1) by auto
    ultimately show "by_score (p, i) (q, j)" using *(6) by fastforce
  qed
  have dist: "distinct ?ps" and few: "length ?ps \<le> length (connected_peer_ids ?db) - pm_target_peers pm" and
    outb: "outbound_in ?ps ?db = 0 \<or> target_outbound_peers pm + outbound_in ?ps ?db \<le> length (connected_outbound_only_peers ?db)"
    using c out ps by (auto simp: chosen_def)
  have evs: "pm_events (prune_excess_peers b pm) = pm_events pm @ map (\<lambda>p. DisconnectPeer p TooManyPeers) (bt_order b ?ps)"
    if "0 < length (connected_peer_ids ?db) - pm_target_peers pm"
    using that by (simp add: prune_excess_peers_def g_connected_peers_def disconnect_fold)
  show ?thesis
    unfolding Let_def by (intro conjI impI known rest order evs dist few outb; assumption)
qed

definition sample_beat :: "(nat, nat) Beat" where
  "sample_beat = \<lparr>bt_now = 9, bt_scan = (\<lambda>_. 9), bt_clean = (\<lambda>_. 9), bt_decay = (\<lambda>_. 9), bt_prune = (\<lambda>_. 9),
     bt_shuffle = rev, bt_subnet_shuffle = (\<lambda>_. rev), bt_order = rev\<rparr>"

definition sample_bad_peer :: "nat PeerInfo" where
  "sample_bad_peer = (peer_info_default 0)\<lparr>connection_status := PeerConnectionStatus.Connected 1 0,
     pi_score := Real ((real_score_default 0)\<lparr>rs_score := Fin (- 5)\<rparr>)\<rparr>"

definition sample_busy :: "(nat, nat, unit) PeerManager" where
  "sample_busy = with_db ((pm_db sample_pm)\<lparr>peers := [(1, sample_bad_peer), (2, sample_bad_peer)]\<rparr>) (sample_pm\<lparr>pm_target_peers := 1\<rparr>)"

theorem pruning_policy_witness:
  "length (connected_peer_ids (pm_db sample_busy)) = 2 \<and> pm_target_peers sample_busy = 1 \<and>
   length (peers_to_prune sample_beat sample_busy) \<le> 1 \<and>
   set (peers_to_prune sample_beat sample_busy) \<subseteq> {1, 2}"
proof -
  have 1: "distinct (map fst (peers (pm_db sample_busy)))" by (simp add: sample_busy_def)
  have 2: "beat_ok sample_beat" by (simp add: beat_ok_def sample_beat_def is_perm_def)
  have "scaled_ceil 1 (10066330 / 2 ^ 25) = 1" using scaled_ceil_eval [of 1 "10066330 / 2 ^ 25" 25 10066330 1]
    by (simp add: USIZE_MAX_def)
  then have 3: "target_outbound_peers sample_busy + length (peers (pm_db sample_busy)) \<le> USIZE_MAX"
    by (simp add: limit_eqs sample_busy_def with_db_def USIZE_MAX_def)
  have n: "length (connected_peer_ids (pm_db sample_busy)) = 2" "pm_target_peers sample_busy = 1"
    by (simp_all add: sample_busy_def connected_peer_ids_def ids_where_def sample_bad_peer_def is_connected_def)
  from pruning_policy [OF 1 2 3, unfolded Let_def] have
    "length (peers_to_prune sample_beat sample_busy) \<le>
       length (connected_peer_ids (pm_db sample_busy)) - pm_target_peers sample_busy"
    "\<forall>p \<in> set (peers_to_prune sample_beat sample_busy). \<exists>i. map_of (peers (pm_db sample_busy)) p = Some i"
    by blast+
  moreover have "map_of (peers (pm_db sample_busy)) p = Some i \<Longrightarrow> p = 1 \<or> p = 2" for p i
    by (simp add: sample_busy_def split: if_splits)
  ultimately have "set (peers_to_prune sample_beat sample_busy) \<subseteq> {1, 2}"
    "length (peers_to_prune sample_beat sample_busy) \<le> 1" using n by auto
  with n show ?thesis by blast
qed

section \<open>Temporary bans\<close>

lemma not_connected_weight: "is_banned i \<or> is_disconnected i \<Longrightarrow> cw i = 0"
  by (auto simp: cw_def is_banned_def is_disconnected_def is_connected_def split: PeerConnectionStatus.splits)

lemma shrink_connected:
  fixes db :: "('p, 'enr) PeerDB"
  assumes "distinct (map fst (peers db))"
  shows "n_connected (snd (shrink_to_fit db)) = n_connected db"
proof -
  let ?P = "\<lambda>d :: ('p, 'enr) PeerDB. distinct (map fst (peers d)) \<and> n_connected d = n_connected db"
  have del: "?P (d\<lparr>peers := AList.delete p (peers d)\<rparr>)"
    if "?P d" "map_of (peers d) p = Some i" "cw i = 0" for d p i
    using that delete_sum [of "peers d" p i cw] by simp
  have "?P (snd (drop_banned d))" if "?P d" for d
  proof (cases "oldest_banned d")
    case (Some a)
    obtain p i t' where a: "a = (p, i, t')" by (cases a)
    with Some oldest_banned_Some [of d p i t'] del [OF that, of p i] not_connected_weight [of i] that show ?thesis
      by (simp add: drop_banned_def Let_def)
  qed (use that in \<open>simp add: drop_banned_def\<close>)
  moreover have "?P (drop_disconnected d)" if P: "?P d" for d
  proof (cases "oldest_disconnected d")
    case (Some a)
    obtain p t' where a: "a = (p, t')" by (cases a)
    obtain i where "map_of (peers d) p = Some i" "is_disconnected i"
      using oldest_disconnected_Some [OF Some [unfolded a]] P by blast
    with Some a del [OF P, of p i] not_connected_weight [of i] show ?thesis by (simp add: drop_disconnected_def Let_def)
  qed (use that in \<open>simp add: drop_disconnected_def\<close>)
  ultimately show ?thesis using shrink_reaches_limits(1) [of ?P db] assms by simp
qed

lemma closing_peer:
  assumes "status db p = Some (PeerConnectionStatus.Disconnecting False)" "distinct (map fst (peers db))"
  shows "fst (fst (db_inject_disconnect db p now)) = Some TemporaryBan"
    "n_connected (snd (db_inject_disconnect db p now)) = n_connected db"
proof -
  obtain i where i: "map_of (peers db) p = Some i" "connection_status i = PeerConnectionStatus.Disconnecting False"
    using assms(1) by (auto simp: status_def peer_info_def)
  then have e: "peer_entry db p now = i" by (simp add: peer_entry_def)
  show "fst (fst (db_inject_disconnect db p now)) = Some TemporaryBan"
    using e i by (simp add: db_inject_disconnect_def update_connection_state_def ban_score_first_def conn_change_def
        to_disconnected_def Let_def split_beta)
  let ?d = "set_state db p NewConnectionState.Disconnected now"
  have "cw (new_info (entry_change db p NewConnectionState.Disconnected now)) = 0" "cw i = 0"
    using e i by (simp_all add: entry_change_def entry_info_def ban_score_first_def conn_change_def to_disconnected_def
        Let_def cw_def is_connected_def set_connection_status_def)
  then have "n_connected ?d = n_connected db"
    using alist_sum_update [of cw p "new_info (entry_change db p NewConnectionState.Disconnected now)" "peers db"] i by simp
  with shrink_connected [of ?d] assms(2) show "n_connected (snd (db_inject_disconnect db p now)) = n_connected db"
    by (simp add: inject_disconnect_snd)
qed

lemma closing_peer_banned:
  fixes pm :: "('p, 'enr, 'hd) PeerManager"
  assumes "status (pm_db pm) p = Some (PeerConnectionStatus.Disconnecting False)" "distinct (map fst (peers (pm_db pm)))"
    "pm_target_peers pm \<le> length (connected_peer_ids (pm_db pm))"
    "raw_insert (temporary_banned_peers pm) p now = Some (b, c')"
  shows "\<exists>pm'. on_connection_closed D pm p 0 now = Some pm' \<and> temporary_banned_peers pm' = c' \<and>
    PeerManagerEvent.Banned p [] \<in> set (pm_events pm')"
proof -
  let ?r = "db_inject_disconnect (pm_db pm) p now"
  obtain purged db where r: "?r = ((Some TemporaryBan, purged), db)"
    using closing_peer(1) [OF assms(1,2), of now] by (metis prod.collapse)
  have "length (connected_peer_ids db) = length (connected_peer_ids (pm_db pm))"
    using closing_peer(2) [OF assms(1,2), of now] r by (simp add: n_connected_length)
  with assms r show ?thesis
    by (simp add: on_connection_closed_def is_connected_or_disconnecting_def inject_disconnect_def
        handle_ban_operation_def g_connected_peers_def Let_def)
qed

lemma unban_spec:
  assumes "cache_inv now c" "inserted_at c p = Some now" "ttl c = secs 600"
  shows "p \<in> set (fst (remove_expired c u)) \<longleftrightarrow> now + secs 600 \<le> u"
    "p \<in> cache_map (snd (remove_expired c u)) \<longleftrightarrow> u < now + secs 600"
proof -
  have inv: "check_invariant c" using assms(1) by (simp add: cache_inv_def)
  have inv': "check_invariant (snd (remove_expired c u))"
    using remove_expired_inv [OF assms(1), of now u] by (simp add: cache_inv_def)
  have at: "inserted_at (snd (remove_expired c u)) p = None \<longleftrightarrow> now + secs 600 \<le> u"
    using inserted_at_expired [OF inv, of u p] assms by (auto simp: not_less)
  then show "p \<in> cache_map (snd (remove_expired c u)) \<longleftrightarrow> u < now + secs 600"
    using inserted_at_in_map [OF inv', of p] by auto
  have "p \<in> cache_map c" using inserted_at_in_map [OF inv, of p] assms(2) by simp
  moreover have "set (fst (remove_expired c u)) = cache_map c - cache_map (snd (remove_expired c u))"
  proof -
    have "inj_on el_key (set (cache_list c))" using inv by (simp add: check_invariant_alt distinct_map)
    then have "el_key ` {e \<in> set (cache_list c). inserted e + ttl c \<le> u} =
        el_key ` set (cache_list c) - el_key ` {e \<in> set (cache_list c). u < inserted e + ttl c}"
      by (auto simp: inj_on_def image_iff not_less) (metis linorder_not_le)+
    then show ?thesis by (simp add: remove_expired_eq [OF inv] cache_map_list [OF inv])
  qed
  ultimately show "p \<in> set (fst (remove_expired c u)) \<longleftrightarrow> now + secs 600 \<le> u"
    using at inserted_at_in_map [OF inv', of p] by auto
qed

text \<open>
  C39. A temporary ban lasts ten minutes. When the last connection to a peer closes that the manager
  is disconnecting without a ban, and the manager has its target of connections, the swarm is told
  to ban the peer and the peer is remembered. A later clean-up of temporary bans tells the swarm to
  unban it, and forgets it, exactly if at least 600 seconds have passed.
\<close>

theorem temporary_ban:
  fixes pm :: "('p, 'enr, 'hd) PeerManager"
  assumes "cache_inv t' (temporary_banned_peers pm)" "t' \<le> now" "ttl (temporary_banned_peers pm) = PEER_RECONNECTION_TIMEOUT"
    and "distinct (map fst (peers (pm_db pm)))" "status (pm_db pm) p = Some (PeerConnectionStatus.Disconnecting False)"
    and "pm_target_peers pm \<le> length (connected_peer_ids (pm_db pm))"
  shows "\<exists>pm'. on_connection_closed D pm p 0 now = Some pm' \<and>
    PeerManagerEvent.Banned p [] \<in> set (pm_events pm') \<and> p \<in> cache_map (temporary_banned_peers pm') \<and>
    (\<forall>u \<ge> now. let pm'' = unban_temporary_banned_peers pm' u in
       pm_events pm'' = pm_events pm' @ map (\<lambda>q. UnBanned q []) (fst (remove_expired (temporary_banned_peers pm') u)) \<and>
       (p \<in> set (fst (remove_expired (temporary_banned_peers pm') u)) \<longleftrightarrow> now + secs 600 \<le> u) \<and>
       (p \<in> cache_map (temporary_banned_peers pm'') \<longleftrightarrow> u < now + secs 600))"
proof -
  let ?c = "temporary_banned_peers pm"
  have inv: "check_invariant ?c" using assms(1) by (simp add: cache_inv_def)
  obtain b c' where c': "raw_insert ?c p now = Some (b, c')"
    using raw_insert_keys_ok [OF check_invariant_keys [OF inv]] .
  have inv': "cache_inv now c'" using raw_insert_inv [OF assms(1,2) c'] .
  have at: "inserted_at c' p = Some now" using inserted_at_insert [OF inv c'] by simp
  have ttl: "ttl c' = secs 600"
    using raw_insert_eq [OF inv, of p now] c' assms(3) by (auto simp: PEER_RECONNECTION_TIMEOUT_def)
  have mem: "p \<in> cache_map c'" using inserted_at_in_map [of c' p] inv' at by (simp add: cache_inv_def)
  obtain pm' where "on_connection_closed D pm p 0 now = Some pm'" "temporary_banned_peers pm' = c'"
    "PeerManagerEvent.Banned p [] \<in> set (pm_events pm')"
    using closing_peer_banned [OF assms(5,4,6) c'] by blast
  with mem unban_spec [OF inv' at ttl] show ?thesis
    by (intro exI [of _ pm']) (simp add: unban_temporary_banned_peers_def Let_def split_beta)
qed

definition sample_closing :: "(nat, nat, unit) PeerManager" where
  "sample_closing = with_db ((pm_db sample_pm)\<lparr>peers := [(3, (peer_info_default 0)\<lparr>connection_status :=
     PeerConnectionStatus.Disconnecting False\<rparr>)]\<rparr>) (sample_pm\<lparr>pm_target_peers := 0\<rparr>)"

theorem temporary_ban_witness:
  "\<exists>pm'. on_connection_closed sample_delays sample_closing 3 0 10 = Some pm' \<and>
     PeerManagerEvent.Banned 3 [] \<in> set (pm_events pm') \<and>
     3 \<notin> cache_map (temporary_banned_peers (unban_temporary_banned_peers pm' (10 + secs 600)))"
proof -
  have "cache_inv 0 (temporary_banned_peers sample_closing)" "distinct (map fst (peers (pm_db sample_closing)))"
    "ttl (temporary_banned_peers sample_closing) = PEER_RECONNECTION_TIMEOUT" "pm_target_peers sample_closing = 0"
    "status (pm_db sample_closing) 3 = Some (PeerConnectionStatus.Disconnecting False)"
    by (simp_all add: sample_closing_def sample_defs cache_inv_def check_invariant_def cache_new_def status_def peer_info_def)
  from temporary_ban [OF this(1) _ this(3) this(2) this(5), of 10 sample_delays] this(4) show ?thesis
    by (auto simp: Let_def)
qed

end
