(* ===== verification/Discovery.thy ===== *)
theory Discovery
  imports Globals
begin

text \<open>
  The discovery sub-behaviour (\<open>p2p_network/src/discovery/mod.rs\<close>): queries for peers, the queue of
  subnet queries, the cache of node records, bans, and the updates of the local record.

  The server of the crate \<open>discv5\<close>, the cache of the crate \<open>lru\<close> and the conversion of peer ids to
  node ids are arguments (\<open>DiscoveryOps\<close>). A running query is its kind and its target; which queries
  complete during a poll, and with which results, and the events of the server are arguments of \<open>poll\<close>.
  \<open>save_enr_to_disk\<close> appends to the list of written records. The network globals are passed in and out,
  as they are shared with the peer manager.
\<close>

section \<open>Definitions\<close>

definition MAX_DISCOVERY_RETRY :: usize where "MAX_DISCOVERY_RETRY = 3"
definition MAX_CONCURRENT_SUBNET_QUERIES :: usize where "MAX_CONCURRENT_SUBNET_QUERIES = 2"
definition MAX_SUBNETS_IN_QUERY :: usize where "MAX_SUBNETS_IN_QUERY = 3"
definition FIND_NODE_QUERY_CLOSEST_PEERS :: usize where "FIND_NODE_QUERY_CLOSEST_PEERS = 16"
definition TARGET_SUBNET_PEERS :: usize where "TARGET_SUBNET_PEERS = 6"

record SubnetQuery =
  sq_subnet :: Subnet
  sq_min_ttl :: "instant option"
  sq_retries :: usize

definition query_expired :: "instant \<Rightarrow> SubnetQuery \<Rightarrow> bool" where
  "query_expired now self = (case sq_min_ttl self of Some ttl \<Rightarrow> ttl < now | None \<Rightarrow> False)"

datatype QueryType = FindPeers

record 'enr QueryResult =
  qr_query_type :: QueryType
  qr_result :: "string + 'enr list"

datatype EventStream = Awaiting | Present | InActive

record SocketAddr =
  sa_ip :: IpAddr
  sa_port :: u16

datatype 'enr Discv5Event = Discovered 'enr | SocketUpdated SocketAddr | EnrAdded | TalkRequest | NodeInserted | SessionEstablished

record ('p, 'enr, 'n, 'd, 'c) DiscoveryOps =
  node_id_of :: "'p \<Rightarrow> string + 'n"
  d5_local_enr :: "'d \<Rightarrow> 'enr"
  d5_add_enr :: "'d \<Rightarrow> 'enr \<Rightarrow> 'd"
  d5_table_entries_enr :: "'d \<Rightarrow> 'enr list"
  d5_enr_insert :: "'d \<Rightarrow> string \<Rightarrow> u16 \<Rightarrow> string + 'd"
  d5_update_local_enr_socket :: "'d \<Rightarrow> SocketAddr \<Rightarrow> bool \<Rightarrow> bool \<times> 'd"
  d5_ban_node :: "'d \<Rightarrow> 'n \<Rightarrow> 'd"
  d5_remove_node :: "'d \<Rightarrow> 'n \<Rightarrow> 'd"
  d5_ban_ip :: "'d \<Rightarrow> IpAddr \<Rightarrow> 'd"
  d5_ban_node_remove :: "'d \<Rightarrow> 'n \<Rightarrow> 'd"
  d5_ban_ip_remove :: "'d \<Rightarrow> IpAddr \<Rightarrow> 'd"
  d5_disconnect_node :: "'d \<Rightarrow> 'n \<Rightarrow> 'd"
  lru_new :: "usize \<Rightarrow> 'c"
  lru_put :: "'c \<Rightarrow> 'p \<Rightarrow> 'enr \<Rightarrow> 'c"
  lru_pop :: "'c \<Rightarrow> 'p \<Rightarrow> 'c"
  lru_iter :: "'c \<Rightarrow> ('p \<times> 'enr) list"

record ('enr, 'd, 'c) Discovery =
  cached_enrs :: 'c
  discv5 :: 'd
  find_peer_active :: bool
  queued_queries :: "SubnetQuery list"
  active_queries :: "(QueryType \<times> usize) list"
  event_stream :: EventStream
  started :: bool
  update_tcp_port :: "bool \<times> bool"
  saved_enrs :: "'enr list"

subsection \<open>Construction\<close>

text \<open>
  \<open>Discovery::new\<close>: the new server, the outcome of starting it and the records obtained for the
  addresses of boot nodes, in the order in which the requests complete, are arguments.
\<close>

definition discovery_new ::
    "('p, 'enr, 'n, 'd, 'c) DiscoveryOps \<Rightarrow> ('enr \<Rightarrow> 'n) \<Rightarrow> 'enr \<Rightarrow> bool \<Rightarrow> 'enr list \<Rightarrow> u16 option \<times> u16 option \<Rightarrow>
     string + 'd \<Rightarrow> string + unit \<Rightarrow> (string + 'enr) list \<Rightarrow> string + ('enr, 'd, 'c) Discovery" where
  "discovery_new V enr_node_id local_enr disable_discovery boot_nodes_enr enr_tcp_ports new_server start_result enr_replies =
     bind_res new_server (\<lambda>d.
     let local_node_id = enr_node_id local_enr;
         d = fold (\<lambda>enr d. if enr_node_id enr = local_node_id then d else d5_add_enr V d enr) boot_nodes_enr d
     in bind_res (if disable_discovery then Inr () else start_result) (\<lambda>_.
        let d = fold (\<lambda>reply d. case reply of Inr enr \<Rightarrow> d5_add_enr V d enr | Inl _ \<Rightarrow> d) enr_replies d
        in Inr \<lparr>cached_enrs = lru_new V 50, discv5 = d, find_peer_active = False, queued_queries = [],
                active_queries = [], event_stream = (if disable_discovery then InActive else Awaiting),
                started = \<not> disable_discovery,
                update_tcp_port = (fst enr_tcp_ports = None, snd enr_tcp_ports = None), saved_enrs = []\<rparr>))"

subsection \<open>Operations\<close>

definition start_query :: "QueryType \<Rightarrow> usize \<Rightarrow> ('enr, 'd, 'c) Discovery \<Rightarrow> ('enr, 'd, 'c) Discovery" where
  "start_query query target_peers self = self\<lparr>active_queries := active_queries self @ [(query, target_peers)]\<rparr>"

definition discover_peers :: "usize \<Rightarrow> ('enr, 'd, 'c) Discovery \<Rightarrow> ('enr, 'd, 'c) Discovery" where
  "discover_peers target_peers self =
     (if \<not> started self \<or> find_peer_active self then self
      else start_query FindPeers (min FIND_NODE_QUERY_CLOSEST_PEERS target_peers) (self\<lparr>find_peer_active := True\<rparr>))"

text \<open>\<open><\<close> on \<open>Option<Instant>\<close>: \<open>None\<close> is the least.\<close>

fun ttl_less :: "instant option \<Rightarrow> instant option \<Rightarrow> bool" where
  "ttl_less None (Some b) = True"
| "ttl_less (Some a) (Some b) = (a < b)"
| "ttl_less a None = False"

fun update_query :: "Subnet \<Rightarrow> instant option \<Rightarrow> usize \<Rightarrow> SubnetQuery list \<Rightarrow> SubnetQuery list option" where
  "update_query subnet ttl retries [] = None"
| "update_query subnet ttl retries (q # qs) =
     (if sq_subnet q = subnet
      then Some (q\<lparr>sq_min_ttl := (if ttl_less (sq_min_ttl q) ttl then ttl else sq_min_ttl q),
                   sq_retries := retries\<rparr> # qs)
      else map_option (Cons q) (update_query subnet ttl retries qs))"

definition add_subnet_query ::
    "Subnet \<Rightarrow> instant option \<Rightarrow> usize \<Rightarrow> ('enr, 'd, 'c) Discovery \<Rightarrow> ('enr, 'd, 'c) Discovery" where
  "add_subnet_query subnet ttl retries self =
     (if retries > MAX_DISCOVERY_RETRY then self
      else case update_query subnet ttl retries (queued_queries self) of
             Some qs \<Rightarrow> self\<lparr>queued_queries := qs\<rparr>
           | None \<Rightarrow> self\<lparr>queued_queries := queued_queries self @
               [\<lparr>sq_subnet = subnet, sq_min_ttl = ttl, sq_retries = retries\<rparr>]\<rparr>)"

definition discover_subnet_peers ::
    "SubnetDiscovery list \<Rightarrow> ('enr, 'd, 'c) Discovery \<Rightarrow> ('enr, 'd, 'c) Discovery" where
  "discover_subnet_peers subnets_to_discover self =
     (if \<not> started self then self
      else fold (\<lambda>s. add_subnet_query (sd_subnet s) (sd_min_ttl s) 0) subnets_to_discover self)"

definition add_enr ::
    "('p, 'enr) EnrOps \<Rightarrow> ('p, 'enr, 'n, 'd, 'c) DiscoveryOps \<Rightarrow> 'enr \<Rightarrow> ('enr, 'd, 'c) Discovery \<Rightarrow> ('enr, 'd, 'c) Discovery" where
  "add_enr E V enr self =
     self\<lparr>cached_enrs := lru_put V (cached_enrs self) (enr_peer_id E enr) enr, discv5 := d5_add_enr V (discv5 self) enr\<rparr>"

text \<open>The end of every update of the local record: the shared copy and the copy on disk.\<close>

definition publish_local_enr ::
    "('p, 'enr, 'n, 'd, 'c) DiscoveryOps \<Rightarrow> ('enr, 'd, 'c) Discovery \<Rightarrow> ('p, 'enr) NetworkGlobals \<Rightarrow>
     ('enr, 'd, 'c) Discovery \<times> ('p, 'enr) NetworkGlobals" where
  "publish_local_enr V self globals =
     (let enr = d5_local_enr V (discv5 self)
      in (self\<lparr>saved_enrs := saved_enrs self @ [enr]\<rparr>, globals\<lparr>g_local_enr := enr\<rparr>))"

definition update_enr_port ::
    "('p, 'enr, 'n, 'd, 'c) DiscoveryOps \<Rightarrow> string \<Rightarrow> u16 \<Rightarrow> ('enr, 'd, 'c) Discovery \<Rightarrow> ('p, 'enr) NetworkGlobals \<Rightarrow>
     (string + unit) \<times> ('enr, 'd, 'c) Discovery \<times> ('p, 'enr) NetworkGlobals" where
  "update_enr_port V key port self globals =
     (case d5_enr_insert V (discv5 self) key port of
        Inl e \<Rightarrow> (Inl e, self, globals)
      | Inr d \<Rightarrow> (Inr (), publish_local_enr V (self\<lparr>discv5 := d\<rparr>) globals))"

definition update_enr_tcp_port ::
    "('p, 'enr, 'n, 'd, 'c) DiscoveryOps \<Rightarrow> u16 \<Rightarrow> ('enr, 'd, 'c) Discovery \<Rightarrow> ('p, 'enr) NetworkGlobals \<Rightarrow>
     (string + unit) \<times> ('enr, 'd, 'c) Discovery \<times> ('p, 'enr) NetworkGlobals" where
  "update_enr_tcp_port V port = update_enr_port V ''tcp'' port"

definition update_enr_quic_port ::
    "('p, 'enr, 'n, 'd, 'c) DiscoveryOps \<Rightarrow> u16 \<Rightarrow> ('enr, 'd, 'c) Discovery \<Rightarrow> ('p, 'enr) NetworkGlobals \<Rightarrow>
     (string + unit) \<times> ('enr, 'd, 'c) Discovery \<times> ('p, 'enr) NetworkGlobals" where
  "update_enr_quic_port V port = update_enr_port V ''quic'' port"

definition update_enr_udp_socket ::
    "('p, 'enr, 'n, 'd, 'c) DiscoveryOps \<Rightarrow> SocketAddr \<Rightarrow> ('enr, 'd, 'c) Discovery \<Rightarrow> ('p, 'enr) NetworkGlobals \<Rightarrow>
     (string + unit) \<times> ('enr, 'd, 'c) Discovery \<times> ('p, 'enr) NetworkGlobals" where
  "update_enr_udp_socket V socket_addr self globals =
     (let (updated, d) = d5_update_local_enr_socket V (discv5 self) socket_addr False;
          enr = d5_local_enr V d
      in (Inr (), self\<lparr>discv5 := d, saved_enrs := (if updated then saved_enrs self @ [enr] else saved_enrs self)\<rparr>,
          globals\<lparr>g_local_enr := enr\<rparr>))"

definition ban_peer ::
    "('p, 'enr, 'n, 'd, 'c) DiscoveryOps \<Rightarrow> 'p \<Rightarrow> IpAddr list \<Rightarrow> ('enr, 'd, 'c) Discovery \<Rightarrow> ('enr, 'd, 'c) Discovery" where
  "ban_peer V peer_id ip_addresses self =
     (let d = (case node_id_of V peer_id of
                 Inr node_id \<Rightarrow> d5_remove_node V (d5_ban_node V (discv5 self) node_id) node_id
               | Inl _ \<Rightarrow> discv5 self)
      in self\<lparr>discv5 := fold (\<lambda>ip d. d5_ban_ip V d ip) ip_addresses d\<rparr>)"

definition unban_peer ::
    "('p, 'enr, 'n, 'd, 'c) DiscoveryOps \<Rightarrow> 'p \<Rightarrow> IpAddr list \<Rightarrow> ('enr, 'd, 'c) Discovery \<Rightarrow> ('enr, 'd, 'c) Discovery" where
  "unban_peer V peer_id ip_addresses self =
     (let d = (case node_id_of V peer_id of
                 Inr node_id \<Rightarrow> d5_ban_node_remove V (discv5 self) node_id
               | Inl _ \<Rightarrow> discv5 self)
      in self\<lparr>discv5 := fold (\<lambda>ip d. d5_ban_ip_remove V d ip) ip_addresses d\<rparr>)"

definition discovery_disconnect_peer ::
    "('p, 'enr, 'n, 'd, 'c) DiscoveryOps \<Rightarrow> 'p \<Rightarrow> ('enr, 'd, 'c) Discovery \<Rightarrow> ('enr, 'd, 'c) Discovery" where
  "discovery_disconnect_peer V peer_id self =
     self\<lparr>discv5 := (case node_id_of V peer_id of
                       Inr node_id \<Rightarrow> d5_disconnect_node V (discv5 self) node_id
                     | Inl _ \<Rightarrow> discv5 self),
          cached_enrs := lru_pop V (cached_enrs self) peer_id\<rparr>"

subsection \<open>The queue of subnet queries\<close>

definition at_capacity :: "('enr, 'd, 'c) Discovery \<Rightarrow> bool" where
  "at_capacity self \<longleftrightarrow>
     length (active_queries self) - (if find_peer_active self then 1 else 0) \<ge> MAX_CONCURRENT_SUBNET_QUERIES"

text \<open>
  \<open>start_subnet_query\<close> finds the queries that are still necessary; the statement that would start
  them is commented out in the source.
\<close>

definition start_subnet_query ::
    "('p, 'enr) NetworkGlobals \<Rightarrow> SubnetQuery list \<Rightarrow> ('enr, 'd, 'c) Discovery \<Rightarrow> ('enr, 'd, 'c) Discovery" where
  "start_subnet_query globals subnet_queries self =
     (let filtered_subnet_queries =
            filter (\<lambda>q. \<not> length (good_peers_on_subnet (g_peers globals)) \<ge> TARGET_SUBNET_PEERS) subnet_queries
      in self)"

fun process_loop ::
    "('p, 'enr) NetworkGlobals \<Rightarrow> SubnetQuery list \<Rightarrow> SubnetQuery list \<Rightarrow> bool \<Rightarrow> ('enr, 'd, 'c) Discovery \<Rightarrow>
     bool \<times> ('enr, 'd, 'c) Discovery" where
  "process_loop globals [] subnet_queries processed self = (processed, self\<lparr>queued_queries := []\<rparr>)"
| "process_loop globals (q # queued) subnet_queries processed self =
     (if at_capacity self then (processed, self\<lparr>queued_queries := q # queued\<rparr>)
      else
        let subnet_queries = subnet_queries @ [q]
        in if length subnet_queries = MAX_SUBNETS_IN_QUERY \<or> queued = []
           then process_loop globals queued [] True (start_subnet_query globals subnet_queries self)
           else process_loop globals queued subnet_queries processed self)"

definition process_queue ::
    "instant \<Rightarrow> ('p, 'enr) NetworkGlobals \<Rightarrow> ('enr, 'd, 'c) Discovery \<Rightarrow> bool \<times> ('enr, 'd, 'c) Discovery" where
  "process_queue now globals self =
     process_loop globals (filter (\<lambda>q. \<not> query_expired now q) (queued_queries self)) [] False self"

subsection \<open>Completed queries\<close>

text \<open>The results are a hash map from records to times to live, here always \<open>None\<close>.\<close>

definition process_completed_queries ::
    "('p, 'enr) EnrOps \<Rightarrow> ('p, 'enr, 'n, 'd, 'c) DiscoveryOps \<Rightarrow> 'enr QueryResult \<Rightarrow> ('enr, 'd, 'c) Discovery \<Rightarrow>
     ('enr \<times> instant option) list option \<times> ('enr, 'd, 'c) Discovery" where
  "process_completed_queries E V query self =
     (case qr_query_type query of
        FindPeers \<Rightarrow>
          let self = self\<lparr>find_peer_active := False\<rparr>
          in case qr_result query of
               Inr [] \<Rightarrow> (None, self)
             | Inr r \<Rightarrow>
                 (Some (fold (\<lambda>enr m. AList.update enr None m) r []),
                  self\<lparr>cached_enrs := fold (\<lambda>enr c. lru_put V c (enr_peer_id E enr) enr) r (cached_enrs self)\<rparr>)
             | Inl e \<Rightarrow> (None, self))"

text \<open>
  \<open>poll_queries\<close>, for the queries that complete: the position of each among the active ones and the
  result of the server. What is left of that list completes in a later poll.
\<close>

fun poll_queries ::
    "('p, 'enr) EnrOps \<Rightarrow> ('p, 'enr, 'n, 'd, 'c) DiscoveryOps \<Rightarrow> (nat \<times> (string + 'enr list)) list \<Rightarrow>
     ('enr, 'd, 'c) Discovery \<Rightarrow> ('enr \<times> instant option) list option \<times> ('enr, 'd, 'c) Discovery" where
  "poll_queries E V [] self = (None, self)"
| "poll_queries E V ((i, result) # completed) self =
     (if i < length (active_queries self) then
        let self1 = self\<lparr>active_queries := take i (active_queries self) @ drop (Suc i) (active_queries self)\<rparr>
        in case process_completed_queries E V
                  \<lparr>qr_query_type = fst (active_queries self ! i), qr_result = result\<rparr> self1 of
             (Some found, self2) \<Rightarrow> (Some found, self2)
           | (None, self2) \<Rightarrow> poll_queries E V completed self2
      else (None, self))"

subsection \<open>The swarm interface\<close>

definition is_ipv4 :: "SocketAddr \<Rightarrow> bool" where
  "is_ipv4 a = (case sa_ip a of V4 _ \<Rightarrow> True | V6 _ \<Rightarrow> False)"

definition on_discv5_event ::
    "('p, 'enr, 'n, 'd, 'c) DiscoveryOps \<Rightarrow> 'enr Discv5Event \<Rightarrow>
     ('enr, 'd, 'c) Discovery \<times> ('p, 'enr) NetworkGlobals \<Rightarrow> ('enr, 'd, 'c) Discovery \<times> ('p, 'enr) NetworkGlobals" where
  "on_discv5_event V event = (\<lambda>(self, globals).
     case event of
       SocketUpdated socket_addr \<Rightarrow>
         let d = (if fst (update_tcp_port self) \<and> is_ipv4 socket_addr \<or>
                     snd (update_tcp_port self) \<and> \<not> is_ipv4 socket_addr
                  then snd (d5_update_local_enr_socket V (discv5 self) socket_addr True) else discv5 self)
         in publish_local_enr V (self\<lparr>discv5 := d\<rparr>) globals
     | _ \<Rightarrow> (self, globals))"

text \<open>
  \<open>poll\<close>: the completed queries, the answer to the request for the event stream, if it is ready, and
  the events of the stream.
\<close>

definition discovery_poll ::
    "('p, 'enr) EnrOps \<Rightarrow> ('p, 'enr, 'n, 'd, 'c) DiscoveryOps \<Rightarrow> instant \<Rightarrow> (nat \<times> (string + 'enr list)) list \<Rightarrow>
     (string + unit) option \<Rightarrow> 'enr Discv5Event list \<Rightarrow> ('enr, 'd, 'c) Discovery \<Rightarrow> ('p, 'enr) NetworkGlobals \<Rightarrow>
     ('enr \<times> instant option) list option \<times> ('enr, 'd, 'c) Discovery \<times> ('p, 'enr) NetworkGlobals" where
  "discovery_poll E V now completed stream_reply events self globals =
     (if \<not> started self then (None, self, globals)
      else
        let self = snd (process_queue now globals self)
        in case poll_queries E V completed self of
             (Some found, self) \<Rightarrow> (Some found, self, globals)
           | (None, self) \<Rightarrow>
               (case event_stream self of
                  Awaiting \<Rightarrow>
                    (None, (case stream_reply of
                              None \<Rightarrow> self
                            | Some (Inr _) \<Rightarrow> self\<lparr>event_stream := Present\<rparr>
                            | Some (Inl _) \<Rightarrow> self\<lparr>event_stream := InActive\<rparr>), globals)
                | InActive \<Rightarrow> (None, self, globals)
                | Present \<Rightarrow> (None, fold (on_discv5_event V) events (self, globals))))"

datatype DialError = LocalPeerId | Denied | NoAddresses | Transport | WrongPeerId | DialPeerConditionFalse | Aborted

definition discovery_on_dial_failure ::
    "('p, 'enr, 'n, 'd, 'c) DiscoveryOps \<Rightarrow> 'p option \<Rightarrow> DialError \<Rightarrow> ('enr, 'd, 'c) Discovery \<Rightarrow> ('enr, 'd, 'c) Discovery" where
  "discovery_on_dial_failure V peer_id err self =
     (case peer_id of
        None \<Rightarrow> self
      | Some p \<Rightarrow>
          if err \<in> {LocalPeerId, Denied, NoAddresses, Transport, WrongPeerId} then discovery_disconnect_peer V p self
          else self)"

section \<open>The stored node record\<close>

text \<open>
  The choice between a freshly built record and the one stored on disk (\<open>discovery/enr.rs\<close>). The
  getters and the signing of the crate \<open>enr\<close> are arguments; so is what reading the file gives:
  nothing, an error, or its text.
\<close>

record 'enr EnrStoreOps =
  es_node_id :: "'enr \<Rightarrow> nat"
  es_seq :: "'enr \<Rightarrow> u64"
  es_set_seq :: "'enr \<Rightarrow> u64 \<Rightarrow> string + 'enr"
  es_get :: "'enr \<Rightarrow> string \<Rightarrow> u8 list option"
  es_from_str :: "string \<Rightarrow> string + 'enr"

definition CHAIN_ID :: string where "CHAIN_ID = ''chain_id''"

definition compare_enr :: "('p, 'enr) EnrOps \<Rightarrow> 'enr EnrStoreOps \<Rightarrow> 'enr \<Rightarrow> 'enr \<Rightarrow> bool" where
  "compare_enr E R local_enr disk_enr \<longleftrightarrow>
     (enr_ip4 E local_enr = None \<or> enr_ip4 E local_enr = enr_ip4 E disk_enr) \<and>
     (enr_ip6 E local_enr = None \<or> enr_ip6 E local_enr = enr_ip6 E disk_enr) \<and>
     enr_tcp4 E local_enr = enr_tcp4 E disk_enr \<and> enr_tcp6 E local_enr = enr_tcp6 E disk_enr \<and>
     quic4 E local_enr = quic4 E disk_enr \<and> quic6 E local_enr = quic6 E disk_enr \<and>
     (enr_udp4 E local_enr = None \<or> enr_udp4 E local_enr = enr_udp4 E disk_enr) \<and>
     (enr_udp6 E local_enr = None \<or> enr_udp6 E local_enr = enr_udp6 E disk_enr) \<and>
     es_get R local_enr CHAIN_ID = es_get R disk_enr CHAIN_ID"

definition checked_inc :: "u64 \<Rightarrow> u64 option" where
  "checked_inc n = (if n = - 1 then None else Some (n + 1))"

text \<open>The record to use and what is written to disk.\<close>

definition use_or_load_enr ::
    "('p, 'enr) EnrOps \<Rightarrow> 'enr EnrStoreOps \<Rightarrow> 'enr \<Rightarrow> (string + string) option \<Rightarrow> string + 'enr \<times> 'enr option" where
  "use_or_load_enr E R local_enr enr_file =
     (case enr_file of
        Some (Inr enr_string) \<Rightarrow>
          (case es_from_str R enr_string of
             Inr disk_enr \<Rightarrow>
               if es_node_id R local_enr = es_node_id R disk_enr then
                 if compare_enr E R local_enr disk_enr then Inr (disk_enr, None)
                 else
                   bind_res (ok_or (checked_inc (es_seq R disk_enr))
                       ''ENR sequence number on file is too large. Remove it to generate a new NodeId'') (\<lambda>new_seq_no.
                   bind_res (map_err (\<lambda>e. ''Could not update ENR sequence number: '' @ e)
                       (es_set_seq R local_enr new_seq_no)) (\<lambda>enr.
                   Inr (enr, Some enr)))
               else Inr (local_enr, Some local_enr)
           | Inl _ \<Rightarrow> Inr (local_enr, Some local_enr))
      | _ \<Rightarrow> Inr (local_enr, Some local_enr))"

section \<open>Queries\<close>

text \<open>
  At most one query runs, the search for peers that the flag announces; a subnet waits at most once,
  with a bounded number of retries.
\<close>

definition discovery_ok :: "('enr, 'd, 'c) Discovery \<Rightarrow> bool" where
  "discovery_ok self \<longleftrightarrow>
     (if find_peer_active self
      then \<exists>t \<le> FIND_NODE_QUERY_CLOSEST_PEERS. active_queries self = [(FindPeers, t)]
      else active_queries self = []) \<and>
     distinct (map sq_subnet (queued_queries self)) \<and>
     (\<forall>q \<in> set (queued_queries self). sq_retries q \<le> MAX_DISCOVERY_RETRY)"

lemma not_at_capacity: "discovery_ok self \<Longrightarrow> \<not> at_capacity self"
  by (auto simp: discovery_ok_def at_capacity_def MAX_CONCURRENT_SUBNET_QUERIES_def split: if_splits)

lemma start_subnet_query_id [simp]: "start_subnet_query globals qs self = self"
  by (simp add: start_subnet_query_def)

lemma process_loop_empties:
  "\<not> at_capacity self \<Longrightarrow>
   process_loop globals queued subnet_queries processed self = (processed \<or> queued \<noteq> [], self\<lparr>queued_queries := []\<rparr>)"
  by (induction queued arbitrary: subnet_queries processed) (auto simp: Let_def)

lemma process_queue_empties:
  "discovery_ok self \<Longrightarrow> snd (process_queue now globals self) = self\<lparr>queued_queries := []\<rparr>"
  by (simp add: process_queue_def process_loop_empties not_at_capacity)

lemma discovery_ok_cong:
  "discovery_ok self \<Longrightarrow> find_peer_active s = find_peer_active self \<Longrightarrow> active_queries s = active_queries self \<Longrightarrow>
   queued_queries s = queued_queries self \<or> queued_queries s = [] \<Longrightarrow> discovery_ok s"
  by (auto simp: discovery_ok_def)

lemma discover_peers_ok: "discovery_ok self \<Longrightarrow> discovery_ok (discover_peers n self)"
  by (auto simp: discovery_ok_def discover_peers_def start_query_def)

lemma update_query_subnets:
  "update_query subnet ttl retries qs = Some qs' \<Longrightarrow>
   map sq_subnet qs' = map sq_subnet qs \<and> (\<forall>q \<in> set qs'. q \<in> set qs \<or> sq_retries q = retries)"
  by (induction qs arbitrary: qs') (auto split: if_splits)

lemma update_query_None: "update_query subnet ttl retries qs = None \<longleftrightarrow> subnet \<notin> sq_subnet ` set qs"
  by (induction qs) auto

lemma add_subnet_query_ok:
  assumes "discovery_ok self"
  shows "discovery_ok (add_subnet_query subnet ttl retries self)"
proof (cases "update_query subnet ttl retries (queued_queries self)")
  case None
  with assms update_query_None [of subnet ttl retries "queued_queries self"] show ?thesis
    by (auto simp: add_subnet_query_def discovery_ok_def)
next
  case (Some qs)
  with assms update_query_subnets [OF Some] show ?thesis
    by (fastforce simp: add_subnet_query_def discovery_ok_def)
qed

lemma fold_subnets_ok:
  "discovery_ok self \<Longrightarrow> discovery_ok (fold (\<lambda>s. add_subnet_query (sd_subnet s) (sd_min_ttl s) 0) subnets self)"
  by (induction subnets arbitrary: self) (auto simp: add_subnet_query_ok)

lemma discover_subnet_peers_ok: "discovery_ok self \<Longrightarrow> discovery_ok (discover_subnet_peers subnets self)"
  by (simp add: discover_subnet_peers_def fold_subnets_ok)

text \<open>A completed query leaves the set of active ones, and no call of a poll starts one.\<close>

lemma process_completed_fields:
  assumes "process_completed_queries E V query self = (r, self')"
  shows "find_peer_active self' = False" "active_queries self' = active_queries self"
    "queued_queries self' = queued_queries self" "started self' = started self" "event_stream self' = event_stream self"
  using assms
  by (auto simp: process_completed_queries_def Let_def split: QueryType.splits sum.splits list.splits)

lemma poll_queries_ok:
  assumes "discovery_ok self" "poll_queries E V completed self = (r, self')"
  shows "discovery_ok self' \<and> queued_queries self' = queued_queries self \<and>
    set (active_queries self') \<subseteq> set (active_queries self)"
  using assms
proof (induction completed arbitrary: self)
  case (Cons c completed)
  obtain i result where c: "c = (i, result)" by fastforce
  show ?case
  proof (cases "i < length (active_queries self)")
    case True
    with Cons.prems(1) have one: "i = 0" "length (active_queries self) = 1"
      by (auto simp: discovery_ok_def split: if_splits)
    let ?s1 = "self\<lparr>active_queries := take i (active_queries self) @ drop (Suc i) (active_queries self)\<rparr>"
    obtain r2 s2 where p: "process_completed_queries E V
        \<lparr>qr_query_type = fst (active_queries self ! i), qr_result = result\<rparr> ?s1 = (r2, s2)" by fastforce
    note f = process_completed_fields [OF p]
    have ok: "discovery_ok s2" "queued_queries s2 = queued_queries self" "active_queries s2 = []"
      using Cons.prems(1) one f by (auto simp: discovery_ok_def)
    show ?thesis
    proof (cases r2)
      case None
      then have "poll_queries E V completed s2 = (r, self')" using Cons.prems(2) True p by (simp add: c Let_def)
      from Cons.IH [OF ok(1) this] ok show ?thesis by simp
    next
      case (Some found)
      with Cons.prems(2) True p ok show ?thesis by (simp add: c Let_def)
    qed
  qed (use Cons.prems in \<open>simp add: c\<close>)
qed simp

lemma on_discv5_event_fields:
  "find_peer_active (fst (on_discv5_event V e x)) = find_peer_active (fst x)"
  "active_queries (fst (on_discv5_event V e x)) = active_queries (fst x)"
  "queued_queries (fst (on_discv5_event V e x)) = queued_queries (fst x)"
  by (auto simp: on_discv5_event_def publish_local_enr_def Let_def split: prod.splits Discv5Event.splits)

lemma discv5_events_fields:
  "find_peer_active (fst (fold (on_discv5_event V) es x)) = find_peer_active (fst x)"
  "active_queries (fst (fold (on_discv5_event V) es x)) = active_queries (fst x)"
  "queued_queries (fst (fold (on_discv5_event V) es x)) = queued_queries (fst x)"
  by (induction es arbitrary: x) (simp_all add: on_discv5_event_fields)

lemma discovery_poll_ok:
  assumes ok: "discovery_ok self" and st: "started self"
    and poll: "discovery_poll E V now completed reply events self globals = (r, self', globals')"
  shows "discovery_ok self' \<and> queued_queries self' = [] \<and> set (active_queries self') \<subseteq> set (active_queries self)"
proof -
  let ?s1 = "self\<lparr>queued_queries := []\<rparr>"
  have "discovery_ok ?s1" using ok by (rule discovery_ok_cong) simp_all
  moreover obtain r2 s2 where q: "poll_queries E V completed ?s1 = (r2, s2)" by fastforce
  ultimately have s2: "discovery_ok s2" "queued_queries s2 = []" "set (active_queries s2) \<subseteq> set (active_queries self)"
    using poll_queries_ok [of ?s1 E V completed r2 s2] by simp_all
  have "find_peer_active self' = find_peer_active s2 \<and> active_queries self' = active_queries s2 \<and>
      queued_queries self' = queued_queries s2"
    using poll discv5_events_fields [of V events "(s2, globals)"]
    by (auto simp: discovery_poll_def st process_queue_empties [OF ok] q Let_def
        split: option.splits EventStream.splits sum.splits prod.splits)
  with s2 show ?thesis using discovery_ok_cong [OF s2(1), of self'] by simp
qed

text \<open>The operations of the component, on the component and the shared globals.\<close>

datatype ('p, 'enr) discovery_op =
    FindMore usize
  | FindSubnets "SubnetDiscovery list"
  | AddRecord 'enr
  | TcpPort u16
  | QuicPort u16
  | UdpSocket SocketAddr
  | Ban 'p "IpAddr list"
  | Unban 'p "IpAddr list"
  | DialFailed "'p option" DialError
  | PollDiscovery instant "(nat \<times> (string + 'enr list)) list" "(string + unit) option" "'enr Discv5Event list"

fun discovery_exec ::
    "('p, 'enr) EnrOps \<Rightarrow> ('p, 'enr, 'n, 'd, 'c) DiscoveryOps \<Rightarrow> ('p, 'enr) discovery_op \<Rightarrow>
     ('enr, 'd, 'c) Discovery \<times> ('p, 'enr) NetworkGlobals \<Rightarrow> ('enr, 'd, 'c) Discovery \<times> ('p, 'enr) NetworkGlobals" where
  "discovery_exec E V (FindMore n) (s, g) = (discover_peers n s, g)"
| "discovery_exec E V (FindSubnets subnets) (s, g) = (discover_subnet_peers subnets s, g)"
| "discovery_exec E V (AddRecord enr) (s, g) = (add_enr E V enr s, g)"
| "discovery_exec E V (TcpPort port) (s, g) = snd (update_enr_tcp_port V port s g)"
| "discovery_exec E V (QuicPort port) (s, g) = snd (update_enr_quic_port V port s g)"
| "discovery_exec E V (UdpSocket addr) (s, g) = snd (update_enr_udp_socket V addr s g)"
| "discovery_exec E V (Ban p ips) (s, g) = (ban_peer V p ips s, g)"
| "discovery_exec E V (Unban p ips) (s, g) = (unban_peer V p ips s, g)"
| "discovery_exec E V (DialFailed p err) (s, g) = (discovery_on_dial_failure V p err s, g)"
| "discovery_exec E V (PollDiscovery now completed reply events) (s, g) =
     snd (discovery_poll E V now completed reply events s g)"

lemma discovery_exec_ok:
  assumes "discovery_ok s"
  shows "discovery_ok (fst (discovery_exec E V op (s, g)))"
proof (cases op)
  case (PollDiscovery now completed reply events)
  obtain r s' g' where p: "discovery_poll E V now completed reply events s g = (r, s', g')"
    by (cases "discovery_poll E V now completed reply events s g")
  show ?thesis
  proof (cases "started s")
    case True
    with discovery_poll_ok [OF assms True p] p PollDiscovery show ?thesis by simp
  next
    case False
    with p assms PollDiscovery show ?thesis by (auto simp: discovery_poll_def)
  qed
qed (use assms in \<open>auto simp: discover_peers_ok discover_subnet_peers_ok add_enr_def update_enr_tcp_port_def
      update_enr_quic_port_def update_enr_port_def update_enr_udp_socket_def publish_local_enr_def ban_peer_def
      unban_peer_def discovery_on_dial_failure_def discovery_disconnect_peer_def Let_def
      intro: discovery_ok_cong split: sum.splits option.splits prod.splits\<close>)

lemma discovery_run_ok: "discovery_ok (fst x) \<Longrightarrow> discovery_ok (fst (fold (discovery_exec E V) ops x))"
proof (induction ops arbitrary: x)
  case (Cons op ops)
  then show ?case using discovery_exec_ok [of "fst x" E V op "snd x"] by simp
qed simp

lemma discovery_new_ok:
  "discovery_new V node_id enr disable boot ports server start replies = Inr s \<Longrightarrow> discovery_ok s"
  by (auto simp: discovery_new_def bind_res_Inr_iff discovery_ok_def Let_def split: if_splits)


section \<open>Properties\<close>

text \<open>
  C36. Discovery runs at most one query. After any sequence of operations on a new discovery service
  there is no active query, or exactly the one search for peers that the flag announces, for at most
  sixteen peers; no subnet waits twice; and a poll empties the queue of subnet queries without starting
  a query for any of them.
\<close>

theorem discovery_queries:
  assumes "discovery_new V node_id enr disable boot ports server start replies = Inr s0"
    and "fold (discovery_exec E V) ops (s0, g0) = (s, g)"
  shows "length (active_queries s) \<le> 1 \<and> (find_peer_active s \<longleftrightarrow> active_queries s \<noteq> []) \<and>
    (\<forall>q \<in> set (active_queries s). snd q \<le> FIND_NODE_QUERY_CLOSEST_PEERS) \<and>
    distinct (map sq_subnet (queued_queries s)) \<and>
    (\<forall>now completed reply events r s' g'. started s \<and>
       discovery_poll E V now completed reply events s g = (r, s', g') \<longrightarrow>
       queued_queries s' = [] \<and> set (active_queries s') \<subseteq> set (active_queries s))"
proof -
  have ok: "discovery_ok s"
    using discovery_run_ok [of "(s0, g0)" E V ops] discovery_new_ok [OF assms(1)] assms(2) by simp
  then have "length (active_queries s) \<le> 1 \<and> (find_peer_active s \<longleftrightarrow> active_queries s \<noteq> []) \<and>
      (\<forall>q \<in> set (active_queries s). snd q \<le> FIND_NODE_QUERY_CLOSEST_PEERS) \<and>
      distinct (map sq_subnet (queued_queries s))"
    by (auto simp: discovery_ok_def split: if_splits)
  moreover have "queued_queries s' = [] \<and> set (active_queries s') \<subseteq> set (active_queries s)"
    if "started s" "discovery_poll E V now completed reply events s g = (r, s', g')"
    for now completed reply events r s' g'
    using discovery_poll_ok [OF ok that] by simp
  ultimately show ?thesis by blast
qed

lemma map_err_Inr_iff: "map_err f r = Inr v \<longleftrightarrow> r = Inr v"
  by (cases r) (auto simp: map_err_def)

text \<open>
  The sequence number of the stored record never goes back. If the file holds a record of the
  same node, the record in use afterwards is that record, unchanged and not written again, or the new
  one with the next sequence number, which is written; the number never wraps around, as the start
  fails instead.
\<close>

theorem stored_enr_sequence:
  assumes "es_from_str R text = Inr disk" "es_node_id R local = es_node_id R disk"
    and "\<And>e n e'. es_set_seq R e n = Inr e' \<Longrightarrow> es_seq R e' = n \<and> es_node_id R e' = es_node_id R e"
    and "use_or_load_enr E R local (Some (Inr text)) = Inr (enr, written)"
  shows "es_node_id R enr = es_node_id R disk \<and>
    (if compare_enr E R local disk then enr = disk \<and> written = None
     else unat (es_seq R enr) = Suc (unat (es_seq R disk)) \<and> written = Some enr)"
proof (cases "compare_enr E R local disk")
  case True
  with assms show ?thesis by (simp add: use_or_load_enr_def)
next
  case False
  with assms(1,2,4) obtain n where n: "checked_inc (es_seq R disk) = Some n" and
    enr: "es_set_seq R local n = Inr enr" "written = Some enr"
    by (auto simp: use_or_load_enr_def bind_res_Inr_iff ok_or_Inr_iff map_err_Inr_iff)
  then have "es_seq R disk \<noteq> - 1" "n = es_seq R disk + 1" by (auto simp: checked_inc_def split: if_splits)
  then have "n = 1 + es_seq R disk" "1 + es_seq R disk \<noteq> 0" by (simp_all add: add_eq_0_iff)
  then have "unat n = Suc (unat (es_seq R disk))" by (simp add: unatSuc)
  with False assms(2) assms(3) [OF enr(1)] enr(2) show ?thesis by simp
qed

section \<open>Examples\<close>

text \<open>Node records as pairs of a TCP port and a sequence number.\<close>

definition sample_records :: "(nat, u16 \<times> u64) EnrOps" where
  "sample_records = \<lparr>enr_ip4 = \<lambda>_. None, enr_ip6 = \<lambda>_. None, enr_udp4 = \<lambda>_. None, enr_udp6 = \<lambda>_. None,
     enr_tcp4 = \<lambda>e. Some (fst e), enr_tcp6 = \<lambda>_. None, enr_get_decodable = \<lambda>_ _. None,
     enr_peer_id = \<lambda>e. unat (fst e), peer_id_bytes = \<lambda>_. []\<rparr>"

definition sample_store :: "(u16 \<times> u64) EnrStoreOps" where
  "sample_store = \<lparr>es_node_id = \<lambda>_. 1, es_seq = snd, es_set_seq = \<lambda>e n. Inr (fst e, n), es_get = \<lambda>_ _. None,
     es_from_str = \<lambda>_. Inr (9000, 41)\<rparr>"

theorem stored_enr_sequence_witness:
  "use_or_load_enr sample_records sample_store (9001, 1) (Some (Inr ''stored'')) = Inr ((9001, 42), Some (9001, 42)) \<and>
   unat (es_seq sample_store (9001, 42)) = Suc (unat (es_seq sample_store (9000, 41)))"
proof -
  have "use_or_load_enr sample_records sample_store (9001, 1) (Some (Inr ''stored'')) = Inr ((9001, 42), Some (9001, 42))"
    by (simp add: use_or_load_enr_def sample_store_def sample_records_def compare_enr_def checked_inc_def
        ok_or_def map_err_def)
  moreover from stored_enr_sequence [OF _ _ _ this, of "(9000, 41)"]
  have "unat (es_seq sample_store (9001, 42)) = Suc (unat (es_seq sample_store (9000, 41)))"
    by (simp add: sample_store_def sample_records_def compare_enr_def)
  ultimately show ?thesis by blast
qed

definition sample_discovery_ops :: "(nat, u16 \<times> u64, nat, unit, nat list) DiscoveryOps" where
  "sample_discovery_ops = \<lparr>node_id_of = Inr, d5_local_enr = \<lambda>_. (9000, 1), d5_add_enr = \<lambda>d _. d,
     d5_table_entries_enr = \<lambda>_. [], d5_enr_insert = \<lambda>d _ _. Inr d, d5_update_local_enr_socket = \<lambda>d _ _. (True, d),
     d5_ban_node = \<lambda>d _. d, d5_remove_node = \<lambda>d _. d, d5_ban_ip = \<lambda>d _. d, d5_ban_node_remove = \<lambda>d _. d,
     d5_ban_ip_remove = \<lambda>d _. d, d5_disconnect_node = \<lambda>d _. d, lru_new = \<lambda>_. [], lru_put = \<lambda>c p _. p # c,
     lru_pop = \<lambda>c p. removeAll p c, lru_iter = \<lambda>_. []\<rparr>"

definition sample_discovery :: "(u16 \<times> u64, unit, nat list) Discovery" where
  "sample_discovery = \<lparr>cached_enrs = [], discv5 = (), find_peer_active = False, queued_queries = [],
     active_queries = [], event_stream = Awaiting, started = True, update_tcp_port = (True, True), saved_enrs = []\<rparr>"

definition sample_shared :: "(nat, u16 \<times> u64) NetworkGlobals" where
  "sample_shared = globals_new sample_records (9000, 1) \<lparr>seq_number = 1, supported_mempools = []\<rparr> [] False (\<lambda>_. 0)"

text \<open>Two searches and a subnet query: one search runs, and the poll drops the subnet query.\<close>

definition searching :: "(u16 \<times> u64, unit, nat list) Discovery" where
  "searching = \<lparr>cached_enrs = [], discv5 = (), find_peer_active = True,
     queued_queries = [\<lparr>sq_subnet = Mempool ''m'', sq_min_ttl = None, sq_retries = 0\<rparr>],
     active_queries = [(FindPeers, 16)], event_stream = Awaiting, started = True, update_tcp_port = (True, True),
     saved_enrs = []\<rparr>"

theorem discovery_queries_witness:
  "fold (discovery_exec sample_records sample_discovery_ops)
     [FindMore 40, FindMore 3, FindSubnets [\<lparr>sd_subnet = Mempool ''m'', sd_min_ttl = None\<rparr>]]
     (sample_discovery, sample_shared) = (searching, sample_shared) \<and>
   queued_queries (fst (snd (discovery_poll sample_records sample_discovery_ops 0 [] None [] searching sample_shared))) = []"
proof -
  have new: "discovery_new sample_discovery_ops (\<lambda>_. 1 :: nat) (9000, 1) False [] (None, None) (Inr ()) (Inr ()) [] =
      Inr sample_discovery"
    by (simp add: discovery_new_def sample_discovery_ops_def sample_discovery_def)
  have run: "fold (discovery_exec sample_records sample_discovery_ops)
     [FindMore 40, FindMore 3, FindSubnets [\<lparr>sd_subnet = Mempool ''m'', sd_min_ttl = None\<rparr>]]
     (sample_discovery, sample_shared) = (searching, sample_shared)"
    by (simp add: discover_peers_def start_query_def discover_subnet_peers_def add_subnet_query_def
        sample_discovery_def searching_def FIND_NODE_QUERY_CLOSEST_PEERS_def MAX_DISCOVERY_RETRY_def)
  obtain r s' g' where
    poll: "discovery_poll sample_records sample_discovery_ops 0 [] None [] searching sample_shared = (r, s', g')"
    by (cases "discovery_poll sample_records sample_discovery_ops 0 [] None [] searching sample_shared")
  moreover have "started searching" by (simp add: searching_def)
  ultimately have "queued_queries s' = []" using discovery_queries [OF new run] by blast
  with run poll show ?thesis by simp
qed

end
