(* ===== verification/Service.thy ===== *)
theory Service
  imports Rpc_Behaviour Discovery Peer_Manager
begin

text \<open>
  The network service of \<open>p2p_network/src/service\<close>: the requests and responses of the application
  (\<open>api_types.rs\<close>), the combined behaviour (\<open>behaviour.rs\<close>), start, the operations for the
  application, the reaction to the events of every sub-behaviour and \<open>poll_network\<close> (\<open>mod.rs\<close>), and the
  helpers of \<open>utils.rs\<close> and \<open>listen_addr.rs\<close> it uses. A network holds the states of the RPC behaviour,
  the peer manager, which owns the shared globals here, and discovery. Gossipsub and the list of
  blocked peers are of libp2p: their states are opaque and their operations are in \<open>NetOps\<close>. What the
  swarm yields is an argument, so is every clock reading; \<open>None\<close> is a panic.
\<close>

section \<open>Requests and responses of the application\<close>

type_synonym PeerRequestId = "ConnectionId \<times> SubstreamId"

datatype 'a RequestId = Application 'a | Internal

datatype Request =
    Status StatusMessage
  | PooledUserOpHashes PooledUserOpHashesRequest
  | PooledUserOpsByHash PooledUserOpsByHashRequest

fun outbound_from_request :: "Request \<Rightarrow> OutboundRequest" where
  "outbound_from_request (Request.PooledUserOpHashes r) = OutboundRequest.PooledUserOpHashes r"
| "outbound_from_request (Request.PooledUserOpsByHash r) = OutboundRequest.PooledUserOpsByHash r"
| "outbound_from_request (Request.Status s) = OutboundRequest.Status s"

datatype Response =
    Status StatusMessage
  | PooledUserOpHashes "PooledUserOpHashesMessage option"
  | PooledUserOpsByHash "PooledUserOpsByHashMessage option"

fun coded_from_response :: "Response \<Rightarrow> RPCCodedResponse" where
  "coded_from_response (Response.PooledUserOpHashes r) =
     (case r of
        Some b \<Rightarrow> Success (RPCResponse.PooledUserOpHashes b)
      | None \<Rightarrow> StreamTermination ResponseTermination.PooledUserOpHashes)"
| "coded_from_response (Response.PooledUserOpsByHash r) =
     (case r of
        Some b \<Rightarrow> Success (RPCResponse.PooledUserOpsByHash b)
      | None \<Rightarrow> StreamTermination ResponseTermination.PooledUserOpsByHash)"
| "coded_from_response (Response.Status s) = Success (RPCResponse.Status s)"

section \<open>The network\<close>

datatype ('a, 'p, 'm) NetworkEvent =
    PeerConnectedOutgoing 'p
  | PeerConnectedIncoming 'p
  | PeerDisconnected 'p
  | RPCFailed 'a 'p
  | RequestReceived 'p PeerRequestId Request
  | ResponseReceived 'p 'a Response
  | ResponseReceivedFromInternal 'p Response
  | PubsubMessage 'm 'p string PubsubMessage
  | StatusPeer 'p
  | NewListenAddr Multiaddr
  | ZeroListeners

datatype MessageAcceptance = Accept | Reject | Ignore

datatype PublishError = Duplicate | SigningError | InsufficientPeers | MessageTooLarge | TransformFailed

text \<open>
  The operations of libp2p the service calls. A topic of gossipsub is the name it is made of, which is
  also its hash (\<open>IdentTopic\<close>). \<open>cache_key\<close> is the key the queue of the gossip cache gives to a new entry.
\<close>

record ('p, 'r, 'h, 'n, 'd, 'c, 'g, 'b, 'm) NetOps =
  n_enr :: "('p, 'r) EnrOps"
  n_delay :: "('p, 'h) DelayOps"
  n_disc :: "('p, 'r, 'n, 'd, 'c) DiscoveryOps"
  n_ssz :: user_op_ssz
  n_text :: TextOps
  gs_subscribe :: "'g \<Rightarrow> string \<Rightarrow> (string + bool) \<times> 'g"
  gs_publish :: "'g \<Rightarrow> string \<Rightarrow> u8 list \<Rightarrow> (PublishError + 'm) \<times> 'g"
  gs_report :: "'g \<Rightarrow> 'm \<Rightarrow> 'p \<Rightarrow> MessageAcceptance \<Rightarrow> 'g"
  gs_peer_score :: "'g \<Rightarrow> 'p \<Rightarrow> f64 option"
  bl_block :: "'b \<Rightarrow> 'p \<Rightarrow> 'b"
  bl_unblock :: "'b \<Rightarrow> 'p \<Rightarrow> 'b"
  cache_key :: "GossipCache \<Rightarrow> queue_key"

record ('a, 'p, 'e, 'r, 'h, 'd, 'c, 'g, 'b) Network =
  eth2_rpc :: "('a RequestId, 'p, 'e) RPC"
  peer_manager :: "('p, 'r, 'h) PeerManager"
  net_discovery :: "('r, 'd, 'c) Discovery"
  net_gossipsub :: 'g
  net_blocked :: 'b
  net_cache :: GossipCache

abbreviation net_globals :: "('a, 'p, 'e, 'r, 'h, 'd, 'c, 'g, 'b) Network \<Rightarrow> ('p, 'r) NetworkGlobals" where
  "net_globals self \<equiv> network_globals (peer_manager self)"

abbreviation net_db :: "('a, 'p, 'e, 'r, 'h, 'd, 'c, 'g, 'b) Network \<Rightarrow> ('p, 'r) PeerDB" where
  "net_db self \<equiv> pm_db (peer_manager self)"

definition with_rpc ::
    "(('a RequestId, 'p, 'e) RPC \<Rightarrow> ('a RequestId, 'p, 'e) RPC) \<Rightarrow>
     ('a, 'p, 'e, 'r, 'h, 'd, 'c, 'g, 'b) Network \<Rightarrow> ('a, 'p, 'e, 'r, 'h, 'd, 'c, 'g, 'b) Network" where
  "with_rpc f self = self\<lparr>eth2_rpc := f (eth2_rpc self)\<rparr>"

definition with_pm ::
    "(('p, 'r, 'h) PeerManager \<Rightarrow> ('p, 'r, 'h) PeerManager) \<Rightarrow>
     ('a, 'p, 'e, 'r, 'h, 'd, 'c, 'g, 'b) Network \<Rightarrow> ('a, 'p, 'e, 'r, 'h, 'd, 'c, 'g, 'b) Network" where
  "with_pm f self = self\<lparr>peer_manager := f (peer_manager self)\<rparr>"

definition with_disc ::
    "(('r, 'd, 'c) Discovery \<Rightarrow> ('r, 'd, 'c) Discovery) \<Rightarrow>
     ('a, 'p, 'e, 'r, 'h, 'd, 'c, 'g, 'b) Network \<Rightarrow> ('a, 'p, 'e, 'r, 'h, 'd, 'c, 'g, 'b) Network" where
  "with_disc f self = self\<lparr>net_discovery := f (net_discovery self)\<rparr>"

text \<open>An operation of the peer manager that can panic.\<close>

definition try_pm ::
    "(('p, 'r, 'h) PeerManager \<Rightarrow> ('p, 'r, 'h) PeerManager option) \<Rightarrow>
     ('a, 'p, 'e, 'r, 'h, 'd, 'c, 'g, 'b) Network \<Rightarrow> ('a, 'p, 'e, 'r, 'h, 'd, 'c, 'g, 'b) Network option" where
  "try_pm f self = map_option (\<lambda>pm. self\<lparr>peer_manager := pm\<rparr>) (f (peer_manager self))"

section \<open>Gossip\<close>

definition subscribe ::
    "('p, 'r, 'h, 'n, 'd, 'c, 'g, 'b, 'm) NetOps \<Rightarrow> GossipTopic \<Rightarrow>
     ('a, 'p, 'e, 'r, 'h, 'd, 'c, 'g, 'b) Network \<Rightarrow> bool \<times> ('a, 'p, 'e, 'r, 'h, 'd, 'c, 'g, 'b) Network" where
  "subscribe N topic self =
     (let self = with_pm (\<lambda>pm. pm\<lparr>network_globals := (network_globals pm)
                   \<lparr>gossipsub_subscriptions := insert topic (gossipsub_subscriptions (network_globals pm))\<rparr>\<rparr>) self
      in case gs_subscribe N (net_gossipsub self) (topic_display topic) of
           (Inl e, g) \<Rightarrow> (False, self\<lparr>net_gossipsub := g\<rparr>)
         | (Inr _, g) \<Rightarrow> (True, self\<lparr>net_gossipsub := g\<rparr>))"

definition subscribe_kind ::
    "('p, 'r, 'h, 'n, 'd, 'c, 'g, 'b, 'm) NetOps \<Rightarrow> GossipKind \<Rightarrow> string \<Rightarrow>
     ('a, 'p, 'e, 'r, 'h, 'd, 'c, 'g, 'b) Network \<Rightarrow> bool \<times> ('a, 'p, 'e, 'r, 'h, 'd, 'c, 'g, 'b) Network" where
  "subscribe_kind N k mempool self = subscribe N (gossip_topic_new k gossip_encoding_default mempool) self"

definition publish_on ::
    "('p, 'r, 'h, 'n, 'd, 'c, 'g, 'b, 'm) NetOps \<Rightarrow> PubsubMessage \<Rightarrow> GossipTopic \<Rightarrow>
     ('a, 'p, 'e, 'r, 'h, 'd, 'c, 'g, 'b) Network \<Rightarrow> ('a, 'p, 'e, 'r, 'h, 'd, 'c, 'g, 'b) Network" where
  "publish_on N message topic self =
     (let message_data = pubsub_encode (n_ssz N) message gossip_encoding_default;
          (r, g) = gs_publish N (net_gossipsub self) (topic_display topic) message_data;
          self = self\<lparr>net_gossipsub := g\<rparr>
      in if r = Inl InsufficientPeers
         then self\<lparr>net_cache := gossip_cache_insert (net_cache self) topic message_data (cache_key N (net_cache self))\<rparr>
         else self)"

definition publish ::
    "('p, 'r, 'h, 'n, 'd, 'c, 'g, 'b, 'm) NetOps \<Rightarrow> PubsubMessage list \<Rightarrow> string list \<Rightarrow>
     ('a, 'p, 'e, 'r, 'h, 'd, 'c, 'g, 'b) Network \<Rightarrow> ('a, 'p, 'e, 'r, 'h, 'd, 'c, 'g, 'b) Network" where
  "publish N messages mempool_ids =
     fold (\<lambda>message.
             let topics = map (gossip_topic_new (message_kind message) gossip_encoding_default) mempool_ids
             in fold (publish_on N message) topics) messages"

definition report_message_validation_result ::
    "('p, 'r, 'h, 'n, 'd, 'c, 'g, 'b, 'm) NetOps \<Rightarrow> 'p \<Rightarrow> 'm \<Rightarrow> MessageAcceptance \<Rightarrow>
     ('a, 'p, 'e, 'r, 'h, 'd, 'c, 'g, 'b) Network \<Rightarrow> ('a, 'p, 'e, 'r, 'h, 'd, 'c, 'g, 'b) Network" where
  "report_message_validation_result N propagation_source message_id validation_result self =
     self\<lparr>net_gossipsub := gs_report N (net_gossipsub self) message_id propagation_source validation_result\<rparr>"

section \<open>RPC\<close>

definition net_send_request ::
    "instant \<Rightarrow> 'p \<Rightarrow> 'a \<Rightarrow> Request \<Rightarrow>
     ('a, 'p, 'e, 'r, 'h, 'd, 'c, 'g, 'b) Network \<Rightarrow> ('a, 'p, 'e, 'r, 'h, 'd, 'c, 'g, 'b) Network" where
  "net_send_request now peer_id request_id request =
     with_rpc (rpc_send_request now peer_id (Application request_id) (outbound_from_request request))"

definition get_all_peers :: "('a, 'p, 'e, 'r, 'h, 'd, 'c, 'g, 'b) Network \<Rightarrow> 'p list" where
  "get_all_peers self = map fst (peers (net_db self))"

text \<open>The request for pooled hashes goes to every peer of the database; each request reads the clock.\<close>

definition send_outbound_pooled_user_op_hashes_request_to_all_peers ::
    "('p \<Rightarrow> instant) \<Rightarrow>
     ('a, 'p, 'e, 'r, 'h, 'd, 'c, 'g, 'b) Network \<Rightarrow> ('a, 'p, 'e, 'r, 'h, 'd, 'c, 'g, 'b) Network" where
  "send_outbound_pooled_user_op_hashes_request_to_all_peers nows self =
     (let request = OutboundRequest.PooledUserOpHashes \<lparr>cursor = replicate 32 0\<rparr>
      in fold (\<lambda>p. with_rpc (rpc_send_request (nows p) p Internal request)) (get_all_peers self) self)"

definition net_send_response ::
    "'p \<Rightarrow> PeerRequestId \<Rightarrow> Response \<Rightarrow>
     ('a, 'p, 'e, 'r, 'h, 'd, 'c, 'g, 'b) Network \<Rightarrow> ('a, 'p, 'e, 'r, 'h, 'd, 'c, 'g, 'b) Network" where
  "net_send_response peer_id rid response = with_rpc (rpc_send_response peer_id rid (coded_from_response response))"

definition send_error_reponse ::
    "('p, 'r, 'h, 'n, 'd, 'c, 'g, 'b, 'm) NetOps \<Rightarrow> 'p \<Rightarrow> PeerRequestId \<Rightarrow> RPCResponseErrorCode \<Rightarrow> string \<Rightarrow>
     ('a, 'p, 'e, 'r, 'h, 'd, 'c, 'g, 'b) Network \<Rightarrow> ('a, 'p, 'e, 'r, 'h, 'd, 'c, 'g, 'b) Network" where
  "send_error_reponse N peer_id rid err reason =
     with_rpc (rpc_send_response peer_id rid (RPCCodedResponse.Error err (error_type_from (n_text N) reason)))"

definition local_ping :: "('a, 'p, 'e, 'r, 'h, 'd, 'c, 'g, 'b) Network \<Rightarrow> PingMessage" where
  "local_ping self = \<lparr>ping_data = seq_number (g_local_metadata (net_globals self))\<rparr>"

definition ping ::
    "instant \<Rightarrow> 'p \<Rightarrow>
     ('a, 'p, 'e, 'r, 'h, 'd, 'c, 'g, 'b) Network \<Rightarrow> ('a, 'p, 'e, 'r, 'h, 'd, 'c, 'g, 'b) Network" where
  "ping now peer_id self =
     with_rpc (rpc_send_request now peer_id Internal (OutboundRequest.Ping (local_ping self))) self"

definition pong ::
    "PeerRequestId \<Rightarrow> 'p \<Rightarrow>
     ('a, 'p, 'e, 'r, 'h, 'd, 'c, 'g, 'b) Network \<Rightarrow> ('a, 'p, 'e, 'r, 'h, 'd, 'c, 'g, 'b) Network" where
  "pong rid peer_id self = with_rpc (rpc_send_response peer_id rid (Success (RPCResponse.Pong (local_ping self)))) self"

definition send_meta_data_request ::
    "instant \<Rightarrow> 'p \<Rightarrow>
     ('a, 'p, 'e, 'r, 'h, 'd, 'c, 'g, 'b) Network \<Rightarrow> ('a, 'p, 'e, 'r, 'h, 'd, 'c, 'g, 'b) Network" where
  "send_meta_data_request now peer_id = with_rpc (rpc_send_request now peer_id Internal OutboundRequest.MetaData)"

definition send_meta_data_response ::
    "PeerRequestId \<Rightarrow> 'p \<Rightarrow>
     ('a, 'p, 'e, 'r, 'h, 'd, 'c, 'g, 'b) Network \<Rightarrow> ('a, 'p, 'e, 'r, 'h, 'd, 'c, 'g, 'b) Network" where
  "send_meta_data_response rid peer_id self =
     with_rpc (rpc_send_response peer_id rid
       (Success (RPCResponse.MetaData (g_local_metadata (net_globals self))))) self"

definition build_response ::
    "'a RequestId \<Rightarrow> 'p \<Rightarrow> Response \<Rightarrow> ('a, 'p, 'm) NetworkEvent option" where
  "build_response rid peer_id response =
     (case rid of
        Application i \<Rightarrow> Some (ResponseReceived peer_id i response)
      | Internal \<Rightarrow>
          (case response of
             Response.Status _ \<Rightarrow> None
           | Response.PooledUserOpHashes _ \<Rightarrow> Some (ResponseReceivedFromInternal peer_id response)
           | Response.PooledUserOpsByHash _ \<Rightarrow> Some (ResponseReceivedFromInternal peer_id response)))"

definition build_request ::
    "PeerRequestId \<Rightarrow> 'p \<Rightarrow> Request \<Rightarrow> ('a, 'p, 'm) NetworkEvent" where
  "build_request rid peer_id request = RequestReceived peer_id rid request"

section \<open>Peers and discovery\<close>

definition net_report_peer ::
    "('p, 'r, 'h, 'n, 'd, 'c, 'g, 'b, 'm) NetOps \<Rightarrow> instant \<Rightarrow> 'p \<Rightarrow> PeerAction \<Rightarrow> ReportSource \<Rightarrow>
     ('a, 'p, 'e, 'r, 'h, 'd, 'c, 'g, 'b) Network \<Rightarrow> ('a, 'p, 'e, 'r, 'h, 'd, 'c, 'g, 'b) Network option" where
  "net_report_peer N now peer_id act src =
     try_pm (\<lambda>pm. pm_report_peer (n_delay N) pm peer_id act src None now)"

definition net_goodbye_peer ::
    "('p, 'r, 'h, 'n, 'd, 'c, 'g, 'b, 'm) NetOps \<Rightarrow> instant \<Rightarrow> 'p \<Rightarrow> GoodbyeReason \<Rightarrow> ReportSource \<Rightarrow>
     ('a, 'p, 'e, 'r, 'h, 'd, 'c, 'g, 'b) Network \<Rightarrow> ('a, 'p, 'e, 'r, 'h, 'd, 'c, 'g, 'b) Network option" where
  "net_goodbye_peer N now peer_id reason src =
     try_pm (\<lambda>pm. goodbye_peer (n_delay N) pm peer_id reason src now)"

definition enr_entries ::
    "('p, 'r, 'h, 'n, 'd, 'c, 'g, 'b, 'm) NetOps \<Rightarrow>
     ('a, 'p, 'e, 'r, 'h, 'd, 'c, 'g, 'b) Network \<Rightarrow> 'r list" where
  "enr_entries N self = d5_table_entries_enr (n_disc N) (discv5 (net_discovery self))"

definition net_add_enr ::
    "('p, 'r, 'h, 'n, 'd, 'c, 'g, 'b, 'm) NetOps \<Rightarrow> 'r \<Rightarrow>
     ('a, 'p, 'e, 'r, 'h, 'd, 'c, 'g, 'b) Network \<Rightarrow> ('a, 'p, 'e, 'r, 'h, 'd, 'c, 'g, 'b) Network" where
  "net_add_enr N enr = with_disc (add_enr (n_enr N) (n_disc N) enr)"

definition net_discover_subnet_peers ::
    "SubnetDiscovery list \<Rightarrow>
     ('a, 'p, 'e, 'r, 'h, 'd, 'c, 'g, 'b) Network \<Rightarrow> ('a, 'p, 'e, 'r, 'h, 'd, 'c, 'g, 'b) Network" where
  "net_discover_subnet_peers subnets_to_discover self =
     (if \<not> started (net_discovery self) then self
      else
        let filtered = filter (\<lambda>s. \<not> length (good_peers_on_subnet (net_db self)) \<ge> TARGET_SUBNET_PEERS) subnets_to_discover
        in if filtered \<noteq> [] then with_disc (discover_subnet_peers filtered) self else self)"

text \<open>The filter of \<open>dial_cached_enrs_in_subnet\<close> answers \<open>None\<close> for every record.\<close>

definition dial_cached_enrs_in_subnet ::
    "('p, 'r, 'h, 'n, 'd, 'c, 'g, 'b, 'm) NetOps \<Rightarrow> Subnet \<Rightarrow>
     ('a, 'p, 'e, 'r, 'h, 'd, 'c, 'g, 'b) Network \<Rightarrow> ('a, 'p, 'e, 'r, 'h, 'd, 'c, 'g, 'b) Network" where
  "dial_cached_enrs_in_subnet N subnet self =
     (let peers_to_dial = List.map_filter (\<lambda>(_, enr). None) (lru_iter (n_disc N) (cached_enrs (net_discovery self)))
      in fold (\<lambda>enr self.
             with_pm (\<lambda>pm. dial_peer (n_enr N) pm enr)
               (with_disc (\<lambda>d. d\<lparr>cached_enrs := lru_pop (n_disc N) (cached_enrs d) (enr_peer_id (n_enr N) enr)\<rparr>) self))
           peers_to_dial self)"

section \<open>Events of the sub-behaviours\<close>

datatype ('p, 'm) GossipsubEvent =
    Message 'p 'm string "u8 list"
  | Subscribed 'p string
  | Unsubscribed 'p string
  | GossipsubNotSupported 'p

text \<open>The cached messages of a topic are published again, in order; a failure is only logged.\<close>

definition publish_cached ::
    "('p, 'r, 'h, 'n, 'd, 'c, 'g, 'b, 'm) NetOps \<Rightarrow> GossipTopic \<Rightarrow>
     ('a, 'p, 'e, 'r, 'h, 'd, 'c, 'g, 'b) Network \<Rightarrow> ('a, 'p, 'e, 'r, 'h, 'd, 'c, 'g, 'b) Network" where
  "publish_cached N topic self =
     (case gossip_cache_retrieve (net_cache self) topic of
        (None, cache) \<Rightarrow> self\<lparr>net_cache := cache\<rparr>
      | (Some msgs, cache) \<Rightarrow>
          self\<lparr>net_cache := cache,
               net_gossipsub := fold (\<lambda>data g. snd (gs_publish N g (topic_display topic) data)) msgs (net_gossipsub self)\<rparr>)"

definition inject_gs_event ::
    "('p, 'r, 'h, 'n, 'd, 'c, 'g, 'b, 'm) NetOps \<Rightarrow> instant \<Rightarrow> ('p, 'm) GossipsubEvent \<Rightarrow>
     ('a, 'p, 'e, 'r, 'h, 'd, 'c, 'g, 'b) Network \<Rightarrow>
     (('a, 'p, 'm) NetworkEvent option \<times> ('a, 'p, 'e, 'r, 'h, 'd, 'c, 'g, 'b) Network) option" where
  "inject_gs_event N now event self =
     (case event of
        Message propagation_source i topic data \<Rightarrow> do {
          decoded \<leftarrow> pubsub_decode (n_ssz N) topic data;
          Some (case decoded of
                  Inl e \<Rightarrow>
                    (None, self\<lparr>net_gossipsub := gs_report N (net_gossipsub self) i propagation_source Reject\<rparr>)
                | Inr msg \<Rightarrow> (Some (NetworkEvent.PubsubMessage i propagation_source topic msg), self))
        }
      | Subscribed peer_id topic \<Rightarrow> do {
          decoded \<leftarrow> topic_decode topic;
          Some (None, case decoded of Inr topic \<Rightarrow> publish_cached N topic self | Inl _ \<Rightarrow> self)
        }
      | Unsubscribed peer_id topic \<Rightarrow> do {
          subnet \<leftarrow> subnet_from_topic_hash topic;
          Some (None, self)
        }
      | GossipsubNotSupported peer_id \<Rightarrow>
          map_option (Pair None)
            (try_pm (\<lambda>pm. pm_report_peer (n_delay N) pm peer_id PeerAction.Fatal ReportSource.Gossipsub
               (Some GoodbyeReason.Unknown) now) self))"

definition inject_rpc_event ::
    "('p, 'r, 'h, 'n, 'd, 'c, 'g, 'b, 'm) NetOps \<Rightarrow> instant \<Rightarrow> ('a RequestId, 'p, 'e) RPCMessage \<Rightarrow>
     ('a, 'p, 'e, 'r, 'h, 'd, 'c, 'g, 'b) Network \<Rightarrow>
     (('a, 'p, 'm) NetworkEvent option \<times> ('a, 'p, 'e, 'r, 'h, 'd, 'c, 'g, 'b) Network) option" where
  "inject_rpc_event N now event self =
     (let peer_id = msg_peer_id event; handler_id = msg_conn_id event
      in if \<not> db_is_connected (net_db self) peer_id then Some (None, self)
         else case msg_event event of
           Inl (HandlerErr.Inbound _ proto err) \<Rightarrow>
             map_option (Pair None)
               (try_pm (\<lambda>pm. handle_rpc_error (n_delay N) pm peer_id proto err ConnectionDirection.Incoming now) self)
         | Inl (HandlerErr.Outbound i proto err) \<Rightarrow>
             map_option (Pair (case i of Application i \<Rightarrow> Some (RPCFailed i peer_id) | Internal \<Rightarrow> None))
               (try_pm (\<lambda>pm. handle_rpc_error (n_delay N) pm peer_id proto err ConnectionDirection.Outgoing now) self)
         | Inr (RPCReceived.Request i request) \<Rightarrow>
             let rid = (handler_id, i)
             in Some (case request of
                  InboundRequest.Ping p \<Rightarrow>
                    (None, pong rid peer_id (with_pm (\<lambda>pm. ping_request (n_delay N) pm peer_id (ping_data p) now) self))
                | InboundRequest.MetaData \<Rightarrow> (None, send_meta_data_response rid peer_id self)
                | InboundRequest.Goodbye reason \<Rightarrow> (None, self)
                | InboundRequest.Status msg \<Rightarrow>
                    (Some (build_request rid peer_id (Request.Status msg)),
                     with_pm (\<lambda>pm. peer_statusd (n_delay N) pm peer_id now) self)
                | InboundRequest.PooledUserOpHashes msg \<Rightarrow>
                    (Some (build_request rid peer_id (Request.PooledUserOpHashes msg)), self)
                | InboundRequest.PooledUserOpsByHash msg \<Rightarrow>
                    (Some (build_request rid peer_id (Request.PooledUserOpsByHash msg)), self))
         | Inr (RPCReceived.Response i resp) \<Rightarrow>
             Some (case resp of
                  RPCResponse.Pong p \<Rightarrow> (None, with_pm (\<lambda>pm. pong_response pm peer_id (ping_data p)) self)
                | RPCResponse.MetaData md \<Rightarrow>
                    (None, with_pm (\<lambda>pm. meta_data_response pm peer_id md) self)
                | RPCResponse.Status msg \<Rightarrow>
                    (build_response i peer_id (Response.Status msg),
                     with_pm (\<lambda>pm. peer_statusd (n_delay N) pm peer_id now) self)
                | RPCResponse.PooledUserOpHashes hashes \<Rightarrow>
                    (build_response i peer_id (Response.PooledUserOpHashes (Some hashes)), self)
                | RPCResponse.PooledUserOpsByHash ops \<Rightarrow>
                    (build_response i peer_id (Response.PooledUserOpsByHash (Some ops)), self))
         | Inr (RPCReceived.EndOfStream i termination) \<Rightarrow>
             Some (build_response i peer_id (Response.Status \<lparr>chain_id = 0, block_hash = 0, block_number = 0\<rparr>), self))"

definition MAX_IDENTIFY_ADDRESSES :: usize where "MAX_IDENTIFY_ADDRESSES = 10"

datatype 'p IdentifyEvent = Received 'p "Multiaddr list" string string | Sent | IdentifyError | Pushed

definition inject_identify_event ::
    "'p IdentifyEvent \<Rightarrow> ('a, 'p, 'e, 'r, 'h, 'd, 'c, 'g, 'b) Network \<Rightarrow>
     ('a, 'p, 'm) NetworkEvent option \<times> ('a, 'p, 'e, 'r, 'h, 'd, 'c, 'g, 'b) Network" where
  "inject_identify_event event self =
     (case event of
        Received peer_id listen_addrs protocol agent \<Rightarrow>
          let listen_addrs = (if length listen_addrs > MAX_IDENTIFY_ADDRESSES
                              then take MAX_IDENTIFY_ADDRESSES listen_addrs else listen_addrs)
          in (None, with_pm (\<lambda>pm. identify pm peer_id listen_addrs protocol agent) self)
      | _ \<Rightarrow> (None, self))"

definition inject_pm_event ::
    "('p, 'r, 'h, 'n, 'd, 'c, 'g, 'b, 'm) NetOps \<Rightarrow> instant \<Rightarrow> 'p PeerManagerEvent \<Rightarrow>
     ('a, 'p, 'e, 'r, 'h, 'd, 'c, 'g, 'b) Network \<Rightarrow>
     ('a, 'p, 'm) NetworkEvent option \<times> ('a, 'p, 'e, 'r, 'h, 'd, 'c, 'g, 'b) Network" where
  "inject_pm_event N now event self =
     (case event of
        PeerManagerEvent.PeerConnectedIncoming p \<Rightarrow> (Some (NetworkEvent.PeerConnectedIncoming p), self)
      | PeerManagerEvent.PeerConnectedOutgoing p \<Rightarrow> (Some (NetworkEvent.PeerConnectedOutgoing p), self)
      | PeerManagerEvent.PeerDisconnected p \<Rightarrow> (Some (NetworkEvent.PeerDisconnected p), self)
      | PeerManagerEvent.Banned p associated_ips \<Rightarrow>
          (None, with_disc (ban_peer (n_disc N) p associated_ips) (self\<lparr>net_blocked := bl_block N (net_blocked self) p\<rparr>))
      | PeerManagerEvent.UnBanned p associated_ips \<Rightarrow>
          (None, with_disc (unban_peer (n_disc N) p associated_ips)
                   (self\<lparr>net_blocked := bl_unblock N (net_blocked self) p\<rparr>))
      | PeerManagerEvent.Status p \<Rightarrow> (Some (StatusPeer p), self)
      | PeerManagerEvent.DiscoverPeers peers_to_find \<Rightarrow> (None, with_disc (discover_peers peers_to_find) self)
      | PeerManagerEvent.DiscoverSubnetPeers subnets \<Rightarrow> (None, net_discover_subnet_peers subnets self)
      | PeerManagerEvent.Ping p \<Rightarrow> (None, ping now p self)
      | PeerManagerEvent.MetaData p \<Rightarrow> (None, send_meta_data_request now p self)
      | PeerManagerEvent.DisconnectPeer p reason \<Rightarrow> (None, with_rpc (rpc_shutdown p Internal reason) self))"

section \<open>Polling\<close>

text \<open>
  What the swarm yields. Errors that are only printed have no contents; an event of a listener carries
  the number of listeners left.
\<close>

datatype ('a, 'p, 'e, 'r, 'm) SwarmEvent =
    Gossipsub "('p, 'm) GossipsubEvent"
  | Eth2Rpc "('a RequestId, 'p, 'e) RPCMessage"
  | DiscoveredPeers "('r \<times> instant option) list"
  | IdentifyBehaviour "'p IdentifyEvent"
  | PeerManagerBehaviour "'p PeerManagerEvent"
  | ConnectionEstablished
  | ConnectionClosed
  | IncomingConnection
  | IncomingConnectionError
  | OutgoingConnectionError
  | NewListenAddr Multiaddr
  | ExpiredListenAddr Multiaddr
  | ListenerClosed usize
  | ListenerError usize
  | Dialing

definition zero_listeners :: "usize \<Rightarrow> ('a, 'p, 'm) NetworkEvent option" where
  "zero_listeners n = (if n = 0 then Some ZeroListeners else None)"

definition on_network_event ::
    "('p, 'r, 'h, 'n, 'd, 'c, 'g, 'b, 'm) NetOps \<Rightarrow> instant \<Rightarrow> ('a, 'p, 'e, 'r, 'm) SwarmEvent \<Rightarrow>
     ('a, 'p, 'e, 'r, 'h, 'd, 'c, 'g, 'b) Network \<Rightarrow>
     (('a, 'p, 'm) NetworkEvent option \<times> ('a, 'p, 'e, 'r, 'h, 'd, 'c, 'g, 'b) Network) option" where
  "on_network_event N now event self =
     (case event of
        Gossipsub ge \<Rightarrow> inject_gs_event N now ge self
      | Eth2Rpc re \<Rightarrow> inject_rpc_event N now re self
      | DiscoveredPeers found \<Rightarrow> Some (None, with_pm (\<lambda>pm. peers_discovered (n_enr N) pm found now) self)
      | IdentifyBehaviour ie \<Rightarrow> Some (inject_identify_event ie self)
      | PeerManagerBehaviour pe \<Rightarrow> Some (inject_pm_event N now pe self)
      | SwarmEvent.NewListenAddr address \<Rightarrow> Some (Some (NetworkEvent.NewListenAddr address), self)
      | SwarmEvent.ListenerClosed n \<Rightarrow> Some (zero_listeners n, self)
      | SwarmEvent.ListenerError n \<Rightarrow> Some (zero_listeners n, self)
      | _ \<Rightarrow> Some (None, self))"

text \<open>
  The loop over the events of the swarm ends with the first event for the application. The result is
  that event, the events the swarm still has, and the network.
\<close>

fun poll_swarm ::
    "('p, 'r, 'h, 'n, 'd, 'c, 'g, 'b, 'm) NetOps \<Rightarrow> (('a, 'p, 'e, 'r, 'm) SwarmEvent \<times> instant) list \<Rightarrow>
     ('a, 'p, 'e, 'r, 'h, 'd, 'c, 'g, 'b) Network \<Rightarrow>
     (('a, 'p, 'm) NetworkEvent option \<times> (('a, 'p, 'e, 'r, 'm) SwarmEvent \<times> instant) list \<times>
      ('a, 'p, 'e, 'r, 'h, 'd, 'c, 'g, 'b) Network) option" where
  "poll_swarm N [] self = Some (None, [], self)"
| "poll_swarm N ((event, now) # events) self = do {
     (maybe_event, self) \<leftarrow> on_network_event N now event self;
     (case maybe_event of
        Some ev \<Rightarrow> Some (Some ev, events, self)
      | None \<Rightarrow> poll_swarm N events self)
   }"

text \<open>
  A tick of the score interval: the order in which equal scores are sorted and the clock readings of
  the update, per peer.
\<close>

record ('p, 'r) ScoreTick =
  tk_ties :: "('p \<times> 'r PeerInfo \<times> f64) list \<Rightarrow> ('p \<times> 'r PeerInfo \<times> f64) list"
  tk_nows :: "'p \<Rightarrow> instant"

primrec score_ticks ::
    "('p, 'r, 'h, 'n, 'd, 'c, 'g, 'b, 'm) NetOps \<Rightarrow> ('p, 'r) ScoreTick list \<Rightarrow>
     ('a, 'p, 'e, 'r, 'h, 'd, 'c, 'g, 'b) Network \<Rightarrow> ('a, 'p, 'e, 'r, 'h, 'd, 'c, 'g, 'b) Network option" where
  "score_ticks N [] self = Some self"
| "score_ticks N (t # ts) self = do {
     self \<leftarrow> try_pm (\<lambda>pm. pm_update_gossipsub_scores (n_delay N) (tk_ties t) (gs_peer_score N (net_gossipsub self))
               pm (tk_nows t)) self;
     score_ticks N ts self
   }"

text \<open>
  \<open>poll_network\<close>: the scores are updated and the expired entries of the gossip cache, the last argument,
  are dropped only when the swarm has nothing for the application.
\<close>

definition poll_network ::
    "('p, 'r, 'h, 'n, 'd, 'c, 'g, 'b, 'm) NetOps \<Rightarrow> (('a, 'p, 'e, 'r, 'm) SwarmEvent \<times> instant) list \<Rightarrow>
     ('p, 'r) ScoreTick list \<Rightarrow> (queue_key \<times> GossipTopic \<times> u8 list) list \<Rightarrow>
     ('a, 'p, 'e, 'r, 'h, 'd, 'c, 'g, 'b) Network \<Rightarrow>
     (('a, 'p, 'm) NetworkEvent option \<times> (('a, 'p, 'e, 'r, 'm) SwarmEvent \<times> instant) list \<times>
      ('a, 'p, 'e, 'r, 'h, 'd, 'c, 'g, 'b) Network) option" where
  "poll_network N events ticks expired self = do {
     (maybe_event, rest, self) \<leftarrow> poll_swarm N events self;
     (case maybe_event of
        Some ev \<Rightarrow> Some (Some ev, rest, self)
      | None \<Rightarrow> do {
          self \<leftarrow> score_ticks N ticks self;
          Some (None, rest, self\<lparr>net_cache := fold (\<lambda>e cache. snd (gossip_cache_expired cache e)) expired (net_cache self)\<rparr>)
        })
   }"

section \<open>Start\<close>

record 'ip ListenAddr =
  la_addr :: 'ip
  disc_port :: u16
  quic_port :: u16
  tcp_port :: u16

datatype ListenAddress =
    V4 "u32 ListenAddr"
  | V6 "128 word ListenAddr"
  | DualStack "u32 ListenAddr" "128 word ListenAddr"

fun v4 :: "ListenAddress \<Rightarrow> u32 ListenAddr option" where
  "v4 (ListenAddress.V4 a) = Some a"
| "v4 (DualStack a b) = Some a"
| "v4 (ListenAddress.V6 b) = None"

fun v6 :: "ListenAddress \<Rightarrow> 128 word ListenAddr option" where
  "v6 (ListenAddress.V6 b) = Some b"
| "v6 (DualStack a b) = Some b"
| "v6 (ListenAddress.V4 a) = None"

definition libp2p_addresses :: "ListenAddress \<Rightarrow> Multiaddr list" where
  "libp2p_addresses self =
     (let to_list = case_option [] (\<lambda>a. [a])
      in to_list (map_option (\<lambda>a. [Ip4 (la_addr a), Tcp (tcp_port a)]) (v4 self)) @
         to_list (map_option (\<lambda>a. [Ip4 (la_addr a), Udp (quic_port a), QuicV1]) (v4 self)) @
         to_list (map_option (\<lambda>a. [Ip6 (la_addr a), Udp (quic_port a), QuicV1]) (v6 self)) @
         to_list (map_option (\<lambda>a. [Ip6 (la_addr a), Tcp (tcp_port a)]) (v6 self)))"

definition strip_peer_id :: "Multiaddr \<Rightarrow> Multiaddr" where
  "strip_peer_id addr =
     (if addr = [] then []
      else case last addr of P2p _ \<Rightarrow> butlast addr | _ \<Rightarrow> addr)"

record 'r NetStart =
  ns_listen_addresses :: ListenAddress
  ns_disable_quic_support :: bool
  ns_libp2p_nodes :: "Multiaddr list"
  ns_boot_nodes_enr :: "'r list"
  ns_boot_nodes_multiaddr :: "Multiaddr list"
  ns_topics :: "string list"

text \<open>The loop over the addresses to listen on, for the answers of the swarm: it ends after the first success.\<close>

fun listen_loop :: "bool \<Rightarrow> (Multiaddr \<Rightarrow> bool) \<Rightarrow> Multiaddr list \<Rightarrow> string + Multiaddr list" where
  "listen_loop disable_quic listen_on [] = Inr []"
| "listen_loop disable_quic listen_on (a # as) =
     (if disable_quic \<and> QuicV1 \<in> set a then listen_loop disable_quic listen_on as
      else if listen_on a then Inr [a]
      else Inl ''Libp2p was unable to listen on the given listen address.'')"

text \<open>
  The addresses dialled for a boot node. The database does not change during the start, as the swarm
  only queues what is dialled; \<open>None\<close> when an address has no second component.
\<close>

definition dial_boot_node :: "('p, 'r) EnrOps \<Rightarrow> bool \<Rightarrow> ('p, 'r) PeerDB \<Rightarrow> 'r \<Rightarrow> Multiaddr list option" where
  "dial_boot_node E disable_quic db enr =
     (let skip = is_connected_or_dialing db (enr_peer_id E enr);
          quic = (if disable_quic \<or> skip then [] else multiaddr_quic E enr);
          addrs = multiaddr E enr
      in if list_all (\<lambda>a. length a \<ge> 2) addrs then
           Some (quic @ (if skip then [] else filter (\<lambda>a. case a ! 1 of Udp _ \<Rightarrow> False | _ \<Rightarrow> True) addrs))
         else None)"

text \<open>
  \<open>start\<close>: the addresses listened on, the addresses dialled, and the network after subscribing to the
  configured topics.
\<close>

definition start ::
    "('p, 'r, 'h, 'n, 'd, 'c, 'g, 'b, 'm) NetOps \<Rightarrow> (Multiaddr \<Rightarrow> bool) \<Rightarrow> 'r NetStart \<Rightarrow>
     ('a, 'p, 'e, 'r, 'h, 'd, 'c, 'g, 'b) Network \<Rightarrow>
     (string + Multiaddr list \<times> Multiaddr list \<times> ('a, 'p, 'e, 'r, 'h, 'd, 'c, 'g, 'b) Network) option" where
  "start N listen_on config self =
     (case listen_loop (ns_disable_quic_support config) listen_on (libp2p_addresses (ns_listen_addresses config)) of
        Inl e \<Rightarrow> Some (Inl e)
      | Inr listening \<Rightarrow> do {
          boot \<leftarrow> those (map (dial_boot_node (n_enr N) (ns_disable_quic_support config) (net_db self))
                           (remdups_adj (ns_boot_nodes_enr config)));
          let dialled = map strip_peer_id (ns_libp2p_nodes config @ concat boot @
                          filter (\<lambda>a. list_ex (\<lambda>c. case c of Tcp _ \<Rightarrow> True | _ \<Rightarrow> False) a) (ns_boot_nodes_multiaddr config));
          Some (Inr (listening, dialled,
            fold (\<lambda>t self. snd (subscribe_kind N GossipKind.VerifiedUserOperation t self)) (ns_topics config) self))
        })"

text \<open>
  \<open>load_or_build_metadata\<close>, for what reading the file gives and the derived decoder; the result is
  written back. The second attempt to decode is the first one again.
\<close>

definition load_or_build_metadata :: "(u8 list \<Rightarrow> 'x + MetaDataMessage) \<Rightarrow> u8 list option \<Rightarrow> MetaDataMessage" where
  "load_or_build_metadata metadata_dec metadata_file =
     (let meta = \<lparr>seq_number = 0, supported_mempools = []\<rparr>
      in case metadata_file of
           None \<Rightarrow> meta
         | Some metadata_ssz \<Rightarrow>
             (case metadata_dec metadata_ssz of
                Inr persisted \<Rightarrow>
                  let meta = meta\<lparr>seq_number := seq_number persisted\<rparr>
                  in if supported_mempools persisted \<noteq> supported_mempools meta
                     then meta\<lparr>seq_number := seq_number meta + 1\<rparr> else meta
              | Inl _ \<Rightarrow>
                  (case metadata_dec metadata_ssz of
                     Inr persisted \<Rightarrow> meta\<lparr>seq_number := seq_number persisted + 1\<rparr>
                   | Inl _ \<Rightarrow> meta)))"

section \<open>Construction\<close>

text \<open>The hard limits that the service gives to the swarm: incoming, outgoing and all connections.\<close>

definition swarm_limits :: "usize \<Rightarrow> usize \<times> usize \<times> usize" where
  "swarm_limits target_peers =
     (let saturate = min (2 ^ 32 - 1)
      in (saturate (scaled_ceil target_peers (rnd32 (rnd32 (1 + PEER_EXCESS_FACTOR) - MIN_OUTBOUND_ONLY_FACTOR))),
          saturate (scaled_ceil target_peers (rnd32 (1 + PEER_EXCESS_FACTOR))),
          saturate (scaled_ceil target_peers (rnd32 (rnd32 (1 + PEER_EXCESS_FACTOR) + PRIORITY_PEER_EXCESS)))))"

record ('p, 'r) NetConfig = "'r NetStart" +
  nc_trusted_peers :: "'p list"
  nc_disable_peer_scoring :: bool
  nc_disable_discovery :: bool
  nc_metrics_enabled :: bool
  nc_target_peers :: usize
  nc_inbound_rate_limiter_config :: "InboundRateLimiterConfig option"
  nc_outbound_rate_limiter_config :: "OutboundRateLimiterConfig option"

text \<open>
  \<open>Network::new\<close>. Arguments are what the crates outside answer: the node record or the error of
  building it, the new gossipsub behaviour, the discovery service (\<open>discovery_new\<close>), the transport, and
  the clock readings of the database and of the two rate limiters. The swarm is the network itself.
\<close>

definition network_new ::
    "('p, 'r, 'h, 'n, 'd, 'c, 'g, 'b, 'm) NetOps \<Rightarrow> (Multiaddr \<Rightarrow> bool) \<Rightarrow> ('p, 'r) NetConfig \<Rightarrow>
     string + 'r \<Rightarrow> MetaDataMessage \<Rightarrow> ('p \<Rightarrow> instant) \<Rightarrow> string + 'g \<Rightarrow> instant \<Rightarrow> instant \<Rightarrow>
     string + ('r, 'd, 'c) Discovery \<Rightarrow> 'b \<Rightarrow> string + unit \<Rightarrow>
     (string + Multiaddr list \<times> Multiaddr list \<times> ('a, 'p, 'e, 'r, 'h, 'd, 'c, 'g, 'b) Network) option" where
  "network_new N listen_on config enr_result meta nows gossipsub_result now now' discovery_result no_peers transport_result =
     (case bind_res enr_result (\<lambda>enr. bind_res gossipsub_result (\<lambda>g. Inr (enr, g))) of
        Inl e \<Rightarrow> Some (Inl e)
      | Inr (enr, g) \<Rightarrow> do {
          let globals = globals_new (n_enr N) enr meta (nc_trusted_peers config) (nc_disable_peer_scoring config) nows;
          let params = \<lparr>np_max_chunk_size = 1048576, np_ttfb_timeout = secs 1000 + 1000, np_resp_timeout = secs 1000 + 1000\<rparr>;
          rpc \<leftarrow> rpc_new (nc_inbound_rate_limiter_config config) (nc_outbound_rate_limiter_config config) params now now';
          (case bind_res discovery_result (\<lambda>d. bind_res transport_result (\<lambda>_. Inr d)) of
             Inl e \<Rightarrow> Some (Inl e)
           | Inr d \<Rightarrow>
               let cfg = pm_config_default\<lparr>cfg_discovery_enabled := \<not> nc_disable_discovery config,
                           cfg_metrics_enabled := nc_metrics_enabled config, cfg_target_peer_count := nc_target_peers config\<rparr>
               in start N listen_on (NetStart.truncate config)
                    \<lparr>eth2_rpc = rpc, peer_manager = pm_new (n_delay N) cfg globals,
                     net_discovery = discover_peers FIND_NODE_QUERY_CLOSEST_PEERS d, net_gossipsub = g,
                     net_blocked = no_peers, net_cache = build builder\<rparr>)
        })"

end
