(* ===== verification/Upnp.thy ===== *)
theory Upnp
  imports Service
begin

text \<open>
  Port mappings with UPnP (\<open>network_manager/src/nat.rs\<close>). The gateway is of the crate \<open>igd\<close>: its state
  is opaque and its two operations are in \<open>GatewayOps\<close>. The result of searching it, the interfaces of
  the machine and the message to the network service are an argument and a result.
\<close>

section \<open>Model\<close>

datatype PortMappingProtocol = TCP | UDP

datatype AddPortError = PortInUse | OtherAddError string

record 'gw GatewayOps =
  gw_add_port :: "'gw \<Rightarrow> PortMappingProtocol \<Rightarrow> u16 \<Rightarrow> u32 \<times> u16 \<Rightarrow> string \<Rightarrow> (AddPortError + unit) \<times> 'gw"
  gw_remove_port :: "'gw \<Rightarrow> PortMappingProtocol \<Rightarrow> u16 \<Rightarrow> (string + unit) \<times> 'gw"

record UPnPConfig =
  up_tcp_port :: u16
  up_disc_port :: u16
  up_quic_port :: u16
  up_disable_discovery :: bool
  up_disable_quic_support :: bool

record EstablishedUPnPMappings =
  map_tcp_port :: "u16 option"
  map_udp_quic_port :: "u16 option"
  map_udp_disc_port :: "u16 option"

definition no_mappings :: EstablishedUPnPMappings where
  "no_mappings = \<lparr>map_tcp_port = None, map_udp_quic_port = None, map_udp_disc_port = None\<rparr>"

definition mappings_is_some :: "EstablishedUPnPMappings \<Rightarrow> bool" where
  "mappings_is_some self \<longleftrightarrow>
     map_tcp_port self \<noteq> None \<or> map_udp_quic_port self \<noteq> None \<or> map_udp_disc_port self \<noteq> None"

definition udp_ports :: "EstablishedUPnPMappings \<Rightarrow> u16 list" where
  "udp_ports self =
     (case map_udp_quic_port self of Some p \<Rightarrow> [p] | None \<Rightarrow> []) @
     (case map_udp_disc_port self of Some p \<Rightarrow> [p] | None \<Rightarrow> [])"

definition upnp_from_config :: "ListenAddress \<Rightarrow> bool \<Rightarrow> bool \<Rightarrow> UPnPConfig option" where
  "upnp_from_config listen disable_discovery disable_quic =
     map_option (\<lambda>a. \<lparr>up_tcp_port = tcp_port a, up_disc_port = disc_port a, up_quic_port = quic_port a,
       up_disable_discovery = disable_discovery, up_disable_quic_support = disable_quic\<rparr>) (v4 listen)"

text \<open>\<open>add_port_mapping\<close>: at most the given number of attempts, two in the code.\<close>

primrec add_port_mapping ::
    "'gw GatewayOps \<Rightarrow> PortMappingProtocol \<Rightarrow> u32 \<times> u16 \<Rightarrow> string \<Rightarrow> nat \<Rightarrow> 'gw \<Rightarrow> bool \<times> 'gw" where
  "add_port_mapping G proto socket protocol_string 0 gw = (False, gw)"
| "add_port_mapping G proto socket protocol_string (Suc n) gw =
     (case gw_add_port G gw proto (snd socket) socket (''voltaire-'' @ protocol_string) of
        (Inr _, gw) \<Rightarrow> (True, gw)
      | (Inl PortInUse, gw) \<Rightarrow>
          (case gw_remove_port G gw proto (snd socket) of
             (Inr _, gw) \<Rightarrow> add_port_mapping G proto socket protocol_string n gw
           | (Inl _, gw) \<Rightarrow> (False, gw))
      | (Inl (OtherAddError _), gw) \<Rightarrow> (False, gw))"

text \<open>The first address that is neither of a loopback interface nor IPv6.\<close>

fun find_local_ip :: "(bool \<times> IpAddr) list \<Rightarrow> u32 option" where
  "find_local_ip [] = None"
| "find_local_ip ((loopback, ip) # interfaces) =
     (case (loopback, ip) of
        (False, IpAddr.V4 a) \<Rightarrow> Some a
      | _ \<Rightarrow> find_local_ip interfaces)"

definition construct_upnp_mappings ::
    "'gw GatewayOps \<Rightarrow> UPnPConfig \<Rightarrow> string + (bool \<times> IpAddr) list \<Rightarrow> 'gw \<Rightarrow> EstablishedUPnPMappings option \<times> 'gw" where
  "construct_upnp_mappings G config interfaces gw =
     (case interfaces of
        Inl e \<Rightarrow> (None, gw)
      | Inr interfaces \<Rightarrow>
          (case find_local_ip interfaces of
             None \<Rightarrow> (None, gw)
           | Some address \<Rightarrow>
               let (tcp, gw) = add_port_mapping G TCP (address, up_tcp_port config) ''tcp'' 2 gw;
                   (disc, gw) = (if \<not> up_disable_discovery config
                     then add_port_mapping G UDP (address, up_disc_port config) ''udp'' 2 gw else (False, gw));
                   (quic, gw) = (if \<not> up_disable_quic_support config
                     then add_port_mapping G UDP (address, up_quic_port config) ''udp'' 2 gw else (False, gw));
                   mappings = \<lparr>map_tcp_port = (if tcp then Some (up_tcp_port config) else None),
                     map_udp_quic_port = (if quic then Some (up_quic_port config) else None),
                     map_udp_disc_port = (if disc then Some (up_disc_port config) else None)\<rparr>
               in (if mappings_is_some mappings then Some mappings else None, gw)))"

text \<open>\<open>remove_mappings\<close>, for the gateway that the search finds.\<close>

definition remove_mappings :: "'gw GatewayOps \<Rightarrow> EstablishedUPnPMappings \<Rightarrow> 'gw \<Rightarrow> 'gw" where
  "remove_mappings G mappings gw =
     (if mappings_is_some mappings then
        fold (\<lambda>p gw. snd (gw_remove_port G gw UDP p)) (udp_ports mappings)
          (case map_tcp_port mappings of Some p \<Rightarrow> snd (gw_remove_port G gw TCP p) | None \<Rightarrow> gw)
      else gw)"

section \<open>Mappings are given back\<close>

text \<open>
  What is used of a gateway: the ports it maps. An addition or removal changes no other port; if it
  succeeds, the port is mapped or not mapped. Nothing is said about the port when it fails.
\<close>

definition gateway_laws :: "'gw GatewayOps \<Rightarrow> ('gw \<Rightarrow> (PortMappingProtocol \<times> u16) set) \<Rightarrow> bool" where
  "gateway_laws G ports \<longleftrightarrow>
     (\<forall>gw proto p a s r gw'. gw_add_port G gw proto p a s = (r, gw') \<longrightarrow>
        ports gw' - {(proto, p)} = ports gw - {(proto, p)} \<and> (r = Inr () \<longrightarrow> (proto, p) \<in> ports gw')) \<and>
     (\<forall>gw proto p r gw'. gw_remove_port G gw proto p = (r, gw') \<longrightarrow>
        ports gw' - {(proto, p)} = ports gw - {(proto, p)} \<and> (r = Inr () \<longrightarrow> (proto, p) \<notin> ports gw'))"

lemma add_laws:
  assumes "gateway_laws G ports" "gw_add_port G gw proto p a s = (r, gw')"
  shows "ports gw' - {(proto, p)} = ports gw - {(proto, p)}" "r = Inr () \<Longrightarrow> (proto, p) \<in> ports gw'"
  using assms(1) [unfolded gateway_laws_def, THEN conjunct1, rule_format, OF assms(2)] by simp_all

lemma remove_laws:
  assumes "gateway_laws G ports" "gw_remove_port G gw proto p = (r, gw')"
  shows "ports gw' - {(proto, p)} = ports gw - {(proto, p)}" "r = Inr () \<Longrightarrow> (proto, p) \<notin> ports gw'"
  using assms(1) [unfolded gateway_laws_def, THEN conjunct2, rule_format, OF assms(2)] by simp_all

lemma add_port_mapping_ports:
  assumes "gateway_laws G ports" "add_port_mapping G proto socket name n gw = (ok, gw')"
  shows "ports gw' - {(proto, snd socket)} = ports gw - {(proto, snd socket)} \<and> (ok \<longrightarrow> (proto, snd socket) \<in> ports gw')"
  using assms(2)
proof (induction n arbitrary: gw)
  case (Suc n)
  obtain r gw1 where add: "gw_add_port G gw proto (snd socket) socket (''voltaire-'' @ name) = (r, gw1)" by fastforce
  obtain r2 gw2 where rem: "gw_remove_port G gw1 proto (snd socket) = (r2, gw2)" by fastforce
  note ports = add_laws [OF assms(1) add] remove_laws [OF assms(1) rem]
  show ?case
  proof (cases "r = Inl PortInUse \<and> (\<exists>u. r2 = Inr u)")
    case True
    then have "add_port_mapping G proto socket name n gw2 = (ok, gw')" using Suc.prems add rem by auto
    from Suc.IH [OF this] ports show ?thesis by simp
  next
    case False
    with Suc.prems add rem ports show ?thesis by (auto split: sum.splits AddPortError.splits)
  qed
qed simp

text \<open>The ports that the configuration asks for, and those a record of mappings claims.\<close>

definition wanted_ports :: "UPnPConfig \<Rightarrow> (PortMappingProtocol \<times> u16) set" where
  "wanted_ports config = {(TCP, up_tcp_port config)} \<union>
     (if up_disable_discovery config then {} else {(UDP, up_disc_port config)}) \<union>
     (if up_disable_quic_support config then {} else {(UDP, up_quic_port config)})"

definition claimed :: "EstablishedUPnPMappings \<Rightarrow> (PortMappingProtocol \<times> u16) set" where
  "claimed m = (case map_tcp_port m of Some p \<Rightarrow> {(TCP, p)} | None \<Rightarrow> {}) \<union> Pair UDP ` set (udp_ports m)"

lemma mapped_if_wanted:
  assumes "gateway_laws G ports" "(if \<not> off then add_port_mapping G proto (a, p) name n gw else (False, gw)) = (ok, gw')"
  shows "off \<or> x \<noteq> (proto, p) \<Longrightarrow> x \<in> ports gw' \<longleftrightarrow> x \<in> ports gw" "ok \<Longrightarrow> \<not> off" "ok \<Longrightarrow> (proto, p) \<in> ports gw'"
proof -
  have "\<not> off \<Longrightarrow> ports gw' - {(proto, p)} = ports gw - {(proto, p)} \<and> (ok \<longrightarrow> (proto, p) \<in> ports gw')"
    using assms(2) add_port_mapping_ports [OF assms(1), of proto "(a, p)" name n gw ok gw'] by simp
  with assms(2) show "off \<or> x \<noteq> (proto, p) \<Longrightarrow> x \<in> ports gw' \<longleftrightarrow> x \<in> ports gw" "ok \<Longrightarrow> \<not> off"
    "ok \<Longrightarrow> (proto, p) \<in> ports gw'" by (auto split: if_splits)
qed

lemma construct_ports:
  assumes laws: "gateway_laws G ports" and "construct_upnp_mappings G config interfaces gw = (m, gw1)"
  shows "claimed (unwrap_or m no_mappings) \<subseteq> wanted_ports config \<and>
    (up_disc_port config \<noteq> up_quic_port config \<longrightarrow> claimed (unwrap_or m no_mappings) \<subseteq> ports gw1) \<and>
    ports gw1 - wanted_ports config = ports gw - wanted_ports config"
    (is "?claimed \<subseteq> ?wanted \<and> _ \<and> _")
proof (cases "case interfaces of Inl _ \<Rightarrow> None | Inr is \<Rightarrow> find_local_ip is")
  case None
  then have "m = None" "gw1 = gw" using assms(2) by (auto simp: construct_upnp_mappings_def split: sum.splits)
  then show ?thesis by (simp add: claimed_def no_mappings_def udp_ports_def unwrap_or_def)
next
  case (Some a)
  obtain tcp g1 where t: "add_port_mapping G TCP (a, up_tcp_port config) ''tcp'' 2 gw = (tcp, g1)" by fastforce
  obtain disc g2 where d: "(if \<not> up_disable_discovery config
      then add_port_mapping G UDP (a, up_disc_port config) ''udp'' 2 g1 else (False, g1)) = (disc, g2)" by fastforce
  obtain quic g3 where q: "(if \<not> up_disable_quic_support config
      then add_port_mapping G UDP (a, up_quic_port config) ''udp'' 2 g2 else (False, g2)) = (quic, g3)" by fastforce
  let ?m = "\<lparr>map_tcp_port = (if tcp then Some (up_tcp_port config) else None),
      map_udp_quic_port = (if quic then Some (up_quic_port config) else None),
      map_udp_disc_port = (if disc then Some (up_disc_port config) else None)\<rparr>"
  have "construct_upnp_mappings G config interfaces gw = (if mappings_is_some ?m then Some ?m else None, g3)"
    using Some by (auto simp: construct_upnp_mappings_def t d q split: sum.splits)
  then have m: "gw1 = g3" "unwrap_or m no_mappings = ?m"
    using assms(2) by (auto simp: mappings_is_some_def no_mappings_def unwrap_or_def)
  have c: "claimed ?m = (if tcp then {(TCP, up_tcp_port config)} else {}) \<union>
      (if quic then {(UDP, up_quic_port config)} else {}) \<union> (if disc then {(UDP, up_disc_port config)} else {})"
    by (simp add: claimed_def udp_ports_def)
  have t': "(if \<not> False then add_port_mapping G TCP (a, up_tcp_port config) ''tcp'' 2 gw else (False, gw)) = (tcp, g1)"
    using t by simp
  note same = mapped_if_wanted(1) [OF laws t'] mapped_if_wanted(1) [OF laws d] mapped_if_wanted(1) [OF laws q]
  note ok = mapped_if_wanted(2,3) [OF laws t'] mapped_if_wanted(2,3) [OF laws d] mapped_if_wanted(2,3) [OF laws q]
  have "?claimed \<subseteq> ?wanted" using ok(3,5) by (simp add: m c wanted_ports_def)
  moreover have "?claimed \<subseteq> ports gw1" if "up_disc_port config \<noteq> up_quic_port config"
    using that ok(2,4,6) same(2) [of "(TCP, up_tcp_port config)"] same(3) [of "(TCP, up_tcp_port config)"]
      same(3) [of "(UDP, up_disc_port config)"] by (simp add: m c)
  moreover have "x \<in> ports gw1 \<longleftrightarrow> x \<in> ports gw" if "x \<notin> ?wanted" for x
    using that same [of x] by (simp add: m wanted_ports_def split: if_splits)
  ultimately show ?thesis by blast
qed

text \<open>A port the gateway refuses to unmap, at some time.\<close>

definition refused_port :: "'gw GatewayOps \<Rightarrow> PortMappingProtocol \<times> u16 \<Rightarrow> bool" where
  "refused_port G x \<longleftrightarrow> (\<exists>gw e gw'. gw_remove_port G gw (fst x) (snd x) = (Inl e, gw'))"

lemma removed_port:
  assumes "gateway_laws G ports"
  shows "ports (snd (gw_remove_port G gw proto p)) - {(proto, p)} = ports gw - {(proto, p)}"
    "(proto, p) \<in> ports (snd (gw_remove_port G gw proto p)) \<Longrightarrow> refused_port G (proto, p)"
proof -
  obtain r gw' where r: "gw_remove_port G gw proto p = (r, gw')" by fastforce
  show "ports (snd (gw_remove_port G gw proto p)) - {(proto, p)} = ports gw - {(proto, p)}"
    using remove_laws(1) [OF assms r] r by simp
  show "(proto, p) \<in> ports (snd (gw_remove_port G gw proto p)) \<Longrightarrow> refused_port G (proto, p)"
    using remove_laws(2) [OF assms r] r by (cases r) (auto simp: refused_port_def)
qed

lemma removed_ports:
  assumes "gateway_laws G ports"
  shows "ports (fold (\<lambda>x gw. snd (gw_remove_port G gw (fst x) (snd x))) xs gw) - set xs = ports gw - set xs \<and>
    (\<forall>x \<in> set xs. x \<in> ports (fold (\<lambda>x gw. snd (gw_remove_port G gw (fst x) (snd x))) xs gw) \<longrightarrow> refused_port G x)"
proof (induction xs arbitrary: gw)
  case (Cons x xs)
  from Cons.IH [of "snd (gw_remove_port G gw (fst x) (snd x))"] removed_port [OF assms, where gw = gw and proto = "fst x" and p = "snd x"]
  show ?case by auto
qed simp

lemma remove_mappings_ports:
  assumes "gateway_laws G ports"
  shows "ports (remove_mappings G m gw) - claimed m = ports gw - claimed m"
    "x \<in> claimed m \<Longrightarrow> x \<in> ports (remove_mappings G m gw) \<Longrightarrow> refused_port G x"
proof -
  define xs where "xs = (case map_tcp_port m of Some p \<Rightarrow> [(TCP, p)] | None \<Rightarrow> []) @ map (Pair UDP) (udp_ports m)"
  have "set xs = claimed m" by (auto simp: xs_def claimed_def split: option.split)
  moreover have "xs = []" if "\<not> mappings_is_some m"
    using that by (simp add: xs_def mappings_is_some_def udp_ports_def)
  then have "remove_mappings G m gw = fold (\<lambda>x gw. snd (gw_remove_port G gw (fst x) (snd x))) xs gw"
    by (auto simp: remove_mappings_def xs_def fold_map comp_def split: option.split)
  ultimately show "ports (remove_mappings G m gw) - claimed m = ports gw - claimed m"
    "x \<in> claimed m \<Longrightarrow> x \<in> ports (remove_mappings G m gw) \<Longrightarrow> refused_port G x"
    using removed_ports [OF assms, of xs gw] by auto
qed


text \<open>A gateway that maps what it is asked for, and on which the TCP port is in use.\<close>

definition sample_gateway :: "(PortMappingProtocol \<times> u16) set GatewayOps" where
  "sample_gateway = \<lparr>gw_add_port = \<lambda>gw proto p a s.
       if (proto, p) \<in> gw then (Inl PortInUse, gw) else (Inr (), insert (proto, p) gw),
     gw_remove_port = \<lambda>gw proto p. (Inr (), gw - {(proto, p)})\<rparr>"

definition sample_upnp :: UPnPConfig where
  "sample_upnp = \<lparr>up_tcp_port = 9000, up_disc_port = 9000, up_quic_port = 9001, up_disable_discovery = False,
     up_disable_quic_support = True\<rparr>"


end
