(* ===== verification/Bundler_Link.thy ===== *)
theory Bundler_Link
  imports Service
begin

text \<open>
  The sockets between the network service and the bundler (\<open>network_manager/src/main_bundler.rs\<close>):
  the messages of both directions and their frames, a little-endian length of four bytes and the
  pickled message. Pickling is of the crate \<open>serde_pickle\<close> and a parameter; what a socket does is an
  argument, a list of what each turn of the reading loop meets.
\<close>

section \<open>Messages\<close>

record GossibMessageToReceiveFromMainBundler =
  gm_topics :: "string list"
  gm_verified_useroperation :: VerifiedUserOperation

record PooledUserOpHashesRequestFromBundler =
  hr_id :: string
  hr_peer_id :: string
  hr_pooled_user_op_hashes_request :: PooledUserOpHashesRequest

record PooledUserOpsByHashRequestFromBundler =
  or_id :: string
  or_peer_id :: string
  or_pooled_user_ops_by_hash_request :: PooledUserOpsByHashRequest

datatype MessageTypeFromBundler =
    GossibMessageFromBundler GossibMessageToReceiveFromMainBundler
  | PooledUserOpHashesRequestFromBundler PooledUserOpHashesRequestFromBundler
  | PooledUserOpsByHashRequestFromBundler PooledUserOpsByHashRequestFromBundler

record GossibMessageToSendToMainBundler =
  gs_peer_id :: string
  gs_topic :: string
  gs_verified_useroperation :: VerifiedUserOperation

record PooledUserOpHashesAndPeerId =
  ph_peer_id :: string
  ph_pooled_user_op_hashes :: PooledUserOpHashesMessage

datatype MessageTypeToBundler =
    GossibMessageToBundler GossibMessageToSendToMainBundler
  | PooledUserOpHashesRequestToBundler PooledUserOpHashesRequest
  | PooledUserOpsByHashRequestToBundler PooledUserOpsByHashRequest
  | PooledUserOpHashesResponseToBundler PooledUserOpHashesAndPeerId
  | PooledUserOpsByHashResponseToBundler PooledUserOpsByHashMessage
  | StatusToBundler

record BundlerGossibRequest =
  request_type :: string
  request_arguments :: MessageTypeToBundler

section \<open>Frames\<close>

text \<open>The bytes written for a message: its length as \<open>u32\<close>, which wraps around, and the message.\<close>

definition message_frame :: "u8 list \<Rightarrow> u8 list" where
  "message_frame main_message_bytes =
     le_bytes 4 (length main_message_bytes mod 2 ^ 32) @ main_message_bytes"

text \<open>
  A turn of the reading loop: \<open>ready\<close> fails, the socket is not readable, the read fails, or it hands
  over at most the given number of bytes.
\<close>

datatype ReadTurn = ReadyError | NotReadable | ReadError | ReadSome nat

text \<open>
  \<open>listen_to_stream\<close>: the buffer after the first read that succeeds, whatever it read. The result
  also has the remaining turns and bytes; \<open>None\<close> while the loop waits.
\<close>

fun listen_to_stream :: "nat \<Rightarrow> ReadTurn list \<Rightarrow> u8 list \<Rightarrow> (u8 list \<times> ReadTurn list \<times> u8 list) option" where
  "listen_to_stream result_length [] bytes = None"
| "listen_to_stream result_length (ReadSome k # turns) bytes =
     (let got = take (min result_length k) bytes
      in Some (got @ replicate (result_length - length got) 0, turns, drop (length got) bytes))"
| "listen_to_stream result_length (_ # turns) bytes = listen_to_stream result_length turns bytes"

text \<open>The reading half of \<open>listen_to_main_bundler\<close> and of \<open>broadcast_and_listen_for_response_from_main_bundler\<close>.\<close>

definition listen_frame :: "ReadTurn list \<Rightarrow> u8 list \<Rightarrow> u8 list option" where
  "listen_frame turns bytes = do {
     (message_length_read, turns, bytes) \<leftarrow> listen_to_stream 4 turns bytes;
     (main_message, turns, bytes) \<leftarrow> listen_to_stream (le_value message_length_read) turns bytes;
     Some main_message
   }"

text \<open>
  What happens to the socket on which the node listens: whether a file is left over, whether it can be
  removed, whether the socket can be bound, and whether a connection is accepted, fails or is awaited.
\<close>

record SocketTurn =
  st_exists :: bool
  st_removed :: bool
  st_bound :: bool
  st_accepted :: "bool option"

text \<open>
  \<open>listen_to_main_bundler\<close>: a panic (\<open>None\<close>) when one of the three \<open>unwrap\<close>s fails, \<open>Some None\<close> while it
  waits for a connection or for the bytes of a message.
\<close>

definition listen_to_main_bundler ::
    "(u8 list \<Rightarrow> 'x + MessageTypeFromBundler) \<Rightarrow> SocketTurn \<Rightarrow> ReadTurn list \<Rightarrow> u8 list \<Rightarrow>
     ('x + MessageTypeFromBundler) option option" where
  "listen_to_main_bundler from_slice socket turns bytes =
     (if st_exists socket \<and> \<not> st_removed socket then None
      else if \<not> st_bound socket then None
      else case st_accepted socket of
             None \<Rightarrow> Some None
           | Some False \<Rightarrow> None
           | Some True \<Rightarrow> Some (map_option from_slice (listen_frame turns bytes)))"

text \<open>
  Writing to the bundler: the frame that is written. It is a panic (\<open>None\<close>) when the bundler cannot be
  connected to, the message cannot be pickled, or writing fails. Then possibly the answer; \<open>None\<close> also
  stands for waiting for it.
\<close>

definition broadcast_to_main_bundler ::
    "(BundlerGossibRequest \<Rightarrow> 'x + u8 list) \<Rightarrow> bool \<Rightarrow> bool \<Rightarrow> BundlerGossibRequest \<Rightarrow> u8 list option" where
  "broadcast_to_main_bundler to_vec reachable writable message_to_send =
     (if \<not> reachable then None
      else do {
        serialized \<leftarrow> expect (to_vec message_to_send);
        (if writable then Some (message_frame serialized) else None)
      })"

definition broadcast_and_listen_for_response_from_main_bundler ::
    "(BundlerGossibRequest \<Rightarrow> 'x + u8 list) \<Rightarrow> bool \<Rightarrow> bool \<Rightarrow> ReadTurn list \<Rightarrow> u8 list \<Rightarrow> BundlerGossibRequest \<Rightarrow>
     (u8 list \<times> u8 list) option" where
  "broadcast_and_listen_for_response_from_main_bundler to_vec reachable writable turns answer message_to_send = do {
     written \<leftarrow> broadcast_to_main_bundler to_vec reachable writable message_to_send;
     response \<leftarrow> listen_frame turns answer;
     Some (written, response)
   }"

section \<open>A frame is read back\<close>

definition waits :: "ReadTurn list \<Rightarrow> bool" where
  "waits turns \<longleftrightarrow> list_all (\<lambda>t. case t of ReadSome _ \<Rightarrow> False | _ \<Rightarrow> True) turns"

lemma listen_waits: "waits ws \<Longrightarrow> listen_to_stream n (ws @ turns) bytes = listen_to_stream n turns bytes"
proof (induction ws)
  case (Cons w ws)
  then show ?case by (cases w) (simp_all add: waits_def)
qed simp

text \<open>
  C33. Frames of the sockets. A message of fewer than \<open>2 ^ 32\<close> bytes whose length arrives in one read
  is handed over as the first read of its body left it: the bytes that read delivered, followed by
  zeros. So it is read back as it was written if the body arrives in one read, however often the
  socket was not ready before, and a body that arrives in parts is replaced by one that ends in zeros.
\<close>

theorem frame_read_back:
  assumes "length m < 2 ^ 32" "waits ws" "waits vs" "4 \<le> j"
  shows "listen_frame (ws @ ReadSome j # vs @ ReadSome k # turns) (message_frame m) =
      Some (take k m @ replicate (length m - k) 0) \<and>
    (length m \<le> k \<longrightarrow> listen_frame (ws @ ReadSome j # vs @ ReadSome k # turns) (message_frame m) = Some m)"
proof -
  have "le_value (le_bytes 4 (length m mod 2 ^ 32)) = length m" using assms(1) by (simp add: le_value_le_bytes)
  then have "listen_frame (ws @ ReadSome j # vs @ ReadSome k # turns) (message_frame m) =
      Some (take k m @ replicate (length m - k) 0)"
    using assms by (simp add: listen_frame_def message_frame_def listen_waits Let_def min_def)
  then show ?thesis by simp
qed

theorem frame_read_back_witness:
  "listen_frame [NotReadable, ReadSome 4, ReadError, ReadSome 9] (message_frame [7, 8, 9]) = Some [7, 8, 9] \<and>
   listen_frame [NotReadable, ReadSome 4, ReadError, ReadSome 1] (message_frame [7, 8, 9]) = Some [7, 0, 0]"
  using frame_read_back [of "[7, 8, 9]" "[NotReadable]" "[ReadError]" 4 9 "[]"]
    frame_read_back [of "[7, 8, 9]" "[NotReadable]" "[ReadError]" 4 1 "[]"]
  by (simp add: waits_def)

end
