(* ===== verification/Network_Manager.thy ===== *)
theory Network_Manager
  imports Upnp Bundler_Link
begin

text \<open>
  The crate \<open>network_manager\<close>: the router of messages (\<open>router.rs\<close>) and the task that joins the network
  service, the router and the bundler (\<open>service.rs\<close>). The unbounded channels between them are lists, in
  order. Each branch of the \<open>select!\<close> loop is an operation on the node; clock readings and what the
  socket of the bundler does are arguments; \<open>None\<close> is a panic or waiting for ever for the bundler to answer.
\<close>

section \<open>Messages\<close>

datatype ManagerRequestId = FromMainBundler "128 word" | Router

datatype ('p, 'm) NetworkMessage =
    SubscribeCoreTopics
  | SendRequest 'p Request ManagerRequestId
  | SendResponse 'p Response PeerRequestId
  | SendErrorResponse 'p RPCResponseErrorCode string PeerRequestId
  | Publish "PubsubMessage list" "string list"
  | ValidationResult 'p 'm MessageAcceptance
  | UPnPMappingEstablished EstablishedUPnPMappings
  | ReportPeer 'p PeerAction ReportSource
  | GoodbyePeer 'p GoodbyeReason ReportSource
  | PooledUserOpHashesRequestMessageToAllPeers PooledUserOpHashesRequest
  | PooledUserOpHashesRequestMessage "128 word" string PooledUserOpHashesRequest
  | PooledUserOpsByHashRequestMessage "128 word" string PooledUserOpsByHashRequest
  | PooledUserOpHashesRequestS 'p PeerRequestId PooledUserOpHashesRequest
  | PooledUserOpsByHashRequestS 'p PeerRequestId PooledUserOpsByHashRequest
  | PooledUserOpHashesResponseS 'p ManagerRequestId PooledUserOpHashesMessage
  | PooledUserOpsByHashResponseS 'p ManagerRequestId PooledUserOpsByHashMessage
  | StatusS 'p PeerRequestId

datatype ('p, 'm) RouterMessage =
    PeerDisconnected 'p
  | RPCRequestReceived 'p PeerRequestId Request
  | RPCResponseReceived 'p ManagerRequestId Response
  | RPCFailed 'p ManagerRequestId
  | RouterPubsubMessage 'm 'p PubsubMessage bool
  | StatusPeer 'p
  | RouterHashesRequest ManagerRequestId 'p PooledUserOpHashesRequest
  | RouterOpsRequest ManagerRequestId 'p PooledUserOpsByHashRequest

section \<open>The router\<close>

text \<open>
  The messages each handler of the router sends to the network service. Errors and gossip are only
  logged; nothing calls \<open>send_status\<close>.
\<close>

definition router_send_request :: "ManagerRequestId \<Rightarrow> 'p \<Rightarrow> Request \<Rightarrow> ('p, 'm) NetworkMessage list" where
  "router_send_request request_id peer_id request = [SendRequest peer_id request request_id]"

definition on_rpc_error :: "'p \<Rightarrow> ManagerRequestId \<Rightarrow> ('p, 'm) NetworkMessage list" where
  "on_rpc_error peer_id request_id = []"

definition handle_gossip :: "'m \<Rightarrow> 'p \<Rightarrow> PubsubMessage \<Rightarrow> bool \<Rightarrow> ('p, 'm) NetworkMessage list" where
  "handle_gossip message_id peer_id gossip_message should_process = []"

definition on_status_request :: "'p \<Rightarrow> PeerRequestId \<Rightarrow> StatusMessage \<Rightarrow> ('p, 'm) NetworkMessage list" where
  "on_status_request peer_id request_id st = [StatusS peer_id request_id]"

definition on_pooled_user_op_hashes_request ::
    "'p \<Rightarrow> PeerRequestId \<Rightarrow> PooledUserOpHashesRequest \<Rightarrow> ('p, 'm) NetworkMessage list" where
  "on_pooled_user_op_hashes_request peer_id request_id r = [PooledUserOpHashesRequestS peer_id request_id r]"

definition on_pooled_user_op_hashes_response ::
    "'p \<Rightarrow> ManagerRequestId \<Rightarrow> PooledUserOpHashesMessage \<Rightarrow> ('p, 'm) NetworkMessage list" where
  "on_pooled_user_op_hashes_response peer_id request_id h = [PooledUserOpHashesResponseS peer_id request_id h]"

definition on_pooled_user_ops_by_hash_request ::
    "'p \<Rightarrow> PeerRequestId \<Rightarrow> PooledUserOpsByHashRequest \<Rightarrow> ('p, 'm) NetworkMessage list" where
  "on_pooled_user_ops_by_hash_request peer_id request_id r = [PooledUserOpsByHashRequestS peer_id request_id r]"

definition on_pooled_user_ops_by_hash_response ::
    "'p \<Rightarrow> ManagerRequestId \<Rightarrow> PooledUserOpsByHashMessage \<Rightarrow> ('p, 'm) NetworkMessage list" where
  "on_pooled_user_ops_by_hash_response peer_id request_id ops = [PooledUserOpsByHashResponseS peer_id request_id ops]"

definition handle_rpc_request ::
    "('p, 'r) PeerDB \<Rightarrow> 'p \<Rightarrow> PeerRequestId \<Rightarrow> Request \<Rightarrow> ('p, 'm) NetworkMessage list" where
  "handle_rpc_request db peer_id request_id request =
     (if \<not> db_is_connected db peer_id then []
      else case request of
             Request.Status st \<Rightarrow> on_status_request peer_id request_id st
           | Request.PooledUserOpHashes r \<Rightarrow> on_pooled_user_op_hashes_request peer_id request_id r
           | Request.PooledUserOpsByHash r \<Rightarrow> on_pooled_user_ops_by_hash_request peer_id request_id r)"

definition handle_rpc_response ::
    "'p \<Rightarrow> ManagerRequestId \<Rightarrow> Response \<Rightarrow> ('p, 'm) NetworkMessage list option" where
  "handle_rpc_response peer_id request_id response =
     (case response of
        Response.Status _ \<Rightarrow> Some []
      | Response.PooledUserOpHashes hashes \<Rightarrow>
          map_option (on_pooled_user_op_hashes_response peer_id request_id) hashes
      | Response.PooledUserOpsByHash ops \<Rightarrow>
          map_option (on_pooled_user_ops_by_hash_response peer_id request_id) ops)"

definition handle_message :: "('p, 'r) PeerDB \<Rightarrow> ('p, 'm) RouterMessage \<Rightarrow> ('p, 'm) NetworkMessage list option" where
  "handle_message db message =
     (case message of
        StatusPeer _ \<Rightarrow> Some []
      | PeerDisconnected _ \<Rightarrow> Some []
      | RPCRequestReceived peer_id i request \<Rightarrow> Some (handle_rpc_request db peer_id i request)
      | RPCResponseReceived peer_id request_id response \<Rightarrow> handle_rpc_response peer_id request_id response
      | RPCFailed peer_id request_id \<Rightarrow> Some (on_rpc_error peer_id request_id)
      | RouterPubsubMessage i peer_id gossip should_process \<Rightarrow> Some (handle_gossip i peer_id gossip should_process)
      | RouterHashesRequest i peer_id request \<Rightarrow> Some (router_send_request i peer_id (Request.PooledUserOpHashes request))
      | RouterOpsRequest i peer_id request \<Rightarrow> Some (router_send_request i peer_id (Request.PooledUserOpsByHash request)))"

lemmas router_handler_defs = router_send_request_def on_rpc_error_def handle_gossip_def on_status_request_def
  on_pooled_user_op_hashes_request_def on_pooled_user_op_hashes_response_def
  on_pooled_user_ops_by_hash_request_def on_pooled_user_ops_by_hash_response_def

section \<open>The node\<close>

text \<open>
  Pickling, and the text of a peer id (\<open>libp2p\<close>). A frame to the bundler is appended to \<open>bundler_frames\<close>.
\<close>

record ('p, 'x) BundlerOps =
  bo_to_vec :: "BundlerGossibRequest \<Rightarrow> 'x + u8 list"
  bo_message :: "u8 list \<Rightarrow> 'x + MessageTypeFromBundler"
  bo_hashes :: "u8 list \<Rightarrow> 'x + PooledUserOpHashesMessage"
  bo_ops :: "u8 list \<Rightarrow> 'x + PooledUserOpsByHashMessage"
  bo_status :: "u8 list \<Rightarrow> 'x + StatusMessage"
  bo_peer_to_string :: "'p \<Rightarrow> string"
  bo_peer_from_str :: "string \<Rightarrow> 'x + 'p"

text \<open>
  The sockets during a turn of the loop: what listening for the bundler came to, if it was polled before
  the branch that was ready, whether the bundler can be connected to and written to, and what is read
  as its answer.
\<close>

record BundlerTurn =
  bt_listen :: "SocketTurn option"
  bt_reachable :: bool
  bt_writable :: bool
  bt_turns :: "ReadTurn list"
  bt_answer :: "u8 list"

record ('p, 'e, 'r, 'h, 'd, 'c, 'g, 'b, 'm) Node =
  libp2p :: "(ManagerRequestId, 'p, 'e, 'r, 'h, 'd, 'c, 'g, 'b) Network"
  network_recv :: "('p, 'm) NetworkMessage list"
  router_recv :: "('p, 'm) RouterMessage list"
  upnp_mappings :: EstablishedUPnPMappings
  bundler_frames :: "u8 list list"
  shutdown_reasons :: "string list"

definition network_send ::
    "('p, 'm) NetworkMessage list \<Rightarrow> ('p, 'e, 'r, 'h, 'd, 'c, 'g, 'b, 'm) Node \<Rightarrow> ('p, 'e, 'r, 'h, 'd, 'c, 'g, 'b, 'm) Node" where
  "network_send msgs self = self\<lparr>network_recv := network_recv self @ msgs\<rparr>"

definition send_to_router ::
    "('p, 'm) RouterMessage \<Rightarrow> ('p, 'e, 'r, 'h, 'd, 'c, 'g, 'b, 'm) Node \<Rightarrow> ('p, 'e, 'r, 'h, 'd, 'c, 'g, 'b, 'm) Node" where
  "send_to_router msg self = self\<lparr>router_recv := router_recv self @ [msg]\<rparr>"

definition with_libp2p ::
    "((ManagerRequestId, 'p, 'e, 'r, 'h, 'd, 'c, 'g, 'b) Network \<Rightarrow> (ManagerRequestId, 'p, 'e, 'r, 'h, 'd, 'c, 'g, 'b) Network) \<Rightarrow>
     ('p, 'e, 'r, 'h, 'd, 'c, 'g, 'b, 'm) Node \<Rightarrow> ('p, 'e, 'r, 'h, 'd, 'c, 'g, 'b, 'm) Node" where
  "with_libp2p f self = self\<lparr>libp2p := f (libp2p self)\<rparr>"

definition bundler_request :: "string \<Rightarrow> MessageTypeToBundler \<Rightarrow> BundlerGossibRequest" where
  "bundler_request t args = \<lparr>request_type = t, request_arguments = args\<rparr>"

definition tell_bundler ::
    "('p, 'x) BundlerOps \<Rightarrow> BundlerTurn \<Rightarrow> BundlerGossibRequest \<Rightarrow>
     ('p, 'e, 'r, 'h, 'd, 'c, 'g, 'b, 'm) Node \<Rightarrow> ('p, 'e, 'r, 'h, 'd, 'c, 'g, 'b, 'm) Node option" where
  "tell_bundler B turn request self =
     map_option (\<lambda>frame. self\<lparr>bundler_frames := bundler_frames self @ [frame]\<rparr>)
       (broadcast_to_main_bundler (bo_to_vec B) (bt_reachable turn) (bt_writable turn) request)"

text \<open>Asking the bundler: the answer is unpickled, and an error of reading or unpickling is a panic.\<close>

definition ask_bundler ::
    "('p, 'x) BundlerOps \<Rightarrow> BundlerTurn \<Rightarrow> (u8 list \<Rightarrow> 'x + 'v) \<Rightarrow> BundlerGossibRequest \<Rightarrow>
     ('p, 'e, 'r, 'h, 'd, 'c, 'g, 'b, 'm) Node \<Rightarrow> ('v \<times> ('p, 'e, 'r, 'h, 'd, 'c, 'g, 'b, 'm) Node) option" where
  "ask_bundler B turn from_slice request self = do {
     (frame, response) \<leftarrow> broadcast_and_listen_for_response_from_main_bundler (bo_to_vec B) (bt_reachable turn)
       (bt_writable turn) (bt_turns turn) (bt_answer turn) request;
     v \<leftarrow> expect (from_slice response);
     Some (v, self\<lparr>bundler_frames := bundler_frames self @ [frame]\<rparr>)
   }"

section \<open>Messages of the bundler\<close>

text \<open>\<open>str::parse::<u128>\<close>: an optional \<open>+\<close>, at least one decimal digit, no overflow.\<close>

fun parse_digits_upto :: "nat \<Rightarrow> string \<Rightarrow> nat \<Rightarrow> nat option" where
  "parse_digits_upto bound [] acc = Some acc"
| "parse_digits_upto bound (c # cs) acc =
     (case to_digit c of
        None \<Rightarrow> None
      | Some d \<Rightarrow> if acc * 10 + d > bound then None else parse_digits_upto bound cs (acc * 10 + d))"

definition parse_u128 :: "string \<Rightarrow> 128 word option" where
  "parse_u128 s =
     (let ds = (case s of [] \<Rightarrow> [] | c # cs \<Rightarrow> if c = CHR ''+'' then cs else s)
      in if ds = [] then None else map_option word_of_nat (parse_digits_upto (2 ^ 128 - 1) ds 0))"

definition on_bundler_request ::
    "'x + MessageTypeFromBundler \<Rightarrow>
     ('p, 'e, 'r, 'h, 'd, 'c, 'g, 'b, 'm) Node \<Rightarrow> ('p, 'e, 'r, 'h, 'd, 'c, 'g, 'b, 'm) Node option" where
  "on_bundler_request request self =
     (case request of
        Inl deserialized_error \<Rightarrow> Some self
      | Inr (GossibMessageFromBundler m) \<Rightarrow>
          Some (network_send [Publish [PubsubMessage.VerifiedUserOperation (gm_verified_useroperation m)] (gm_topics m)] self)
      | Inr (MessageTypeFromBundler.PooledUserOpHashesRequestFromBundler m) \<Rightarrow>
          if hr_peer_id m = [] then
            Some (network_send [PooledUserOpHashesRequestMessageToAllPeers (hr_pooled_user_op_hashes_request m)] self)
          else do {
            i \<leftarrow> parse_u128 (hr_id m);
            Some (network_send [PooledUserOpHashesRequestMessage i (hr_peer_id m) (hr_pooled_user_op_hashes_request m)] self)
          }
      | Inr (MessageTypeFromBundler.PooledUserOpsByHashRequestFromBundler m) \<Rightarrow> do {
          i \<leftarrow> parse_u128 (or_id m);
          Some (network_send [PooledUserOpsByHashRequestMessage i (or_peer_id m) (or_pooled_user_ops_by_hash_request m)] self)
        })"

section \<open>Events of the network\<close>

definition on_libp2p_event ::
    "('p, 'x) BundlerOps \<Rightarrow> BundlerTurn \<Rightarrow> (ManagerRequestId, 'p, 'm) NetworkEvent \<Rightarrow>
     ('p, 'e, 'r, 'h, 'd, 'c, 'g, 'b, 'm) Node \<Rightarrow> ('p, 'e, 'r, 'h, 'd, 'c, 'g, 'b, 'm) Node option" where
  "on_libp2p_event B turn ev self =
     (case ev of
        NetworkEvent.PeerConnectedOutgoing p \<Rightarrow> Some (send_to_router (RouterMessage.StatusPeer p) self)
      | NetworkEvent.PeerConnectedIncoming _ \<Rightarrow> Some self
      | NetworkEvent.PeerDisconnected p \<Rightarrow> Some (send_to_router (RouterMessage.PeerDisconnected p) self)
      | RequestReceived p i request \<Rightarrow> Some (send_to_router (RPCRequestReceived p i request) self)
      | ResponseReceived p i response \<Rightarrow> Some (send_to_router (RPCResponseReceived p i response) self)
      | NetworkEvent.RPCFailed i p \<Rightarrow> Some (send_to_router (RouterMessage.RPCFailed p i) self)
      | NetworkEvent.StatusPeer p \<Rightarrow> Some (send_to_router (RouterMessage.StatusPeer p) self)
      | NetworkEvent.PubsubMessage i source topic message \<Rightarrow>
          (case message of
             PubsubMessage.VerifiedUserOperation uop \<Rightarrow>
               tell_bundler B turn (bundler_request ''p2p_received_gossib''
                 (GossibMessageToBundler \<lparr>gs_peer_id = bo_peer_to_string B source, gs_topic = topic,
                    gs_verified_useroperation = uop\<rparr>)) self)
      | NetworkEvent.NewListenAddr addr \<Rightarrow>
          Some (with_libp2p (with_pm (\<lambda>pm. pm\<lparr>network_globals := (network_globals pm)
            \<lparr>g_listen_multiaddrs := g_listen_multiaddrs (network_globals pm) @ [addr]\<rparr>\<rparr>)) self)
      | ZeroListeners \<Rightarrow>
          Some (self\<lparr>shutdown_reasons := shutdown_reasons self @ [''All listeners are closed. Unable to listen'']\<rparr>)
      | ResponseReceivedFromInternal p response \<Rightarrow> Some (send_to_router (RPCResponseReceived p Router response) self))"

section \<open>Messages to the network\<close>

text \<open>The ports that UPnP mapped go into the record of the node; an error is only logged.\<close>

definition set_enr_port ::
    "(u16 \<Rightarrow> ('r, 'd, 'c) Discovery \<Rightarrow> ('p, 'r) NetworkGlobals \<Rightarrow>
       (string + unit) \<times> ('r, 'd, 'c) Discovery \<times> ('p, 'r) NetworkGlobals) \<Rightarrow> u16 option \<Rightarrow>
     ('a, 'p, 'e, 'r, 'h, 'd, 'c, 'g, 'b) Network \<Rightarrow> ('a, 'p, 'e, 'r, 'h, 'd, 'c, 'g, 'b) Network" where
  "set_enr_port update_port port net =
     (case port of
        None \<Rightarrow> net
      | Some p \<Rightarrow>
          let (_, d, g) = update_port p (net_discovery net) (net_globals net)
          in net\<lparr>net_discovery := d, peer_manager := (peer_manager net)\<lparr>network_globals := g\<rparr>\<rparr>)"

definition on_upnp_mappings ::
    "('p, 'r, 'h, 'n, 'd, 'c, 'g, 'b, 'm) NetOps \<Rightarrow> EstablishedUPnPMappings \<Rightarrow>
     ('a, 'p, 'e, 'r, 'h, 'd, 'c, 'g, 'b) Network \<Rightarrow> ('a, 'p, 'e, 'r, 'h, 'd, 'c, 'g, 'b) Network" where
  "on_upnp_mappings N mappings net =
     set_enr_port (update_enr_quic_port (n_disc N)) (map_udp_quic_port mappings)
       (set_enr_port (update_enr_tcp_port (n_disc N)) (map_tcp_port mappings) net)"

definition on_network_msg ::
    "('p, 'r, 'h, 'n, 'd, 'c, 'g, 'b, 'm) NetOps \<Rightarrow> ('p, 'x) BundlerOps \<Rightarrow> BundlerTurn \<Rightarrow> instant \<Rightarrow> ('p \<Rightarrow> instant) \<Rightarrow>
     ('p, 'm) NetworkMessage \<Rightarrow>
     ('p, 'e, 'r, 'h, 'd, 'c, 'g, 'b, 'm) Node \<Rightarrow> ('p, 'e, 'r, 'h, 'd, 'c, 'g, 'b, 'm) Node option" where
  "on_network_msg N B turn now nows msg self =
     (case msg of
        SendRequest p request i \<Rightarrow> Some (with_libp2p (net_send_request now p i request) self)
      | SendResponse p response i \<Rightarrow> Some (with_libp2p (net_send_response p i response) self)
      | SendErrorResponse p err reason i \<Rightarrow> Some (with_libp2p (send_error_reponse N p i err reason) self)
      | UPnPMappingEstablished mappings \<Rightarrow>
          Some (with_libp2p (on_upnp_mappings N mappings) (self\<lparr>upnp_mappings := mappings\<rparr>))
      | ValidationResult p m a \<Rightarrow> Some (with_libp2p (report_message_validation_result N p m a) self)
      | Publish messages mempool_ids \<Rightarrow> Some (with_libp2p (publish N messages mempool_ids) self)
      | ReportPeer p act src \<Rightarrow>
          map_option (\<lambda>net. self\<lparr>libp2p := net\<rparr>) (net_report_peer N now p act src (libp2p self))
      | GoodbyePeer p reason src \<Rightarrow>
          map_option (\<lambda>net. self\<lparr>libp2p := net\<rparr>) (net_goodbye_peer N now p reason src (libp2p self))
      | SubscribeCoreTopics \<Rightarrow> Some self
      | PooledUserOpHashesRequestMessageToAllPeers request \<Rightarrow>
          Some (with_libp2p (send_outbound_pooled_user_op_hashes_request_to_all_peers nows) self)
      | PooledUserOpHashesRequestMessage i peer_id request \<Rightarrow> do {
          p \<leftarrow> expect (bo_peer_from_str B peer_id);
          Some (send_to_router (RouterHashesRequest (FromMainBundler i) p request) self)
        }
      | PooledUserOpsByHashRequestMessage i peer_id request \<Rightarrow> do {
          p \<leftarrow> expect (bo_peer_from_str B peer_id);
          Some (send_to_router (RouterOpsRequest (FromMainBundler i) p request) self)
        }
      | PooledUserOpHashesRequestS p i request \<Rightarrow> do {
          (hashes, self) \<leftarrow> ask_bundler B turn (bo_hashes B) (bundler_request ''p2p_pooled_user_op_hashes_received''
            (PooledUserOpHashesRequestToBundler request)) self;
          Some (with_libp2p (net_send_response p i (Response.PooledUserOpHashes (Some hashes))) self)
        }
      | PooledUserOpsByHashRequestS p i request \<Rightarrow> do {
          (ops, self) \<leftarrow> ask_bundler B turn (bo_ops B) (bundler_request ''p2p_pooled_user_ops_by_hash_received''
            (PooledUserOpsByHashRequestToBundler request)) self;
          Some (with_libp2p (net_send_response p i (Response.PooledUserOpsByHash (Some ops))) self)
        }
      | PooledUserOpHashesResponseS p i hashes \<Rightarrow>
          tell_bundler B turn (bundler_request ''p2p_received_pooled_user_op_hashes_response''
            (PooledUserOpHashesResponseToBundler
               \<lparr>ph_peer_id = bo_peer_to_string B p, ph_pooled_user_op_hashes = hashes\<rparr>)) self
      | PooledUserOpsByHashResponseS p i ops \<Rightarrow>
          tell_bundler B turn (bundler_request ''p2p_received_pooled_user_ops_by_hash_response''
            (PooledUserOpsByHashResponseToBundler ops)) self
      | StatusS p i \<Rightarrow> do {
          (status, self) \<leftarrow> ask_bundler B turn (bo_status B) (bundler_request ''p2p_status_received'' StatusToBundler) self;
          Some (with_libp2p (net_send_response p i (Response.Status status)) self)
        })"

section \<open>The task\<close>

text \<open>\<open>NetworkService::start\<close>, for the network that \<open>Network::new\<close> returns, and \<open>drop\<close>, for a gateway that is found.\<close>

definition network_service_start ::
    "(string + 'l \<times> 'l \<times> (ManagerRequestId, 'p, 'e, 'r, 'h, 'd, 'c, 'g, 'b) Network) option \<Rightarrow>
     (string + ('p, 'e, 'r, 'h, 'd, 'c, 'g, 'b, 'm) Node) option" where
  "network_service_start network_result =
     map_option (map_sum (\<lambda>e. e) (\<lambda>(_, _, net). \<lparr>libp2p = net, network_recv = [], router_recv = [],
       upnp_mappings = no_mappings, bundler_frames = [], shutdown_reasons = []\<rparr>)) network_result"

definition network_service_drop ::
    "'gw GatewayOps \<Rightarrow> ('p, 'e, 'r, 'h, 'd, 'c, 'g, 'b, 'm) Node \<Rightarrow> 'gw \<Rightarrow> 'gw" where
  "network_service_drop G self = remove_mappings G (upnp_mappings self)"

text \<open>
  A branch of \<open>select!\<close> that is not ready is dropped when another one is; listening for the bundler has
  then removed and bound its socket all the same, and panics if it cannot.
\<close>

definition listen_polled :: "('p, 'x) BundlerOps \<Rightarrow> BundlerTurn \<Rightarrow> unit option" where
  "listen_polled B turn =
     (case bt_listen turn of
        None \<Rightarrow> Some ()
      | Some socket \<Rightarrow> map_option (\<lambda>_. ()) (listen_to_main_bundler (bo_message B) socket [] []))"

text \<open>
  The turns of the loop of \<open>spawn_service\<close>, and of the task of the router: reading a message of the
  bundler, which may not arrive before the turn of another, the next message for the network, a poll of
  the network and what it yields, the next message for the router, and the report of the UPnP task.
\<close>

datatype ('p, 'e, 'r, 'm) NodeStep =
    BundlerSays SocketTurn "ReadTurn list" "u8 list"
  | NextMessage BundlerTurn instant "'p \<Rightarrow> instant"
  | NextEvent BundlerTurn "((ManagerRequestId, 'p, 'e, 'r, 'm) SwarmEvent \<times> instant) list" "('p, 'r) ScoreTick list"
      "(queue_key \<times> GossipTopic \<times> u8 list) list"
  | RouterTurn
  | UpnpReports EstablishedUPnPMappings

fun node_step ::
    "('p, 'r, 'h, 'n, 'd, 'c, 'g, 'b, 'm) NetOps \<Rightarrow> ('p, 'x) BundlerOps \<Rightarrow> ('p, 'e, 'r, 'm) NodeStep \<Rightarrow>
     ('p, 'e, 'r, 'h, 'd, 'c, 'g, 'b, 'm) Node \<Rightarrow> ('p, 'e, 'r, 'h, 'd, 'c, 'g, 'b, 'm) Node option" where
  "node_step N B (BundlerSays socket turns bytes) self =
     (case listen_to_main_bundler (bo_message B) socket turns bytes of
        None \<Rightarrow> None
      | Some None \<Rightarrow> Some self
      | Some (Some request) \<Rightarrow> on_bundler_request request self)"
| "node_step N B (NextMessage turn now nows) self = do {
     _ \<leftarrow> listen_polled B turn;
     (case network_recv self of
        [] \<Rightarrow> Some self
      | msg # msgs \<Rightarrow> on_network_msg N B turn now nows msg (self\<lparr>network_recv := msgs\<rparr>))
   }"
| "node_step N B (NextEvent turn events ticks expired) self = do {
     _ \<leftarrow> listen_polled B turn;
     (ev, _, net) \<leftarrow> poll_network N events ticks expired (libp2p self);
     (case ev of
        None \<Rightarrow> Some (self\<lparr>libp2p := net\<rparr>)
      | Some ev \<Rightarrow> on_libp2p_event B turn ev (self\<lparr>libp2p := net\<rparr>))
   }"
| "node_step N B RouterTurn self =
     (case router_recv self of
        [] \<Rightarrow> Some self
      | msg # msgs \<Rightarrow>
          map_option (\<lambda>sent. network_send sent (self\<lparr>router_recv := msgs\<rparr>)) (handle_message (net_db (libp2p self)) msg))"
| "node_step N B (UpnpReports mappings) self = Some (network_send [UPnPMappingEstablished mappings] self)"

end
