(* ===== verification/Service_Runs.thy ===== *)
theory Service_Runs
  imports Rpc_Behaviour_Props Peer_Manager_Props Service
begin

text \<open>
  Runs of the network service: the operations of the application, the polls, and what the swarm does
  with the sub-behaviours in between. The locale \<open>managed\<close> is what the service relies on from the peer
  manager: an invariant that every operation of the manager keeps, without failing. It is interpreted
  with the limit of connections and with the counters of the database, which therefore hold on every
  run of the whole service.
\<close>

section \<open>Operations\<close>

datatype ('a, 'p, 'e, 'r, 'm) net_op =
    Subscribing GossipKind string
  | Publishing "PubsubMessage list" "string list"
  | Validating 'p 'm MessageAcceptance
  | Requesting instant 'p 'a Request
  | RequestingAll "'p \<Rightarrow> instant"
  | Responding 'p PeerRequestId Response
  | Refusing 'p PeerRequestId RPCResponseErrorCode string
  | Reporting instant 'p PeerAction ReportSource
  | Parting instant 'p GoodbyeReason ReportSource
  | AddingEnr 'r
  | FindingSubnets "SubnetDiscovery list"
  | DialingCached Subnet
  | Polling "(('a, 'p, 'e, 'r, 'm) SwarmEvent \<times> instant) list" "('p, 'r) ScoreTick list"
      "(queue_key \<times> GossipTopic \<times> u8 list) list"
  | ManagerStep "('p, 'r, 'e) pm_op"
  | RpcStep instant "('a RequestId, 'p, 'e) rpc_op"
  | DiscoveryStep "('p, 'r) discovery_op"

text \<open>A step of discovery also changes the record of the node in the shared globals.\<close>

definition discovery_step ::
    "('p, 'r, 'h, 'n, 'd, 'c, 'g, 'b, 'm) NetOps \<Rightarrow> ('p, 'r) discovery_op \<Rightarrow>
     ('a, 'p, 'e, 'r, 'h, 'd, 'c, 'g, 'b) Network \<Rightarrow> ('a, 'p, 'e, 'r, 'h, 'd, 'c, 'g, 'b) Network" where
  "discovery_step N op self =
     (let (d, g) = discovery_exec (n_enr N) (n_disc N) op (net_discovery self, net_globals self)
      in self\<lparr>net_discovery := d, peer_manager := (peer_manager self)\<lparr>network_globals := g\<rparr>\<rparr>)"

fun net_exec ::
    "(nat \<Rightarrow> f64) \<Rightarrow> ('p, 'r, 'h, 'n, 'd, 'c, 'g, 'b, 'm) NetOps \<Rightarrow> ('a, 'p, 'e, 'r, 'm) net_op \<Rightarrow>
     ('a, 'p, 'e, 'r, 'h, 'd, 'c, 'g, 'b) Network \<Rightarrow> ('a, 'p, 'e, 'r, 'h, 'd, 'c, 'g, 'b) Network option" where
  "net_exec decay N (Subscribing k m) self = Some (snd (subscribe_kind N k m self))"
| "net_exec decay N (Publishing ms mempools) self = Some (publish N ms mempools self)"
| "net_exec decay N (Validating p m a) self = Some (report_message_validation_result N p m a self)"
| "net_exec decay N (Requesting now p i r) self = Some (net_send_request now p i r self)"
| "net_exec decay N (RequestingAll nows) self =
     Some (send_outbound_pooled_user_op_hashes_request_to_all_peers nows self)"
| "net_exec decay N (Responding p i r) self = Some (net_send_response p i r self)"
| "net_exec decay N (Refusing p i err reason) self = Some (send_error_reponse N p i err reason self)"
| "net_exec decay N (Reporting now p act src) self = net_report_peer N now p act src self"
| "net_exec decay N (Parting now p reason src) self = net_goodbye_peer N now p reason src self"
| "net_exec decay N (AddingEnr r) self = Some (net_add_enr N r self)"
| "net_exec decay N (FindingSubnets subnets) self = Some (net_discover_subnet_peers subnets self)"
| "net_exec decay N (DialingCached subnet) self = Some (dial_cached_enrs_in_subnet N subnet self)"
| "net_exec decay N (Polling events ticks expired) self =
     map_option (\<lambda>(_, _, self). self) (poll_network N events ticks expired self)"
| "net_exec decay N (ManagerStep op) self = try_pm (\<lambda>pm. pm_exec decay (n_enr N) (n_delay N) pm op) self"
| "net_exec decay N (RpcStep now op) self = Some (with_rpc (\<lambda>rpc. rpc_next (n_text N) rpc (now, op)) self)"
| "net_exec decay N (DiscoveryStep op) self = Some (discovery_step N op self)"

text \<open>
  What the arguments stand for: gossip arrives on topics the subscription filter admits, equal scores
  are sorted by permutations, and the database has room for its new entries.
\<close>

definition roomy_net :: "('a, 'p, 'e, 'r, 'h, 'd, 'c, 'g, 'b) Network \<Rightarrow> nat \<Rightarrow> bool" where
  "roomy_net self n \<longleftrightarrow> length (peers (net_db self)) + n < USIZE_MAX"

fun event_ok :: "string list \<Rightarrow> ('a, 'p, 'e, 'r, 'm) SwarmEvent \<Rightarrow> bool" where
  "event_ok mempools (Gossipsub (Message _ _ t _)) \<longleftrightarrow> t \<in> create_whitelist_filter (\<lambda>s. s) mempools"
| "event_ok mempools (Gossipsub (Subscribed _ t)) \<longleftrightarrow> t \<in> create_whitelist_filter (\<lambda>s. s) mempools"
| "event_ok mempools (Gossipsub (Unsubscribed _ t)) \<longleftrightarrow> t \<in> create_whitelist_filter (\<lambda>s. s) mempools"
| "event_ok mempools _ \<longleftrightarrow> True"

fun event_growth :: "('a, 'p, 'e, 'r, 'm) SwarmEvent \<Rightarrow> nat" where
  "event_growth (DiscoveredPeers found) = length found"
| "event_growth _ = 0"

fun events_fit ::
    "('p, 'r, 'h, 'n, 'd, 'c, 'g, 'b, 'm) NetOps \<Rightarrow> string list \<Rightarrow> (('a, 'p, 'e, 'r, 'm) SwarmEvent \<times> instant) list \<Rightarrow>
     ('a, 'p, 'e, 'r, 'h, 'd, 'c, 'g, 'b) Network \<Rightarrow> bool" where
  "events_fit N mempools [] self \<longleftrightarrow> True"
| "events_fit N mempools ((ev, now) # evs) self \<longleftrightarrow> event_ok mempools ev \<and> roomy_net self (event_growth ev) \<and>
     (case on_network_event N now ev self of Some (None, self') \<Rightarrow> events_fit N mempools evs self' | _ \<Rightarrow> True)"

primrec ticks_fit ::
    "('p, 'r, 'h, 'n, 'd, 'c, 'g, 'b, 'm) NetOps \<Rightarrow> ('p, 'r) ScoreTick list \<Rightarrow>
     ('a, 'p, 'e, 'r, 'h, 'd, 'c, 'g, 'b) Network \<Rightarrow> bool" where
  "ticks_fit N [] self \<longleftrightarrow> True"
| "ticks_fit N (t # ts) self \<longleftrightarrow> is_perm (tk_ties t) \<and> roomy_net self 0 \<and>
     (case score_ticks N [t] self of Some self' \<Rightarrow> ticks_fit N ts self' | None \<Rightarrow> True)"

fun net_fits ::
    "('p, 'r, 'h, 'n, 'd, 'c, 'g, 'b, 'm) NetOps \<Rightarrow> string list \<Rightarrow> ('a, 'p, 'e, 'r, 'm) net_op \<Rightarrow>
     ('a, 'p, 'e, 'r, 'h, 'd, 'c, 'g, 'b) Network \<Rightarrow> bool" where
  "net_fits N mempools (Polling evs ticks expired) self \<longleftrightarrow> events_fit N mempools evs self \<and>
     (case poll_swarm N evs self of Some (None, _, self') \<Rightarrow> ticks_fit N ticks self' | _ \<Rightarrow> True)"
| "net_fits N mempools (ManagerStep op) self \<longleftrightarrow> fits (peer_manager self) op"
| "net_fits N mempools _ self \<longleftrightarrow> roomy_net self 0"

inductive net_reach ::
    "(nat \<Rightarrow> f64) \<Rightarrow> ('p, 'r, 'h, 'n, 'd, 'c, 'g, 'b, 'm) NetOps \<Rightarrow> ('p, 'r) NetConfig \<Rightarrow>
     ('a, 'p, 'e, 'r, 'h, 'd, 'c, 'g, 'b) Network \<Rightarrow> bool"
  for decay N cfg where
  net_start: "network_new N listen_on cfg enr meta nows gossip now now' disc nobody transport =
      Some (Inr (listening, dialled, self)) \<Longrightarrow> net_reach decay N cfg self"
| net_step: "net_reach decay N cfg self \<Longrightarrow> net_fits N (ns_topics cfg) op self \<Longrightarrow>
    net_exec decay N op self = Some self' \<Longrightarrow> net_reach decay N cfg self'"

section \<open>What the service relies on\<close>

definition upholds ::
    "(('p, 'r, 'h) PeerManager \<Rightarrow> bool) \<Rightarrow> ('x \<times> ('a, 'p, 'e, 'r, 'h, 'd, 'c, 'g, 'b) Network) option \<Rightarrow> bool" where
  "upholds J r \<longleftrightarrow> (\<exists>x self. r = Some (x, self) \<and> J (peer_manager self))"

lemma upholds_Some [simp]: "upholds J (Some (x, self)) \<longleftrightarrow> J (peer_manager self)"
  by (simp add: upholds_def)

lemma with_fields [simp]:
  "peer_manager (with_rpc f self) = peer_manager self"
  "peer_manager (with_disc h self) = peer_manager self"
  "peer_manager (with_pm k self) = k (peer_manager self)"
  by (simp_all add: with_rpc_def with_disc_def with_pm_def)

lemma service_fields [simp]:
  "peer_manager (pong i p self) = peer_manager self"
  "peer_manager (ping now p self) = peer_manager self"
  "peer_manager (send_meta_data_request now p self) = peer_manager self"
  "peer_manager (send_meta_data_response i p self) = peer_manager self"
  "peer_manager (net_discover_subnet_peers subnets self) = peer_manager self"
  "peer_manager (publish_cached N topic self) = peer_manager self"
  "peer_manager (publish_on N message topic self) = peer_manager self"
  by (simp_all add: pong_def ping_def send_meta_data_request_def send_meta_data_response_def
      net_discover_subnet_peers_def publish_cached_def publish_on_def Let_def split: option.split prod.split)

text \<open>A field that every step of a loop keeps.\<close>

lemma fold_frame: "(\<And>x s. h (f x s) = h s) \<Longrightarrow> h (fold f xs s) = h s"
  by (induction xs arbitrary: s) simp_all

lemma publish_fields [simp]: "peer_manager (publish N messages mempools self) = peer_manager self"
  unfolding publish_def Let_def by (intro fold_frame service_fields)

lemma request_all_fields [simp]:
  "peer_manager (send_outbound_pooled_user_op_hashes_request_to_all_peers nows self) = peer_manager self"
  unfolding send_outbound_pooled_user_op_hashes_request_to_all_peers_def Let_def by (intro fold_frame with_fields)

lemma dial_cached_id [simp]: "dial_cached_enrs_in_subnet N subnet self = self"
  by (simp add: dial_cached_enrs_in_subnet_def List.map_filter_def split_beta)

lemma discv5_event_peers: "g_peers (snd (on_discv5_event V ev x)) = g_peers (snd x)"
  by (cases x) (auto simp: on_discv5_event_def publish_local_enr_def Let_def split: Discv5Event.split)

lemma discovery_exec_peers: "g_peers (snd (discovery_exec E V op (d, g))) = g_peers g"
proof (cases op)
  case (PollDiscovery now completed reply events)
  have "g_peers (snd (fold (on_discv5_event V) events x)) = g_peers (snd x)" for x
    using fold_frame [of "\<lambda>x. g_peers (snd x)", OF discv5_event_peers] .
  with PollDiscovery show ?thesis
    by (auto simp: discovery_poll_def Let_def split: prod.split option.split EventStream.split)
qed (auto simp: update_enr_tcp_port_def update_enr_quic_port_def update_enr_port_def update_enr_udp_socket_def
    publish_local_enr_def Let_def split: sum.split prod.split)

locale managed =
  fixes J :: "('p, 'r, 'h) PeerManager \<Rightarrow> bool" and decay :: "nat \<Rightarrow> f64"
    and N :: "('p, 'r, 'h, 'n, 'd, 'c, 'g, 'b, 'm) NetOps" and e :: "'e itself"
  assumes manager: "J pm \<Longrightarrow> fits pm (op :: ('p, 'r, 'e) pm_op) \<Longrightarrow>
      \<exists>pm'. pm_exec decay (n_enr N) (n_delay N) pm op = Some pm' \<and> J pm'"
    and shared: "J pm \<Longrightarrow> g_peers g = pm_db pm \<Longrightarrow> J (pm\<lparr>network_globals := g\<rparr>)"
begin

lemma tried:
  fixes op :: "('p, 'r, 'e) pm_op"
  assumes "J (peer_manager self)" "fits (peer_manager self) op"
    and "f (peer_manager self) = pm_exec decay (n_enr N) (n_delay N) (peer_manager self) op"
  shows "upholds J (map_option (Pair x) (try_pm f self))"
  using manager [OF assms(1,2)] assms(3) by (auto simp: try_pm_def)

lemma direct:
  fixes op :: "('p, 'r, 'e) pm_op"
  assumes "J pm" "fits pm op" "pm_exec decay (n_enr N) (n_delay N) pm op = Some pm'"
  shows "J pm'"
  using manager [OF assms(1,2)] assms(3) by simp

lemma rpc_event_kept:
  fixes ev :: "('a RequestId, 'p, 'e) RPCMessage"
  assumes "J (peer_manager self)" "roomy_net self 0"
  shows "upholds J (inject_rpc_event N now ev self)"
proof -
  let ?p = "msg_peer_id ev"
  have f: "fits (peer_manager self) op" if "op_ok op" "op_growth op = 0" for op :: "('p, 'r, 'e) pm_op"
    using assms(2) that by (simp add: fits_def roomy_net_def)
  have "J (ping_request (n_delay N) (peer_manager self) ?p s now)" for s
    by (rule direct [OF assms(1) f, of "PingRequest ?p s now"]) (simp_all add: pm_exec_def)
  moreover have "J (peer_statusd (n_delay N) (peer_manager self) ?p now)"
    by (rule direct [OF assms(1) f, of "PeerStatusd ?p now"]) (simp_all add: pm_exec_def)
  moreover have "J (pong_response (peer_manager self) ?p s)" for s
    by (rule direct [OF assms(1) f, of "PongResponse ?p s"]) (simp_all add: pm_exec_def)
  moreover have "J (meta_data_response (peer_manager self) ?p md)" for md
    by (rule direct [OF assms(1) f, of "MetaDataResponse ?p md"]) (simp_all add: pm_exec_def)
  moreover have "upholds J (map_option (Pair x)
      (try_pm (\<lambda>pm. handle_rpc_error (n_delay N) pm ?p proto err dir now) self))" 
      for x :: "('a, 'p, 'm) NetworkEvent option" and proto dir and err :: "'e RPCError"
    by (rule tried [OF assms(1) f, of "HandleRpcError ?p proto err dir now"]) (simp_all add: pm_exec_def)
  ultimately show ?thesis using assms(1)
    by (simp add: inject_rpc_event_def Let_def split: sum.split HandlerErr.split RPCReceived.split
        InboundRequest.split RPCResponse.split)
qed

end

lemma admitted_topic:
  assumes "t \<in> create_whitelist_filter (\<lambda>s. s) mempools" "\<forall>m \<in> set mempools. CHR ''/'' \<notin> set m"
  obtains topic where "topic_decode t = Some (Inr topic)"
  using whitelisted_topics_decode [of "\<lambda>s. s" t mempools] assms by auto

lemma gossip_decodes:
  assumes "t \<in> create_whitelist_filter (\<lambda>s. s) mempools" "\<forall>m \<in> set mempools. CHR ''/'' \<notin> set m"
  shows "topic_decode t \<noteq> None" "pubsub_decode ssz t data \<noteq> None" "subnet_from_topic_hash t \<noteq> None"
  using admitted_topic [OF assms] by (auto simp: pubsub_decode_def subnet_from_topic_hash_def)

context managed
begin

lemma gossip_event_kept:
  assumes "J (peer_manager self)" "roomy_net self 0" "event_ok mempools (Gossipsub ev :: ('a, 'p, 'e, 'r, 'm) SwarmEvent)"
    and "\<forall>m \<in> set mempools. CHR ''/'' \<notin> set m"
  shows "upholds J (inject_gs_event N now ev self)"
proof (cases ev)
  case (Message p i t data)
  then obtain r where "pubsub_decode (n_ssz N) t data = Some r"
    using gossip_decodes(2) [of t mempools "n_ssz N" data] assms(3,4) by auto
  then show ?thesis using Message assms(1) by (simp add: inject_gs_event_def split: sum.split)
next
  case (Subscribed p t)
  then obtain r where "topic_decode t = Some r" using gossip_decodes(1) [of t mempools] assms(3,4) by auto
  then show ?thesis using Subscribed assms(1) by (simp add: inject_gs_event_def split: sum.split)
next
  case (Unsubscribed p t)
  then obtain r where "subnet_from_topic_hash t = Some r" using gossip_decodes(3) [of t mempools] assms(3,4) by auto
  then show ?thesis using Unsubscribed assms(1) by (simp add: inject_gs_event_def)
next
  case (GossipsubNotSupported p)
  have "upholds J (map_option (Pair None) (try_pm (\<lambda>pm. pm_report_peer (n_delay N) pm p PeerAction.Fatal
      ReportSource.Gossipsub (Some GoodbyeReason.Unknown) now) self))"
    by (rule tried [OF assms(1), of "ReportPeer p PeerAction.Fatal ReportSource.Gossipsub (Some GoodbyeReason.Unknown) now"])
      (use assms(2) in \<open>simp_all add: pm_exec_def fits_def roomy_net_def\<close>)
  with GossipsubNotSupported show ?thesis by (simp add: inject_gs_event_def)
qed

lemma event_kept:
  fixes ev :: "('a, 'p, 'e, 'r, 'm) SwarmEvent"
  assumes "J (peer_manager self)" "roomy_net self (event_growth ev)" "event_ok mempools ev"
    and "\<forall>m \<in> set mempools. CHR ''/'' \<notin> set m"
  shows "upholds J (on_network_event N now ev self)"
proof (cases ev)
  case (Gossipsub ge)
  then show ?thesis using gossip_event_kept [OF assms(1) _ _ assms(4)] assms(2,3) by (simp add: on_network_event_def)
next
  case (Eth2Rpc re)
  then show ?thesis using rpc_event_kept [OF assms(1)] assms(2) by (simp add: on_network_event_def)
next
  case (DiscoveredPeers found)
  have "J (peers_discovered (n_enr N) (peer_manager self) found now)"
    by (rule direct [OF assms(1), of "PeersDiscovered found now"])
      (use assms(2) DiscoveredPeers in \<open>simp_all add: pm_exec_def fits_def roomy_net_def\<close>)
  with DiscoveredPeers show ?thesis by (simp add: on_network_event_def)
next
  case (IdentifyBehaviour ie)
  have "J (identify (peer_manager self) p addrs protocol agent)" for p addrs protocol agent
    by (rule direct [OF assms(1), of "Identify p addrs protocol agent"])
      (use assms(2) IdentifyBehaviour in \<open>simp_all add: pm_exec_def fits_def roomy_net_def\<close>)
  with IdentifyBehaviour assms(1) show ?thesis
    by (simp add: on_network_event_def inject_identify_event_def Let_def split: IdentifyEvent.split)
next
  case (PeerManagerBehaviour pe)
  with assms(1) show ?thesis by (cases pe) (simp_all add: on_network_event_def inject_pm_event_def)
qed (use assms(1) in \<open>simp_all add: on_network_event_def\<close>)

lemma swarm_kept:
  fixes evs :: "(('a, 'p, 'e, 'r, 'm) SwarmEvent \<times> instant) list"
  assumes "J (peer_manager self)" "events_fit N mempools evs self" "\<forall>m \<in> set mempools. CHR ''/'' \<notin> set m"
  shows "\<exists>x rest self'. poll_swarm N evs self = Some (x, rest, self') \<and> J (peer_manager self')"
  using assms(1,2)
proof (induction evs arbitrary: self)
  case (Cons a evs)
  obtain ev now where a: "a = (ev, now)" by (cases a)
  obtain x self1 where x: "on_network_event N now ev self = Some (x, self1)" "J (peer_manager self1)"
    using event_kept [OF Cons.prems(1) _ _ assms(3), of ev now] Cons.prems(2) a by (auto simp: upholds_def)
  then show ?case using Cons.IH [of self1] Cons.prems(2) a by (cases x) simp_all
qed simp

lemma tick_kept:
  assumes "J (peer_manager self)" "is_perm (tk_ties t)" "roomy_net self 0"
  shows "\<exists>self'. score_ticks N [t] self = Some self' \<and> J (peer_manager self')"
proof -
  have "upholds J (map_option (Pair ()) (try_pm (\<lambda>pm. pm_update_gossipsub_scores (n_delay N) (tk_ties t)
      (gs_peer_score N (net_gossipsub self)) pm (tk_nows t)) self))"
    by (rule tried [OF assms(1), of "UpdateGossipsubScores (tk_ties t) (gs_peer_score N (net_gossipsub self)) (tk_nows t)"])
      (use assms in \<open>simp_all add: pm_exec_def fits_def roomy_net_def\<close>)
  then show ?thesis by (auto simp: upholds_def)
qed

lemma score_ticks_Cons:
  "score_ticks N [t] self = Some self' \<Longrightarrow> score_ticks N (t # ts) self = score_ticks N ts self'"
  by (cases "try_pm (\<lambda>pm. pm_update_gossipsub_scores (n_delay N) (tk_ties t)
      (gs_peer_score N (net_gossipsub self)) pm (tk_nows t)) self") simp_all

lemma ticks_kept:
  assumes "J (peer_manager self)" "ticks_fit N ts self"
  shows "\<exists>self'. score_ticks N ts self = Some self' \<and> J (peer_manager self')"
  using assms
proof (induction ts arbitrary: self)
  case (Cons t ts)
  then obtain self1 where t: "score_ticks N [t] self = Some self1" "J (peer_manager self1)"
    using tick_kept [of self t] by auto
  from Cons.prems(2) t(1) have "ticks_fit N ts self1" by (simp del: score_ticks.simps)
  from Cons.IH [OF t(2) this] score_ticks_Cons [OF t(1)] show ?case by (simp del: score_ticks.simps)
qed simp

lemma poll_kept:
  fixes evs :: "(('a, 'p, 'e, 'r, 'm) SwarmEvent \<times> instant) list"
  assumes "J (peer_manager self)" "net_fits N mempools (Polling evs ticks expired) self"
    and "\<forall>m \<in> set mempools. CHR ''/'' \<notin> set m"
  shows "\<exists>x rest self'. poll_network N evs ticks expired self = Some (x, rest, self') \<and> J (peer_manager self')"
proof -
  obtain x rest self1 where s: "poll_swarm N evs self = Some (x, rest, self1)" "J (peer_manager self1)"
    using swarm_kept [OF assms(1) _ assms(3), of evs] assms(2) by auto
  show ?thesis
  proof (cases x)
    case None
    with assms(2) s obtain self2 where "score_ticks N ticks self1 = Some self2" "J (peer_manager self2)"
      using ticks_kept [OF s(2), of ticks] by auto
    with None s show ?thesis by (simp add: poll_network_def)
  qed (use s in \<open>simp add: poll_network_def\<close>)
qed

end

lemma subscribe_shared:
  "\<exists>g. peer_manager (snd (subscribe_kind N k m self)) = (peer_manager self)\<lparr>network_globals := g\<rparr> \<and> g_peers g = net_db self"
  by (auto simp: subscribe_kind_def subscribe_def Let_def split: prod.split sum.split intro!: exI)

lemma subscribe_all_shared:
  "\<exists>g. peer_manager (fold (\<lambda>t self. snd (subscribe_kind N k t self)) ts self) = (peer_manager self)\<lparr>network_globals := g\<rparr> \<and>
     g_peers g = net_db self"
proof (induction ts arbitrary: self)
  case Nil
  show ?case by (intro exI [of _ "net_globals self"]) simp
next
  case (Cons t ts)
  from Cons.IH [of "snd (subscribe_kind N k t self)"] subscribe_shared [of N k t self] show ?case by fastforce
qed

lemma start_shared:
  assumes "start N listen_on config self = Some (Inr (listening, dialled, self'))"
  shows "\<exists>g. peer_manager self' = (peer_manager self)\<lparr>network_globals := g\<rparr> \<and> g_peers g = net_db self"
  using assms subscribe_all_shared [of N GossipKind.VerifiedUserOperation "ns_topics config" self]
  by (auto simp: start_def Let_def split: sum.splits bind_splits)

definition net_pm_config :: "('p, 'r) NetConfig \<Rightarrow> PmConfig" where
  "net_pm_config cfg = pm_config_default\<lparr>cfg_discovery_enabled := \<not> nc_disable_discovery cfg,
     cfg_metrics_enabled := nc_metrics_enabled cfg, cfg_target_peer_count := nc_target_peers cfg\<rparr>"

lemma network_new_shared:
  assumes "network_new N listen_on cfg enr meta nows gossip now now' disc nobody transport =
    Some (Inr (listening, dialled, self))"
  shows "\<exists>enr g. peer_manager self = (pm_new (n_delay N) (net_pm_config cfg)
      (globals_new (n_enr N) enr meta (nc_trusted_peers cfg) (nc_disable_peer_scoring cfg) nows))\<lparr>network_globals := g\<rparr> \<and>
    g_peers g = peerdb_new (nc_trusted_peers cfg) (nc_disable_peer_scoring cfg) nows"
  using assms
  by (auto simp: network_new_def Let_def net_pm_config_def globals_new_def pm_new_def
      split: sum.splits bind_splits dest!: start_shared)

context managed
begin

lemma step_kept:
  fixes op :: "('a, 'p, 'e, 'r, 'm) net_op"
  assumes "J (peer_manager self)" "net_fits N mempools op self" "\<forall>m \<in> set mempools. CHR ''/'' \<notin> set m"
  shows "\<exists>self'. net_exec decay N op self = Some self' \<and> J (peer_manager self')"
proof (cases op)
  case (Subscribing k m)
  then show ?thesis using subscribe_shared [of N k m self] shared [OF assms(1)] by auto
next
  case (Reporting now p act src)
  then show ?thesis using manager [OF assms(1), of "ReportPeer p act src None now"] assms(2)
    by (auto simp: net_report_peer_def try_pm_def pm_exec_def fits_def roomy_net_def)
next
  case (Parting now p reason src)
  then show ?thesis using manager [OF assms(1), of "GoodbyePeer p reason src now"] assms(2)
    by (auto simp: net_goodbye_peer_def try_pm_def pm_exec_def fits_def roomy_net_def)
next
  case (Polling evs ticks expired)
  then show ?thesis using poll_kept [OF assms(1) _ assms(3), of evs ticks expired] assms(2) by fastforce
next
  case (ManagerStep pop)
  then show ?thesis using manager [OF assms(1), of pop] assms(2) by (auto simp: try_pm_def)
next
  case (DiscoveryStep dop)
  have "J ((peer_manager self)\<lparr>network_globals := snd (discovery_exec (n_enr N) (n_disc N) dop
      (net_discovery self, net_globals self))\<rparr>)"
    by (rule shared [OF assms(1)]) (simp add: discovery_exec_peers)
  with DiscoveryStep show ?thesis by (simp add: discovery_step_def split_beta Let_def)
qed (use assms(1) in \<open>simp_all add: report_message_validation_result_def net_send_request_def net_send_response_def
  send_error_reponse_def net_add_enr_def\<close>)

theorem service_keeps:
  fixes self :: "('a, 'p, 'e, 'r, 'h, 'd, 'c, 'g, 'b) Network"
  assumes "net_reach decay N cfg self" "\<forall>m \<in> set (ns_topics cfg). CHR ''/'' \<notin> set m"
    and new: "\<And>enr meta nows. J (pm_new (n_delay N) (net_pm_config cfg)
      (globals_new (n_enr N) enr meta (nc_trusted_peers cfg) (nc_disable_peer_scoring cfg) nows))"
  shows "J (peer_manager self) \<and> (\<forall>op. net_fits N (ns_topics cfg) op self \<longrightarrow> net_exec decay N op self \<noteq> None)"
proof -
  from assms(1) have "J (peer_manager self)"
  proof (induction rule: net_reach.induct)
    case (net_start listen_on enr meta nows gossip now now' disc nobody transport listening dialled self)
    from network_new_shared [OF this] obtain enr g where
      "peer_manager self = (pm_new (n_delay N) (net_pm_config cfg)
        (globals_new (n_enr N) enr meta (nc_trusted_peers cfg) (nc_disable_peer_scoring cfg) nows))\<lparr>network_globals := g\<rparr>"
      "g_peers g = peerdb_new (nc_trusted_peers cfg) (nc_disable_peer_scoring cfg) nows" by blast
    then show ?case using shared [OF new] by (simp add: pm_new_def globals_new_def)
  next
    case (net_step self op self')
    then show ?case using step_kept [OF _ _ assms(2), of self op] by auto
  qed
  with step_kept [OF _ _ assms(2), of self] show ?thesis by fastforce
qed

end

end
