(* ===== verification/Service_Props.thy ===== *)
theory Service_Props
  imports Service_Runs
begin

text \<open>
  Properties of the network service: the limit of connections and the counters of the database on
  every run of the whole service, and what it listens on and dials at its start.
\<close>

section \<open>Limits and counters of the whole service\<close>

definition limited_pm :: "usize \<Rightarrow> ('p, 'r, 'h) PeerManager \<Rightarrow> bool" where
  "limited_pm target pm \<longleftrightarrow> at_most_connected (scaled_ceil target (10066330 / 2 ^ 23)) (pm_db pm) \<and>
     keys_ok (temporary_banned_peers pm) \<and> pm_target_peers pm = target"

definition counted_pm :: "('p, 'r, 'h) PeerManager \<Rightarrow> bool" where
  "counted_pm pm \<longleftrightarrow> counts_exact (pm_db pm) \<and> keys_ok (temporary_banned_peers pm)"

interpretation admitted: managed "limited_pm target" decay N e for target decay N e
proof unfold_locales
  fix pm :: "('a, 'b, 'c) PeerManager" and op :: "('a, 'b, 'j) pm_op"
  let ?L = "scaled_ceil target (10066330 / 2 ^ 23)"
  assume pm: "limited_pm target pm" and "fits pm op"
  then have "kept (at_most_connected ?L) pm (pm_exec decay (n_enr N) (n_delay N) pm op)"
    by (intro limited.exec_kept) (auto simp: limited_pm_def intro: limit_admits)
  with pm show "\<exists>pm'. pm_exec decay (n_enr N) (n_delay N) pm op = Some pm' \<and> limited_pm target pm'"
    by (auto simp: kept_def limited_pm_def)
qed (simp add: limited_pm_def)

interpretation counted: managed counted_pm decay N e for decay N e
proof unfold_locales
  fix pm :: "('a, 'b, 'c) PeerManager" and op :: "('a, 'b, 'j) pm_op"
  assume pm: "counted_pm pm" and "fits pm op"
  then have "kept counts_exact pm (pm_exec decay (n_enr N) (n_delay N) pm op)"
    by (intro exact.exec_kept) (auto simp: counted_pm_def fits_def intro!: exact.any_state)
  with pm show "\<exists>pm'. pm_exec decay (n_enr N) (n_delay N) pm op = Some pm' \<and> counted_pm pm'"
    by (auto simp: kept_def counted_pm_def)
qed (simp add: counted_pm_def)

text \<open>
  C3. The whole service keeps its limits and does not fail. After any sequence of operations of the
  application, polls, and steps of the swarm in the sub-behaviours, at most
  \<open>max_outbound_dialing_peers\<close> peers are connected; with peer scoring enabled and at most 500 trusted
  peers, the counter of disconnected peers is exact; and every further operation returns, provided that
  gossip arrives on topics of the subscription filter, whose mempools have no slash, and the database
  has room.
\<close>

theorem network_limits:
  fixes self :: "('a, 'p, 'e, 'r, 'h, 'd, 'c, 'g, 'b) Network" and N :: "('p, 'r, 'h, 'n, 'd, 'c, 'g, 'b, 'm) NetOps"
  assumes "net_reach decay N cfg self" "\<forall>m \<in> set (ns_topics cfg). CHR ''/'' \<notin> set m"
  shows "length (connected_peer_ids (net_db self)) \<le> max_outbound_dialing_peers (peer_manager self) \<and>
    (\<not> nc_disable_peer_scoring cfg \<and> length (nc_trusted_peers cfg) \<le> MAX_DC_PEERS \<longrightarrow>
      disconnected_peers (net_db self) = length (disconnected_peer_ids (net_db self))) \<and>
    (\<forall>op. net_fits N (ns_topics cfg) op self \<longrightarrow> net_exec decay N op self \<noteq> None)"
proof -
  have "limited_pm (nc_target_peers cfg) (peer_manager self) \<and>
      (\<forall>op. net_fits N (ns_topics cfg) op self \<longrightarrow> net_exec decay N op self \<noteq> None)"
    by (rule admitted.service_keeps [OF assms])
      (simp add: limited_pm_def pm_new_def globals_new_def net_pm_config_def connected_new keys_ok_def cache_new_def)
  moreover have "counted_pm (peer_manager self)"
    if "\<not> nc_disable_peer_scoring cfg" "length (nc_trusted_peers cfg) \<le> MAX_DC_PEERS"
    using that by (intro conjunct1 [OF counted.service_keeps [OF assms]])
      (simp add: counted_pm_def pm_new_def globals_new_def counts_exact_new keys_ok_def cache_new_def)
  ultimately show ?thesis
    by (simp add: limited_pm_def counted_pm_def at_most_connected_def n_connected_length limit_eqs counts_exact_def
        n_disconnected_length)
qed

text \<open>A node on one IPv4 address with one mempool, whose gossipsub records what it is given.\<close>

definition sample_net_ops :: "(nat, u16 \<times> u64, unit, nat, unit, nat list, string list, nat set, nat) NetOps" where
  "sample_net_ops = \<lparr>n_enr = sample_records, n_delay = sample_delays, n_disc = sample_discovery_ops,
     n_ssz = \<lparr>op_as_ssz_bytes = \<lambda>_. [1], op_from_ssz_bytes = \<lambda>_. Inr sample_op\<rparr>, n_text = rpc_texts, gs_subscribe = \<lambda>g t. (Inr True, t # g),
     gs_publish = \<lambda>g t data. (Inr 0, t # g), gs_report = \<lambda>g m p a. g, gs_peer_score = \<lambda>g p. None,
     bl_block = \<lambda>b p. insert p b, bl_unblock = \<lambda>b p. b - {p}, cache_key = \<lambda>c. 0\<rparr>"

definition sample_net_config :: "(nat, u16 \<times> u64) NetConfig" where
  "sample_net_config = \<lparr>ns_listen_addresses = ListenAddress.V4 \<lparr>la_addr = 0, disc_port = 9000, quic_port = 9001, tcp_port = 9000\<rparr>,
     ns_disable_quic_support = False, ns_libp2p_nodes = [], ns_boot_nodes_enr = [], ns_boot_nodes_multiaddr = [],
     ns_topics = [''abc''], nc_trusted_peers = [], nc_disable_peer_scoring = False, nc_disable_discovery = False,
     nc_metrics_enabled = False, nc_target_peers = 50, nc_inbound_rate_limiter_config = None,
     nc_outbound_rate_limiter_config = None\<rparr>"

type_synonym 'a sample_network = "('a, nat, unit, u16 \<times> u64, unit, unit, nat list, string list, nat set) Network"

definition sample_new :: "(string + Multiaddr list \<times> Multiaddr list \<times> 'a sample_network) option" where
  "sample_new = network_new sample_net_ops (\<lambda>_. True) sample_net_config (Inr (9000, 1))
     \<lparr>seq_number = 1, supported_mempools = []\<rparr> (\<lambda>_. 0) (Inr []) 0 0 (Inr sample_discovery) {} (Inr ())"

lemma sample_new_Some:
  obtains net where "sample_new = Some (Inr ([[Ip4 0, Tcp 9000]], [], net))" "length (peers (net_db net)) = 0"
  by (simp add: sample_new_def network_new_def sample_net_ops_def sample_net_config_def rpc_new_def start_def
      libp2p_addresses_def NetStart.defs subscribe_kind_def subscribe_def with_pm_def pm_new_def globals_new_def
      peerdb_new_def)

definition sample_subscribed :: "(nat, nat, unit, u16 \<times> u64, nat) net_op" where
  "sample_subscribed = Polling [(Gossipsub (Subscribed 7 ''/account_abstraction/abc/user_operations/ssz_snappy''), 5)] [] []"

theorem network_limits_witness:
  "\<exists>listening dialled (net :: nat sample_network) net'. sample_new = Some (Inr (listening, dialled, net)) \<and>
     net_exec (\<lambda>_. Fin 1) sample_net_ops sample_subscribed net = Some net' \<and>
     length (connected_peer_ids (net_db net')) \<le> max_outbound_dialing_peers (peer_manager net')"
proof -
  obtain net :: "nat sample_network"
    where new: "sample_new = Some (Inr ([[Ip4 0, Tcp 9000]], [], net))" and empty: "length (peers (net_db net)) = 0"
    by (rule sample_new_Some)
  from new have reach: "net_reach (\<lambda>_. Fin 1) sample_net_ops sample_net_config net"
    unfolding sample_new_def by (rule net_start)
  have topics: "\<forall>m \<in> set (ns_topics sample_net_config). CHR ''/'' \<notin> set m" by (simp add: sample_net_config_def)
  have "net_fits sample_net_ops (ns_topics sample_net_config) sample_subscribed net"
    using empty by (simp add: sample_subscribed_def sample_net_config_def create_whitelist_filter_def topic_display_eq
        gossip_topic_new_def roomy_net_def USIZE_MAX_def split: option.split prod.split)
  moreover from network_limits [OF reach topics] this obtain net' where
    step: "net_exec (\<lambda>_. Fin 1) sample_net_ops sample_subscribed net = Some net'" by blast
  ultimately have "net_reach (\<lambda>_. Fin 1) sample_net_ops sample_net_config net'" by (rule net_step [OF reach])
  from network_limits [OF this topics] new step show ?thesis by blast
qed

section \<open>Start\<close>

text \<open>What the start is meant to do, address by address.\<close>

fun listening_address :: "bool \<Rightarrow> ListenAddress \<Rightarrow> Multiaddr" where
  "listening_address disable_quic (ListenAddress.V4 a) = [Ip4 (la_addr a), Tcp (tcp_port a)]"
| "listening_address disable_quic (DualStack a b) = [Ip4 (la_addr a), Tcp (tcp_port a)]"
| "listening_address disable_quic (ListenAddress.V6 b) =
     (if disable_quic then [Ip6 (la_addr b), Tcp (tcp_port b)] else [Ip6 (la_addr b), Udp (quic_port b), QuicV1])"

definition boot_addresses :: "('p, 'r) EnrOps \<Rightarrow> bool \<Rightarrow> ('p, 'r) PeerDB \<Rightarrow> 'r \<Rightarrow> Multiaddr list" where
  "boot_addresses E disable_quic db enr =
     (if is_connected_or_dialing db (enr_peer_id E enr) then []
      else (if disable_quic then [] else multiaddr_quic E enr) @ multiaddr_tcp E enr)"

lemma listen_loop_first:
  "listen_loop disable_quic listen_on (libp2p_addresses a) =
     (if listen_on (listening_address disable_quic a) then Inr [listening_address disable_quic a]
      else Inl ''Libp2p was unable to listen on the given listen address.'')"
  by (cases a) (simp_all add: libp2p_addresses_def)

lemma dial_boot_node_eq: "dial_boot_node E disable_quic db enr = Some (boot_addresses E disable_quic db enr)"
proof -
  have "list_all (\<lambda>a. length a \<ge> 2) (multiaddr E enr)"
    by (auto simp: multiaddr_def push_port_def split: option.split)
  moreover have "filter (\<lambda>a. case a ! 1 of Udp _ \<Rightarrow> False | _ \<Rightarrow> True) (multiaddr E enr) = multiaddr_tcp E enr"
    by (cases "enr_ip4 E enr"; cases "enr_ip6 E enr")
      (simp_all add: multiaddr_def multiaddr_tcp_def filter_push_port)
  ultimately show ?thesis by (simp add: dial_boot_node_def boot_addresses_def Let_def)
qed

lemma dial_boot_nodes_eq:
  "those (map (dial_boot_node E disable_quic db) enrs) = Some (map (boot_addresses E disable_quic db) enrs)"
  by (induction enrs) (simp_all add: dial_boot_node_eq)

text \<open>
  C34. What the start does. It never panics. The node listens on exactly one address: over TCP on its
  IPv4 address, if it has one, and otherwise on its IPv6 address, over QUIC unless QUIC is disabled;
  it fails if that address cannot be listened on, and tries no other. It dials the configured nodes,
  each boot node that is not known as connected over QUIC, unless disabled, and TCP, and the boot
  addresses with a TCP port, without the peer id at their end; then it subscribes to the topics.
\<close>

theorem start_addresses:
  "start N listen_on config self =
     Some (let addr = listening_address (ns_disable_quic_support config) (ns_listen_addresses config)
           in if listen_on addr then
                Inr ([addr],
                     map strip_peer_id (ns_libp2p_nodes config @
                       concat (map (boot_addresses (n_enr N) (ns_disable_quic_support config) (net_db self))
                         (remdups_adj (ns_boot_nodes_enr config))) @
                       filter is_tcp_addr (ns_boot_nodes_multiaddr config)),
                     fold (\<lambda>t self. snd (subscribe_kind N GossipKind.VerifiedUserOperation t self)) (ns_topics config) self)
              else Inl ''Libp2p was unable to listen on the given listen address.'')"
proof -
  have "filter (\<lambda>a. list_ex (\<lambda>c. case c of Tcp _ \<Rightarrow> True | _ \<Rightarrow> False) a) as = filter is_tcp_addr as" for as
    by (rule filter_cong) (auto simp: list_ex_iff)
  then show ?thesis
    by (simp add: start_def listen_loop_first dial_boot_nodes_eq Let_def)
qed

end
