(* ===== verification/Network_Manager_Props.thy ===== *)
theory Network_Manager_Props
  imports Network_Manager Service_Props
begin

text \<open>
  Runs of the whole node: the turns of its tasks, and what the swarm does with the sub-behaviours in
  between. The node keeps the limits of the network service, and where it can panic.
\<close>

declare router_handler_defs [simp]

section \<open>Runs\<close>

text \<open>
  A turn of a task, or a call of the swarm: on the peer manager, with an event of a connection handler
  for the RPC behaviour, polling that behaviour, or on discovery.
\<close>

datatype ('p, 'e, 'r, 'm) node_op =
    Task "('p, 'e, 'r, 'm) NodeStep"
  | SwarmManager "('p, 'r, 'e) pm_op"
  | SwarmHandler instant 'p ConnectionId "(ManagerRequestId RequestId, 'e) HandlerEvent"
  | SwarmRpcPoll "instant list" "(('p \<times> Protocol) \<times> instant) option" "nat \<Rightarrow> instant" "instant list"
  | SwarmDiscovery "('p, 'r) discovery_op"

text \<open>The actions that the swarm gets from the RPC behaviour, and the node.\<close>

fun node_exec ::
    "(nat \<Rightarrow> f64) \<Rightarrow> ('p, 'r, 'h, 'n, 'd, 'c, 'g, 'b, 'm) NetOps \<Rightarrow> ('p, 'x) BundlerOps \<Rightarrow> ('p, 'e, 'r, 'm) node_op \<Rightarrow>
     ('p, 'e, 'r, 'h, 'd, 'c, 'g, 'b, 'm) Node \<Rightarrow>
     ((ManagerRequestId RequestId, 'p, 'e) rpc_action list \<times> ('p, 'e, 'r, 'h, 'd, 'c, 'g, 'b, 'm) Node) option" where
  "node_exec decay N B (Task s) self = map_option (Pair []) (node_step N B s self)"
| "node_exec decay N B (SwarmManager op) self =
     map_option (\<lambda>net. ([], self\<lparr>libp2p := net\<rparr>))
       (try_pm (\<lambda>pm. pm_exec decay (n_enr N) (n_delay N) pm op) (libp2p self))"
| "node_exec decay N B (SwarmHandler now p c ev) self =
     Some ([], with_libp2p (with_rpc (rpc_on_connection_handler_event (n_text N) now p c ev)) self)"
| "node_exec decay N B (SwarmRpcPoll ticks expired clock self_ticks) self =
     (let (out, rpc) = rpc_poll ticks expired clock self_ticks (eth2_rpc (libp2p self))
      in Some (out_list out, with_libp2p (with_rpc (\<lambda>_. rpc)) self))"
| "node_exec decay N B (SwarmDiscovery op) self = Some ([], with_libp2p (discovery_step N op) self)"

lemma service_started:
  assumes "network_service_start net = Some (Inr self)"
  obtains listening dialled where "net = Some (Inr (listening, dialled, libp2p self))" "network_recv self = []" "router_recv self = []"
proof -
  from assms obtain z where z: "net = Some z" by (auto simp: network_service_start_def)
  with assms that show ?thesis by (cases z) (auto simp: network_service_start_def)
qed

section \<open>Where the node can panic\<close>

text \<open>A response in the channel of the router has contents.\<close>

fun response_full :: "Response \<Rightarrow> bool" where
  "response_full (Response.Status _) = True"
| "response_full (Response.PooledUserOpHashes r) = (r \<noteq> None)"
| "response_full (Response.PooledUserOpsByHash r) = (r \<noteq> None)"

fun full :: "('p, 'm) RouterMessage \<Rightarrow> bool" where
  "full (RPCResponseReceived p i r) = response_full r"
| "full _ = True"

text \<open>
  The sockets work: a leftover file is removed, the socket is bound and no connection fails; the bundler
  can be connected to, messages are pickled and written; and what it answers can be unpickled.
\<close>

definition listens :: "SocketTurn \<Rightarrow> bool" where
  "listens socket \<longleftrightarrow> (st_exists socket \<longrightarrow> st_removed socket) \<and> st_bound socket \<and> st_accepted socket \<noteq> Some False"

definition listening :: "BundlerTurn \<Rightarrow> bool" where
  "listening turn \<longleftrightarrow> (case bt_listen turn of None \<Rightarrow> True | Some socket \<Rightarrow> listens socket)"

definition writing :: "('p, 'x) BundlerOps \<Rightarrow> BundlerTurn \<Rightarrow> bool" where
  "writing B turn \<longleftrightarrow> bt_reachable turn \<and> bt_writable turn \<and> (\<forall>request. \<not> isl (bo_to_vec B request))"

definition answering :: "('p, 'x) BundlerOps \<Rightarrow> BundlerTurn \<Rightarrow> (u8 list \<Rightarrow> 'x + 'v) \<Rightarrow> bool" where
  "answering B turn dec \<longleftrightarrow> writing B turn \<and>
     (case listen_frame (bt_turns turn) (bt_answer turn) of None \<Rightarrow> False | Some m \<Rightarrow> \<not> isl (dec m))"

fun message_fits ::
    "('p, 'x) BundlerOps \<Rightarrow> BundlerTurn \<Rightarrow> ('p, 'm) NetworkMessage \<Rightarrow> bool" where
  "message_fits B turn (PooledUserOpHashesRequestMessage _ p _) \<longleftrightarrow> \<not> isl (bo_peer_from_str B p)"
| "message_fits B turn (PooledUserOpsByHashRequestMessage _ p _) \<longleftrightarrow> \<not> isl (bo_peer_from_str B p)"
| "message_fits B turn (PooledUserOpHashesRequestS _ _ _) \<longleftrightarrow> answering B turn (bo_hashes B)"
| "message_fits B turn (PooledUserOpsByHashRequestS _ _ _) \<longleftrightarrow> answering B turn (bo_ops B)"
| "message_fits B turn (StatusS _ _) \<longleftrightarrow> answering B turn (bo_status B)"
| "message_fits B turn (PooledUserOpHashesResponseS _ _ _) \<longleftrightarrow> writing B turn"
| "message_fits B turn (PooledUserOpsByHashResponseS _ _ _) \<longleftrightarrow> writing B turn"
| "message_fits B turn _ \<longleftrightarrow> True"

fun request_fits :: "MessageTypeFromBundler \<Rightarrow> bool" where
  "request_fits (MessageTypeFromBundler.PooledUserOpHashesRequestFromBundler m) \<longleftrightarrow>
     hr_peer_id m = [] \<or> parse_u128 (hr_id m) \<noteq> None"
| "request_fits (MessageTypeFromBundler.PooledUserOpsByHashRequestFromBundler m) \<longleftrightarrow> parse_u128 (or_id m) \<noteq> None"
| "request_fits _ \<longleftrightarrow> True"

lemma bundler_request_ok:
  assumes "case request of Inl _ \<Rightarrow> True | Inr m \<Rightarrow> request_fits m"
  shows "\<exists>msgs. on_bundler_request request self = Some (network_send msgs self)"
proof (cases request)
  case (Inl e)
  then show ?thesis by (intro exI [of _ "[]"]) (simp add: on_bundler_request_def network_send_def)
next
  case (Inr m)
  with assms show ?thesis by (cases m) (auto simp: on_bundler_request_def)
qed

text \<open>
  What a step needs: ids of the bundler are numbers and name peers, the sockets work, the bundler
  answers what it is asked, and the network service is polled within its limits.
\<close>

fun step_fits ::
    "('p, 'r, 'h, 'n, 'd, 'c, 'g, 'b, 'm) NetOps \<Rightarrow> ('p, 'x) BundlerOps \<Rightarrow> string list \<Rightarrow> ('p, 'e, 'r, 'm) NodeStep \<Rightarrow>
     ('p, 'e, 'r, 'h, 'd, 'c, 'g, 'b, 'm) Node \<Rightarrow> bool" where
  "step_fits N B mempools (BundlerSays socket turns bytes) self \<longleftrightarrow> listens socket \<and>
     (case listen_to_main_bundler (bo_message B) socket turns bytes of Some (Some (Inr m)) \<Rightarrow> request_fits m | _ \<Rightarrow> True)"
| "step_fits N B mempools (NextMessage turn now nows) self \<longleftrightarrow> listening turn \<and> roomy_net (libp2p self) 0 \<and>
     (case network_recv self of [] \<Rightarrow> True | msg # _ \<Rightarrow> message_fits B turn msg)"
| "step_fits N B mempools (NextEvent turn events ticks expired) self \<longleftrightarrow> listening turn \<and> writing B turn \<and>
     net_fits N mempools (Polling events ticks expired) (libp2p self)"
| "step_fits N B mempools _ self \<longleftrightarrow> True"

fun op_fits ::
    "('p, 'r, 'h, 'n, 'd, 'c, 'g, 'b, 'm) NetOps \<Rightarrow> ('p, 'x) BundlerOps \<Rightarrow> string list \<Rightarrow> ('p, 'e, 'r, 'm) node_op \<Rightarrow>
     ('p, 'e, 'r, 'h, 'd, 'c, 'g, 'b, 'm) Node \<Rightarrow> bool" where
  "op_fits N B mempools (Task s) self \<longleftrightarrow> step_fits N B mempools s self"
| "op_fits N B mempools (SwarmManager op) self \<longleftrightarrow> fits (peer_manager (libp2p self)) op"
| "op_fits N B mempools (SwarmDiscovery op) self \<longleftrightarrow> roomy_net (libp2p self) 0"
| "op_fits N B mempools _ self \<longleftrightarrow> True"

lemma expect_ok: "\<not> isl r \<Longrightarrow> \<exists>v. expect r = Some v"
  by (cases r) (simp_all add: expect_def)

lemma listens_ok: "listens socket \<Longrightarrow> listen_to_main_bundler f socket turns bytes \<noteq> None"
  by (auto simp: listens_def listen_to_main_bundler_def split: option.split bool.split)

lemma listening_ok: "listening turn \<Longrightarrow> listen_polled B turn = Some ()"
  by (auto simp: listening_def listen_polled_def dest: listens_ok [where turns = "[]" and bytes = "[]"] split: option.splits)

lemma written:
  assumes "writing B turn"
  shows "\<exists>frame. broadcast_to_main_bundler (bo_to_vec B) (bt_reachable turn) (bt_writable turn) req = Some frame"
proof -
  from assms have "\<not> isl (bo_to_vec B req)" by (simp add: writing_def)
  with expect_ok obtain v where "expect (bo_to_vec B req) = Some v" by blast
  with assms show ?thesis by (simp add: writing_def broadcast_to_main_bundler_def)
qed

lemma asked:
  assumes "answering B turn dec"
  shows "\<exists>v frame. ask_bundler B turn dec req self = Some (v, self\<lparr>bundler_frames := bundler_frames self @ [frame]\<rparr>)"
proof -
  from assms obtain m where m: "writing B turn" "listen_frame (bt_turns turn) (bt_answer turn) = Some m" "\<not> isl (dec m)"
    by (auto simp: answering_def split: option.splits)
  moreover from expect_ok [OF m(3)] obtain v where "expect (dec m) = Some v" ..
  moreover from written [OF m(1)] obtain frame where
    "broadcast_to_main_bundler (bo_to_vec B) (bt_reachable turn) (bt_writable turn) req = Some frame" ..
  ultimately show ?thesis
    by (auto simp: ask_bundler_def broadcast_and_listen_for_response_from_main_bundler_def)
qed

lemma told:
  "writing B turn \<Longrightarrow> \<exists>frame. tell_bundler B turn req self = Some (self\<lparr>bundler_frames := bundler_frames self @ [frame]\<rparr>)"
  using written [of B turn req] by (auto simp: tell_bundler_def)

definition same_peers ::
    "('a, 'p, 'e, 'r, 'h, 'd, 'c, 'g, 'b) Network \<Rightarrow> ('a, 'p, 'e, 'r, 'h, 'd, 'c, 'g, 'b) Network \<Rightarrow> bool" where
  "same_peers net net' \<longleftrightarrow>
     (\<exists>g. peer_manager net' = (peer_manager net)\<lparr>network_globals := g\<rparr> \<and> g_peers g = net_db net)"

lemma same_peersI: "peer_manager net' = peer_manager net \<Longrightarrow> same_peers net net'"
  unfolding same_peers_def by (rule exI [of _ "net_globals net"]) simp

lemma same_peers_trans: "same_peers a b \<Longrightarrow> same_peers b c \<Longrightarrow> same_peers a c"
  by (auto simp: same_peers_def)

lemma set_enr_port_same:
  assumes "\<And>p d g. g_peers (snd (snd (update_port p d g))) = g_peers g"
  shows "same_peers net (set_enr_port update_port port net)"
proof (cases port)
  case (Some p)
  let ?g = "snd (snd (update_port p (net_discovery net) (net_globals net)))"
  have "peer_manager (set_enr_port update_port port net) = (peer_manager net)\<lparr>network_globals := ?g\<rparr>"
    using Some by (simp add: set_enr_port_def split_beta Let_def)
  with assms show ?thesis unfolding same_peers_def by blast
qed (simp add: set_enr_port_def same_peersI)

lemma upnp_same: "same_peers net (on_upnp_mappings N mappings net)"
  unfolding on_upnp_mappings_def
  by (intro same_peers_trans [OF set_enr_port_same set_enr_port_same])
    (auto simp: update_enr_tcp_port_def update_enr_quic_port_def update_enr_port_def publish_local_enr_def Let_def split: sum.split)

fun event_full :: "('a, 'p, 'm) NetworkEvent \<Rightarrow> bool" where
  "event_full (ResponseReceived p i r) = response_full r"
| "event_full (ResponseReceivedFromInternal p r) = response_full r"
| "event_full _ = True"

lemma build_response_full: "build_response i p r = Some ev \<Longrightarrow> response_full r \<Longrightarrow> event_full ev"
  by (cases r; cases i) (auto simp: build_response_def)

lemma rpc_event_full: "inject_rpc_event N now re net = Some (Some ev, net') \<Longrightarrow> event_full ev"
  by (auto simp: inject_rpc_event_def build_request_def Let_def dest!: build_response_full
      split: if_splits sum.splits HandlerErr.splits RPCReceived.splits InboundRequest.splits RPCResponse.splits RequestId.splits)

lemma network_event_full:
  assumes "on_network_event N now e net = Some (Some ev, net')"
  shows "event_full ev"
proof (cases e)
  case (Gossipsub ge)
  with assms show ?thesis
    by (auto simp: on_network_event_def inject_gs_event_def split: GossipsubEvent.splits bind_splits sum.splits)
next
  case (Eth2Rpc re)
  with assms rpc_event_full show ?thesis by (auto simp: on_network_event_def)
next
  case (IdentifyBehaviour ie)
  with assms show ?thesis
    by (auto simp: on_network_event_def inject_identify_event_def Let_def split: IdentifyEvent.splits)
next
  case (PeerManagerBehaviour pe)
  with assms show ?thesis by (auto simp: on_network_event_def inject_pm_event_def split: PeerManagerEvent.splits)
qed (use assms in \<open>auto simp: on_network_event_def zero_listeners_def split: if_splits\<close>)

lemma swarm_full: "poll_swarm N evs net = Some (Some ev, rest, net') \<Longrightarrow> event_full ev"
  by (induction N evs net rule: poll_swarm.induct)
    (auto split: bind_splits option.splits dest: network_event_full)

lemma poll_full: "poll_network N evs ticks expired net = Some (Some ev, rest, net') \<Longrightarrow> event_full ev"
  by (auto simp: poll_network_def split: bind_splits option.splits dest: swarm_full)

lemma libp2p_event_ok:
  assumes "writing B turn" "event_full ev"
  shows "\<exists>self'. on_libp2p_event B turn ev self = Some self' \<and> same_peers (libp2p self) (libp2p self') \<and>
    (list_all full (router_recv self) \<longrightarrow> list_all full (router_recv self'))"
proof (cases ev)
  case (PubsubMessage i source topic message)
  then show ?thesis using told [OF assms(1)] by (cases message) (fastforce simp: on_libp2p_event_def same_peersI)
next
  case (NewListenAddr addr)
  then show ?thesis by (auto simp: on_libp2p_event_def with_libp2p_def with_pm_def same_peers_def)
qed (use assms(2) in \<open>auto simp: on_libp2p_event_def send_to_router_def same_peersI\<close>)

lemma router_ok: "full msg \<Longrightarrow> handle_message db msg \<noteq> None"
  by (cases msg) (auto simp: handle_message_def handle_rpc_response_def split: Response.split)

context managed
begin

definition node_inv :: "('p, 'e, 'r, 'h, 'd, 'c, 'g, 'b, 'm) Node \<Rightarrow> bool" where
  "node_inv self \<longleftrightarrow> J (peer_manager (libp2p self)) \<and> list_all full (router_recv self)"

lemma same_kept: "J (peer_manager net) \<Longrightarrow> same_peers net net' \<Longrightarrow> J (peer_manager net')"
  using shared by (auto simp: same_peers_def)

lemma message_kept:
  assumes "node_inv self" "roomy_net (libp2p self) 0" "message_fits B turn msg"
  shows "\<exists>self'. on_network_msg N B turn now nows msg self = Some self' \<and> node_inv self'"
proof (cases msg)
  case (UPnPMappingEstablished m)
  with assms(1) show ?thesis using same_kept [OF _ upnp_same, of "libp2p self" N m]
    by (simp add: on_network_msg_def node_inv_def with_libp2p_def)
next
  case (ReportPeer p act src)
  with assms(1,2) show ?thesis using manager [of "peer_manager (libp2p self)" "ReportPeer p act src None now"]
    by (auto simp: on_network_msg_def node_inv_def net_report_peer_def try_pm_def pm_exec_def fits_def roomy_net_def)
next
  case (GoodbyePeer p reason src)
  with assms(1,2) show ?thesis using manager [of "peer_manager (libp2p self)" "GoodbyePeer p reason src now"]
    by (auto simp: on_network_msg_def node_inv_def net_goodbye_peer_def try_pm_def pm_exec_def fits_def roomy_net_def)
next
  case (PooledUserOpHashesRequestMessage i p r)
  with assms(1,3) show ?thesis using expect_ok [of "bo_peer_from_str B p"]
    by (auto simp: on_network_msg_def node_inv_def send_to_router_def)
next
  case (PooledUserOpsByHashRequestMessage i p r)
  with assms(1,3) show ?thesis using expect_ok [of "bo_peer_from_str B p"]
    by (auto simp: on_network_msg_def node_inv_def send_to_router_def)
next
  case (StatusS p i)
  then show ?thesis using assms(1,3) asked [of B turn "bo_status B" "bundler_request ''p2p_status_received'' StatusToBundler" self]
    by (auto simp: on_network_msg_def node_inv_def with_libp2p_def net_send_response_def)
next
  case (PooledUserOpHashesRequestS p i r)
  then show ?thesis using assms(1,3) asked [of B turn "bo_hashes B" "bundler_request ''p2p_pooled_user_op_hashes_received'' (PooledUserOpHashesRequestToBundler r)" self]
    by (auto simp: on_network_msg_def node_inv_def with_libp2p_def net_send_response_def)
next
  case (PooledUserOpsByHashRequestS p i r)
  then show ?thesis using assms(1,3) asked [of B turn "bo_ops B" "bundler_request ''p2p_pooled_user_ops_by_hash_received'' (PooledUserOpsByHashRequestToBundler r)" self]
    by (auto simp: on_network_msg_def node_inv_def with_libp2p_def net_send_response_def)
next
  case (PooledUserOpHashesResponseS p i r)
  with assms(1,3) told [of B turn _ self] show ?thesis by (fastforce simp: on_network_msg_def node_inv_def)
next
  case (PooledUserOpsByHashResponseS p i r)
  with assms(1,3) told [of B turn _ self] show ?thesis by (fastforce simp: on_network_msg_def node_inv_def)
qed (use assms(1) in \<open>simp_all add: on_network_msg_def node_inv_def with_libp2p_def net_send_request_def
  net_send_response_def send_error_reponse_def report_message_validation_result_def\<close>)

lemma turn_kept:
  fixes s :: "('p, 'e, 'r, 'm) NodeStep"
  assumes "node_inv self" "step_fits N B mempools s self" "\<forall>m \<in> set mempools. CHR ''/'' \<notin> set m"
  shows "\<exists>self'. node_step N B s self = Some self' \<and> node_inv self'"
proof (cases s)
  case (BundlerSays socket turns bytes)
  with assms(2) obtain r where r: "listen_to_main_bundler (bo_message B) socket turns bytes = Some r"
    using listens_ok by fastforce
  show ?thesis
  proof (cases r)
    case (Some request)
    with BundlerSays assms(2) r bundler_request_ok [of request self] obtain msgs where
      "on_bundler_request request self = Some (network_send msgs self)" by (auto split: sum.splits)
    with BundlerSays Some r assms(1) show ?thesis by (simp add: network_send_def node_inv_def)
  qed (use BundlerSays r assms(1) in simp)
next
  case (NextMessage turn now nows)
  with assms(1,2) show ?thesis
    using message_kept [of "self\<lparr>network_recv := tl (network_recv self)\<rparr>" B turn "hd (network_recv self)" now nows]
    by (cases "network_recv self") (auto simp: node_inv_def listening_ok)
next
  case (NextEvent turn events ticks expired)
  with assms obtain ev rest net where poll: "poll_network N events ticks expired (libp2p self) = Some (ev, rest, net)"
    "J (peer_manager net)"
    using poll_kept [of "libp2p self" mempools events ticks expired] by (auto simp: node_inv_def)
  show ?thesis
  proof (cases ev)
    case None
    with poll NextEvent assms(1,2) show ?thesis by (simp add: node_inv_def listening_ok)
  next
    case (Some e')
    with poll have "event_full e'" using poll_full by blast
    with NextEvent assms(2) obtain self' where "on_libp2p_event B turn e' (self\<lparr>libp2p := net\<rparr>) = Some self'"
      "same_peers net (libp2p self')" "list_all full (router_recv self) \<longrightarrow> list_all full (router_recv self')"
      using libp2p_event_ok [of B turn e' "self\<lparr>libp2p := net\<rparr>"] by auto
    with poll NextEvent Some assms(1,2) show ?thesis using same_kept by (auto simp: node_inv_def listening_ok)
  qed
next
  case RouterTurn
  show ?thesis
  proof (cases "router_recv self")
    case (Cons msg msgs)
    with assms(1) obtain sent where "handle_message (net_db (libp2p self)) msg = Some sent"
      using router_ok [of msg] by (auto simp: node_inv_def)
    with RouterTurn Cons assms(1) show ?thesis by (simp add: node_inv_def network_send_def)
  qed (use RouterTurn assms(1) in simp)
qed (use assms(1) in \<open>simp add: node_inv_def network_send_def\<close>)

lemma op_kept:
  assumes "node_inv self" "op_fits N B mempools op self" "\<forall>m \<in> set mempools. CHR ''/'' \<notin> set m"
  shows "\<exists>outs self'. node_exec decay N B op self = Some (outs, self') \<and> node_inv self'"
proof (cases op)
  case (Task s)
  with turn_kept [OF assms(1) _ assms(3), of B s] assms(2) show ?thesis by auto
next
  case (SwarmManager pop)
  with assms(1,2) manager [of "peer_manager (libp2p self)" pop] show ?thesis by (auto simp: try_pm_def node_inv_def)
next
  case (SwarmDiscovery dop)
  with assms(1) step_kept [of "libp2p self" mempools "DiscoveryStep dop"] assms(2,3) show ?thesis
    by (auto simp: node_inv_def with_libp2p_def)
qed (use assms(1) in \<open>auto simp: node_inv_def with_libp2p_def split: prod.split\<close>)

end

inductive node_reach ::
    "(nat \<Rightarrow> f64) \<Rightarrow> ('p, 'r, 'h, 'n, 'd, 'c, 'g, 'b, 'm) NetOps \<Rightarrow> ('p, 'x) BundlerOps \<Rightarrow> ('p, 'r) NetConfig \<Rightarrow>
     ('p, 'e, 'r, 'h, 'd, 'c, 'g, 'b, 'm) Node \<Rightarrow> bool"
  for decay N B cfg where
  node_start: "network_service_start (network_new N listen_on cfg enr meta nows gossip now now' disc nobody transport) =
      Some (Inr self) \<Longrightarrow> node_reach decay N B cfg self"
| node_turn: "node_reach decay N B cfg self \<Longrightarrow> op_fits N B (ns_topics cfg) op self \<Longrightarrow>
    node_exec decay N B op self = Some (outs, self') \<Longrightarrow> node_reach decay N B cfg self'"

context managed
begin

theorem node_keeps:
  fixes self :: "('p, 'e, 'r, 'h, 'd, 'c, 'g, 'b, 'm) Node" and B :: "('p, 'x) BundlerOps"
  assumes "node_reach decay N B cfg self" "\<forall>m \<in> set (ns_topics cfg). CHR ''/'' \<notin> set m"
    and new: "\<And>enr meta nows. J (pm_new (n_delay N) (net_pm_config cfg)
      (globals_new (n_enr N) enr meta (nc_trusted_peers cfg) (nc_disable_peer_scoring cfg) nows))"
  shows "J (peer_manager (libp2p self)) \<and>
    (\<forall>op. op_fits N B (ns_topics cfg) op self \<longrightarrow> node_exec decay N B op self \<noteq> None)"
proof -
  from assms(1) have "node_inv self"
  proof (induction rule: node_reach.induct)
    case (node_start listen_on enr meta nows gossip now now' disc nobody transport self)
    then obtain listening dialled where
      net: "network_new N listen_on cfg enr meta nows gossip now now' disc nobody transport =
        Some (Inr (listening, dialled, libp2p self))" and "router_recv self = []"
      by (rule service_started)
    moreover have "J (peer_manager (libp2p self))"
      using service_keeps [OF net_start [OF net] assms(2) new] by simp
    ultimately show ?case by (simp add: node_inv_def)
  next
    case (node_turn self op outs self')
    then show ?case using op_kept [OF _ _ assms(2), of self B op] by auto
  qed
  with op_kept [OF _ _ assms(2), of self B] show ?thesis by (fastforce simp: node_inv_def)
qed

end

text \<open>
  C2. Where the node can panic. Let the names of the mempools have no slash. As long as none of the
  following happens, every turn of a task and every call of the swarm completes, and at most
  \<open>max_outbound_dialing_peers\<close> peers are connected. The socket for the bundler cannot be set up: a
  leftover file cannot be removed, the socket cannot be bound or a connection not accepted. The bundler
  cannot be connected or written to, or a message for it cannot be pickled. It does not answer what it is
  asked, or with bytes that cannot be unpickled. It sends an id that is no decimal number of 128 bits, or
  a peer id that is the text of no peer. Or the network service is called outside of its limits: gossip
  on a topic that the subscription filter does not admit, or a database of peers that has no room.
\<close>

theorem node_panics_only_at_bundler:
  fixes self :: "('p, 'e, 'r, 'h, 'd, 'c, 'g, 'b, 'm) Node" and B :: "('p, 'x) BundlerOps"
  assumes "node_reach decay N B cfg self" "\<forall>m \<in> set (ns_topics cfg). CHR ''/'' \<notin> set m"
  shows "length (connected_peer_ids (net_db (libp2p self))) \<le> max_outbound_dialing_peers (peer_manager (libp2p self)) \<and>
    (\<forall>op. op_fits N B (ns_topics cfg) op self \<longrightarrow> node_exec decay N B op self \<noteq> None)"
proof -
  have "limited_pm (nc_target_peers cfg) (peer_manager (libp2p self)) \<and>
      (\<forall>op. op_fits N B (ns_topics cfg) op self \<longrightarrow> node_exec decay N B op self \<noteq> None)"
    by (rule admitted.node_keeps [OF assms])
      (simp add: limited_pm_def pm_new_def globals_new_def net_pm_config_def connected_new keys_ok_def cache_new_def)
  then show ?thesis by (simp add: limited_pm_def at_most_connected_def n_connected_length limit_eqs)
qed

text \<open>A request of the bundler on a new node.\<close>

type_synonym sample_node = "(nat, unit, u16 \<times> u64, unit, unit, nat list, string list, nat set, nat) Node"

definition sample_bundler :: "(nat, unit) BundlerOps" where
  "sample_bundler = \<lparr>bo_to_vec = \<lambda>_. Inr [1],
     bo_message = \<lambda>_. Inr (MessageTypeFromBundler.PooledUserOpHashesRequestFromBundler
       \<lparr>hr_id = ''12'', hr_peer_id = ''p'', hr_pooled_user_op_hashes_request = \<lparr>cursor = []\<rparr>\<rparr>),
     bo_hashes = \<lambda>_. Inr \<lparr>next_cursor = [], pooled_hashes = []\<rparr>,
     bo_ops = \<lambda>_. Inl (), bo_status = \<lambda>_. Inl (), bo_peer_to_string = \<lambda>_. [], bo_peer_from_str = \<lambda>_. Inr 7\<rparr>"

definition sample_says :: "(nat, unit, u16 \<times> u64, nat) node_op" where
  "sample_says = Task (BundlerSays \<lparr>st_exists = True, st_removed = True, st_bound = True, st_accepted = Some True\<rparr>
     [NotReadable, ReadSome 4, ReadSome 1] (message_frame [3]))"

theorem node_panics_only_at_bundler_witness:
  "\<exists>(self :: sample_node) outs self'. network_service_start sample_new = Some (Inr self) \<and>
     node_exec (\<lambda>_. Fin 1) sample_net_ops sample_bundler sample_says self = Some (outs, self') \<and>
     length (connected_peer_ids (net_db (libp2p self'))) \<le> max_outbound_dialing_peers (peer_manager (libp2p self'))"
    (is "\<exists>self outs self'. ?start self \<and> _")
proof -
  obtain net :: "ManagerRequestId sample_network" where new: "sample_new = Some (Inr ([[Ip4 0, Tcp 9000]], [], net))"
    by (rule sample_new_Some)
  have "?start \<lparr>libp2p = net, network_recv = [], router_recv = [], upnp_mappings = no_mappings,
      bundler_frames = [], shutdown_reasons = []\<rparr>" unfolding network_service_start_def new by simp
  then obtain self :: sample_node where start: "?start self" ..
  then have reach: "node_reach (\<lambda>_. Fin 1) sample_net_ops sample_bundler sample_net_config self"
    unfolding sample_new_def by (rule node_start)
  have topics: "\<forall>m \<in> set (ns_topics sample_net_config). CHR ''/'' \<notin> set m" by (simp add: sample_net_config_def)
  have fits: "op_fits sample_net_ops sample_bundler (ns_topics sample_net_config) sample_says self"
    by (simp add: sample_says_def listens_def listen_to_main_bundler_def sample_bundler_def parse_u128_def to_digit_def
        split: option.split)
  with node_panics_only_at_bundler [OF reach topics] obtain outs self' where
    step: "node_exec (\<lambda>_. Fin 1) sample_net_ops sample_bundler sample_says self = Some (outs, self')" by fastforce
  from node_panics_only_at_bundler [OF node_turn [OF reach fits step] topics] start step show ?thesis by blast
qed

end
