(* ===== verification/Request_Flow.thy ===== *)
theory Request_Flow
  imports Network_Manager_Props "HOL-Library.Sublist"
begin

text \<open>
  What becomes of the requests of peers, from the connection handlers through the RPC behaviour, the
  network service, the router, the bundler and back to the handlers. A request or an answer is known by
  its peer, its connection and stream, and its protocol.
\<close>

type_synonym 'p exchange = "'p \<times> PeerRequestId \<times> Protocol"

abbreviation exchange_key :: "'p exchange \<Rightarrow> 'p \<times> PeerRequestId" where
  "exchange_key x \<equiv> (fst x, fst (snd x))"

section \<open>What is observed\<close>

text \<open>
  Of the actions for the swarm: the requests reported to the user, the requests served with a response,
  and those answered with anything else.
\<close>

definition message_asks :: "('id, 'p, 'e) RPCMessage \<Rightarrow> 'p exchange list" where
  "message_asks m =
     (case msg_event m of
        Inr (RPCReceived.Request s r) \<Rightarrow>
          [(msg_peer_id m, (msg_conn_id m, s), protocol_of (inbound_versioned_protocol r))]
      | _ \<Rightarrow> [])"

fun action_asks :: "('id, 'p, 'e) rpc_action \<Rightarrow> 'p exchange list" where
  "action_asks (BehaviourAction.GenerateEvent m) = message_asks m"
| "action_asks _ = []"

fun action_served :: "('id, 'p, 'e) rpc_action \<Rightarrow> 'p exchange list" where
  "action_served (NotifyHandler p (One c) (RPCSend.Response s (Success r))) = [(p, (c, s), response_protocol r)]"
| "action_served _ = []"

fun action_refused :: "('id, 'p, 'e) rpc_action \<Rightarrow> ('p \<times> PeerRequestId) list" where
  "action_refused (NotifyHandler p (One c) (RPCSend.Response s (Success r))) = []"
| "action_refused (NotifyHandler p (One c) (RPCSend.Response s r)) = [(p, (c, s))]"
| "action_refused _ = []"

definition asks :: "('id, 'p, 'e) rpc_action list \<Rightarrow> 'p exchange list" where
  "asks es = concat (map action_asks es)"

definition served :: "('id, 'p, 'e) rpc_action list \<Rightarrow> 'p exchange list" where
  "served es = concat (map action_served es)"

definition refused :: "('id, 'p, 'e) rpc_action list \<Rightarrow> ('p \<times> PeerRequestId) list" where
  "refused es = concat (map action_refused es)"

text \<open>The requests in the channels.\<close>

fun request_protocol_of :: "Request \<Rightarrow> Protocol" where
  "request_protocol_of (Request.Status _) = Protocol.Status"
| "request_protocol_of (Request.PooledUserOpHashes _) = Protocol.PooledUserOpHashes"
| "request_protocol_of (Request.PooledUserOpsByHash _) = Protocol.PooledUserOpsByHash"

fun router_requests :: "('p, 'm) RouterMessage \<Rightarrow> 'p exchange list" where
  "router_requests (RPCRequestReceived p i r) = [(p, i, request_protocol_of r)]"
| "router_requests _ = []"

fun network_requests :: "('p, 'm) NetworkMessage \<Rightarrow> 'p exchange list" where
  "network_requests (StatusS p i) = [(p, i, Protocol.Status)]"
| "network_requests (PooledUserOpHashesRequestS p i r) = [(p, i, Protocol.PooledUserOpHashes)]"
| "network_requests (PooledUserOpsByHashRequestS p i r) = [(p, i, Protocol.PooledUserOpsByHash)]"
| "network_requests _ = []"

text \<open>
  The messages of the RPC behaviour that the service takes from the swarm in a poll, and the requests
  among them that it does not answer: of peers that are not connected, and goodbyes.
\<close>

fun event_messages :: "('a, 'p, 'e, 'r, 'm) SwarmEvent \<Rightarrow> ('a RequestId, 'p, 'e) RPCMessage list" where
  "event_messages (Eth2Rpc m) = [m]"
| "event_messages _ = []"

fun event_drops ::
    "('a, 'p, 'e, 'r, 'm) SwarmEvent \<Rightarrow> ('a, 'p, 'e, 'r, 'h, 'd, 'c, 'g, 'b) Network \<Rightarrow> 'p exchange list" where
  "event_drops (Eth2Rpc m) net =
     (case msg_event m of
        Inr (RPCReceived.Request s (InboundRequest.Goodbye _)) \<Rightarrow> message_asks m
      | _ \<Rightarrow> if db_is_connected (net_db net) (msg_peer_id m) then [] else message_asks m)"
| "event_drops _ net = []"

fun swarm_taken ::
    "('p, 'r, 'h, 'n, 'd, 'c, 'g, 'b, 'm) NetOps \<Rightarrow> (('a, 'p, 'e, 'r, 'm) SwarmEvent \<times> instant) list \<Rightarrow>
     ('a, 'p, 'e, 'r, 'h, 'd, 'c, 'g, 'b) Network \<Rightarrow> ('a RequestId, 'p, 'e) RPCMessage list" where
  "swarm_taken N [] net = []"
| "swarm_taken N ((ev, now) # evs) net = event_messages ev @
     (case on_network_event N now ev net of Some (None, net') \<Rightarrow> swarm_taken N evs net' | _ \<Rightarrow> [])"

fun swarm_drops ::
    "('p, 'r, 'h, 'n, 'd, 'c, 'g, 'b, 'm) NetOps \<Rightarrow> (('a, 'p, 'e, 'r, 'm) SwarmEvent \<times> instant) list \<Rightarrow>
     ('a, 'p, 'e, 'r, 'h, 'd, 'c, 'g, 'b) Network \<Rightarrow> 'p exchange list" where
  "swarm_drops N [] net = []"
| "swarm_drops N ((ev, now) # evs) net = event_drops ev net @
     (case on_network_event N now ev net of Some (None, net') \<Rightarrow> swarm_drops N evs net' | _ \<Rightarrow> [])"

section \<open>Runs with the messages in the swarm\<close>

text \<open>
  Between a poll of the RPC behaviour and a poll of the service the swarm holds the messages for the
  service. An operation of the node on these and the node; a poll of the service takes only messages
  that the swarm holds, in order.
\<close>

fun op_takes ::
    "('p, 'r, 'h, 'n, 'd, 'c, 'g, 'b, 'm) NetOps \<Rightarrow> ('p, 'e, 'r, 'm) node_op \<Rightarrow>
     ('p, 'e, 'r, 'h, 'd, 'c, 'g, 'b, 'm) Node \<Rightarrow> (ManagerRequestId RequestId, 'p, 'e) RPCMessage list" where
  "op_takes N (Task (NextEvent turn events ticks expired)) self = swarm_taken N events (libp2p self)"
| "op_takes N _ self = []"

fun op_asks :: "('p, 'e, 'r, 'm) node_op \<Rightarrow> 'p exchange list" where
  "op_asks (SwarmHandler now p c ev) = message_asks \<lparr>msg_peer_id = p, msg_conn_id = c, msg_event = ev\<rparr>"
| "op_asks _ = []"

fun op_drops ::
    "('p, 'r, 'h, 'n, 'd, 'c, 'g, 'b, 'm) NetOps \<Rightarrow> ('p, 'e, 'r, 'm) node_op \<Rightarrow>
     ('p, 'e, 'r, 'h, 'd, 'c, 'g, 'b, 'm) Node \<Rightarrow> 'p exchange list" where
  "op_drops N (Task (NextEvent turn events ticks expired)) self = swarm_drops N events (libp2p self)"
| "op_drops N (Task RouterTurn) self =
     (case router_recv self of
        RPCRequestReceived p i r # _ \<Rightarrow>
          if db_is_connected (net_db (libp2p self)) p then [] else [(p, i, request_protocol_of r)]
      | _ \<Rightarrow> [])"
| "op_drops N _ self = []"

fun generated :: "('id, 'p, 'e) rpc_action list \<Rightarrow> ('id, 'p, 'e) RPCMessage list" where
  "generated [] = []"
| "generated (BehaviourAction.GenerateEvent m # es) = m # generated es"
| "generated (_ # es) = generated es"

definition flow_step ::
    "(nat \<Rightarrow> f64) \<Rightarrow> ('p, 'r, 'h, 'n, 'd, 'c, 'g, 'b, 'm) NetOps \<Rightarrow> ('p, 'x) BundlerOps \<Rightarrow> ('p, 'e, 'r, 'm) node_op \<Rightarrow>
     (ManagerRequestId RequestId, 'p, 'e) RPCMessage list \<times> ('p, 'e, 'r, 'h, 'd, 'c, 'g, 'b, 'm) Node \<Rightarrow>
     ((ManagerRequestId RequestId, 'p, 'e) rpc_action list \<times>
      (ManagerRequestId RequestId, 'p, 'e) RPCMessage list \<times> ('p, 'e, 'r, 'h, 'd, 'c, 'g, 'b, 'm) Node) option" where
  "flow_step decay N B op st = (case st of (inbox, self) \<Rightarrow>
     if prefix (op_takes N op self) inbox
     then map_option (\<lambda>(outs, self'). (outs, drop (length (op_takes N op self)) inbox @ generated outs, self'))
            (node_exec decay N B op self)
     else None)"

text \<open>A run: the requests of the handlers, the actions the swarm gets, the requests dropped, the last state.\<close>

fun flow_run ::
    "(nat \<Rightarrow> f64) \<Rightarrow> ('p, 'r, 'h, 'n, 'd, 'c, 'g, 'b, 'm) NetOps \<Rightarrow> ('p, 'x) BundlerOps \<Rightarrow> ('p, 'e, 'r, 'm) node_op list \<Rightarrow>
     (ManagerRequestId RequestId, 'p, 'e) RPCMessage list \<times> ('p, 'e, 'r, 'h, 'd, 'c, 'g, 'b, 'm) Node \<Rightarrow>
     ('p exchange list \<times> (ManagerRequestId RequestId, 'p, 'e) rpc_action list \<times> 'p exchange list \<times>
      (ManagerRequestId RequestId, 'p, 'e) RPCMessage list \<times> ('p, 'e, 'r, 'h, 'd, 'c, 'g, 'b, 'm) Node) option" where
  "flow_run decay N B [] st = Some ([], [], [], st)"
| "flow_run decay N B (op # ops) st = do {
     (outs, st1) \<leftarrow> flow_step decay N B op st;
     (asked, sent, dropped, st2) \<leftarrow> flow_run decay N B ops st1;
     Some (op_asks op @ asked, outs @ sent, op_drops N op (snd st) @ dropped, st2)
   }"

abbreviation rpc_of :: "('p, 'e, 'r, 'h, 'd, 'c, 'g, 'b, 'm) Node \<Rightarrow> (ManagerRequestId RequestId, 'p, 'e) RPC" where
  "rpc_of self \<equiv> eth2_rpc (libp2p self)"

text \<open>The requests on their way: queued in the behaviour, in the swarm, and in the two channels.\<close>

definition pending ::
    "(ManagerRequestId RequestId, 'p, 'e) RPCMessage list \<Rightarrow> ('p, 'e, 'r, 'h, 'd, 'c, 'g, 'b, 'm) Node \<Rightarrow> 'p exchange list" where
  "pending inbox self = asks (rpc_events (rpc_of self)) @ concat (map message_asks inbox) @
     concat (map router_requests (router_recv self)) @ concat (map network_requests (network_recv self))"

section \<open>The RPC behaviour\<close>

lemma observed_simps [simp]:
  "asks [] = []" "asks (xs @ ys) = asks xs @ asks ys" "asks (a # xs) = action_asks a @ asks xs"
  "served [] = []" "served (xs @ ys) = served xs @ served ys" "served (a # xs) = action_served a @ served xs"
  "refused [] = []" "refused (xs @ ys) = refused xs @ refused ys" "refused (a # xs) = action_refused a @ refused xs"
  by (simp_all add: asks_def served_def refused_def)

lemma own_request_unobserved:
  "ev_key a \<noteq> None \<Longrightarrow> action_asks a = [] \<and> action_served a = [] \<and> action_refused a = []"
  by (induction a rule: ev_key.induct) auto

lemma observed_others: "asks (others es) = asks es" "served (others es) = served es" "refused (others es) = refused es"
  by (induction es) (auto simp: others_def own_request_unobserved)

lemma asks_generated: "concat (map message_asks (generated es)) = asks es"
  by (induction es rule: generated.induct) simp_all

text \<open>A change of the behaviour that keeps it sound and appends the given actions, as far as they are observed.\<close>

definition rpc_adds :: "('id, 'p, 'e) RPC \<Rightarrow> ('id, 'p, 'e) RPC \<Rightarrow> 'p exchange list \<Rightarrow> bool" where
  "rpc_adds rpc rpc' answers \<longleftrightarrow> rpc_sound rpc \<longrightarrow> rpc_sound rpc' \<and> asks (rpc_events rpc') = asks (rpc_events rpc) \<and>
     served (rpc_events rpc') = served (rpc_events rpc) @ answers \<and> refused (rpc_events rpc') = refused (rpc_events rpc)"

lemma rpc_adds_refl [simp]: "rpc_adds rpc rpc []"
  by (simp add: rpc_adds_def)

lemma rpc_adds_trans: "rpc_adds a b xs \<Longrightarrow> rpc_adds b c ys \<Longrightarrow> rpc_adds a c (xs @ ys)"
  by (simp add: rpc_adds_def)

lemma exec_observed:
  assumes "rpc_sound rpc" "rpc_exec X rpc x = (out, rpc')"
  shows "rpc_sound rpc'"
    "asks (out_list out) @ asks (rpc_events rpc') = asks (rpc_events rpc) @ asks (due X rpc x)"
    "served (out_list out) @ served (rpc_events rpc') = served (rpc_events rpc) @ served (due X rpc x)"
    "refused (out_list out) @ refused (rpc_events rpc') = refused (rpc_events rpc) @ refused (due X rpc x)"
proof -
  show "rpc_sound rpc'" by (rule exec_others(1) [OF assms])
  note eq = exec_others(2) [OF assms]
  from arg_cong [OF eq, of asks] arg_cong [OF eq, of served] arg_cong [OF eq, of refused]
  show "asks (out_list out) @ asks (rpc_events rpc') = asks (rpc_events rpc) @ asks (due X rpc x)"
    "served (out_list out) @ served (rpc_events rpc') = served (rpc_events rpc) @ served (due X rpc x)"
    "refused (out_list out) @ refused (rpc_events rpc') = refused (rpc_events rpc) @ refused (due X rpc x)"
    by (simp_all add: observed_others)
qed

lemma exec_adds:
  assumes "rpc_exec X rpc x = (None, rpc')" "asks (due X rpc x) = []" "refused (due X rpc x) = []"
  shows "rpc_adds rpc rpc' (served (due X rpc x))"
  using exec_observed [OF _ assms(1)] assms(2,3) by (simp add: rpc_adds_def out_list_def)

lemma request_adds: "rpc_adds rpc (rpc_send_request now p i req rpc) []"
  using exec_adds [of rpc_texts rpc "(now, rpc_op.SendRequest p i req)"] by simp

lemma shutdown_adds: "rpc_adds rpc (rpc_shutdown p i reason rpc) []"
  using exec_adds [of rpc_texts rpc "(0, ShutdownPeer p i reason)"] by simp

lemma response_adds: "rpc_adds rpc (rpc_send_response p i (Success r) rpc) [(p, i, response_protocol r)]"
  using exec_adds [of rpc_texts rpc "(0, rpc_op.SendResponse p i (Success r))"] by (cases i) simp

section \<open>The network service\<close>

fun surfaced :: "('a, 'p, 'm) NetworkEvent option \<Rightarrow> 'p exchange list" where
  "surfaced (Some (RequestReceived p i r)) = [(p, i, request_protocol_of r)]"
| "surfaced _ = []"

lemma with_rpc_field [simp]: "eth2_rpc (with_rpc f net) = f (eth2_rpc net)" "eth2_rpc (with_pm g net) = eth2_rpc net"
  "eth2_rpc (with_disc h net) = eth2_rpc net"
  by (simp_all add: with_rpc_def with_pm_def with_disc_def)

lemma pong_adds:
  "rpc_adds rpc (rpc_send_response p i (Success (RPCResponse.Pong d)) rpc) [(p, i, Protocol.Ping)]"
  "rpc_adds rpc (rpc_send_response p i (Success (RPCResponse.MetaData md)) rpc) [(p, i, Protocol.MetaData)]"
  using response_adds [of rpc p i "RPCResponse.Pong d"] response_adds [of rpc p i "RPCResponse.MetaData md"] by simp_all

lemma try_pm_rpc: "try_pm f net = Some net' \<Longrightarrow> eth2_rpc net' = eth2_rpc net"
  by (auto simp: try_pm_def)

lemma build_response_surfaces: "surfaced (build_response i p r) = []"
  by (cases i; cases r) (simp_all add: build_response_def)

text \<open>A message of the RPC behaviour is answered at once, handed to the application, or dropped.\<close>

lemma rpc_event_flow:
  assumes "inject_rpc_event N now m net = Some (x, net')"
  shows "\<exists>ans. rpc_adds (eth2_rpc net) (eth2_rpc net') ans \<and> message_asks m = ans @ surfaced x @ event_drops (Eth2Rpc m) net"
proof (cases "db_is_connected (net_db net) (msg_peer_id m)")
  case False
  with assms have "x = None" "net' = net" by (simp_all add: inject_rpc_event_def Let_def)
  with False show ?thesis
    by (intro exI [of _ "[]"]) (auto split: sum.split RPCReceived.split InboundRequest.split)
next
  case connected: True
  show ?thesis
  proof (cases "msg_event m")
    case (Inl e)
    with assms connected show ?thesis
      by (intro exI [of _ "[]"])
        (auto simp: inject_rpc_event_def Let_def message_asks_def dest!: try_pm_rpc split: HandlerErr.splits RequestId.splits)
  next
    case (Inr received)
    show ?thesis
    proof (cases received)
      case (Request s r)
      let ?ans = "(case r of InboundRequest.Ping _ \<Rightarrow> [(msg_peer_id m, (msg_conn_id m, s), Protocol.Ping)]
          | InboundRequest.MetaData \<Rightarrow> [(msg_peer_id m, (msg_conn_id m, s), Protocol.MetaData)] | _ \<Rightarrow> [])"
      have "rpc_adds (eth2_rpc net) (eth2_rpc net') ?ans"
        using assms connected Inr Request
        by (cases r) (auto simp: inject_rpc_event_def Let_def pong_def send_meta_data_response_def pong_adds)
      moreover have "message_asks m = ?ans @ surfaced x @ event_drops (Eth2Rpc m) net"
        using assms connected Inr Request
        by (cases r) (auto simp: inject_rpc_event_def Let_def message_asks_def build_request_def)
      ultimately show ?thesis by blast
    qed (use assms connected Inr in \<open>auto simp: inject_rpc_event_def Let_def message_asks_def build_response_surfaces
        split: RPCResponse.splits intro!: exI [of _ "[]"]\<close>)
  qed
qed

lemma pm_event_flow:
  assumes "inject_pm_event N now ev net = (x, net')"
  shows "rpc_adds (eth2_rpc net) (eth2_rpc net') [] \<and> surfaced x = []"
  using assms
  by (cases ev) (auto simp: inject_pm_event_def ping_def send_meta_data_request_def request_adds shutdown_adds
      net_discover_subnet_peers_def Let_def split: if_splits)

lemma gossip_event_flow:
  assumes "inject_gs_event N now ev net = Some (x, net')"
  shows "eth2_rpc net' = eth2_rpc net \<and> surfaced x = []"
  using assms
  by (cases ev) (auto simp: inject_gs_event_def publish_cached_def dest: try_pm_rpc
      split: bind_splits sum.splits option.splits prod.splits)

lemma event_flow:
  assumes "on_network_event N now ev net = Some (x, net')"
  shows "\<exists>ans. rpc_adds (eth2_rpc net) (eth2_rpc net') ans \<and>
    concat (map message_asks (event_messages ev)) = ans @ surfaced x @ event_drops ev net"
proof (cases ev)
  case (Eth2Rpc m)
  with assms rpc_event_flow [of N now m net x net'] show ?thesis by (simp add: on_network_event_def)
next
  case (Gossipsub ge)
  with assms gossip_event_flow [of N now ge net x net'] show ?thesis
    by (intro exI [of _ "[]"]) (simp add: on_network_event_def)
next
  case (PeerManagerBehaviour pe)
  with assms pm_event_flow [of N now pe net x net'] show ?thesis
    by (intro exI [of _ "[]"]) (simp add: on_network_event_def)
next
  case (IdentifyBehaviour ie)
  with assms show ?thesis
    by (intro exI [of _ "[]"]) (auto simp: on_network_event_def inject_identify_event_def Let_def split: IdentifyEvent.splits)
qed (use assms in \<open>auto simp: on_network_event_def zero_listeners_def split: if_splits intro!: exI [of _ "[]"]\<close>)

lemma swarm_flow:
  assumes "poll_swarm N evs net = Some (x, rest, net')"
  shows "\<exists>ans. rpc_adds (eth2_rpc net) (eth2_rpc net') ans \<and>
    mset (concat (map message_asks (swarm_taken N evs net))) = mset ans + mset (surfaced x) + mset (swarm_drops N evs net)"
  using assms
proof (induction N evs net rule: poll_swarm.induct)
  case (2 N ev now evs net)
  from 2(2) obtain y net1 where y: "on_network_event N now ev net = Some (y, net1)" by (auto split: bind_splits)
  from event_flow [OF y] obtain ans where ans: "rpc_adds (eth2_rpc net) (eth2_rpc net1) ans"
    "concat (map message_asks (event_messages ev)) = ans @ surfaced y @ event_drops ev net" by blast
  show ?case
  proof (cases y)
    case None
    with 2(2) y have "poll_swarm N evs net1 = Some (x, rest, net')" by simp
    from 2(1) [OF y refl None this] obtain ans' where "rpc_adds (eth2_rpc net1) (eth2_rpc net') ans'"
      "mset (concat (map message_asks (swarm_taken N evs net1))) = mset ans' + mset (surfaced x) + mset (swarm_drops N evs net1)"
      by blast
    with ans y None rpc_adds_trans show ?thesis by (intro exI [of _ "ans @ ans'"]) fastforce
  next
    case (Some e)
    with 2(2) ans y show ?thesis by (intro exI [of _ ans]) auto
  qed
qed simp

lemma ticks_rpc: "score_ticks N ticks net = Some net' \<Longrightarrow> eth2_rpc net' = eth2_rpc net"
  by (induction ticks arbitrary: net) (auto split: bind_splits dest: try_pm_rpc)

lemma poll_flow:
  assumes "poll_network N evs ticks expired net = Some (x, rest, net')"
  shows "\<exists>ans. rpc_adds (eth2_rpc net) (eth2_rpc net') ans \<and>
    mset (concat (map message_asks (swarm_taken N evs net))) = mset ans + mset (surfaced x) + mset (swarm_drops N evs net)"
proof -
  from assms obtain y r net1 where y: "poll_swarm N evs net = Some (y, r, net1)"
    by (auto simp: poll_network_def split: bind_splits)
  have "x = y \<and> eth2_rpc net' = eth2_rpc net1"
    using assms y by (cases y) (auto simp: poll_network_def split: bind_splits dest: ticks_rpc)
  with swarm_flow [OF y] show ?thesis by simp
qed

section \<open>The tasks\<close>

text \<open>The two messages that answer on behalf of someone else are never sent.\<close>

fun plain :: "('p, 'm) NetworkMessage \<Rightarrow> bool" where
  "plain (NetworkMessage.SendResponse _ _ _) = False"
| "plain (SendErrorResponse _ _ _ _) = False"
| "plain _ = True"

lemma request_all_adds:
  "rpc_adds (eth2_rpc net) (eth2_rpc (send_outbound_pooled_user_op_hashes_request_to_all_peers nows net)) []"
proof -
  have "rpc_adds (eth2_rpc net) (eth2_rpc (fold (\<lambda>p. with_rpc (rpc_send_request (nows p) p Internal req)) ps net)) []" for req ps
  proof (induction ps arbitrary: net)
    case (Cons p ps)
    from rpc_adds_trans [OF request_adds Cons.IH [of "with_rpc (rpc_send_request (nows p) p Internal req) net", unfolded with_rpc_field]]
    show ?case by simp
  qed simp
  then show ?thesis by (simp add: send_outbound_pooled_user_op_hashes_request_to_all_peers_def Let_def)
qed

lemma publish_rpc: "eth2_rpc (publish N messages mempools net) = eth2_rpc net"
  unfolding publish_def Let_def
  by (intro fold_frame) (simp add: publish_on_def Let_def split: prod.split)

lemma upnp_rpc: "eth2_rpc (on_upnp_mappings N mappings net) = eth2_rpc net"
  by (simp add: on_upnp_mappings_def set_enr_port_def split: option.split prod.split)

lemma bundler_fields:
  "tell_bundler B turn req self = Some self' \<Longrightarrow> self' = self\<lparr>bundler_frames := bundler_frames self'\<rparr>"
  "ask_bundler B turn dec req self = Some (v, self') \<Longrightarrow> self' = self\<lparr>bundler_frames := bundler_frames self'\<rparr>"
  by (auto simp: tell_bundler_def ask_bundler_def split: bind_splits)

text \<open>A message adds its answer, if it asks for one, and nothing to answer.\<close>

definition handled ::
    "'p exchange list \<Rightarrow> ('p, 'e, 'r, 'h, 'd, 'c, 'g, 'b, 'm) Node \<Rightarrow> ('p, 'e, 'r, 'h, 'd, 'c, 'g, 'b, 'm) Node \<Rightarrow> bool" where
  "handled as self self' \<longleftrightarrow> rpc_adds (rpc_of self) (rpc_of self') as \<and> network_recv self' = network_recv self \<and>
     concat (map router_requests (router_recv self')) = concat (map router_requests (router_recv self))"

lemma handled_with:
  "rpc_adds (rpc_of self) (eth2_rpc (f (libp2p self))) as \<Longrightarrow> handled as self (with_libp2p f self)"
  by (simp add: handled_def with_libp2p_def)

lemma handled_response:
  assumes "ask_bundler B turn dec req self = Some (v, self1)" "coded_from_response r = Success m"
  shows "handled [(p, i, response_protocol m)] self (with_libp2p (net_send_response p i r) self1)"
proof -
  from bundler_fields(2) [OF assms(1)] obtain frames where "self1 = self\<lparr>bundler_frames := frames\<rparr>" ..
  with assms(2) response_adds [of "rpc_of self" p i m] show ?thesis
    by (simp add: handled_def with_libp2p_def net_send_response_def)
qed

lemma handled_told:
  assumes "tell_bundler B turn req self = Some self'"
  shows "handled [] self self'"
proof -
  from bundler_fields(1) [OF assms] obtain frames where "self' = self\<lparr>bundler_frames := frames\<rparr>" ..
  then show ?thesis by (simp add: handled_def)
qed

lemma report_rpc:
  "net_report_peer N now p act src net = Some net' \<Longrightarrow> eth2_rpc net' = eth2_rpc net"
  "net_goodbye_peer N now p reason src net = Some net' \<Longrightarrow> eth2_rpc net' = eth2_rpc net"
  by (auto simp: net_report_peer_def net_goodbye_peer_def dest: try_pm_rpc)

lemma message_handled:
  assumes "on_network_msg N B turn now nows msg self = Some self'" "plain msg"
  shows "handled (network_requests msg) self self'"
proof (cases msg)
  case (SendRequest p r i)
  with assms(1) show ?thesis
    by (auto simp: on_network_msg_def net_send_request_def request_adds intro!: handled_with)
next
  case (Publish messages mempools)
  with assms(1) show ?thesis by (auto simp: on_network_msg_def publish_rpc intro!: handled_with)
next
  case (ValidationResult p m a)
  with assms(1) show ?thesis
    by (auto simp: on_network_msg_def report_message_validation_result_def intro!: handled_with)
next
  case (UPnPMappingEstablished m)
  with assms(1) show ?thesis by (auto simp: on_network_msg_def handled_def with_libp2p_def upnp_rpc)
next
  case (PooledUserOpHashesRequestMessageToAllPeers r)
  with assms(1) show ?thesis by (auto simp: on_network_msg_def request_all_adds intro!: handled_with)
next
  case (StatusS p i)
  with assms(1) obtain v req self1 dec where "ask_bundler B turn dec req self = Some (v, self1)"
    "self' = with_libp2p (net_send_response p i (Response.Status v)) self1"
    by (auto simp: on_network_msg_def split: bind_splits)
  with StatusS handled_response [of B turn dec req self v self1 "Response.Status v" _ p i] show ?thesis by simp
next
  case (PooledUserOpHashesRequestS p i r)
  with assms(1) obtain v req self1 dec where "ask_bundler B turn dec req self = Some (v, self1)"
    "self' = with_libp2p (net_send_response p i (Response.PooledUserOpHashes (Some v))) self1"
    by (auto simp: on_network_msg_def split: bind_splits)
  with PooledUserOpHashesRequestS handled_response [of B turn dec req self v self1 "Response.PooledUserOpHashes (Some v)" _ p i] show ?thesis by simp
next
  case (PooledUserOpsByHashRequestS p i r)
  with assms(1) obtain v req self1 dec where "ask_bundler B turn dec req self = Some (v, self1)"
    "self' = with_libp2p (net_send_response p i (Response.PooledUserOpsByHash (Some v))) self1"
    by (auto simp: on_network_msg_def split: bind_splits)
  with PooledUserOpsByHashRequestS handled_response [of B turn dec req self v self1 "Response.PooledUserOpsByHash (Some v)" _ p i] show ?thesis by simp
next
  case (PooledUserOpHashesResponseS p i hashes)
  with assms(1) show ?thesis by (auto simp: on_network_msg_def intro: handled_told)
next
  case (PooledUserOpsByHashResponseS p i ops)
  with assms(1) show ?thesis by (auto simp: on_network_msg_def intro: handled_told)
qed (use assms in \<open>auto simp: on_network_msg_def handled_def send_to_router_def split: bind_splits
  dest: report_rpc\<close>)

lemma libp2p_event_requests:
  assumes "on_libp2p_event B turn ev self = Some self'"
  shows "network_recv self' = network_recv self \<and>
    concat (map router_requests (router_recv self')) = concat (map router_requests (router_recv self)) @ surfaced (Some ev) \<and>
    rpc_of self' = rpc_of self"
proof (cases ev)
  case (PubsubMessage i source topic message)
  then obtain req where "tell_bundler B turn req self = Some self'"
    using assms by (cases message) (auto simp: on_libp2p_event_def)
  from bundler_fields(1) [OF this] obtain frames where "self' = self\<lparr>bundler_frames := frames\<rparr>" ..
  with PubsubMessage show ?thesis by simp
qed (use assms in \<open>auto simp: on_libp2p_event_def send_to_router_def with_libp2p_def with_pm_def\<close>)

lemma router_turn_requests:
  assumes "handle_message db msg = Some sent"
  shows "list_all plain sent \<and> concat (map network_requests sent) =
    (case msg of RPCRequestReceived p i r \<Rightarrow> if db_is_connected db p then router_requests msg else [] | _ \<Rightarrow> [])"
  using assms
  by (cases msg) (auto simp: handle_message_def handle_rpc_request_def handle_rpc_response_def
      split: if_splits Request.splits Response.splits)

section \<open>Every request is accounted for\<close>

text \<open>
  The balance of an operation or a run: what is asked or was pending or served and queued before is
  refused, served, pending or dropped after. The refused requests are known by their answers.
\<close>

definition accounted ::
    "'p exchange list \<Rightarrow> (ManagerRequestId RequestId, 'p, 'e) rpc_action list \<Rightarrow> 'p exchange list \<Rightarrow>
     (ManagerRequestId RequestId, 'p, 'e) RPCMessage list \<times> ('p, 'e, 'r, 'h, 'd, 'c, 'g, 'b, 'm) Node \<Rightarrow>
     (ManagerRequestId RequestId, 'p, 'e) RPCMessage list \<times> ('p, 'e, 'r, 'h, 'd, 'c, 'g, 'b, 'm) Node \<Rightarrow> bool" where
  "accounted asked sent dropped st st' \<longleftrightarrow>
     (\<exists>over.
        mset asked + mset (pending (fst st) (snd st)) + mset (served (rpc_events (rpc_of (snd st)))) =
          mset over + mset (served sent) + mset (served (rpc_events (rpc_of (snd st')))) +
          mset (pending (fst st') (snd st')) + mset dropped \<and>
        mset (refused (rpc_events (rpc_of (snd st)))) + mset (map exchange_key over) =
          mset (refused sent) + mset (refused (rpc_events (rpc_of (snd st')))))"

lemma accounted_refl: "accounted [] [] [] st st"
  by (auto simp: accounted_def intro!: exI [of _ "[]"])

lemma accounted_trans:
  assumes "accounted a s d st st1" "accounted a' s' d' st1 st2"
  shows "accounted (a @ a') (s @ s') (d @ d') st st2"
proof -
  from assms(1) obtain over where o1:
    "mset a + mset (pending (fst st) (snd st)) + mset (served (rpc_events (rpc_of (snd st)))) =
       mset over + mset (served s) + mset (served (rpc_events (rpc_of (snd st1)))) + mset (pending (fst st1) (snd st1)) + mset d"
    "mset (refused (rpc_events (rpc_of (snd st)))) + mset (map exchange_key over) =
       mset (refused s) + mset (refused (rpc_events (rpc_of (snd st1))))" unfolding accounted_def by blast
  from assms(2) obtain over' where o2:
    "mset a' + mset (pending (fst st1) (snd st1)) + mset (served (rpc_events (rpc_of (snd st1)))) =
       mset over' + mset (served s') + mset (served (rpc_events (rpc_of (snd st2)))) + mset (pending (fst st2) (snd st2)) + mset d'"
    "mset (refused (rpc_events (rpc_of (snd st1)))) + mset (map exchange_key over') =
       mset (refused s') + mset (refused (rpc_events (rpc_of (snd st2))))" unfolding accounted_def by blast
  have "mset (a @ a') + mset (pending (fst st) (snd st)) + mset (served (rpc_events (rpc_of (snd st)))) =
      mset (over @ over') + mset (served (s @ s')) + mset (served (rpc_events (rpc_of (snd st2)))) +
      mset (pending (fst st2) (snd st2)) + mset (d @ d')"
    using o1(1) o2(1) by (simp add: ac_simps) (metis (no_types, lifting) add.assoc add.left_commute add_right_cancel)
  moreover have "mset (refused (rpc_events (rpc_of (snd st)))) + mset (map exchange_key (over @ over')) =
      mset (refused (s @ s')) + mset (refused (rpc_events (rpc_of (snd st2))))"
    using o1(2) o2(2) by (simp add: ac_simps) (metis (no_types, lifting) add.assoc add.left_commute add_right_cancel)
  ultimately show ?thesis unfolding accounted_def by blast
qed

definition flow_ok :: "('p, 'e, 'r, 'h, 'd, 'c, 'g, 'b, 'm) Node \<Rightarrow> bool" where
  "flow_ok self \<longleftrightarrow> rpc_sound (rpc_of self) \<and> list_all plain (network_recv self)"

text \<open>Changes that leave the requests alone.\<close>

lemma accounted_same:
  assumes "rpc_adds (rpc_of self) (rpc_of self') []" "flow_ok self" "router_recv self' = router_recv self"
    "network_recv self' = network_recv self @ msgs" "concat (map network_requests msgs) = []" "list_all plain msgs"
  shows "accounted [] [] [] (inbox, self) (inbox, self') \<and> flow_ok self'"
  using assms by (auto simp: accounted_def flow_ok_def rpc_adds_def pending_def intro!: exI [of _ "[]"])

lemma bundler_request_flow:
  assumes "on_bundler_request request self = Some self'" "flow_ok self"
  shows "accounted [] [] [] (inbox, self) (inbox, self') \<and> flow_ok self'"
  using assms accounted_same [of self self' _ inbox]
  by (auto simp: on_bundler_request_def network_send_def split: sum.splits MessageTypeFromBundler.splits if_splits bind_splits)

lemma message_flow:
  assumes "on_network_msg N B turn now nows msg (self\<lparr>network_recv := msgs\<rparr>) = Some self'" "network_recv self = msg # msgs"
    and "flow_ok self"
  shows "accounted [] [] [] (inbox, self) (inbox, self') \<and> flow_ok self'"
proof -
  have "plain msg" "list_all plain msgs" using assms(2,3) by (simp_all add: flow_ok_def)
  with message_handled [OF assms(1)] assms(2,3) show ?thesis
    by (auto simp: handled_def accounted_def flow_ok_def rpc_adds_def pending_def intro!: exI [of _ "[]"])
qed

lemma event_turn_flow:
  assumes "poll_network N events ticks expired (libp2p self) = Some (x, rest, net)"
    and "(case x of None \<Rightarrow> Some (self\<lparr>libp2p := net\<rparr>) | Some ev \<Rightarrow> on_libp2p_event B turn ev (self\<lparr>libp2p := net\<rparr>)) = Some self'"
    and "flow_ok self"
  shows "accounted [] [] (swarm_drops N events (libp2p self)) (swarm_taken N events (libp2p self) @ inbox, self) (inbox, self') \<and>
    flow_ok self'"
proof -
  have "network_recv self' = network_recv self \<and> rpc_of self' = eth2_rpc net \<and>
      concat (map router_requests (router_recv self')) = concat (map router_requests (router_recv self)) @ surfaced x"
    using assms(2) libp2p_event_requests [of B turn _ "self\<lparr>libp2p := net\<rparr>" self'] by (cases x) auto
  moreover from poll_flow [OF assms(1)] obtain ans where "rpc_adds (rpc_of self) (eth2_rpc net) ans"
    "mset (concat (map message_asks (swarm_taken N events (libp2p self)))) =
       mset ans + mset (surfaced x) + mset (swarm_drops N events (libp2p self))" by blast
  ultimately show ?thesis using assms(3)
    by (auto simp: accounted_def flow_ok_def rpc_adds_def pending_def intro!: exI [of _ "[]"])
qed

lemma router_turn_flow:
  assumes "handle_message (net_db (libp2p self)) msg = Some sent" "router_recv self = msg # msgs" "flow_ok self"
  shows "accounted [] [] (op_drops N (Task RouterTurn) self) (inbox, self)
      (inbox, network_send sent (self\<lparr>router_recv := msgs\<rparr>)) \<and> flow_ok (network_send sent (self\<lparr>router_recv := msgs\<rparr>))"
proof -
  note r = router_turn_requests [OF assms(1)]
  have "concat (map network_requests sent) @ op_drops N (Task RouterTurn) self = router_requests msg"
    using r assms(2) by (cases msg) auto
  from arg_cong [OF this, of mset] r assms(2,3) show ?thesis
    by (auto simp: accounted_def flow_ok_def pending_def network_send_def intro!: exI [of _ "[]"])
qed

text \<open>An event of a handler is reported, or refused if it is a request over its quota.\<close>

lemma answer_observed:
  "\<exists>over. message_asks \<lparr>msg_peer_id = p, msg_conn_id = c, msg_event = ev\<rparr> = action_asks (answer X rl now p c ev) @ over \<and>
     map exchange_key over = action_refused (answer X rl now p c ev) \<and> action_served (answer X rl now p c ev) = []"
proof (cases "\<exists>rid req l why. ev = Inr (RPCReceived.Request rid req) \<and> rl = Some l \<and>
    fst (rl_allows l now p (inbound_item req)) = Inl why")
  case True
  then show ?thesis
    by (auto simp: answer_def message_asks_def)
next
  case False
  then have "answer X rl now p c ev = generate p c ev"
    by (auto simp: answer_def split: sum.splits RPCReceived.splits option.splits)
  then show ?thesis by (simp add: generate_def)
qed

lemma handler_flow:
  assumes "flow_ok self"
  shows "accounted (op_asks (SwarmHandler now p c ev)) [] [] (inbox, self)
      (inbox, with_libp2p (with_rpc (rpc_on_connection_handler_event X now p c ev)) self) \<and>
    flow_ok (with_libp2p (with_rpc (rpc_on_connection_handler_event X now p c ev)) self)"
proof -
  let ?a = "answer X (rpc_limiter (rpc_of self)) now p c ev"
  from answer_observed [of p c ev X "rpc_limiter (rpc_of self)" now] obtain over where over:
    "op_asks (SwarmHandler now p c ev) = action_asks ?a @ over" "map exchange_key over = action_refused ?a"
    "action_served ?a = []" by auto
  note obs = exec_observed [of "rpc_of self" X "(now, HandlerSays p c ev)", OF _ rpc_exec.simps(4)]
  have "image_mset exchange_key (mset over) = mset (action_refused ?a)" using arg_cong [OF over(2), of mset] by simp
  with assms over obs show ?thesis
    by (auto simp: accounted_def flow_ok_def pending_def with_libp2p_def out_list_def intro!: exI [of _ over])
qed

lemma poll_rpc_flow:
  assumes "rpc_poll ticks expired clock self_ticks (rpc_of self) = (out, rpc)" "flow_ok self"
  shows "accounted [] (out_list out) [] (inbox, self) (inbox @ generated (out_list out), with_libp2p (with_rpc (\<lambda>_. rpc)) self) \<and>
    flow_ok (with_libp2p (with_rpc (\<lambda>_. rpc)) self)"
proof -
  note obs = exec_observed [of "rpc_of self" rpc_texts "(0, PollRpc ticks expired clock self_ticks)" out rpc]
  then have kept: "rpc_sound rpc"
    "mset (asks (rpc_events (rpc_of self))) = mset (asks (out_list out)) + mset (asks (rpc_events rpc))"
    "mset (served (rpc_events (rpc_of self))) = mset (served (out_list out)) + mset (served (rpc_events rpc))"
    "mset (refused (rpc_events (rpc_of self))) = mset (refused (out_list out)) + mset (refused (rpc_events rpc))"
    using assms by (auto simp: flow_ok_def simp flip: mset_append)
  with assms(2) show ?thesis
    by (auto simp: accounted_def flow_ok_def pending_def with_libp2p_def asks_generated intro!: exI [of _ "[]"])
qed

lemma manager_flow:
  assumes "try_pm f (libp2p self) = Some net" "flow_ok self"
  shows "accounted [] [] [] (inbox, self) (inbox, self\<lparr>libp2p := net\<rparr>) \<and> flow_ok (self\<lparr>libp2p := net\<rparr>)"
  using accounted_same [of self "self\<lparr>libp2p := net\<rparr>" "[]" inbox] try_pm_rpc [OF assms(1)] assms(2) by simp

lemma discovery_flow:
  assumes "flow_ok self"
  shows "accounted [] [] [] (inbox, self) (inbox, with_libp2p (discovery_step N op) self) \<and>
    flow_ok (with_libp2p (discovery_step N op) self)"
  using accounted_same [of self "with_libp2p (discovery_step N op) self" "[]" inbox] assms
  by (simp add: with_libp2p_def discovery_step_def Let_def split_beta)

lemma step_flow:
  assumes "node_step N B s self = Some self'" "prefix (op_takes N (Task s) self) inbox" "flow_ok self"
  shows "accounted [] [] (op_drops N (Task s) self) (inbox, self) (drop (length (op_takes N (Task s) self)) inbox, self') \<and>
    flow_ok self'"
proof (cases s)
  case (BundlerSays socket turns bytes)
  with assms bundler_request_flow [of _ self self' inbox] show ?thesis
    by (auto simp: accounted_refl split: option.splits)
next
  case (NextMessage turn now nows)
  with assms message_flow [of N B turn now nows _ _ self self' inbox] show ?thesis
    by (auto simp: accounted_refl bind_eq_Some_conv split: list.splits)
next
  case (NextEvent turn events ticks expired)
  from assms(1) obtain x rest net where poll: "poll_network N events ticks expired (libp2p self) = Some (x, rest, net)"
    and react: "(case x of None \<Rightarrow> Some (self\<lparr>libp2p := net\<rparr>) | Some ev \<Rightarrow> on_libp2p_event B turn ev (self\<lparr>libp2p := net\<rparr>)) = Some self'"
    unfolding NextEvent by (auto simp: bind_eq_Some_conv)
  from assms(2) obtain rest' where "inbox = swarm_taken N events (libp2p self) @ rest'"
    unfolding NextEvent by (auto simp: prefix_def)
  with event_turn_flow [OF poll react assms(3), of rest'] NextEvent show ?thesis by simp
next
  case RouterTurn
  show ?thesis
  proof (cases "router_recv self")
    case Nil
    with assms RouterTurn show ?thesis by (simp add: accounted_refl)
  next
    case (Cons msg msgs)
    with assms(1) RouterTurn obtain sent where sent: "handle_message (net_db (libp2p self)) msg = Some sent"
      "self' = network_send sent (self\<lparr>router_recv := msgs\<rparr>)" by auto
    with router_turn_flow [OF sent(1) Cons assms(3), of N inbox] RouterTurn show ?thesis by simp
  qed
next
  case (UpnpReports mappings)
  with assms accounted_same [of self self' "[UPnPMappingEstablished mappings]" inbox] show ?thesis
    by (auto simp: network_send_def)
qed

lemma flow_step_accounts:
  assumes "flow_step decay N B op st = Some (outs, st')" "flow_ok (snd st)"
  shows "accounted (op_asks op) outs (op_drops N op (snd st)) st st' \<and> flow_ok (snd st')"
proof -
  obtain inbox self where st: "st = (inbox, self)" by (cases st)
  from assms(1) obtain self' where exec: "node_exec decay N B op self = Some (outs, self')"
    and taken: "prefix (op_takes N op self) inbox"
    and st': "st' = (drop (length (op_takes N op self)) inbox @ generated outs, self')"
    by (auto simp: flow_step_def st split: if_splits)
  from assms(2) have ok: "flow_ok self" by (simp add: st)
  show ?thesis
  proof (cases op)
    case (Task s)
    with exec taken step_flow [OF _ _ ok, of N B s self' inbox] show ?thesis by (auto simp: st st')
  next
    case (SwarmManager pop)
    with exec manager_flow [OF _ ok, of _ _ inbox] show ?thesis by (auto simp: st st')
  next
    case (SwarmHandler now p c ev)
    with exec handler_flow [OF ok, of now p c ev inbox "n_text N"] show ?thesis by (auto simp: st st')
  next
    case (SwarmRpcPoll ticks expired clock self_ticks)
    obtain out rpc where poll: "rpc_poll ticks expired clock self_ticks (rpc_of self) = (out, rpc)"
      by (cases "rpc_poll ticks expired clock self_ticks (rpc_of self)")
    with SwarmRpcPoll exec poll_rpc_flow [OF poll ok, of inbox] show ?thesis by (auto simp: st st')
  next
    case (SwarmDiscovery dop)
    with exec discovery_flow [OF ok, of inbox N dop] show ?thesis by (auto simp: st st')
  qed
qed

lemma flow_run_accounts:
  "flow_run decay N B ops st = Some (asked, sent, dropped, st') \<Longrightarrow> flow_ok (snd st) \<Longrightarrow>
   accounted asked sent dropped st st'"
proof (induction ops arbitrary: st asked sent dropped)
  case Nil
  then show ?case by (simp add: accounted_refl)
next
  case (Cons op ops)
  from Cons.prems(1) obtain outs st1 asked' sent' dropped' where
    step: "flow_step decay N B op st = Some (outs, st1)"
    and run: "flow_run decay N B ops st1 = Some (asked', sent', dropped', st')"
    and eqs: "asked = op_asks op @ asked'" "sent = outs @ sent'" "dropped = op_drops N op (snd st) @ dropped'"
    by (auto simp: bind_eq_Some_conv)
  note acc = flow_step_accounts [OF step Cons.prems(2)]
  show ?case unfolding eqs using accounted_trans acc Cons.IH [OF run] by blast
qed

lemma rpc_new_events: "rpc_new ic oc params now now' = Some s \<Longrightarrow> rpc_events s = []"
  by (auto simp: rpc_new_def bind_eq_Some_conv split: option.splits)


text \<open>A connected peer asks for hashes and is answered with those of the bundler.\<close>

definition sample_serving :: "ManagerRequestId sample_network" where
  "sample_serving = \<lparr>eth2_rpc = \<lparr>rpc_limiter = None, rpc_self_limiter = None, rpc_events = [],
       rpc_network_params = \<lparr>np_max_chunk_size = 1048576, np_ttfb_timeout = secs 1, np_resp_timeout = secs 1\<rparr>\<rparr>,
     peer_manager = pm_new sample_delays pm_config_default
       ((globals_new sample_records (9000, 1) \<lparr>seq_number = 1, supported_mempools = []\<rparr> [] False (\<lambda>_. 0))
         \<lparr>g_peers := (peerdb_new [] False (\<lambda>_. 0))\<lparr>peers := [(7, (peer_info_default 0)
            \<lparr>connection_status := PeerConnectionStatus.Connected 1 0\<rparr>)]\<rparr>\<rparr>),
     net_discovery = sample_discovery, net_gossipsub = [], net_blocked = {}, net_cache = build builder\<rparr>"

definition sample_serving_node :: sample_node where
  "sample_serving_node = \<lparr>libp2p = sample_serving, network_recv = [], router_recv = [], upnp_mappings = no_mappings,
     bundler_frames = [], shutdown_reasons = []\<rparr>"

definition sample_turn :: BundlerTurn where
  "sample_turn = \<lparr>bt_listen = None,
     bt_reachable = True, bt_writable = True, bt_turns = [ReadSome 4, ReadSome 1], bt_answer = message_frame [2]\<rparr>"

definition sample_request :: "(ManagerRequestId RequestId, unit) HandlerEvent" where
  "sample_request = Inr (RPCReceived.Request 3 (InboundRequest.PooledUserOpHashes \<lparr>cursor = []\<rparr>))"

definition sample_asking :: "(nat, unit, u16 \<times> u64, nat) node_op list" where
  "sample_asking = [SwarmHandler 4 7 4 sample_request, SwarmRpcPoll [] None (\<lambda>_. 4) [],
     Task (NextEvent sample_turn [(Eth2Rpc \<lparr>msg_peer_id = 7, msg_conn_id = 4, msg_event = sample_request\<rparr>, 5)] [] []),
     Task RouterTurn, Task (NextMessage sample_turn 6 (\<lambda>_. 6)), SwarmRpcPoll [] None (\<lambda>_. 7) []]"

lemma sample_serving_connected: "db_is_connected (net_db sample_serving) 7"
  by (simp add: sample_serving_def pm_new_def globals_new_def db_is_connected_def status_def peer_info_def)

lemma sample_serving_rpc: "eth2_rpc sample_serving = \<lparr>rpc_limiter = None, rpc_self_limiter = None, rpc_events = [],
    rpc_network_params = \<lparr>np_max_chunk_size = 1048576, np_ttfb_timeout = secs 1, np_resp_timeout = secs 1\<rparr>\<rparr>"
  by (simp add: sample_serving_def)

lemma sample_asking_runs:
  "\<exists>sent inbox self'. flow_run (\<lambda>_. Fin 1) sample_net_ops sample_bundler sample_asking ([], sample_serving_node) =
     Some ([(7, (4, 3), Protocol.PooledUserOpHashes)], sent, [], inbox, self') \<and>
     served sent = [(7, (4, 3), Protocol.PooledUserOpHashes)]"
  by (simp add: sample_serving_node_def sample_asking_def sample_request_def flow_step_def poll_network_def inject_rpc_event_def
      build_request_def message_asks_def rpc_on_connection_handler_event_def rpc_poll_def generate_def out_list_def
      on_network_event_def on_libp2p_event_def send_to_router_def network_send_def handle_message_def listen_polled_def
      handle_rpc_request_def on_network_msg_def ask_bundler_def sample_turn_def sample_bundler_def expect_def
      broadcast_and_listen_for_response_from_main_bundler_def broadcast_to_main_bundler_def message_frame_def
      listen_frame_def with_libp2p_def net_send_response_def sample_serving_connected bundler_request_def
      with_rpc_def rpc_send_response_def push_action_def router_handler_defs
      sample_serving_rpc)


end
