(* ===== verification/Spec2Isabelle.thy ===== *)
theory Spec2Isabelle
  imports Safe_Arith Lru_Time_Cache Rpc_Handler_Props Ssz_Codec_Props Rpc_Behaviour_Props Peer_Manager_Props Request_Flow
begin

text \<open>
  A model of the peer-to-peer node of Voltaire, a bundler of ERC-4337 user operations, with proofs of its
  correctness. The node is the Rust program under \<open>src/voltaire_p2p\<close>; paths below are relative to it.

  \<^bold>\<open>The program.\<close> A node keeps connections to peers, asks them for the user operations they know and
  serves the same requests, and gossips operations. The Python bundler is a separate process behind two
  Unix sockets. A request of a peer passes through these parts. A connection handler
  (\<open>p2p_network/src/rpc/handler.rs\<close>) reads it from a stream with the codec (\<open>rpc/codec\<close>). The RPC behaviour
  (\<open>rpc/mod.rs\<close>) checks it against the quota of the peer (\<open>rpc/rate_limiter.rs\<close>). The network service
  (\<open>service/mod.rs\<close>) answers pings and metadata requests itself and hands the rest to the network manager
  (\<open>network_manager/src/service.rs\<close>), whose router (\<open>router.rs\<close>) sends it back as a message that makes the
  manager ask the bundler (\<open>main_bundler.rs\<close>) and send the answer on the stream the request came from. The
  peer manager (\<open>peer_manager/mod.rs\<close>) decides whom to connect, dial, prune and ban, from the scores and
  states in the peer database (\<open>peerdb.rs\<close>). Discovery (\<open>discovery/mod.rs\<close>) finds peers.

  \<^bold>\<open>Conventions.\<close> Structs are records and enums datatypes, with the names of the source; a suffix or
  prefix is added where a name is taken. Mutable state is passed explicitly. A function that can panic
  returns an option, where \<open>None\<close> is the panic; \<open>Result\<close> is a sum with the error on the left. Machine
  integers are words where the source can wrap, and numbers with explicit bounds otherwise; instants and
  durations are numbers of nanoseconds, and a clock reading is an argument. Hash maps are association
  lists with distinct keys, whose order stands for the unspecified order of the iterators. Floating-point
  numbers (\<open>F64\<close>) round after every operation, ties to even. What other crates do is a record of operations
  (\<open>CodecOps\<close>, \<open>DelayQueueOps\<close>, \<open>DelayOps\<close>, \<open>EnrOps\<close>, \<open>NetOps\<close>, \<open>GatewayOps\<close>, \<open>BundlerOps\<close>) with what the code
  relies on as a named predicate (\<open>dq_laws\<close>, \<open>frame_laws\<close>, \<open>codec_limits\<close>, \<open>gateway_laws\<close>); each is
  shown to be satisfiable by the witness of the theorems that use it. Every property below is one
  theorem and, if it has hypotheses, has a witness that applies it to a concrete run.

  \<^bold>\<open>Libraries.\<close>
  \<^item> \<open>Prelude\<close>, \<open>Rust_Strings\<close>, \<open>F64\<close>: machine types, results, association lists, text, floating point.
  \<^item> \<open>Safe_Arith\<close>: the crate \<open>safe_arith\<close>, checked arithmetic on ten integer types.
  \<^item> \<open>Lru_Time_Cache\<close>: the crate \<open>lru_cache\<close>. The locale \<open>time_cache\<close> is its contract, a map from keys to
    times of insertion; a key stays for exactly its time to live.

  \<^bold>\<open>Requests and responses.\<close>
  \<^item> \<open>Rpc_Methods\<close>, \<open>Rpc_Protocol\<close>: messages, protocols, limits and errors (\<open>rpc/methods.rs\<close>,
    \<open>protocol.rs\<close>, \<open>outbound.rs\<close>).
  \<^item> \<open>Ssz_Codec\<close>, \<open>Ssz_Codec_Props\<close>: the encoders and decoders with their state. The locale
    \<open>framed_decoder\<close> is what a decoder needs to be robust against fragmentation, interpreted for both
    directions: whatever the pieces, requests and responses are read back, what is read is of the
    negotiated protocol, and a reader does not buffer without bound.
  \<^item> \<open>Rate_Limiter\<close>, \<open>Rate_Limiter_Config\<close>: the limiter on wrapping 64-bit words. The locale \<open>leaky_meter\<close>
    bounds what a metered process lets through in any window of any history; it is interpreted for the
    limiter and, in \<open>Rpc_Behaviour_Props\<close>, for the whole behaviour. Pruning never changes a verdict.
  \<^item> \<open>Self_Limiter\<close>: the limiter of our own requests. No request is lost or duplicated, and a fired timer
    makes progress.
  \<^item> \<open>Rpc_Handler\<close>, \<open>Rpc_Handler_Runs\<close>, \<open>Rpc_Handler_Props\<close>: the connection handler, its runs with the swarm,
    and what holds on them: no request is lost, no operation panics or diverges, timers and streams
    correspond, an inbound stream implements in-order delivery, a shutdown is final; and retried dials use
    up the dial slots for good.
  \<^item> \<open>Rpc_Behaviour\<close>, \<open>Rpc_Behaviour_Props\<close>: the behaviour with both limiters. What it owes the swarm is
    neither lost, invented nor reordered, and what a peer gets through fits its quota.

  \<^bold>\<open>Peers.\<close>
  \<^item> \<open>Score\<close>, \<open>Client\<close>, \<open>Peer_Info\<close>: scores, fingerprints and the entry of a peer.
  \<^item> \<open>Peer_Db\<close>, \<open>Peer_Db_Counts\<close>, \<open>Peer_Db_Props\<close>: the database. The locale \<open>db_safe\<close>, extended by
    \<open>db_invariant\<close>, proves an invariant of all runs from its preservation by the primitive changes; it is
    interpreted for the counters, for exact counters and for the scores. The size of the database is
    bounded, unless scoring is disabled; a fatal report bans; addresses of banned peers are counted.
  \<^item> \<open>Peer_Manager\<close>, \<open>Peer_Manager_Runs\<close>, \<open>Peer_Manager_Props\<close>: the manager as a behaviour of the swarm, with
    the number of connections on every run, the pruning policy, temporary bans and the limits computed in
    single precision.

  \<^bold>\<open>The node.\<close>
  \<^item> \<open>Globals\<close>, \<open>Topics\<close>, \<open>Enr_Ext\<close>, \<open>Discovery\<close>: shared state; topics, gossip messages and their cache;
    addresses of node records; the discovery behaviour.
  \<^item> \<open>Service\<close>, \<open>Service_Runs\<close>, \<open>Service_Props\<close>: the network service on the states of the RPC behaviour, the peer
    manager and discovery. The locale \<open>managed\<close> is what it relies on from the peer manager. On every run it
    keeps the limit of connections and does not panic; at its start it listens on one address.
  \<^item> \<open>Upnp\<close>, \<open>Bundler_Link\<close>, \<open>Network_Manager\<close>: \<open>nat.rs\<close>, \<open>main_bundler.rs\<close>, and \<open>router.rs\<close> with \<open>service.rs\<close>.
    A step of the node is a turn of one of its tasks, and channels are lists, so a sequence of steps is
    an interleaving of the tasks.
  \<^item> \<open>Network_Manager_Props\<close>: runs of the whole node, with the calls of the swarm in between: where the node
    can panic.
  \<^item> \<open>Request_Flow\<close>: what becomes of a request of a peer between its handler and the answer: it is served
    once, refused, on its way, or dropped for a stated reason.

  \<^bold>\<open>Loops.\<close> No definition uses fuel. Loops over the data are structural or have a termination proof by a
  measure. The loops of the handler that purge expired timers are \<open>partial_function (option)\<close>; they return
  on every run (\<open>handler_run_safe\<close>). \<open>gossip_kind_display\<close> never returns, as the source recurses forever. A
  loop that waits for a socket or a stream takes what these answer as a list, which ends when the loop is
  left; an exhausted list is a loop that still waits. Retries have the bounds of the source (two attempts
  of \<open>add_port_mapping\<close>, \<open>IO_ERROR_RETRIES\<close>). \<open>TIME_BOUND\<close>, 2 to the 62 nanoseconds, keeps the sums of the rate
  limiter below 2 to the 64; it is 146 years of uptime.

  \<^bold>\<open>Not modelled.\<close> Logging, metrics, wakers and locks, as no result depends on them. The swarm and the
  transports of libp2p, gossipsub, discv5, the crates \<open>enr\<close>, \<open>ssz\<close>, \<open>snap\<close>, \<open>igd\<close> and \<open>serde_pickle\<close>, which are not
  part of the repository: their calls are arguments and their results parameters. Command line,
  configuration defaults and the task executor, which only start the above. The Python bundler under
  \<open>src/voltaire_bundler\<close>, which the node knows only through what arrives on the sockets.
\<close>

end
